(* ===== verification/CK_Prelude.thy ===== *)
theory CK_Prelude
  imports Main "HOL-Library.AList" "HOL-Library.Word"
begin

text \<open>
  Shared vocabulary of the ConsoleKit2 development: C strings with NULL, GLib's hash
  tables and string splitting, the decimal conversions of \<open>printf\<close> and \<open>strtoul\<close>,
  and the two interfaces several components rely on: a finite table (\<open>hash_table\<close>)
  and a transition system with an invariant (\<open>machine\<close>).
\<close>

named_theorems ck_defs \<open>definitions unfolded by the functional proofs\<close>
named_theorems ck_frame \<open>fields an operation leaves unchanged\<close>

section \<open>C strings\<close>

text \<open>A \<open>char *\<close> is \<open>None\<close> for NULL. \<open>g_strcmp0 (a, b) == 0\<close> is equality of such values.\<close>

type_synonym cstring = "string option"

definition IS_STR_SET :: "cstring \<Rightarrow> bool" where
  "IS_STR_SET x = (case x of None \<Rightarrow> False | Some s \<Rightarrow> s \<noteq> [])"

definition NONULL_STRING :: "cstring \<Rightarrow> string" where
  "NONULL_STRING x = (case x of None \<Rightarrow> '''' | Some s \<Rightarrow> s)"

text \<open>\<open>strcmp (a, b) <= 0\<close>: lexicographic order on unsigned bytes.\<close>

fun strcmp_le :: "string \<Rightarrow> string \<Rightarrow> bool" where
  "strcmp_le [] b = True"
| "strcmp_le (x # a) [] = False"
| "strcmp_le (x # a) (y # b) =
     (if x = y then strcmp_le a b else (of_char x :: nat) < of_char y)"

section \<open>Decimal numbers\<close>

definition digit :: "nat \<Rightarrow> char" where
  "digit d = char_of (48 + d)"

definition is_digit :: "char \<Rightarrow> bool" where
  "is_digit c = (48 \<le> (of_char c :: nat) \<and> (of_char c :: nat) \<le> 57)"

definition digit_val :: "char \<Rightarrow> nat" where
  "digit_val c = of_char c - 48"

text \<open>The \<open>%u\<close>, \<open>%lu\<close> and non-negative \<open>%d\<close> conversions.\<close>

fun dec :: "nat \<Rightarrow> string" where
  "dec n = (if n < 10 then [digit n] else dec (n div 10) @ [digit (n mod 10)])"

declare dec.simps [simp del]

definition dec_val :: "string \<Rightarrow> nat" where
  "dec_val s = foldl (\<lambda>a c. 10 * a + digit_val c) 0 s"

text \<open>The \<open>%d\<close> conversion.\<close>

definition dec_int :: "int \<Rightarrow> string" where
  "dec_int i = (if i < 0 then ''-'' @ dec (nat (- i)) else dec (nat i))"

text \<open>An unsigned value read as a 32-bit \<open>gint\<close>.\<close>

definition as_gint :: "nat \<Rightarrow> int" where
  "as_gint n = (let m = n mod 2 ^ 32 in if m < 2 ^ 31 then int m else int m - 2 ^ 32)"

section \<open>GLib containers\<close>

text \<open>
  A GHashTable is an association list with distinct keys. The position of an entry in
  the list is the table's iteration order, which GLib leaves unspecified: statements
  about iterating operations hold for every list.
\<close>

type_synonym ('k, 'v) ghash = "('k \<times> 'v) list"

definition g_hash_table_lookup :: "('k, 'v) ghash \<Rightarrow> 'k \<Rightarrow> 'v option" where
  "g_hash_table_lookup t k = map_of t k"

definition g_hash_table_insert :: "('k, 'v) ghash \<Rightarrow> 'k \<Rightarrow> 'v \<Rightarrow> ('k, 'v) ghash" where
  "g_hash_table_insert t k v = AList.update k v t"

definition g_hash_table_remove :: "('k, 'v) ghash \<Rightarrow> 'k \<Rightarrow> ('k, 'v) ghash" where
  "g_hash_table_remove t k = AList.delete k t"

definition g_hash_table_find :: "('k, 'v) ghash \<Rightarrow> ('k \<Rightarrow> 'v \<Rightarrow> bool) \<Rightarrow> 'v option" where
  "g_hash_table_find t p = map_option snd (List.find (\<lambda>(k, v). p k v) t)"

definition ht_wf :: "('k, 'v) ghash \<Rightarrow> bool" where
  "ht_wf t = distinct (map fst t)"

text \<open>\<open>g_strsplit (s, ":", 0)\<close> with a one-character delimiter; the empty string gives the empty vector.\<close>

fun split_on :: "char \<Rightarrow> string \<Rightarrow> string \<Rightarrow> string list" where
  "split_on d acc [] = [rev acc]"
| "split_on d acc (c # s) =
     (if c = d then rev acc # split_on d [] s else split_on d (c # acc) s)"

definition g_strsplit :: "string \<Rightarrow> char \<Rightarrow> string list" where
  "g_strsplit s d = (if s = [] then [] else split_on d [] s)"

fun join_with :: "string \<Rightarrow> string list \<Rightarrow> string" where
  "join_with d [] = []"
| "join_with d [x] = x"
| "join_with d (x # xs) = x @ d @ join_with d xs"

text \<open>\<open>g_list_sort\<close>: a stable sort.\<close>

fun insort_by :: "('a \<Rightarrow> 'a \<Rightarrow> bool) \<Rightarrow> 'a \<Rightarrow> 'a list \<Rightarrow> 'a list" where
  "insort_by le x [] = [x]"
| "insort_by le x (y # ys) = (if le x y then x # y # ys else y # insort_by le x ys)"

definition g_list_sort :: "('a \<Rightarrow> 'a \<Rightarrow> bool) \<Rightarrow> 'a list \<Rightarrow> 'a list" where
  "g_list_sort le xs = foldr (insort_by le) xs []"

section \<open>Lemmas\<close>

lemma IS_STR_SET_simps [simp]:
  "\<not> IS_STR_SET None" "IS_STR_SET (Some s) = (s \<noteq> [])"
  by (auto simp: IS_STR_SET_def)

lemma NONULL_STRING_simps [simp]:
  "NONULL_STRING None = ''''" "NONULL_STRING (Some s) = s"
  by (auto simp: NONULL_STRING_def)

lemma strcmp_le_refl [simp]: "strcmp_le a a"
  by (induction a) auto

lemma strcmp_le_total: "strcmp_le a b \<or> strcmp_le b a"
proof (induction a b rule: strcmp_le.induct)
  case (3 x a y b)
  have "x = y \<or> (of_char x :: nat) < of_char y \<or> (of_char y :: nat) < of_char x"
    using nat_neq_iff [of "of_char x" "of_char y"] by auto
  with 3 show ?case by auto
qed auto

lemma strcmp_le_trans: "strcmp_le a b \<Longrightarrow> strcmp_le b c \<Longrightarrow> strcmp_le a c"
proof (induction a b arbitrary: c rule: strcmp_le.induct)
  case (3 x a y b)
  then show ?case by (cases c) (auto split: if_splits)
qed (auto elim: strcmp_le.elims)

lemma strcmp_le_antisym: "strcmp_le a b \<Longrightarrow> strcmp_le b a \<Longrightarrow> a = b"
proof (induction a b rule: strcmp_le.induct)
  case (1 b)
  then show ?case by (cases b) auto
qed (auto split: if_splits)

lemma digit_val_digit [simp]: "d < 10 \<Longrightarrow> digit_val (digit d) = d"
  by (simp add: digit_val_def digit_def)

lemma is_digit_digit [simp]: "d < 10 \<Longrightarrow> is_digit (digit d)"
  by (simp add: is_digit_def digit_def)

lemma dec_val_Nil [simp]: "dec_val [] = 0"
  by (simp add: dec_val_def)

lemma dec_val_snoc [simp]: "dec_val (s @ [c]) = 10 * dec_val s + digit_val c"
  by (simp add: dec_val_def)

lemma length_dec: "n < 10 ^ Suc k \<Longrightarrow> length (dec n) \<le> Suc k"
proof (induction k arbitrary: n)
  case (Suc k)
  have "n div 10 < 10 ^ Suc k" using Suc.prems by (simp add: div_less_iff_less_mult mult.commute)
  from Suc.IH [OF this] show ?case by (subst dec.simps) simp
qed (subst dec.simps, simp)

lemma dec_nonempty [simp]: "dec n \<noteq> []"
  by (subst dec.simps) simp

lemma dec_digits [simp]: "c \<in> set (dec n) \<Longrightarrow> is_digit c"
proof (induction n rule: dec.induct)
  case (1 n)
  then show ?case by (subst (asm) (2) dec.simps) (auto split: if_splits)
qed

lemma dec_val_dec [simp]: "dec_val (dec n) = n"
proof (induction n rule: dec.induct)
  case (1 n)
  show ?case
  proof (cases "n < 10")
    case True
    then show ?thesis by (subst dec.simps) (simp add: dec_val_def)
  next
    case False
    with 1 show ?thesis by (subst dec.simps) simp
  qed
qed

lemma dec_inject [simp]: "dec m = dec n \<longleftrightarrow> m = n"
  by (metis dec_val_dec)

lemma ht_lookup_insert [simp]:
  "g_hash_table_lookup (g_hash_table_insert t k v) k' =
     (if k' = k then Some v else g_hash_table_lookup t k')"
  by (simp add: g_hash_table_lookup_def g_hash_table_insert_def update_conv')

lemma ht_lookup_remove [simp]:
  "g_hash_table_lookup (g_hash_table_remove t k) k' =
     (if k' = k then None else g_hash_table_lookup t k')"
  by (simp add: g_hash_table_lookup_def g_hash_table_remove_def delete_conv')

lemma ht_lookup_Nil [simp]: "g_hash_table_lookup [] k = None"
  by (simp add: g_hash_table_lookup_def)

lemma ht_wf_Nil [simp]: "ht_wf []"
  by (simp add: ht_wf_def)

lemma ht_wf_insert [simp]: "ht_wf t \<Longrightarrow> ht_wf (g_hash_table_insert t k v)"
  by (simp add: ht_wf_def g_hash_table_insert_def distinct_update)

lemma ht_wf_remove [simp]: "ht_wf t \<Longrightarrow> ht_wf (g_hash_table_remove t k)"
  by (simp add: ht_wf_def g_hash_table_remove_def distinct_delete)

lemma ht_lookup_iff:
  "ht_wf t \<Longrightarrow> g_hash_table_lookup t k = Some v \<longleftrightarrow> (k, v) \<in> set t"
  by (simp add: ht_wf_def g_hash_table_lookup_def)

lemma set_ht_insert_subset: "set (g_hash_table_insert t k v) \<subseteq> insert (k, v) (set t)"
  by (induction t) (auto simp: g_hash_table_insert_def)

lemma set_ht_insert:
  "ht_wf t \<Longrightarrow> set (g_hash_table_insert t k v) = insert (k, v) {p \<in> set t. fst p \<noteq> k}"
  by (induction t) (force simp: g_hash_table_insert_def ht_wf_def)+

lemma set_ht_remove: "set (g_hash_table_remove t k) = {p \<in> set t. fst p \<noteq> k}"
  by (induction t) (auto simp: g_hash_table_remove_def)

lemma find_SomeD: "List.find P xs = Some a \<Longrightarrow> a \<in> set xs \<and> P a"
  by (auto simp: find_Some_iff)

lemma distinct_map_remove1:
  assumes "distinct (map f xs)"
  shows "distinct (map f (remove1 d xs))" "d \<in> set xs \<Longrightarrow> f d \<notin> f ` set (remove1 d xs)"
  using assms by (induction xs) (auto dest: notin_set_remove1 simp: image_iff)

lemma find_snoc:
  "List.find P xs = None \<Longrightarrow> List.find P (xs @ [a]) = (if P a then Some a else None)"
  by (induction xs) (auto split: if_splits)

lemma ht_find_None:
  "g_hash_table_find t p = None \<longleftrightarrow> (\<forall>(k, v) \<in> set t. \<not> p k v)"
  by (auto simp: g_hash_table_find_def find_None_iff)

lemma ht_find_Some:
  "g_hash_table_find t p = Some v \<Longrightarrow> \<exists>k. (k, v) \<in> set t \<and> p k v"
  by (auto simp: g_hash_table_find_def find_Some_iff in_set_conv_nth) metis

lemma split_on_no_delim:
  "d \<notin> set s \<Longrightarrow> split_on d acc s = [rev acc @ s]"
  by (induction s arbitrary: acc) auto

lemma split_on_append:
  "d \<notin> set s \<Longrightarrow> split_on d acc (s @ d # r) = (rev acc @ s) # split_on d [] r"
  by (induction s arbitrary: acc) auto

lemma join_with_snoc: "join_with d (xs @ [x]) = (if xs = [] then x else join_with d xs @ d @ x)"
  by (induction d xs rule: join_with.induct) auto

text \<open>Splitting undoes joining, for tokens without the delimiter.\<close>

lemma split_join:
  assumes "xs \<noteq> []" and "\<forall>x \<in> set xs. d \<notin> set x"
  shows "split_on d [] (join_with [d] xs) = xs"
  using assms
proof (induction "[d]" xs rule: join_with.induct)
  case (3 x y ys)
  then show ?case by (simp add: split_on_append)
qed (auto simp: split_on_no_delim)

lemma set_insort_by [simp]: "set (insort_by le x ys) = insert x (set ys)"
  by (induction ys) auto

lemma set_g_list_sort [simp]: "set (g_list_sort le xs) = set xs"
  by (induction xs) (auto simp: g_list_sort_def)

lemma g_list_sort_eq_Nil [simp]: "g_list_sort le xs = [] \<longleftrightarrow> xs = []"
  using set_g_list_sort [of le xs] by (metis set_empty)

text \<open>The head of a sorted list is a least element.\<close>

lemma hd_insort_by:
  assumes "\<And>a b. le a b \<or> le b a" "\<And>a b c. le a b \<Longrightarrow> le b c \<Longrightarrow> le a c"
    and "ys \<noteq> [] \<Longrightarrow> \<forall>y \<in> set ys. le (hd ys) y"
  shows "\<forall>y \<in> set (insort_by le x ys). le (hd (insort_by le x ys)) y"
proof (cases ys)
  case Nil
  then show ?thesis using assms(1) [of x x] by simp
next
  case (Cons z zs)
  show ?thesis
  proof (cases "le x z")
    case True
    then show ?thesis using assms Cons by (auto intro: assms(2) [OF True])
  next
    case False
    then have "le z x" using assms(1) [of x z] by blast
    with False Cons assms(3) show ?thesis by simp
  qed
qed

lemma hd_g_list_sort:
  assumes "\<And>a b. le a b \<or> le b a" "\<And>a b c. le a b \<Longrightarrow> le b c \<Longrightarrow> le a c" and "x \<in> set xs"
  shows "le (hd (g_list_sort le xs)) x"
proof -
  have "\<forall>y \<in> set (g_list_sort le xs). le (hd (g_list_sort le xs)) y"
  proof (induction xs)
    case (Cons a xs)
    then show ?case
      using hd_insort_by [of le "g_list_sort le xs" a, OF assms(1,2)] by (auto simp: g_list_sort_def)
  qed (simp add: g_list_sort_def)
  with assms(3) show ?thesis by simp
qed

section \<open>Interfaces\<close>

text \<open>
  What the daemon relies on of a table: the last inserted value is found, removal
  forgets exactly one key, and both keep the keys distinct.
\<close>

locale hash_table =
  fixes lookup :: "'t \<Rightarrow> 'k \<Rightarrow> 'v option"
    and insert :: "'t \<Rightarrow> 'k \<Rightarrow> 'v \<Rightarrow> 't"
    and remove :: "'t \<Rightarrow> 'k \<Rightarrow> 't"
    and wf :: "'t \<Rightarrow> bool"
  assumes lookup_insert: "lookup (insert t k v) k' = (if k' = k then Some v else lookup t k')"
    and lookup_remove: "lookup (remove t k) k' = (if k' = k then None else lookup t k')"
    and wf_insert: "wf t \<Longrightarrow> wf (insert t k v)"
    and wf_remove: "wf t \<Longrightarrow> wf (remove t k)"
begin

lemma insert_then_remove:
  assumes "lookup t k = None"
  shows "lookup (remove (insert t k v) k) = lookup t"
  using assms by (auto simp: fun_eq_iff lookup_insert lookup_remove)

lemma remove_absent: "lookup t k = None \<Longrightarrow> lookup (remove t k) = lookup t"
  by (auto simp: fun_eq_iff lookup_remove)

lemma dom_insert: "dom (lookup (insert t k v)) = Set.insert k (dom (lookup t))"
  by (auto simp: dom_def lookup_insert)

lemma dom_remove: "dom (lookup (remove t k)) = dom (lookup t) - {k}"
  by (auto simp: dom_def lookup_remove)

end

interpretation ht: hash_table g_hash_table_lookup g_hash_table_insert g_hash_table_remove ht_wf
  by unfold_locales auto

text \<open>
  A component driven by events: a start state, a step that may fail to return
  (\<open>None\<close>), the assumptions \<open>ok\<close> on an event's arguments, and an invariant. Every run
  from the start returns and keeps the invariant.
\<close>

fun run :: "('e \<Rightarrow> 's \<Rightarrow> 's option) \<Rightarrow> 'e list \<Rightarrow> 's \<Rightarrow> 's option" where
  "run step [] s = Some s"
| "run step (e # es) s = (case step e s of None \<Rightarrow> None | Some s' \<Rightarrow> run step es s')"

locale machine =
  fixes step :: "'e \<Rightarrow> 's \<Rightarrow> 's option"
    and ok :: "'e \<Rightarrow> bool"
    and start :: "'s \<Rightarrow> bool"
    and inv :: "'s \<Rightarrow> bool"
  assumes inv_start: "start s \<Longrightarrow> inv s"
    and inv_step: "inv s \<Longrightarrow> ok e \<Longrightarrow> \<exists>s'. step e s = Some s' \<and> inv s'"
begin

lemma inv_run: "inv s \<Longrightarrow> list_all ok es \<Longrightarrow> \<exists>s'. run step es s = Some s' \<and> inv s'"
proof (induction es arbitrary: s)
  case (Cons e es)
  then obtain s' where "step e s = Some s'" "inv s'" using inv_step [of s e] by auto
  with Cons show ?case by auto
qed simp

lemma run_returns: "start s \<Longrightarrow> list_all ok es \<Longrightarrow> \<exists>s'. run step es s = Some s' \<and> inv s'"
  by (rule inv_run [OF inv_start])

end

end
