(* ===== verification/CK_Inhibit.thy ===== *)
theory CK_Inhibit
  imports CK_Prelude
begin

text \<open>
  One inhibit lock: src/src/ck-inhibit.c and the types of ck-inhibit.h.

  The private structure is the record \<open>CkInhibit\<close>. A lock lives inside a larger state
  (the inhibit manager's), so the operations that emit the \<open>changed-event\<close> signal are
  written over any state \<open>'s\<close> with the lock read by \<open>get\<close> and written by \<open>put\<close>, and
  take the connected signal handler as an argument: \<open>h mode event enabled s\<close> is the
  state after the handler returned, \<open>None\<close> when it does not return. The answers of the
  file system (mkdir, mkstemp, mknod, open, unlink, close) are the record \<open>pipe_env\<close>.
\<close>

section \<open>Types\<close>

datatype CkInhibitEvent =
    CK_INHIBIT_EVENT_SHUTDOWN
  | CK_INHIBIT_EVENT_SUSPEND
  | CK_INHIBIT_EVENT_IDLE
  | CK_INHIBIT_EVENT_POWER_KEY
  | CK_INHIBIT_EVENT_SUSPEND_KEY
  | CK_INHIBIT_EVENT_HIBERNATE_KEY
  | CK_INHIBIT_EVENT_LID_SWITCH

datatype CkInhibitMode =
    CK_INHIBIT_MODE_INVALID
  | CK_INHIBIT_MODE_BLOCK
  | CK_INHIBIT_MODE_DELAY

definition CK_INHIBIT_ERROR_GENERAL :: int where
  "CK_INHIBIT_ERROR_GENERAL = - 10"

definition CK_INHIBIT_ERROR_INVALID_INPUT :: int where
  "CK_INHIBIT_ERROR_INVALID_INPUT = - 20"

definition CK_INHIBIT_ERROR_OOM :: int where
  "CK_INHIBIT_ERROR_OOM = - 30"

record CkInhibit =
  who :: cstring
  inhibitors :: "CkInhibitEvent \<Rightarrow> bool"
  why :: cstring
  mode :: CkInhibitMode
  uid :: nat
  pid :: nat
  named_pipe :: int
  named_pipe_path :: cstring
  fd_source :: nat

text \<open>
  \<open>mkstemp_path\<close> is the unique path \<open>g_mkstemp\<close> made, \<open>None\<close> when it returned -1;
  \<open>read_fd\<close> and \<open>client_fd\<close> are the results of the two \<open>open\<close> calls (-1 on failure).
\<close>

record pipe_env =
  mkdir_ok :: bool
  mkstemp_path :: cstring
  tmp_close_ok :: bool
  unlink_ok :: bool
  mknod_ok :: bool
  read_fd :: int
  watch_id :: nat
  client_fd :: int

type_synonym 's signal_handler = "CkInhibitMode \<Rightarrow> CkInhibitEvent \<Rightarrow> bool \<Rightarrow> 's \<Rightarrow> 's option"

section \<open>Operations\<close>

text \<open>\<open>g_object_new\<close> zeroes the private structure; \<open>ck_inhibit_init\<close> sets the pipe.\<close>

definition ck_inhibit_init :: CkInhibit where
  "ck_inhibit_init = \<lparr> who = None, inhibitors = (\<lambda>_. False), why = None,
     mode = CK_INHIBIT_MODE_INVALID, uid = 0, pid = 0, named_pipe = - 1,
     named_pipe_path = None, fd_source = 0 \<rparr>"

definition inhibitor_of_token :: "string \<Rightarrow> CkInhibitEvent option" where
  "inhibitor_of_token tok =
     (if tok = ''shutdown'' then Some CK_INHIBIT_EVENT_SHUTDOWN
      else if tok = ''sleep'' then Some CK_INHIBIT_EVENT_SUSPEND
      else if tok = ''idle'' then Some CK_INHIBIT_EVENT_IDLE
      else if tok = ''handle-power-key'' then Some CK_INHIBIT_EVENT_POWER_KEY
      else if tok = ''handle-suspend-key'' then Some CK_INHIBIT_EVENT_SUSPEND_KEY
      else if tok = ''handle-hibernate-key'' then Some CK_INHIBIT_EVENT_HIBERNATE_KEY
      else if tok = ''handle-lid-switch'' then Some CK_INHIBIT_EVENT_LID_SWITCH
      else None)"

text \<open>The loop over the tokens stops at the first empty one.\<close>

fun parse_tokens :: "string list \<Rightarrow> CkInhibit \<Rightarrow> bool \<Rightarrow> CkInhibit \<times> bool" where
  "parse_tokens [] i inhibit_set = (i, inhibit_set)"
| "parse_tokens (tok # toks) i inhibit_set =
     (if tok = '''' then (i, inhibit_set)
      else case inhibitor_of_token tok of
             Some ev \<Rightarrow> parse_tokens toks (i\<lparr>inhibitors := (inhibitors i)(ev := True)\<rparr>) True
           | None \<Rightarrow> parse_tokens toks i inhibit_set)"

definition parse_inhibitors_string :: "CkInhibit \<Rightarrow> string \<Rightarrow> CkInhibit \<times> bool" where
  "parse_inhibitors_string i what = parse_tokens (g_strsplit what (CHR '':'')) i False"

definition parse_mode_string :: "CkInhibit \<Rightarrow> string \<Rightarrow> CkInhibit \<times> bool" where
  "parse_mode_string i m =
     (if m = ''block'' then (i\<lparr>mode := CK_INHIBIT_MODE_BLOCK\<rparr>, True)
      else if m = ''delay'' then (i\<lparr>mode := CK_INHIBIT_MODE_DELAY\<rparr>, True)
      else (i, False))"

definition create_inhibit_base_directory :: "pipe_env \<Rightarrow> bool" where
  "create_inhibit_base_directory E = mkdir_ok E"

definition get_named_pipe_path :: "pipe_env \<Rightarrow> cstring" where
  "get_named_pipe_path E =
     (case mkstemp_path E of
        None \<Rightarrow> None
      | Some p \<Rightarrow> if tmp_close_ok E then Some p else None)"

text \<open>Returns the client's descriptor, -1 on every error.\<close>

definition create_named_pipe :: "pipe_env \<Rightarrow> CkInhibit \<Rightarrow> CkInhibit \<times> int" where
  "create_named_pipe E i =
     (if named_pipe i \<noteq> - 1 then (i, - 1)
      else if named_pipe_path i = None then (i, - 1)
      else if \<not> unlink_ok E then (i, - 1)
      else if \<not> mknod_ok E then (i, - 1)
      else let i = i\<lparr>named_pipe := read_fd E\<rparr> in
        if read_fd E < 0 then (i, - 1)
        else (i\<lparr>fd_source := watch_id E\<rparr>, client_fd E))"

text \<open>The order in which both signal functions visit the events.\<close>

definition event_order :: "CkInhibitEvent list" where
  "event_order =
     [CK_INHIBIT_EVENT_SHUTDOWN, CK_INHIBIT_EVENT_SUSPEND, CK_INHIBIT_EVENT_IDLE,
      CK_INHIBIT_EVENT_POWER_KEY, CK_INHIBIT_EVENT_SUSPEND_KEY,
      CK_INHIBIT_EVENT_HIBERNATE_KEY, CK_INHIBIT_EVENT_LID_SWITCH]"

fun emit_initial_loop ::
  "('s \<Rightarrow> CkInhibit) \<Rightarrow> 's signal_handler \<Rightarrow> CkInhibitEvent list \<Rightarrow> 's \<Rightarrow> 's option" where
  "emit_initial_loop get h [] s = Some s"
| "emit_initial_loop get h (ev # evs) s =
     (if inhibitors (get s) ev
      then Option.bind (h (mode (get s)) ev True s) (emit_initial_loop get h evs)
      else emit_initial_loop get h evs s)"

definition emit_initial_inhibit_signals ::
  "('s \<Rightarrow> CkInhibit) \<Rightarrow> 's signal_handler \<Rightarrow> 's \<Rightarrow> 's option" where
  "emit_initial_inhibit_signals get h s = emit_initial_loop get h event_order s"

text \<open>Each set event is cleared before its signal is emitted.\<close>

fun emit_final_loop ::
  "('s \<Rightarrow> CkInhibit) \<Rightarrow> (CkInhibit \<Rightarrow> 's \<Rightarrow> 's) \<Rightarrow> 's signal_handler \<Rightarrow>
   CkInhibitEvent list \<Rightarrow> 's \<Rightarrow> 's option" where
  "emit_final_loop get put h [] s = Some s"
| "emit_final_loop get put h (ev # evs) s =
     (if inhibitors (get s) ev
      then let s' = put ((get s)\<lparr>inhibitors := (inhibitors (get s))(ev := False)\<rparr>) s in
        Option.bind (h (mode (get s')) ev False s') (emit_final_loop get put h evs)
      else emit_final_loop get put h evs s)"

definition emit_final_uninhibit_signals ::
  "('s \<Rightarrow> CkInhibit) \<Rightarrow> (CkInhibit \<Rightarrow> 's \<Rightarrow> 's) \<Rightarrow> 's signal_handler \<Rightarrow> 's \<Rightarrow> 's option" where
  "emit_final_uninhibit_signals get put h s = emit_final_loop get put h event_order s"

text \<open>
  The path is freed and set to NULL before the signals are emitted, whether or not the
  unlink succeeded.
\<close>

definition close_named_pipe ::
  "('s \<Rightarrow> CkInhibit) \<Rightarrow> (CkInhibit \<Rightarrow> 's \<Rightarrow> 's) \<Rightarrow> 's signal_handler \<Rightarrow> 's \<Rightarrow> 's option" where
  "close_named_pipe get put h s =
     (if named_pipe (get s) = - 1 then Some s
      else emit_final_uninhibit_signals get put h
             (put ((get s)\<lparr>named_pipe := - 1, named_pipe_path := None, fd_source := 0\<rparr>) s))"

definition ck_inhibit_remove_lock ::
  "('s \<Rightarrow> CkInhibit) \<Rightarrow> (CkInhibit \<Rightarrow> 's \<Rightarrow> 's) \<Rightarrow> 's signal_handler \<Rightarrow> 's \<Rightarrow> 's option" where
  "ck_inhibit_remove_lock get put h s = close_named_pipe get put h s"

text \<open>The watch on the pipe: the client closed its last descriptor.\<close>

definition cb_named_pipe_close ::
  "('s \<Rightarrow> CkInhibit) \<Rightarrow> (CkInhibit \<Rightarrow> 's \<Rightarrow> 's) \<Rightarrow> 's signal_handler \<Rightarrow> 's \<Rightarrow> 's option" where
  "cb_named_pipe_close get put h s =
     close_named_pipe get put h (put ((get s)\<lparr>fd_source := 0\<rparr>) s)"

definition ck_inhibit_finalize ::
  "('s \<Rightarrow> CkInhibit) \<Rightarrow> (CkInhibit \<Rightarrow> 's \<Rightarrow> 's) \<Rightarrow> 's signal_handler \<Rightarrow> 's \<Rightarrow> 's option" where
  "ck_inhibit_finalize get put h s =
     Option.bind (close_named_pipe get put h (put ((get s)\<lparr>fd_source := 0\<rparr>) s))
       (\<lambda>s. Some (put ((get s)\<lparr>who := None, why := None\<rparr>) s))"

text \<open>The descriptor for the client, or one of the negative error codes.\<close>

definition ck_inhibit_create_lock ::
  "('s \<Rightarrow> CkInhibit) \<Rightarrow> (CkInhibit \<Rightarrow> 's \<Rightarrow> 's) \<Rightarrow> 's signal_handler \<Rightarrow> pipe_env \<Rightarrow>
   cstring \<Rightarrow> cstring \<Rightarrow> cstring \<Rightarrow> cstring \<Rightarrow> nat \<Rightarrow> nat \<Rightarrow> 's \<Rightarrow> (int \<times> 's) option" where
  "ck_inhibit_create_lock get put h E awho awhat awhy amode auid apid s =
     (if awho = None \<or> awhat = None \<or> awhy = None \<or> amode = None
      then Some (CK_INHIBIT_ERROR_INVALID_INPUT, s)
      else if \<not> create_inhibit_base_directory E then Some (CK_INHIBIT_ERROR_GENERAL, s)
      else
        let i = (get s)\<lparr>who := awho, why := awhy, uid := auid, pid := apid,
                  named_pipe_path := get_named_pipe_path E\<rparr>;
            (i, set_any) = parse_inhibitors_string i (the awhat)
        in if \<not> set_any then Some (CK_INHIBIT_ERROR_INVALID_INPUT, put i s)
        else
          let (i, mode_ok) = parse_mode_string i (the amode)
          in if \<not> mode_ok then Some (CK_INHIBIT_ERROR_INVALID_INPUT, put i s)
          else if named_pipe_path i = None then Some (CK_INHIBIT_ERROR_OOM, put i s)
          else
            let (i, fd) = create_named_pipe E i
            in if fd = - 1 then Some (CK_INHIBIT_ERROR_GENERAL, put i s)
            else Option.bind (emit_initial_inhibit_signals get h (put i s)) (\<lambda>s. Some (fd, s)))"

subsection \<open>Accessors\<close>

definition add_item_to_string :: "cstring \<Rightarrow> cstring \<Rightarrow> cstring" where
  "add_item_to_string str what =
     (case what of
        None \<Rightarrow> str
      | Some w \<Rightarrow> (case str of None \<Rightarrow> Some w | Some s \<Rightarrow> Some (s @ '':'' @ w)))"

definition check_event_and_add_to_string ::
  "CkInhibit \<Rightarrow> CkInhibitEvent \<Rightarrow> string \<Rightarrow> cstring \<Rightarrow> cstring" where
  "check_event_and_add_to_string i ev what str =
     (if inhibitors i ev then add_item_to_string str (Some what) else str)"

definition ck_inhibit_get_what :: "CkInhibit \<Rightarrow> cstring" where
  "ck_inhibit_get_what i =
     (let str = check_event_and_add_to_string i CK_INHIBIT_EVENT_SHUTDOWN ''shutdown'' None;
          str = check_event_and_add_to_string i CK_INHIBIT_EVENT_SUSPEND ''suspend'' str;
          str = check_event_and_add_to_string i CK_INHIBIT_EVENT_IDLE ''idle'' str;
          str = check_event_and_add_to_string i CK_INHIBIT_EVENT_POWER_KEY ''handle-power-key'' str;
          str = check_event_and_add_to_string i CK_INHIBIT_EVENT_SUSPEND_KEY ''handle-suspend-key'' str;
          str = check_event_and_add_to_string i CK_INHIBIT_EVENT_HIBERNATE_KEY ''handle-hibernate-key'' str;
          str = check_event_and_add_to_string i CK_INHIBIT_EVENT_LID_SWITCH ''handle-lid-switch'' str
      in str)"

definition ck_inhibit_get_who :: "CkInhibit \<Rightarrow> cstring" where
  "ck_inhibit_get_who i = who i"

definition ck_inhibit_get_why :: "CkInhibit \<Rightarrow> cstring" where
  "ck_inhibit_get_why i = why i"

definition ck_inhibit_get_mode :: "CkInhibit \<Rightarrow> cstring" where
  "ck_inhibit_get_mode i =
     (if mode i = CK_INHIBIT_MODE_BLOCK then Some ''block''
      else if mode i = CK_INHIBIT_MODE_DELAY then Some ''delay''
      else None)"

definition ck_inhibit_get_named_pipe_path :: "CkInhibit \<Rightarrow> cstring" where
  "ck_inhibit_get_named_pipe_path i = named_pipe_path i"

definition ck_inhibit_get_uid :: "CkInhibit \<Rightarrow> nat" where
  "ck_inhibit_get_uid i = uid i"

definition ck_inhibit_get_pid :: "CkInhibit \<Rightarrow> nat" where
  "ck_inhibit_get_pid i = pid i"

definition ck_inhibit_get_inhibit_mode :: "CkInhibit \<Rightarrow> CkInhibitMode" where
  "ck_inhibit_get_inhibit_mode i = mode i"

definition ck_inhibit_is_shutdown_inhibited :: "CkInhibit \<Rightarrow> bool" where
  "ck_inhibit_is_shutdown_inhibited i = inhibitors i CK_INHIBIT_EVENT_SHUTDOWN"

definition ck_inhibit_is_suspend_inhibited :: "CkInhibit \<Rightarrow> bool" where
  "ck_inhibit_is_suspend_inhibited i = inhibitors i CK_INHIBIT_EVENT_SUSPEND"

definition ck_inhibit_is_idle_inhibited :: "CkInhibit \<Rightarrow> bool" where
  "ck_inhibit_is_idle_inhibited i = inhibitors i CK_INHIBIT_EVENT_IDLE"

definition ck_inhibit_is_power_key_inhibited :: "CkInhibit \<Rightarrow> bool" where
  "ck_inhibit_is_power_key_inhibited i = inhibitors i CK_INHIBIT_EVENT_POWER_KEY"

definition ck_inhibit_is_suspend_key_inhibited :: "CkInhibit \<Rightarrow> bool" where
  "ck_inhibit_is_suspend_key_inhibited i = inhibitors i CK_INHIBIT_EVENT_SUSPEND_KEY"

definition ck_inhibit_is_hibernate_key_inhibited :: "CkInhibit \<Rightarrow> bool" where
  "ck_inhibit_is_hibernate_key_inhibited i = inhibitors i CK_INHIBIT_EVENT_HIBERNATE_KEY"

definition ck_inhibit_is_lid_switch_inhibited :: "CkInhibit \<Rightarrow> bool" where
  "ck_inhibit_is_lid_switch_inhibited i = inhibitors i CK_INHIBIT_EVENT_LID_SWITCH"

section \<open>Specification of the \<open>what\<close> argument\<close>

text \<open>The tokens the loop looks at: those before the first empty one.\<close>

definition what_tokens :: "string \<Rightarrow> string list" where
  "what_tokens what = takeWhile (\<lambda>t. t \<noteq> '''') (g_strsplit what (CHR '':''))"

definition what_events :: "string \<Rightarrow> CkInhibitEvent set" where
  "what_events what = {ev. \<exists>t \<in> set (what_tokens what). inhibitor_of_token t = Some ev}"

text \<open>A lock without a path has no open pipe.\<close>

definition pipe_inv :: "CkInhibit \<Rightarrow> bool" where
  "pipe_inv i = (named_pipe_path i = None \<longrightarrow> named_pipe i = - 1)"

section \<open>Lemmas\<close>

lemmas inhibit_error_codes [simp] =
  CK_INHIBIT_ERROR_GENERAL_def CK_INHIBIT_ERROR_INVALID_INPUT_def CK_INHIBIT_ERROR_OOM_def

lemma set_event_order [simp]: "ev \<in> set event_order"
  by (cases ev) (auto simp: event_order_def)

lemma distinct_event_order [simp]: "distinct event_order"
  by (simp add: event_order_def)

lemma inhibitors_update_eq [simp]:
  "i\<lparr>inhibitors := f\<rparr> = i\<lparr>inhibitors := g\<rparr> \<longleftrightarrow> f = g"
  by (cases i) auto

lemma parse_tokens_spec:
  "parse_tokens toks i b =
     (i\<lparr>inhibitors := (\<lambda>ev. inhibitors i ev \<or>
          (\<exists>t \<in> set (takeWhile (\<lambda>t. t \<noteq> '''') toks). inhibitor_of_token t = Some ev))\<rparr>,
      b \<or> (\<exists>t \<in> set (takeWhile (\<lambda>t. t \<noteq> '''') toks). inhibitor_of_token t \<noteq> None))"
proof (induction toks i b rule: parse_tokens.induct)
  case (2 tok toks i b)
  then show ?case
    by (cases "tok = ''''"; cases "inhibitor_of_token tok") (auto simp: fun_eq_iff)
qed simp

lemma parse_inhibitors_string_spec:
  "parse_inhibitors_string i what =
     (i\<lparr>inhibitors := (\<lambda>ev. inhibitors i ev \<or> ev \<in> what_events what)\<rparr>, what_events what \<noteq> {})"
  by (auto simp: parse_inhibitors_string_def parse_tokens_spec what_events_def what_tokens_def)

lemma pipe_inv_init [simp]: "pipe_inv ck_inhibit_init"
  by (simp add: pipe_inv_def ck_inhibit_init_def)

text \<open>What \<open>create_named_pipe\<close> leaves: untouched, or a pipe on the given path.\<close>

lemma create_named_pipe_cases:
  assumes "create_named_pipe E i = (i', fd)"
  obtains (same) "i' = i" "fd = - 1"
    | (unopened) "named_pipe i = - 1" "named_pipe_path i \<noteq> None"
        "i' = i\<lparr>named_pipe := read_fd E\<rparr>" "read_fd E < 0" "fd = - 1"
    | (opened) "named_pipe i = - 1" "named_pipe_path i \<noteq> None" "0 \<le> read_fd E"
        "i' = i\<lparr>named_pipe := read_fd E, fd_source := watch_id E\<rparr>" "fd = client_fd E"
  using assms by (auto simp: create_named_pipe_def Let_def split: if_splits)

text \<open>
  What the file system promises: \<open>open\<close> and \<open>g_open\<close> return a descriptor or -1, the main
  loop's source identifiers are not 0, and a FIFO that was opened for reading a moment ago
  can be opened for writing.
\<close>

definition pipe_env_ok :: "pipe_env \<Rightarrow> bool" where
  "pipe_env_ok E = (- 1 \<le> read_fd E \<and> - 1 \<le> client_fd E \<and> 0 < watch_id E \<and>
     (0 \<le> read_fd E \<longrightarrow> 0 \<le> client_fd E))"

text \<open>The lock after \<open>ck_inhibit_create_lock\<close> filled it in, pipe included.\<close>

definition filled_lock ::
  "pipe_env \<Rightarrow> string \<Rightarrow> string \<Rightarrow> string \<Rightarrow> string \<Rightarrow> nat \<Rightarrow> nat \<Rightarrow> CkInhibit \<Rightarrow> CkInhibit" where
  "filled_lock E awho awhat awhy amode auid apid i =
     i\<lparr>who := Some awho, why := Some awhy, uid := auid, pid := apid,
       named_pipe_path := get_named_pipe_path E,
       inhibitors := (\<lambda>ev. inhibitors i ev \<or> ev \<in> what_events awhat),
       mode := (if amode = ''block'' then CK_INHIBIT_MODE_BLOCK else CK_INHIBIT_MODE_DELAY),
       named_pipe := read_fd E, fd_source := watch_id E\<rparr>"

text \<open>The arguments and answers for which a lock is granted.\<close>

definition lock_granted :: "pipe_env \<Rightarrow> string \<Rightarrow> string \<Rightarrow> bool" where
  "lock_granted E awhat amode =
     (mkdir_ok E \<and> what_events awhat \<noteq> {} \<and> (amode = ''block'' \<or> amode = ''delay'') \<and>
      get_named_pipe_path E \<noteq> None \<and> unlink_ok E \<and> mknod_ok E \<and> 0 \<le> read_fd E)"

text \<open>The error a refused request reports: the first check that fails decides.\<close>

definition refusal_code :: "pipe_env \<Rightarrow> string \<Rightarrow> string \<Rightarrow> int" where
  "refusal_code E awhat amode =
     (if \<not> mkdir_ok E then CK_INHIBIT_ERROR_GENERAL
      else if what_events awhat = {} \<or> (amode \<noteq> ''block'' \<and> amode \<noteq> ''delay'')
      then CK_INHIBIT_ERROR_INVALID_INPUT
      else if get_named_pipe_path E = None then CK_INHIBIT_ERROR_OOM
      else CK_INHIBIT_ERROR_GENERAL)"

text \<open>
  A store of locks: the contract the operations need of the state that holds the lock
  they work on.
\<close>

locale lock_store =
  fixes get :: "'s \<Rightarrow> CkInhibit"
    and put :: "CkInhibit \<Rightarrow> 's \<Rightarrow> 's"
  assumes get_put [simp]: "get (put i s) = i"
    and put_get [simp]: "put (get s) s = s"
    and put_put [simp]: "put i (put j s) = put i s"
begin

lemma close_closed: "named_pipe (get s) = - 1 \<Longrightarrow> close_named_pipe get put h s = Some s"
  by (simp add: close_named_pipe_def)

lemma create_granted:
  assumes "lock_granted E awhat amode" and "pipe_env_ok E" and "named_pipe (get s) = - 1"
  shows "ck_inhibit_create_lock get put h E (Some awho) (Some awhat) (Some awhy) (Some amode) auid apid s =
    Option.bind (emit_initial_inhibit_signals get h
       (put (filled_lock E awho awhat awhy amode auid apid (get s)) s))
      (\<lambda>s. Some (client_fd E, s))"
  using assms
  by (auto simp: ck_inhibit_create_lock_def lock_granted_def pipe_env_ok_def
      create_inhibit_base_directory_def parse_inhibitors_string_spec parse_mode_string_def
      create_named_pipe_def filled_lock_def Let_def)

text \<open>A refused lock reports its code, emits nothing and has no open pipe.\<close>

lemma create_refused:
  assumes "\<not> lock_granted E awhat amode" and "pipe_env_ok E" and "named_pipe (get s) = - 1"
  shows "\<exists>i. ck_inhibit_create_lock get put h E (Some awho) (Some awhat) (Some awhy) (Some amode) auid apid s
           = Some (refusal_code E awhat amode, put i s) \<and> named_pipe i = - 1"
    (is "\<exists>i. ?create = _ \<and> _")
proof -
  define j where "j = (get s)\<lparr>who := Some awho, why := Some awhy, uid := auid, pid := apid,
      named_pipe_path := get_named_pipe_path E\<rparr>"
  define j2 where "j2 = j\<lparr>inhibitors := (\<lambda>ev. inhibitors j ev \<or> ev \<in> what_events awhat)\<rparr>"
  define j3 where "j3 = fst (parse_mode_string j2 amode)"
  have pipes: "named_pipe j = - 1" "named_pipe j2 = - 1" "named_pipe j3 = - 1"
      "named_pipe_path j3 = get_named_pipe_path E"
    using assms(3) by (auto simp: j_def j2_def j3_def parse_mode_string_def)
  note unf = ck_inhibit_create_lock_def refusal_code_def create_inhibit_base_directory_def
    parse_inhibitors_string_spec j_def [symmetric] Let_def
  consider (mkdir) "\<not> mkdir_ok E" | (what) "mkdir_ok E" "what_events awhat = {}"
    | (mode) "mkdir_ok E" "what_events awhat \<noteq> {}" "amode \<noteq> ''block'' \<and> amode \<noteq> ''delay''"
    | (valid) "mkdir_ok E" "what_events awhat \<noteq> {}" "amode = ''block'' \<or> amode = ''delay''"
    by blast
  then show ?thesis
  proof cases
    case mkdir
    then have "?create = Some (refusal_code E awhat amode, put (get s) s)" by (simp add: unf)
    with assms(3) show ?thesis by blast
  next
    case what
    then have "?create = Some (refusal_code E awhat amode, put j s)" by (simp add: unf)
    with pipes show ?thesis by blast
  next
    case mode
    then have "?create = Some (refusal_code E awhat amode, put j2 s)"
      by (simp add: unf j2_def [symmetric] parse_mode_string_def)
    with pipes show ?thesis by blast
  next
    case valid
    then have mode: "parse_mode_string j2 amode = (j3, True)"
      by (auto simp: j3_def parse_mode_string_def)
    show ?thesis
    proof (cases "get_named_pipe_path E = None")
      case True
      then have path: "named_pipe_path j3 = None" and code: "refusal_code E awhat amode = CK_INHIBIT_ERROR_OOM"
        using valid pipes by (auto simp: refusal_code_def)
      have "?create = Some (refusal_code E awhat amode, put j3 s)"
        unfolding code using valid mode path by (auto simp: unf j2_def [symmetric])
      with pipes show ?thesis by blast
    next
      case False
      define j4 where "j4 = fst (create_named_pipe E j3)"
      have j4: "create_named_pipe E j3 = (j4, - 1)" "named_pipe j4 = - 1"
        using assms(1,2) valid False pipes
        by (auto simp: j4_def create_named_pipe_def lock_granted_def pipe_env_ok_def Let_def)
      have "?create = Some (refusal_code E awhat amode, put j4 s)"
        using valid mode pipes False j4 by (auto simp: unf j2_def [symmetric])
      with j4 show ?thesis by blast
    qed
  qed
qed

end

section \<open>Printing what a lock inhibits\<close>

fun event_name :: "CkInhibitEvent \<Rightarrow> string" where
  "event_name CK_INHIBIT_EVENT_SHUTDOWN = ''shutdown''"
| "event_name CK_INHIBIT_EVENT_SUSPEND = ''suspend''"
| "event_name CK_INHIBIT_EVENT_IDLE = ''idle''"
| "event_name CK_INHIBIT_EVENT_POWER_KEY = ''handle-power-key''"
| "event_name CK_INHIBIT_EVENT_SUSPEND_KEY = ''handle-suspend-key''"
| "event_name CK_INHIBIT_EVENT_HIBERNATE_KEY = ''handle-hibernate-key''"
| "event_name CK_INHIBIT_EVENT_LID_SWITCH = ''handle-lid-switch''"

definition joined :: "string list \<Rightarrow> cstring" where
  "joined xs = (if xs = [] then None else Some (join_with '':'' xs))"

lemma add_item_joined: "add_item_to_string (joined xs) (Some w) = joined (xs @ [w])"
  by (simp add: add_item_to_string_def joined_def join_with_snoc)

lemma what_fold:
  "foldl (\<lambda>str ev. check_event_and_add_to_string i ev (event_name ev) str) (joined xs) evs =
     joined (xs @ map event_name (filter (inhibitors i) evs))"
  by (induction evs arbitrary: xs) (auto simp: check_event_and_add_to_string_def add_item_joined)

lemma get_what_joined:
  "ck_inhibit_get_what i = joined (map event_name (filter (inhibitors i) event_order))"
  using what_fold [of i "[]" event_order]
  by (simp add: ck_inhibit_get_what_def event_order_def joined_def Let_def)

lemma event_name_token [simp]:
  "inhibitor_of_token (event_name ev) = (if ev = CK_INHIBIT_EVENT_SUSPEND then None else Some ev)"
  by (cases ev) (auto simp: inhibitor_of_token_def)

lemma event_name_plain: "event_name ev \<noteq> ''''" "CHR '':'' \<notin> set (event_name ev)"
  by (cases ev; simp)+

text \<open>
  Reading back what \<open>ck_inhibit_get_what\<close> prints gives every event of the lock except
  suspend: it is printed as "suspend", a word the parser of the \<open>what\<close> argument does not
  know (it reads "sleep"). For all other events printing and parsing are inverse.
\<close>

theorem what_roundtrip_except_suspend:
  assumes "ck_inhibit_get_what i = Some what"
  shows "what_events what = {ev. inhibitors i ev} - {CK_INHIBIT_EVENT_SUSPEND}"
proof -
  let ?ns = "map event_name (filter (inhibitors i) event_order)"
  have w: "what = join_with '':'' ?ns" "?ns \<noteq> []"
    using assms by (auto simp: get_what_joined joined_def split: if_splits)
  have "split_on (CHR '':'') [] what = ?ns"
    unfolding w(1) by (rule split_join [OF w(2)]) (auto simp: event_name_plain)
  moreover from this have "what \<noteq> []"
    using event_name_plain(1) [symmetric] by (auto simp: map_eq_Cons_conv)
  ultimately have "what_tokens what = ?ns"
    by (auto simp: what_tokens_def g_strsplit_def event_name_plain takeWhile_eq_all_conv)
  then show ?thesis by (auto simp: what_events_def split: if_splits)
qed

theorem what_roundtrip_except_suspend_witness:
  "ck_inhibit_get_what (ck_inhibit_init\<lparr>inhibitors := (\<lambda>ev. ev = CK_INHIBIT_EVENT_SUSPEND \<or> ev = CK_INHIBIT_EVENT_IDLE)\<rparr>)
     = Some ''suspend:idle'' \<and> what_events ''suspend:idle'' = {CK_INHIBIT_EVENT_IDLE}"
proof -
  let ?i = "ck_inhibit_init\<lparr>inhibitors := (\<lambda>ev. ev = CK_INHIBIT_EVENT_SUSPEND \<or> ev = CK_INHIBIT_EVENT_IDLE)\<rparr>"
  have "ck_inhibit_get_what ?i = Some ''suspend:idle''"
    by (simp add: get_what_joined joined_def event_order_def)
  with what_roundtrip_except_suspend [OF this] show ?thesis by auto
qed

end
