(* ===== verification/CK_InhibitManager.thy ===== *)
theory CK_InhibitManager
  imports CK_Inhibit
begin

text \<open>
  The inhibit manager: src/src/ck-inhibit-manager.c.

  The record holds the locks by address, the list of locks, the counters per mode and
  event, which locks still have \<open>cb_changed_event\<close> connected, and the \<open>changed-event\<close>
  signals the manager emitted, newest first. A lock's address stands for its pointer;
  the code never frees a lock it created (\<open>g_list_remove\<close> drops the node without an
  unref), so addresses are not reused.

  Releasing a lock runs \<open>close_named_pipe\<close>, whose signals run \<open>cb_changed_event\<close>, which
  runs \<open>ck_inhibit_manager_remove_lock\<close>, which runs \<open>close_named_pipe\<close> again. The
  nesting is bounded by fuel: \<open>None\<close> means the fuel is used up, or that the code would
  read a list node it has freed.
\<close>

section \<open>State\<close>

record CkInhibitManager =
  objs :: "nat \<Rightarrow> CkInhibit"
  next_obj :: nat
  connected :: "nat \<Rightarrow> bool"
  inhibit_list :: "nat list"
  lock_counts :: "CkInhibitMode \<Rightarrow> CkInhibitEvent \<Rightarrow> int"
  notified :: "(CkInhibitMode \<times> CkInhibitEvent \<times> bool) list"

definition ck_inhibit_manager_init :: CkInhibitManager where
  "ck_inhibit_manager_init = \<lparr> objs = (\<lambda>_. ck_inhibit_init), next_obj = 0,
     connected = (\<lambda>_. False), inhibit_list = [], lock_counts = (\<lambda>_ _. 0), notified = [] \<rparr>"

definition lock_get :: "nat \<Rightarrow> CkInhibitManager \<Rightarrow> CkInhibit" where
  "lock_get a s = objs s a"

definition lock_put :: "nat \<Rightarrow> CkInhibit \<Rightarrow> CkInhibitManager \<Rightarrow> CkInhibitManager" where
  "lock_put a i s = s\<lparr>objs := (objs s)(a := i)\<rparr>"

interpretation lock: lock_store "lock_get a" "lock_put a" for a
  by unfold_locales (auto simp: lock_get_def lock_put_def)

section \<open>Operations\<close>

definition add_count :: "CkInhibitMode \<Rightarrow> CkInhibitEvent \<Rightarrow> int \<Rightarrow> CkInhibitManager \<Rightarrow> CkInhibitManager" where
  "add_count m ev d s =
     s\<lparr>lock_counts := (lock_counts s)(m := (lock_counts s m)(ev := lock_counts s m ev + d))\<rparr>"

definition emit_changed_event ::
  "CkInhibitMode \<Rightarrow> CkInhibitEvent \<Rightarrow> bool \<Rightarrow> CkInhibitManager \<Rightarrow> CkInhibitManager" where
  "emit_changed_event m ev enabled s = s\<lparr>notified := (m, ev, enabled) # notified s\<rparr>"

text \<open>
  \<open>remove_lock_with h path\<close> is the body of \<open>ck_inhibit_manager_remove_lock\<close>; \<open>h a\<close> is what
  a signal of lock \<open>a\<close> runs. After closing the lock the code reads the list node again,
  which the signals may have freed.
\<close>

definition remove_lock_with ::
  "(nat \<Rightarrow> CkInhibitManager signal_handler) \<Rightarrow> cstring \<Rightarrow> CkInhibitManager \<Rightarrow>
   (bool \<times> CkInhibitManager) option" where
  "remove_lock_with h path s =
     (case List.find (\<lambda>a. ck_inhibit_get_named_pipe_path (objs s a) = path) (inhibit_list s) of
        None \<Rightarrow> Some (False, s)
      | Some a \<Rightarrow>
          (case ck_inhibit_remove_lock (lock_get a) (lock_put a) (h a) s of
             None \<Rightarrow> None
           | Some s \<Rightarrow>
               if a \<in> set (inhibit_list s)
               then Some (True, s\<lparr>connected := (connected s)(a := False),
                                   inhibit_list := remove1 a (inhibit_list s)\<rparr>)
               else None))"

fun cb_changed_event :: "nat \<Rightarrow> nat \<Rightarrow> CkInhibitManager signal_handler" where
  "cb_changed_event 0 a m ev enabled s = None"
| "cb_changed_event (Suc fuel) a m ev enabled s =
     (if enabled then
        let s = add_count m ev 1 s in
        Some (if lock_counts s m ev = 1 then emit_changed_event m ev True s else s)
      else
        let s = add_count m ev (- 1) s;
            s = (if lock_counts s m ev = 0 then emit_changed_event m ev False s else s)
        in map_option snd
             (remove_lock_with
                (\<lambda>b m ev enabled s. if connected s b then cb_changed_event fuel b m ev enabled s else Some s)
                (ck_inhibit_get_named_pipe_path (objs s a)) s))"

text \<open>A lock's signal runs the callback while it is connected.\<close>

definition on_lock_signal :: "nat \<Rightarrow> nat \<Rightarrow> CkInhibitManager signal_handler" where
  "on_lock_signal fuel a m ev enabled s =
     (if connected s a then cb_changed_event fuel a m ev enabled s else Some s)"

definition signal_depth :: nat where
  "signal_depth = 2"

definition ck_inhibit_manager_remove_lock ::
  "cstring \<Rightarrow> CkInhibitManager \<Rightarrow> (bool \<times> CkInhibitManager) option" where
  "ck_inhibit_manager_remove_lock path s = remove_lock_with (on_lock_signal signal_depth) path s"

text \<open>
  \<open>fd == -1\<close> is tested on a value that is a descriptor or an error code below -1:
  a true test aborts the daemon (\<open>g_error\<close>).
\<close>

definition ck_inhibit_manager_create_lock ::
  "pipe_env \<Rightarrow> cstring \<Rightarrow> cstring \<Rightarrow> cstring \<Rightarrow> cstring \<Rightarrow> nat \<Rightarrow> nat \<Rightarrow>
   CkInhibitManager \<Rightarrow> (int \<times> CkInhibitManager) option" where
  "ck_inhibit_manager_create_lock E awho awhat awhy amode auid apid s =
     (let a = next_obj s;
          s = s\<lparr>next_obj := Suc a, objs := (objs s)(a := ck_inhibit_init),
                connected := (connected s)(a := True)\<rparr>
      in case ck_inhibit_create_lock (lock_get a) (lock_put a) (on_lock_signal signal_depth a) E
                awho awhat awhy amode auid apid s of
           None \<Rightarrow> None
         | Some (fd, s) \<Rightarrow>
             if fd = - 1 then None
             else Some (fd, s\<lparr>inhibit_list := inhibit_list s @ [a]\<rparr>))"

text \<open>The client of lock \<open>a\<close> closed its descriptor: the main loop runs the watch, if it exists.\<close>

definition lock_hangup :: "nat \<Rightarrow> CkInhibitManager \<Rightarrow> CkInhibitManager option" where
  "lock_hangup a s =
     (if fd_source (objs s a) = 0 then Some s
      else cb_named_pipe_close (lock_get a) (lock_put a) (on_lock_signal signal_depth a) s)"

definition get_inhibit_status :: "CkInhibitManager \<Rightarrow> CkInhibitEvent \<Rightarrow> CkInhibitMode \<Rightarrow> bool" where
  "get_inhibit_status s ev m = (0 < lock_counts s m ev)"

definition ck_inhibit_manager_is_shutdown_delayed :: "CkInhibitManager \<Rightarrow> bool" where
  "ck_inhibit_manager_is_shutdown_delayed s =
     get_inhibit_status s CK_INHIBIT_EVENT_SHUTDOWN CK_INHIBIT_MODE_DELAY"

definition ck_inhibit_manager_is_shutdown_blocked :: "CkInhibitManager \<Rightarrow> bool" where
  "ck_inhibit_manager_is_shutdown_blocked s =
     get_inhibit_status s CK_INHIBIT_EVENT_SHUTDOWN CK_INHIBIT_MODE_BLOCK"

definition ck_inhibit_manager_is_suspend_delayed :: "CkInhibitManager \<Rightarrow> bool" where
  "ck_inhibit_manager_is_suspend_delayed s =
     get_inhibit_status s CK_INHIBIT_EVENT_SUSPEND CK_INHIBIT_MODE_DELAY"

definition ck_inhibit_manager_is_suspend_blocked :: "CkInhibitManager \<Rightarrow> bool" where
  "ck_inhibit_manager_is_suspend_blocked s =
     get_inhibit_status s CK_INHIBIT_EVENT_SUSPEND CK_INHIBIT_MODE_BLOCK"

definition ck_inhibit_manager_is_idle_delayed :: "CkInhibitManager \<Rightarrow> bool" where
  "ck_inhibit_manager_is_idle_delayed s =
     get_inhibit_status s CK_INHIBIT_EVENT_IDLE CK_INHIBIT_MODE_DELAY"

definition ck_inhibit_manager_is_idle_blocked :: "CkInhibitManager \<Rightarrow> bool" where
  "ck_inhibit_manager_is_idle_blocked s =
     get_inhibit_status s CK_INHIBIT_EVENT_IDLE CK_INHIBIT_MODE_BLOCK"

definition ck_inhibit_manager_is_power_key_delayed :: "CkInhibitManager \<Rightarrow> bool" where
  "ck_inhibit_manager_is_power_key_delayed s =
     get_inhibit_status s CK_INHIBIT_EVENT_POWER_KEY CK_INHIBIT_MODE_DELAY"

definition ck_inhibit_manager_is_power_key_blocked :: "CkInhibitManager \<Rightarrow> bool" where
  "ck_inhibit_manager_is_power_key_blocked s =
     get_inhibit_status s CK_INHIBIT_EVENT_POWER_KEY CK_INHIBIT_MODE_BLOCK"

definition ck_inhibit_manager_is_suspend_key_delayed :: "CkInhibitManager \<Rightarrow> bool" where
  "ck_inhibit_manager_is_suspend_key_delayed s =
     get_inhibit_status s CK_INHIBIT_EVENT_SUSPEND_KEY CK_INHIBIT_MODE_DELAY"

definition ck_inhibit_manager_is_suspend_key_blocked :: "CkInhibitManager \<Rightarrow> bool" where
  "ck_inhibit_manager_is_suspend_key_blocked s =
     get_inhibit_status s CK_INHIBIT_EVENT_SUSPEND_KEY CK_INHIBIT_MODE_BLOCK"

definition ck_inhibit_manager_is_hibernate_key_delayed :: "CkInhibitManager \<Rightarrow> bool" where
  "ck_inhibit_manager_is_hibernate_key_delayed s =
     get_inhibit_status s CK_INHIBIT_EVENT_HIBERNATE_KEY CK_INHIBIT_MODE_DELAY"

definition ck_inhibit_manager_is_hibernate_key_blocked :: "CkInhibitManager \<Rightarrow> bool" where
  "ck_inhibit_manager_is_hibernate_key_blocked s =
     get_inhibit_status s CK_INHIBIT_EVENT_HIBERNATE_KEY CK_INHIBIT_MODE_BLOCK"

definition ck_inhibit_manager_is_lid_switch_delayed :: "CkInhibitManager \<Rightarrow> bool" where
  "ck_inhibit_manager_is_lid_switch_delayed s =
     get_inhibit_status s CK_INHIBIT_EVENT_LID_SWITCH CK_INHIBIT_MODE_DELAY"

definition ck_inhibit_manager_is_lid_switch_blocked :: "CkInhibitManager \<Rightarrow> bool" where
  "ck_inhibit_manager_is_lid_switch_blocked s =
     get_inhibit_status s CK_INHIBIT_EVENT_LID_SWITCH CK_INHIBIT_MODE_BLOCK"

definition ck_inhibit_manager_get_inhibit_list :: "CkInhibitManager \<Rightarrow> nat list" where
  "ck_inhibit_manager_get_inhibit_list s = inhibit_list s"

text \<open>What drives the manager: a request for a lock, and a client that goes away.\<close>

datatype inhibit_event =
    Lock_Request pipe_env string string string string nat nat
  | Hangup nat

fun inhibit_step :: "inhibit_event \<Rightarrow> CkInhibitManager \<Rightarrow> CkInhibitManager option" where
  "inhibit_step (Lock_Request E awho awhat awhy amode auid apid) s =
     map_option snd (ck_inhibit_manager_create_lock E (Some awho) (Some awhat) (Some awhy)
       (Some amode) auid apid s)"
| "inhibit_step (Hangup a) s = lock_hangup a s"

fun inhibit_event_ok :: "inhibit_event \<Rightarrow> bool" where
  "inhibit_event_ok (Lock_Request E awho awhat awhy amode auid apid) = pipe_env_ok E"
| "inhibit_event_ok (Hangup a) = True"

section \<open>Invariant\<close>

text \<open>Lock \<open>a\<close> is held: its pipe is open and it names the event in that mode.\<close>

definition lock_held :: "CkInhibitManager \<Rightarrow> CkInhibitMode \<Rightarrow> CkInhibitEvent \<Rightarrow> nat \<Rightarrow> bool" where
  "lock_held s m ev a =
     (named_pipe (objs s a) \<noteq> - 1 \<and> mode (objs s a) = m \<and> inhibitors (objs s a) ev)"

definition held :: "CkInhibitManager \<Rightarrow> CkInhibitMode \<Rightarrow> CkInhibitEvent \<Rightarrow> nat" where
  "held s m ev = length (filter (lock_held s m ev) (inhibit_list s))"

definition last_notified :: "CkInhibitManager \<Rightarrow> CkInhibitMode \<Rightarrow> CkInhibitEvent \<Rightarrow> bool" where
  "last_notified s m ev =
     (case List.find (\<lambda>(m', ev', b). m' = m \<and> ev' = ev) (notified s) of
        None \<Rightarrow> False | Some (_, _, b) \<Rightarrow> b)"

text \<open>
  The part that holds in the middle of an operation too: \<open>x m ev\<close> is how much the counter
  exceeds the locks of the list for the lock that is being opened or closed.
\<close>

definition im_core :: "CkInhibitManager \<Rightarrow> (CkInhibitMode \<Rightarrow> CkInhibitEvent \<Rightarrow> nat) \<Rightarrow> bool" where
  "im_core s x =
     (distinct (inhibit_list s) \<and> (\<forall>b \<in> set (inhibit_list s). b < next_obj s) \<and>
      (\<forall>b. pipe_inv (objs s b)) \<and>
      (\<forall>m ev. int (held s m ev + x m ev) \<le> lock_counts s m ev) \<and>
      (\<forall>m ev. get_inhibit_status s ev m = last_notified s m ev))"

definition im_inv :: "CkInhibitManager \<Rightarrow> bool" where
  "im_inv s =
     (im_core s (\<lambda>m ev. 0) \<and> (\<forall>b. named_pipe (objs s b) \<noteq> - 1 \<longrightarrow> b \<in> set (inhibit_list s)))"

section \<open>Lemmas\<close>

lemmas im_fields [simp] = lock_get_def lock_put_def

lemma add_count_fields [simp]:
  "objs (add_count m ev d s) = objs s" "next_obj (add_count m ev d s) = next_obj s"
  "connected (add_count m ev d s) = connected s" "inhibit_list (add_count m ev d s) = inhibit_list s"
  "notified (add_count m ev d s) = notified s"
  "lock_counts (add_count m ev d s) m' ev' =
     lock_counts s m' ev' + (if m' = m \<and> ev' = ev then d else 0)"
  by (auto simp: add_count_def)

lemma emit_changed_event_fields [simp]:
  "objs (emit_changed_event m ev b s) = objs s" "next_obj (emit_changed_event m ev b s) = next_obj s"
  "connected (emit_changed_event m ev b s) = connected s"
  "inhibit_list (emit_changed_event m ev b s) = inhibit_list s"
  "lock_counts (emit_changed_event m ev b s) = lock_counts s"
  by (auto simp: emit_changed_event_def)

lemma last_notified_emit [simp]:
  "last_notified (emit_changed_event m ev b s) m' ev' =
     (if m' = m \<and> ev' = ev then b else last_notified s m' ev')"
  by (auto simp: last_notified_def emit_changed_event_def)

lemma last_notified_add_count [simp]: "last_notified (add_count m ev d s) = last_notified s"
  by (simp add: last_notified_def fun_eq_iff)

lemma held_cong:
  "inhibit_list s' = inhibit_list s \<Longrightarrow> objs s' = objs s \<Longrightarrow> held s' = held s"
  by (simp add: held_def lock_held_def [abs_def] fun_eq_iff)

lemma im_coreD:
  assumes "im_core s x"
  shows "distinct (inhibit_list s)" "\<forall>b. pipe_inv (objs s b)"
    "int (held s m ev + x m ev) \<le> lock_counts s m ev" "0 \<le> lock_counts s m ev"
    "get_inhibit_status s ev m = last_notified s m ev"
    "b \<in> set (inhibit_list s) \<Longrightarrow> b < next_obj s"
proof -
  show "int (held s m ev + x m ev) \<le> lock_counts s m ev" using assms by (simp add: im_core_def)
  then show "0 \<le> lock_counts s m ev" by linarith
qed (use assms in \<open>auto simp: im_core_def\<close>)

lemma im_core_weaken: "im_core s x \<Longrightarrow> (\<And>m ev. y m ev \<le> x m ev) \<Longrightarrow> im_core s y"
  unfolding im_core_def by (meson add_left_mono of_nat_mono order_trans)

text \<open>Counting up and down, with the notification at the border.\<close>

definition count_up :: "CkInhibitMode \<Rightarrow> CkInhibitEvent \<Rightarrow> CkInhibitManager \<Rightarrow> CkInhibitManager" where
  "count_up m ev s =
     (let s = add_count m ev 1 s in if lock_counts s m ev = 1 then emit_changed_event m ev True s else s)"

definition count_down :: "CkInhibitMode \<Rightarrow> CkInhibitEvent \<Rightarrow> CkInhibitManager \<Rightarrow> CkInhibitManager" where
  "count_down m ev s =
     (let s = add_count m ev (- 1) s in if lock_counts s m ev = 0 then emit_changed_event m ev False s else s)"

text \<open>Drop the first lock of the list whose path is NULL.\<close>

definition drop_unnamed :: "CkInhibitManager \<Rightarrow> CkInhibitManager" where
  "drop_unnamed s =
     (case List.find (\<lambda>a. named_pipe_path (objs s a) = None) (inhibit_list s) of
        None \<Rightarrow> s
      | Some a \<Rightarrow> s\<lparr>connected := (connected s)(a := False),
                    inhibit_list := remove1 a (inhibit_list s)\<rparr>)"

lemma count_fields [simp]:
  "objs (count_up m ev s) = objs s" "next_obj (count_up m ev s) = next_obj s"
  "connected (count_up m ev s) = connected s" "inhibit_list (count_up m ev s) = inhibit_list s"
  "objs (count_down m ev s) = objs s" "next_obj (count_down m ev s) = next_obj s"
  "connected (count_down m ev s) = connected s" "inhibit_list (count_down m ev s) = inhibit_list s"
  "lock_counts (count_up m ev s) m' ev' = lock_counts s m' ev' + (if m' = m \<and> ev' = ev then 1 else 0)"
  "lock_counts (count_down m ev s) m' ev' = lock_counts s m' ev' - (if m' = m \<and> ev' = ev then 1 else 0)"
  by (auto simp: count_up_def count_down_def Let_def)

lemma count_up_core:
  assumes "im_core s x"
  shows "im_core (count_up m ev s) (\<lambda>m' ev'. x m' ev' + (if m' = m \<and> ev' = ev then 1 else 0))"
proof -
  have "held (count_up m ev s) = held s" by (rule held_cong) auto
  moreover have "get_inhibit_status (count_up m ev s) ev' m' = last_notified (count_up m ev s) m' ev'" for m' ev'
    using im_coreD(4) [OF assms, of m' ev'] im_coreD(5) [OF assms, of ev' m']
    by (auto simp: count_up_def Let_def get_inhibit_status_def)
  ultimately show ?thesis using assms by (simp add: im_core_def)
qed

lemma count_down_core:
  assumes "im_core s x" and "0 < x m ev"
  shows "im_core (count_down m ev s) (\<lambda>m' ev'. x m' ev' - (if m' = m \<and> ev' = ev then 1 else 0))"
proof -
  have "held (count_down m ev s) = held s" by (rule held_cong) auto
  moreover have "get_inhibit_status (count_down m ev s) ev' m' = last_notified (count_down m ev s) m' ev'" for m' ev'
    using im_coreD(3) [OF assms(1), of m' ev'] im_coreD(5) [OF assms(1), of ev' m'] assms(2)
    by (auto simp: count_down_def Let_def get_inhibit_status_def)
  moreover have "int (held s m' ev' + (x m' ev' - (if m' = m \<and> ev' = ev then 1 else 0)))
      \<le> lock_counts s m' ev' - (if m' = m \<and> ev' = ev then 1 else 0)" for m' ev'
    using im_coreD(3) [OF assms(1), of m' ev'] assms(2) by auto
  ultimately show ?thesis using assms by (simp add: im_core_def)
qed

lemma drop_unnamed_fields [simp]:
  "objs (drop_unnamed s) = objs s" "next_obj (drop_unnamed s) = next_obj s"
  "lock_counts (drop_unnamed s) = lock_counts s" "notified (drop_unnamed s) = notified s"
  by (auto simp: drop_unnamed_def split: option.splits)

lemma drop_unnamed_keeps:
  "named_pipe_path (objs s b) \<noteq> None \<Longrightarrow> b \<in> set (inhibit_list (drop_unnamed s)) \<longleftrightarrow> b \<in> set (inhibit_list s)"
  by (auto simp: drop_unnamed_def dest!: find_SomeD split: option.splits) (metis in_set_remove1 option.distinct(1))+

lemma filter_remove1_neg: "\<not> P a \<Longrightarrow> filter P (remove1 a xs) = filter P xs"
  by (induction xs) auto

lemma drop_unnamed_core:
  assumes "im_core s x"
  shows "im_core (drop_unnamed s) x"
proof -
  have "held (drop_unnamed s) m ev = held s m ev" for m ev
    using im_coreD(2) [OF assms]
    by (auto simp: held_def drop_unnamed_def lock_held_def [abs_def] pipe_inv_def
        filter_remove1_neg dest!: find_SomeD split: option.splits)
  then show ?thesis using assms
    by (auto simp: im_core_def get_inhibit_status_def last_notified_def)
      (auto simp: drop_unnamed_def split: option.splits dest: notin_set_remove1)
qed

text \<open>
  The nested release is bounded: a lock whose path is NULL is already closed, so the
  inner \<open>close_named_pipe\<close> emits nothing, whatever its handler.
\<close>

lemma remove_lock_null:
  assumes "\<forall>b. pipe_inv (objs s b)"
  shows "map_option snd (remove_lock_with h None s) = Some (drop_unnamed s)"
  using assms
  by (auto simp: remove_lock_with_def drop_unnamed_def ck_inhibit_get_named_pipe_path_def
      ck_inhibit_remove_lock_def lock.close_closed pipe_inv_def dest!: find_SomeD split: option.splits)

lemma cb_changed_event_down:
  assumes "\<forall>b. pipe_inv (objs s b)" and "named_pipe_path (objs s a) = None"
  shows "cb_changed_event (Suc n) a m ev False s = Some (drop_unnamed (count_down m ev s))"
proof -
  have "cb_changed_event (Suc n) a m ev False s =
      map_option snd (remove_lock_with (\<lambda>b m ev enabled s.
        if connected s b then cb_changed_event n b m ev enabled s else Some s) None (count_down m ev s))"
    using assms(2) by (simp add: count_down_def Let_def ck_inhibit_get_named_pipe_path_def)
  then show ?thesis using assms(1) by (simp add: remove_lock_null del: cb_changed_event.simps)
qed

lemma cb_changed_event_up: "cb_changed_event (Suc n) a m ev True s = Some (count_up m ev s)"
  by (simp add: count_up_def Let_def)

text \<open>One signal of a closing lock, connected or not.\<close>

definition signal_down :: "nat \<Rightarrow> CkInhibitMode \<Rightarrow> CkInhibitEvent \<Rightarrow> CkInhibitManager \<Rightarrow> CkInhibitManager" where
  "signal_down a m ev s = (if connected s a then drop_unnamed (count_down m ev s) else s)"

lemma signal_depth_Suc: "signal_depth = Suc 1"
  by (simp add: signal_depth_def)

lemma on_lock_signal_down:
  assumes "\<forall>b. pipe_inv (objs s b)" and "named_pipe_path (objs s a) = None"
  shows "on_lock_signal signal_depth a m ev False s = Some (signal_down a m ev s)"
  using assms
  by (simp add: on_lock_signal_def signal_down_def signal_depth_Suc cb_changed_event_down del: cb_changed_event.simps)

lemma signal_down_fields [simp]:
  "objs (signal_down a m ev s) = objs s" "next_obj (signal_down a m ev s) = next_obj s"
  by (auto simp: signal_down_def)

subsection \<open>Opening a lock\<close>

definition opening_step :: "nat \<Rightarrow> CkInhibitEvent \<Rightarrow> CkInhibitManager \<Rightarrow> CkInhibitManager" where
  "opening_step a ev s = (if inhibitors (objs s a) ev then count_up (mode (objs s a)) ev s else s)"

lemma opening_step_fields [simp]:
  "objs (opening_step a ev s) = objs s" "next_obj (opening_step a ev s) = next_obj s"
  "connected (opening_step a ev s) = connected s" "inhibit_list (opening_step a ev s) = inhibit_list s"
  by (auto simp: opening_step_def)

lemma emit_initial_eq:
  "connected s a \<Longrightarrow>
   emit_initial_loop (lock_get a) (on_lock_signal signal_depth a) evs s = Some (fold (opening_step a) evs s)"
proof (induction evs arbitrary: s)
  case (Cons e evs)
  have "on_lock_signal signal_depth a (mode (objs s a)) e True s = Some (count_up (mode (objs s a)) e s)"
    using Cons.prems by (simp add: on_lock_signal_def signal_depth_Suc cb_changed_event_up del: cb_changed_event.simps)
  with Cons show ?case by (simp add: opening_step_def)
qed simp

lemma opening_fields [simp]:
  "objs (fold (opening_step a) evs s) = objs s" "next_obj (fold (opening_step a) evs s) = next_obj s"
  "connected (fold (opening_step a) evs s) = connected s"
  "inhibit_list (fold (opening_step a) evs s) = inhibit_list s"
  by (induction evs arbitrary: s) auto

lemma opening_counts:
  "distinct evs \<Longrightarrow> lock_counts (fold (opening_step a) evs s) m ev = lock_counts s m ev +
     (if mode (objs s a) = m \<and> inhibitors (objs s a) ev \<and> ev \<in> set evs then 1 else 0)"
  by (induction evs arbitrary: s) (auto simp: opening_step_def)

lemma opening_core:
  assumes "im_core s x" and "distinct evs"
  shows "im_core (fold (opening_step a) evs s) (\<lambda>m ev. x m ev +
    (if mode (objs s a) = m \<and> inhibitors (objs s a) ev \<and> ev \<in> set evs then 1 else 0))"
  using assms
proof (induction evs arbitrary: s x)
  case (Cons e evs)
  let ?y = "\<lambda>m ev. x m ev + (if mode (objs s a) = m \<and> inhibitors (objs s a) ev \<and> ev = e then 1 else 0)"
  have "im_core (opening_step a e s) ?y"
  proof (cases "inhibitors (objs s a) e")
    case True
    then show ?thesis
      using im_core_weaken [OF count_up_core [OF Cons.prems(1), of "mode (objs s a)" e], of ?y]
      by (simp add: opening_step_def)
  next
    case False
    then have "opening_step a e s = s" by (simp add: opening_step_def)
    then show ?thesis using False by (auto intro: im_core_weaken [OF Cons.prems(1)])
  qed
  from Cons.IH [OF this] Cons.prems(2) show ?case
    by (auto elim!: im_core_weaken)
qed simp

subsection \<open>Closing a lock\<close>

definition clear_event :: "nat \<Rightarrow> CkInhibitEvent \<Rightarrow> CkInhibitManager \<Rightarrow> CkInhibitManager" where
  "clear_event a ev s = lock_put a ((objs s a)\<lparr>inhibitors := (inhibitors (objs s a))(ev := False)\<rparr>) s"

definition closing_step :: "nat \<Rightarrow> CkInhibitEvent \<Rightarrow> CkInhibitManager \<Rightarrow> CkInhibitManager" where
  "closing_step a ev s =
     (if inhibitors (objs s a) ev then signal_down a (mode (objs s a)) ev (clear_event a ev s) else s)"

lemma closing_step_fields [simp]:
  "next_obj (closing_step a ev s) = next_obj s"
  "named_pipe (objs (closing_step a ev s) b) = named_pipe (objs s b)"
  "named_pipe_path (objs (closing_step a ev s) b) = named_pipe_path (objs s b)"
  "mode (objs (closing_step a ev s) b) = mode (objs s b)"
  "inhibitors (objs (closing_step a ev s) b) =
     (if b = a then (inhibitors (objs s a))(ev := False) else inhibitors (objs s b))"
  by (auto simp: closing_step_def clear_event_def fun_eq_iff)

lemma closing_step_pipe_inv [simp]: "pipe_inv (objs (closing_step a ev s) b) = pipe_inv (objs s b)"
  by (simp add: pipe_inv_def)

lemma emit_final_eq:
  assumes "\<forall>b. pipe_inv (objs s b)" and "named_pipe_path (objs s a) = None"
  shows "emit_final_loop (lock_get a) (lock_put a) (on_lock_signal signal_depth a) evs s =
    Some (fold (closing_step a) evs s)"
  using assms
proof (induction evs arbitrary: s)
  case (Cons e evs)
  let ?c = "clear_event a e s"
  have "\<forall>b. pipe_inv (objs ?c b)" "named_pipe_path (objs ?c a) = None"
    using Cons.prems by (auto simp: pipe_inv_def clear_event_def)
  from on_lock_signal_down [OF this, of "mode (objs s a)" e]
  have "on_lock_signal signal_depth a (mode (objs s a)) e False ?c =
      Some (signal_down a (mode (objs s a)) e ?c)" .
  then have "emit_final_loop (lock_get a) (lock_put a) (on_lock_signal signal_depth a) (e # evs) s =
      emit_final_loop (lock_get a) (lock_put a) (on_lock_signal signal_depth a) evs (closing_step a e s)"
    by (simp add: closing_step_def clear_event_def Let_def)
  with Cons.IH [of "closing_step a e s"] Cons.prems show ?case
    by (simp del: emit_final_loop.simps im_fields)
qed simp

lemma closing_fields [simp]:
  "next_obj (fold (closing_step a) evs s) = next_obj s"
  "named_pipe (objs (fold (closing_step a) evs s) b) = named_pipe (objs s b)"
  "named_pipe_path (objs (fold (closing_step a) evs s) b) = named_pipe_path (objs s b)"
  by (induction evs arbitrary: s) auto

lemma closing_keeps:
  "named_pipe_path (objs s a) = None \<Longrightarrow> named_pipe_path (objs s b) \<noteq> None \<Longrightarrow>
   b \<in> set (inhibit_list (fold (closing_step a) evs s)) \<longleftrightarrow> b \<in> set (inhibit_list s)"
proof (induction evs arbitrary: s)
  case (Cons e evs)
  have "b \<in> set (inhibit_list (closing_step a e s)) \<longleftrightarrow> b \<in> set (inhibit_list s)"
    using Cons.prems drop_unnamed_keeps [of "count_down (mode (objs s a)) e (clear_event a e s)" b]
    by (cases "b = a") (auto simp: closing_step_def signal_down_def clear_event_def)
  with Cons show ?case by simp
qed simp

lemma closing_step_core:
  assumes "im_core s x" and "named_pipe_path (objs s a) = None"
    and "inhibitors (objs s a) ev \<Longrightarrow> 0 < x (mode (objs s a)) ev"
  shows "im_core (closing_step a ev s) (\<lambda>m' ev'. x m' ev' - (if m' = mode (objs s a) \<and> ev' = ev then 1 else 0))"
    (is "im_core _ ?y")
proof (cases "inhibitors (objs s a) ev")
  case True
  have pipe: "named_pipe (objs s a) = - 1"
    using im_coreD(2) [OF assms(1)] assms(2) by (auto simp: pipe_inv_def)
  then have "lock_held (clear_event a ev s) = lock_held s" by (auto simp: lock_held_def clear_event_def fun_eq_iff)
  then have c: "im_core (clear_event a ev s) x"
    using assms(1) pipe
    by (auto simp: im_core_def held_def pipe_inv_def get_inhibit_status_def last_notified_def clear_event_def)
  show ?thesis
  proof (cases "connected s a")
    case True
    then show ?thesis
      using drop_unnamed_core [OF count_down_core [OF c assms(3)]] \<open>inhibitors (objs s a) ev\<close>
      by (simp add: closing_step_def signal_down_def clear_event_def)
  next
    case False
    then show ?thesis
      using im_core_weaken [OF c, of ?y] True by (simp add: closing_step_def signal_down_def clear_event_def)
  qed
next
  case False
  then show ?thesis using im_core_weaken [OF assms(1), of ?y] by (simp add: closing_step_def)
qed

lemma closing_core:
  assumes "im_core s x" and "distinct evs" and "named_pipe_path (objs s a) = None"
    and "\<And>ev. inhibitors (objs s a) ev \<Longrightarrow> ev \<in> set evs \<Longrightarrow> 0 < x (mode (objs s a)) ev"
  shows "\<exists>y. im_core (fold (closing_step a) evs s) y"
  using assms
proof (induction evs arbitrary: s x)
  case (Cons e evs)
  have "im_core (closing_step a e s) (\<lambda>m' ev'. x m' ev' - (if m' = mode (objs s a) \<and> ev' = e then 1 else 0))"
    using closing_step_core [OF Cons.prems(1,3)] Cons.prems(4) by simp
  then have "\<exists>y. im_core (fold (closing_step a) evs (closing_step a e s)) y"
    by (rule Cons.IH) (use Cons.prems in \<open>auto split: if_splits\<close>)
  then show ?case by simp
qed auto

subsection \<open>The invariant is kept\<close>

lemma im_invD:
  assumes "im_inv s"
  shows "im_core s (\<lambda>m ev. 0)" "named_pipe (objs s b) \<noteq> - 1 \<Longrightarrow> b \<in> set (inhibit_list s)"
  using assms by (auto simp: im_inv_def)

lemma im_inv_init [simp]: "im_inv ck_inhibit_manager_init"
  by (simp add: im_inv_def im_core_def ck_inhibit_manager_init_def held_def get_inhibit_status_def
      last_notified_def) (simp add: ck_inhibit_init_def pipe_inv_def)

lemma inhibit_list_init [simp]: "inhibit_list ck_inhibit_manager_init = []"
  by (simp add: ck_inhibit_manager_init_def)

lemma length_filter_split:
  "distinct xs \<Longrightarrow> a \<in> set xs \<Longrightarrow>
   length (filter P xs) = length (filter (\<lambda>b. P b \<and> b \<noteq> a) xs) + (if P a then 1 else 0)"
proof (induction xs)
  case (Cons y xs)
  have "y \<notin> set xs \<Longrightarrow> filter (\<lambda>b. P b \<and> b \<noteq> y) xs = filter P xs"
    by (auto intro: filter_cong)
  with Cons show ?case by auto
qed simp

text \<open>The lock just after \<open>close_named_pipe\<close> shut its pipe.\<close>

definition shut :: "nat \<Rightarrow> CkInhibitManager \<Rightarrow> CkInhibitManager" where
  "shut a s = lock_put a ((objs s a)\<lparr>named_pipe := - 1, named_pipe_path := None, fd_source := 0\<rparr>) s"

lemma shut_fields [simp]:
  "next_obj (shut a s) = next_obj s" "inhibit_list (shut a s) = inhibit_list s"
  "connected (shut a s) = connected s" "lock_counts (shut a s) = lock_counts s" "notified (shut a s) = notified s"
  "objs (shut a s) b =
     (if b = a then (objs s a)\<lparr>named_pipe := - 1, named_pipe_path := None, fd_source := 0\<rparr> else objs s b)"
  by (auto simp: shut_def)

lemma lock_hangup_eq:
  assumes "\<forall>b. pipe_inv (objs s b)"
  shows "lock_hangup a s =
     Some (if fd_source (objs s a) = 0 then s
           else if named_pipe (objs s a) = - 1 then lock_put a ((objs s a)\<lparr>fd_source := 0\<rparr>) s
           else fold (closing_step a) event_order (shut a s))"
proof -
  have "emit_final_uninhibit_signals (lock_get a) (lock_put a) (on_lock_signal signal_depth a) (shut a s) =
      Some (fold (closing_step a) event_order (shut a s))"
    unfolding emit_final_uninhibit_signals_def using assms by (intro emit_final_eq) (auto simp: pipe_inv_def)
  then show ?thesis
    by (simp add: lock_hangup_def cb_named_pipe_close_def close_named_pipe_def shut_def)
qed

lemma shut_core:
  assumes "im_core s (\<lambda>m ev. 0)" and "a \<in> set (inhibit_list s)"
  shows "im_core (shut a s) (\<lambda>m ev. if lock_held s m ev a then 1 else 0)"
proof -
  have "lock_held (shut a s) m ev = (\<lambda>b. lock_held s m ev b \<and> b \<noteq> a)" for m ev
    by (auto simp: lock_held_def fun_eq_iff)
  then have "held s m ev = held (shut a s) m ev + (if lock_held s m ev a then 1 else 0)" for m ev
    using length_filter_split [OF im_coreD(1) [OF assms(1)] assms(2), of "lock_held s m ev"]
    by (simp add: held_def)
  then show ?thesis
    using assms(1) by (auto simp: im_core_def get_inhibit_status_def last_notified_def pipe_inv_def)
qed

lemma im_inv_hangup:
  assumes "im_inv s"
  shows "\<exists>s'. lock_hangup a s = Some s' \<and> im_inv s'"
proof -
  note core = im_invD(1) [OF assms]
  consider (gone) "fd_source (objs s a) = 0" | (closed) "fd_source (objs s a) \<noteq> 0" "named_pipe (objs s a) = - 1"
    | (live) "fd_source (objs s a) \<noteq> 0" "named_pipe (objs s a) \<noteq> - 1" by blast
  then show ?thesis
  proof cases
    case gone
    then show ?thesis using assms by (simp add: lock_hangup_def)
  next
    case closed
    have "lock_held (lock_put a ((objs s a)\<lparr>fd_source := 0\<rparr>) s) = lock_held s"
      by (auto simp: lock_held_def fun_eq_iff)
    with closed assms show ?thesis
      by (auto simp: lock_hangup_eq im_coreD(2) [OF core] im_inv_def im_core_def held_def pipe_inv_def
          get_inhibit_status_def last_notified_def)
  next
    case live
    let ?t = "fold (closing_step a) event_order (shut a s)"
    have "a \<in> set (inhibit_list s)" using im_invD(2) [OF assms] live by blast
    from closing_core [OF shut_core [OF core this], of event_order a]
    obtain y where "im_core ?t y" using live by (auto simp: lock_held_def)
    then have t: "im_core ?t (\<lambda>m ev. 0)" by (rule im_core_weaken) simp
    have "b \<in> set (inhibit_list ?t)" if "named_pipe (objs ?t b) \<noteq> - 1" for b
    proof -
      have "b \<noteq> a" "named_pipe (objs s b) \<noteq> - 1" using that by (auto split: if_splits)
      moreover from this have "named_pipe_path (objs s b) \<noteq> None"
        using im_coreD(2) [OF core] by (auto simp: pipe_inv_def)
      ultimately show ?thesis
        using closing_keeps [of "shut a s" a b] im_invD(2) [OF assms, of b] by simp
    qed
    with t live show ?thesis by (simp add: lock_hangup_eq im_coreD(2) [OF core] im_inv_def)
  qed
qed

text \<open>The manager with a fresh, connected lock.\<close>

definition with_new_lock :: "CkInhibitManager \<Rightarrow> CkInhibitManager" where
  "with_new_lock s = s\<lparr>next_obj := Suc (next_obj s), objs := (objs s)(next_obj s := ck_inhibit_init),
     connected := (connected s)(next_obj s := True)\<rparr>"

definition append_lock :: "nat \<Rightarrow> CkInhibitManager \<Rightarrow> CkInhibitManager" where
  "append_lock a s = s\<lparr>inhibit_list := inhibit_list s @ [a]\<rparr>"

lemma create_lock_granted:
  assumes "lock_granted E awhat amode" and "pipe_env_ok E"
  shows "ck_inhibit_manager_create_lock E (Some awho) (Some awhat) (Some awhy) (Some amode) auid apid s =
    Some (client_fd E, append_lock (next_obj s) (fold (opening_step (next_obj s)) event_order
      (lock_put (next_obj s) (filled_lock E awho awhat awhy amode auid apid ck_inhibit_init) (with_new_lock s))))"
proof -
  let ?a = "next_obj s" and ?s = "with_new_lock s"
  have fd: "client_fd E \<noteq> - 1" using assms by (auto simp: lock_granted_def pipe_env_ok_def)
  have "named_pipe (lock_get ?a ?s) = - 1" by (simp add: with_new_lock_def ck_inhibit_init_def)
  note lock.create_granted [OF assms this, of "on_lock_signal signal_depth ?a" awho awhy auid apid]
  moreover have "emit_initial_inhibit_signals (lock_get ?a) (on_lock_signal signal_depth ?a) t =
      Some (fold (opening_step ?a) event_order t)" if "connected t ?a" for t
    using that by (simp add: emit_initial_inhibit_signals_def emit_initial_eq)
  ultimately show ?thesis
    using fd by (simp add: ck_inhibit_manager_create_lock_def Let_def with_new_lock_def append_lock_def)
qed

lemma create_lock_refused:
  assumes "\<not> lock_granted E awhat amode" and "pipe_env_ok E"
  shows "\<exists>i. ck_inhibit_manager_create_lock E (Some awho) (Some awhat) (Some awhy) (Some amode) auid apid s =
      Some (refusal_code E awhat amode,
        append_lock (next_obj s) (lock_put (next_obj s) i (with_new_lock s))) \<and> named_pipe i = - 1"
proof -
  let ?a = "next_obj s" and ?s = "with_new_lock s"
  have "named_pipe (lock_get ?a ?s) = - 1" by (simp add: with_new_lock_def ck_inhibit_init_def)
  from lock.create_refused [OF assms this, of "on_lock_signal signal_depth ?a" awho awhy auid apid]
  obtain i where "ck_inhibit_create_lock (lock_get ?a) (lock_put ?a) (on_lock_signal signal_depth ?a) E
      (Some awho) (Some awhat) (Some awhy) (Some amode) auid apid ?s =
      Some (refusal_code E awhat amode, lock_put ?a i ?s)" "named_pipe i = - 1" by blast
  moreover have "refusal_code E awhat amode \<noteq> - 1" by (simp add: refusal_code_def)
  ultimately show ?thesis
    by (auto simp: ck_inhibit_manager_create_lock_def Let_def with_new_lock_def append_lock_def)
qed

lemma append_lock_fields [simp]:
  "objs (append_lock a s) = objs s" "next_obj (append_lock a s) = next_obj s"
  "connected (append_lock a s) = connected s" "lock_counts (append_lock a s) = lock_counts s"
  "inhibit_list (append_lock a s) = inhibit_list s @ [a]" "notified (append_lock a s) = notified s"
  by (auto simp: append_lock_def)

lemma with_new_lock_fields [simp]:
  "next_obj (with_new_lock s) = Suc (next_obj s)" "inhibit_list (with_new_lock s) = inhibit_list s"
  "lock_counts (with_new_lock s) = lock_counts s" "notified (with_new_lock s) = notified s"
  "objs (with_new_lock s) = (objs s)(next_obj s := ck_inhibit_init)"
  "connected (with_new_lock s) = (connected s)(next_obj s := True)"
  by (auto simp: with_new_lock_def)

lemma new_lock_core:
  assumes "im_core s (\<lambda>m ev. 0)" and "pipe_inv i"
  shows "im_core (lock_put (next_obj s) i (with_new_lock s)) (\<lambda>m ev. 0)"
proof -
  have "next_obj s \<notin> set (inhibit_list s)" using im_coreD(6) [OF assms(1)] by blast
  then have "held (lock_put (next_obj s) i (with_new_lock s)) m ev = held s m ev" for m ev
    by (auto simp: held_def lock_held_def intro!: arg_cong [where f = length] filter_cong split: if_splits)
  with assms show ?thesis
    by (auto simp: im_core_def get_inhibit_status_def last_notified_def less_Suc_eq)
qed

lemma append_core:
  assumes "im_core s x" and "a \<notin> set (inhibit_list s)" and "a < next_obj s"
    and "\<And>m ev. lock_held s m ev a \<Longrightarrow> 0 < x m ev"
  shows "im_core (append_lock a s) (\<lambda>m ev. 0)"
proof -
  have "lock_held (append_lock a s) = lock_held s" by (simp add: lock_held_def fun_eq_iff)
  then have h: "held (append_lock a s) m ev = held s m ev + (if lock_held s m ev a then 1 else 0)" for m ev
    by (simp add: held_def)
  have "int (held (append_lock a s) m ev) \<le> lock_counts s m ev" for m ev
    using im_coreD(3) [OF assms(1), of m ev] assms(4) [of m ev] by (auto simp: h)
  with assms(1-3) show ?thesis
    by (auto simp: im_core_def get_inhibit_status_def last_notified_def)
qed

lemma im_inv_create:
  assumes "im_inv s" and "pipe_env_ok E"
  shows "\<exists>fd s'. ck_inhibit_manager_create_lock E (Some awho) (Some awhat) (Some awhy) (Some amode) auid apid s
     = Some (fd, s') \<and> im_inv s'"
proof (cases "lock_granted E awhat amode")
  case True
  let ?a = "next_obj s"
  define i where "i = filled_lock E awho awhat awhy amode auid apid ck_inhibit_init"
  let ?t = "lock_put ?a i (with_new_lock s)"
  let ?u = "fold (opening_step ?a) event_order ?t"
  have fresh: "?a \<notin> set (inhibit_list s)" using im_coreD(6) [OF im_invD(1) [OF assms(1)]] by blast
  have "pipe_inv i" using True by (simp add: i_def filled_lock_def pipe_inv_def lock_granted_def)
  from opening_core [OF new_lock_core [OF im_invD(1) [OF assms(1)] this], of event_order ?a]
  have "im_core (append_lock ?a ?u) (\<lambda>m ev. 0)"
    using fresh by (intro append_core) (auto simp: lock_held_def)
  then have "im_inv (append_lock ?a ?u)"
    using im_invD(2) [OF assms(1)] by (auto simp: im_inv_def)
  then show ?thesis
    unfolding create_lock_granted [OF True assms(2)] i_def [symmetric] by blast
next
  case False
  let ?a = "next_obj s"
  obtain i where i: "ck_inhibit_manager_create_lock E (Some awho) (Some awhat) (Some awhy) (Some amode) auid apid s =
      Some (refusal_code E awhat amode, append_lock ?a (lock_put ?a i (with_new_lock s)))" "named_pipe i = - 1"
    using create_lock_refused [OF False assms(2)] by blast
  have fresh: "?a \<notin> set (inhibit_list s)" using im_coreD(6) [OF im_invD(1) [OF assms(1)]] by blast
  have "pipe_inv i" using i by (simp add: pipe_inv_def)
  then have "im_core (append_lock ?a (lock_put ?a i (with_new_lock s))) (\<lambda>m ev. 0)"
    using fresh i(2) new_lock_core [OF im_invD(1) [OF assms(1)]]
    by (intro append_core) (auto simp: lock_held_def)
  then have "im_inv (append_lock ?a (lock_put ?a i (with_new_lock s)))"
    using im_invD(2) [OF assms(1)] i(2) by (auto simp: im_inv_def)
  with i(1) show ?thesis by blast
qed

lemma inhibit_step_inv:
  assumes "im_inv s" and "inhibit_event_ok e"
  shows "\<exists>s'. inhibit_step e s = Some s' \<and> im_inv s'"
proof (cases e)
  case (Lock_Request E awho awhat awhy amode auid apid)
  then obtain fd s' where "ck_inhibit_manager_create_lock E (Some awho) (Some awhat) (Some awhy)
      (Some amode) auid apid s = Some (fd, s')" "im_inv s'"
    using im_inv_create [OF assms(1)] assms(2) by fastforce
  with Lock_Request show ?thesis by simp
next
  case (Hangup a)
  with im_inv_hangup [OF assms(1)] show ?thesis by simp
qed

interpretation im: machine inhibit_step inhibit_event_ok "\<lambda>s. s = ck_inhibit_manager_init" im_inv
  by unfold_locales (auto simp: inhibit_step_inv)

subsection \<open>Releasing a lock\<close>

lemma closing_none: "(\<And>ev. ev \<in> set evs \<Longrightarrow> \<not> inhibitors (objs s a) ev) \<Longrightarrow> fold (closing_step a) evs s = s"
  by (induction evs arbitrary: s) (auto simp: closing_step_def)

lemma closing_disconnected:
  "\<not> connected s a \<Longrightarrow>
   lock_counts (fold (closing_step a) evs s) = lock_counts s \<and>
   inhibit_list (fold (closing_step a) evs s) = inhibit_list s"
  by (induction evs arbitrary: s) (auto simp: closing_step_def signal_down_def clear_event_def)

text \<open>The event whose signal a closing lock emits first.\<close>

definition first_event :: "CkInhibit \<Rightarrow> CkInhibitEvent" where
  "first_event i = hd (filter (inhibitors i) event_order)"

lemma first_event_split:
  assumes "inhibitors i ev"
  obtains pre post where "event_order = pre @ first_event i # post"
    "\<And>e. e \<in> set pre \<Longrightarrow> \<not> inhibitors i e" "inhibitors i (first_event i)"
proof -
  have "filter (inhibitors i) event_order \<noteq> []"
    using assms set_event_order [of ev] by (auto simp: filter_empty_conv)
  then obtain xs where "filter (inhibitors i) event_order = first_event i # xs"
    by (cases "filter (inhibitors i) event_order") (auto simp: first_event_def)
  from filter_eq_ConsD [OF this] show ?thesis using that by auto
qed

text \<open>
  Closing the only unnamed lock of the list: its first signal removes it from the list
  and disconnects it, so the signals of its other events reach nobody.
\<close>

lemma closing_last:
  assumes "inhibit_list s = L @ [a]" and "a \<notin> set L" and "connected s a"
    and "\<And>b. b \<in> set L \<Longrightarrow> named_pipe_path (objs s b) \<noteq> None"
    and "named_pipe_path (objs s a) = None" and "inhibitors (objs s a) ev"
  shows "inhibit_list (fold (closing_step a) event_order s) = L"
    "lock_counts (fold (closing_step a) event_order s) =
       lock_counts (count_down (mode (objs s a)) (first_event (objs s a)) s)"
proof -
  obtain pre post where split: "event_order = pre @ first_event (objs s a) # post"
    "\<And>e. e \<in> set pre \<Longrightarrow> \<not> inhibitors (objs s a) e" "inhibitors (objs s a) (first_event (objs s a))"
    using first_event_split [OF assms(6)] by blast
  let ?e = "first_event (objs s a)" and ?m = "mode (objs s a)"
  let ?t = "closing_step a ?e s" and ?c = "count_down ?m ?e (clear_event a ?e s)"
  have c: "inhibit_list ?c = L @ [a]" "connected ?c = connected s"
      "\<And>b. named_pipe_path (objs ?c b) = named_pipe_path (objs s b)"
    using assms(1) by (auto simp: clear_event_def)
  have "List.find (\<lambda>b. named_pipe_path (objs ?c b) = None) L = None"
    using assms(4) unfolding c(3) by (simp add: find_None_iff)
  then have find: "List.find (\<lambda>b. named_pipe_path (objs ?c b) = None) (inhibit_list ?c) = Some a"
    using assms(5) unfolding c(1) by (simp only: find_snoc c(3) if_True simp_thms)
  have t: "?t = drop_unnamed ?c"
    using split(3) assms(3) by (simp add: closing_step_def signal_down_def clear_event_def)
  have "inhibit_list ?t = L" "\<not> connected ?t a"
    unfolding t drop_unnamed_def find option.case using assms(2) c(1)
    by (simp_all add: remove1_append del: count_fields)
  moreover have "lock_counts ?t = lock_counts (count_down ?m ?e s)"
    unfolding t by (auto simp: fun_eq_iff clear_event_def)
  moreover have "fold (closing_step a) event_order s = fold (closing_step a) post ?t"
    unfolding split(1) using closing_none [of pre s a] split(2) by simp
  ultimately show "inhibit_list (fold (closing_step a) event_order s) = L"
    "lock_counts (fold (closing_step a) event_order s) = lock_counts (count_down ?m ?e s)"
    using closing_disconnected [of ?t a post] by auto
qed

text \<open>
  A lock with one event emits one signal when it closes. The list then loses its first lock with a NULL path,
  which is the closed lock itself when it is the only one.
\<close>

lemma closing_single:
  assumes "inhibitors (objs s a) = (\<lambda>ev. ev = e)" "connected s a"
  shows "fold (closing_step a) event_order s = drop_unnamed (count_down (mode (objs s a)) e (clear_event a e s))"
proof -
  obtain pre post where split: "event_order = pre @ e # post" using split_list [of e event_order] by auto
  moreover from this have "distinct (pre @ e # post)" using distinct_event_order by simp
  then have "e \<notin> set pre" "e \<notin> set post" by auto
  then have "fold (closing_step a) pre s = s" "fold (closing_step a) post (closing_step a e s) = closing_step a e s"
    using assms by (auto intro!: closing_none simp: closing_step_def signal_down_def clear_event_def split: if_splits)
  moreover have "closing_step a e s = drop_unnamed (count_down (mode (objs s a)) e (clear_event a e s))"
    using assms by (simp add: closing_step_def signal_down_def clear_event_def)
  ultimately show ?thesis by (simp add: split)
qed

lemma drop_unnamed_snoc:
  assumes "inhibit_list t = L @ [a]" "a \<notin> set L" "named_pipe_path (objs t a) = None"
    and "\<And>b. b \<in> set L \<Longrightarrow> named_pipe_path (objs t b) = named_pipe_path (objs s b)"
  shows "inhibit_list (drop_unnamed t) =
    (case List.find (\<lambda>b. named_pipe_path (objs s b) = None) L of None \<Rightarrow> L | Some b \<Rightarrow> remove1 b L @ [a])"
proof -
  have f: "List.find (\<lambda>b. named_pipe_path (objs t b) = None) (L @ [a]) =
      (case List.find (\<lambda>b. named_pipe_path (objs s b) = None) L of None \<Rightarrow> Some a | Some b \<Rightarrow> Some b)"
    using assms(3,4) by (induction L) auto
  show ?thesis
    using assms(2) unfolding drop_unnamed_def assms(1) f
    by (auto simp: assms(1) remove1_append dest: find_SomeD split: option.splits)
qed

text \<open>A lock that is granted and then released at once.\<close>

definition lock_mode :: "string \<Rightarrow> CkInhibitMode" where
  "lock_mode amode = (if amode = ''block'' then CK_INHIBIT_MODE_BLOCK else CK_INHIBIT_MODE_DELAY)"

definition all_named :: "CkInhibitManager \<Rightarrow> bool" where
  "all_named s = (\<forall>b \<in> set (inhibit_list s). named_pipe_path (objs s b) \<noteq> None)"

lemma granted_state:
  assumes "lock_granted E awhat amode" and "pipe_env_ok E" and "im_inv s"
    and "ck_inhibit_manager_create_lock E (Some awho) (Some awhat) (Some awhy) (Some amode) auid apid s = Some (fd, s1)"
  shows "inhibit_list s1 = inhibit_list s @ [next_obj s]" "next_obj s \<notin> set (inhibit_list s)"
    "connected s1 (next_obj s)" "fd_source (objs s1 (next_obj s)) \<noteq> 0" "named_pipe (objs s1 (next_obj s)) \<noteq> - 1"
    "named_pipe_path (objs s1 (next_obj s)) = get_named_pipe_path E"
    "mode (objs s1 (next_obj s)) = lock_mode amode"
    "inhibitors (objs s1 (next_obj s)) = (\<lambda>ev. ev \<in> what_events awhat)"
    "b \<noteq> next_obj s \<Longrightarrow> objs s1 b = objs s b"
    "lock_counts s1 m ev = lock_counts s m ev + (if m = lock_mode amode \<and> ev \<in> what_events awhat then 1 else 0)"
    "\<forall>b. pipe_inv (objs s1 b)"
proof -
  let ?a = "next_obj s"
  let ?i = "filled_lock E awho awhat awhy amode auid apid ck_inhibit_init"
  have s1: "s1 = append_lock ?a (fold (opening_step ?a) event_order (lock_put ?a ?i (with_new_lock s)))"
    using assms(4) create_lock_granted [OF assms(1,2)] by simp
  have i: "inhibitors ?i = (\<lambda>ev. ev \<in> what_events awhat)" "mode ?i = lock_mode amode"
      "named_pipe ?i \<noteq> - 1" "fd_source ?i \<noteq> 0" "named_pipe_path ?i = get_named_pipe_path E"
    using assms(1,2)
    by (auto simp: filled_lock_def ck_inhibit_init_def lock_mode_def lock_granted_def pipe_env_ok_def)
  show "inhibit_list s1 = inhibit_list s @ [?a]" "connected s1 ?a" "fd_source (objs s1 ?a) \<noteq> 0"
    "named_pipe (objs s1 ?a) \<noteq> - 1" "named_pipe_path (objs s1 ?a) = get_named_pipe_path E"
    "mode (objs s1 ?a) = lock_mode amode" "inhibitors (objs s1 ?a) = (\<lambda>ev. ev \<in> what_events awhat)"
    "b \<noteq> ?a \<Longrightarrow> objs s1 b = objs s b"
    using i by (auto simp: s1)
  show "?a \<notin> set (inhibit_list s)" using im_coreD(6) [OF im_invD(1) [OF assms(3)]] by blast
  show "lock_counts s1 m ev = lock_counts s m ev + (if m = lock_mode amode \<and> ev \<in> what_events awhat then 1 else 0)"
    using i by (auto simp: s1 opening_counts)
  show "\<forall>b. pipe_inv (objs s1 b)"
    using im_inv_create [OF assms(3,2), of awho awhat awhy amode auid apid] assms(4)
      im_coreD(2) [OF im_invD(1), of s1] by auto
qed

lemma release_counts:
  assumes "lock_granted E awhat amode" and "pipe_env_ok E" and "im_inv s" and "all_named s"
    and "ck_inhibit_manager_create_lock E (Some awho) (Some awhat) (Some awhy) (Some amode) auid apid s = Some (fd, s1)"
    and "t = fold (closing_step (next_obj s)) event_order (shut (next_obj s) s1)"
  shows "inhibit_list t = inhibit_list s"
    "lock_counts t m ev = lock_counts s m ev +
      (if m = lock_mode amode \<and> ev \<in> what_events awhat \<and> ev \<noteq> first_event (objs s1 (next_obj s)) then 1 else 0)"
    "first_event (objs s1 (next_obj s)) \<in> what_events awhat"
proof -
  let ?a = "next_obj s"
  note g = granted_state [OF assms(1-3,5)]
  obtain e where e: "e \<in> what_events awhat" using assms(1) by (auto simp: lock_granted_def)
  then have ie: "inhibitors (objs s1 ?a) e" by (simp add: g)
  have L: "inhibit_list (shut ?a s1) = inhibit_list s @ [?a]" by (simp add: g)
  have named: "named_pipe_path (objs (shut ?a s1) b) \<noteq> None" if "b \<in> set (inhibit_list s)" for b
    using that assms(4) g(2) g(9) [of b] by (cases "b = ?a") (auto simp: all_named_def)
  have fe: "first_event (objs (shut ?a s1) ?a) = first_event (objs s1 ?a)" by (simp add: first_event_def)
  note last = closing_last [OF L g(2) _ named, of e]
  show "first_event (objs s1 ?a) \<in> what_events awhat"
    using first_event_split [OF ie] by (auto simp: g)
  with last show "inhibit_list t = inhibit_list s"
    "lock_counts t m ev = lock_counts s m ev +
      (if m = lock_mode amode \<and> ev \<in> what_events awhat \<and> ev \<noteq> first_event (objs s1 ?a) then 1 else 0)"
    using ie fe by (auto simp: assms(6) g)
qed

lemma held_status:
  assumes "im_inv s" and "lock_held s m ev a"
  shows "get_inhibit_status s ev m"
proof -
  have "a \<in> set (inhibit_list s)" using assms im_invD(2) [OF assms(1)] by (auto simp: lock_held_def)
  then have "0 < held s m ev" using assms(2) by (auto simp: held_def filter_empty_conv)
  with im_coreD(3) [OF im_invD(1) [OF assms(1)], of m ev] show ?thesis by (simp add: get_inhibit_status_def)
qed

section \<open>Properties\<close>

text \<open>
  C3: Whatever locks are requested and whichever clients go away, every handler returns,
  and every lock whose pipe is open is reported: \<open>get_inhibit_status\<close> is TRUE for each of
  its events in its mode.
\<close>

theorem held_lock_is_inhibited:
  assumes "list_all inhibit_event_ok es"
  shows "\<exists>s. run inhibit_step es ck_inhibit_manager_init = Some s \<and>
    (\<forall>a m ev. lock_held s m ev a \<longrightarrow> get_inhibit_status s ev m)"
proof -
  obtain s where s: "run inhibit_step es ck_inhibit_manager_init = Some s" "im_inv s"
    using im.run_returns [OF refl assms] by blast
  with held_status show ?thesis by blast
qed

definition sample_env :: "nat \<Rightarrow> pipe_env" where
  "sample_env n = \<lparr>mkdir_ok = True, mkstemp_path = Some (''/run/'' @ dec n), tmp_close_ok = True,
     unlink_ok = True, mknod_ok = True, read_fd = int n, watch_id = n + 1, client_fd = int n + 1\<rparr>"

lemma sample_env_ok [simp]: "pipe_env_ok (sample_env n)"
  by (simp add: pipe_env_ok_def sample_env_def)

lemma sample_env_fields [simp]:
  "mkdir_ok (sample_env n)" "unlink_ok (sample_env n)" "mknod_ok (sample_env n)" "read_fd (sample_env n) = int n"
  by (auto simp: sample_env_def)

lemmas sample_eval = sample_env_def pipe_env_ok_def ck_inhibit_manager_create_lock_def
  ck_inhibit_create_lock_def parse_inhibitors_string_def g_strsplit_def inhibitor_of_token_def
  parse_mode_string_def create_named_pipe_def get_named_pipe_path_def create_inhibit_base_directory_def
  ck_inhibit_manager_init_def ck_inhibit_init_def emit_initial_inhibit_signals_def event_order_def
  on_lock_signal_def signal_depth_def add_count_def emit_changed_event_def lock_held_def
  get_inhibit_status_def numeral_2_eq_2 lock_hangup_def cb_named_pipe_close_def close_named_pipe_def
  emit_final_uninhibit_signals_def remove_lock_with_def ck_inhibit_get_named_pipe_path_def
  ck_inhibit_remove_lock_def last_notified_def

theorem held_lock_is_inhibited_witness:
  "\<exists>s. run inhibit_step [Lock_Request (sample_env 4) ''a'' ''shutdown:idle'' ''b'' ''block'' 0 1]
      ck_inhibit_manager_init = Some s \<and> lock_held s CK_INHIBIT_MODE_BLOCK CK_INHIBIT_EVENT_IDLE 0 \<and>
      get_inhibit_status s CK_INHIBIT_EVENT_IDLE CK_INHIBIT_MODE_BLOCK"
  using held_lock_is_inhibited [of "[Lock_Request (sample_env 4) ''a'' ''shutdown:idle'' ''b'' ''block'' 0 1]"]
  by (simp add: sample_eval)

text \<open>
  C17: The \<open>changed-event\<close> signals the manager emits are exact: in every state the last
  one for a mode and event (FALSE if there was none) is what \<open>get_inhibit_status\<close> reports.
\<close>

theorem notifications_match_status:
  assumes "list_all inhibit_event_ok es"
  shows "\<exists>s. run inhibit_step es ck_inhibit_manager_init = Some s \<and>
    (\<forall>m ev. get_inhibit_status s ev m = last_notified s m ev)"
  using im.run_returns [OF refl assms] im_coreD(5) [OF im_invD(1)] by blast

theorem notifications_match_status_witness:
  "\<exists>s. run inhibit_step [Lock_Request (sample_env 4) ''a'' ''sleep'' ''b'' ''delay'' 0 1, Hangup 0]
      ck_inhibit_manager_init = Some s \<and> length (notified s) = 2 \<and>
      get_inhibit_status s CK_INHIBIT_EVENT_SUSPEND CK_INHIBIT_MODE_DELAY =
      last_notified s CK_INHIBIT_MODE_DELAY CK_INHIBIT_EVENT_SUSPEND"
  using notifications_match_status
    [of "[Lock_Request (sample_env 4) ''a'' ''sleep'' ''b'' ''delay'' 0 1, Hangup 0]"]
  by (simp add: sample_eval)

text \<open>
  C18: Taking and releasing a lock on one event restores every counter. In every state the
  manager can reach, when the client of a granted single-event lock goes away the handlers return, the counters
  are what they were before the request, and so is the list of locks, if no lock of it has a NULL path. A lock of
  an earlier refused request has one: then the first such lock leaves the list in place of the released one, whose
  node stays behind.
\<close>

theorem single_event_lock_roundtrip:
  assumes "run inhibit_step es ck_inhibit_manager_init = Some s" and "list_all inhibit_event_ok es"
    and "pipe_env_ok E" and "lock_granted E awhat amode" and "what_events awhat = {e}"
  shows "\<exists>s1 s2. ck_inhibit_manager_create_lock E (Some awho) (Some awhat) (Some awhy) (Some amode) auid apid s
      = Some (client_fd E, s1) \<and>
    lock_held s1 (lock_mode amode) e (next_obj s) \<and>
    lock_hangup (next_obj s) s1 = Some s2 \<and>
    lock_counts s2 = lock_counts s \<and>
    inhibit_list s2 =
      (case List.find (\<lambda>b. named_pipe_path (objs s b) = None) (inhibit_list s) of
         None \<Rightarrow> inhibit_list s
       | Some b \<Rightarrow> remove1 b (inhibit_list s) @ [next_obj s])"
proof -
  let ?a = "next_obj s"
  have inv: "im_inv s" using im.run_returns [OF refl assms(2)] assms(1) by auto
  obtain s1 where c: "ck_inhibit_manager_create_lock E (Some awho) (Some awhat) (Some awhy) (Some amode) auid apid s
      = Some (client_fd E, s1)"
    using create_lock_granted [OF assms(4,3)] by blast
  note g = granted_state [OF assms(4,3) inv c]
  let ?t = "fold (closing_step ?a) event_order (shut ?a s1)"
  have "lock_hangup ?a s1 = Some ?t"
    using lock_hangup_eq [OF g(11), of ?a] g(4,5) by simp
  moreover have t: "?t = drop_unnamed (count_down (lock_mode amode) e (clear_event ?a e (shut ?a s1)))"
    using closing_single [of "shut ?a s1" ?a e] g assms(5) by (simp add: fun_eq_iff)
  have "lock_counts ?t = lock_counts s"
    unfolding t using assms(5) by (auto simp: fun_eq_iff clear_event_def g)
  moreover have "inhibit_list ?t =
      (case List.find (\<lambda>b. named_pipe_path (objs s b) = None) (inhibit_list s) of
         None \<Rightarrow> inhibit_list s | Some b \<Rightarrow> remove1 b (inhibit_list s) @ [?a])"
    unfolding t by (rule drop_unnamed_snoc) (auto simp: clear_event_def g g(2))
  moreover have "lock_held s1 (lock_mode amode) e ?a" using g assms(5) by (simp add: lock_held_def)
  ultimately show ?thesis using c by blast
qed

theorem single_event_lock_roundtrip_witness:
  "\<exists>s1 s2. ck_inhibit_manager_create_lock (sample_env 4) (Some ''a'') (Some ''sleep'') (Some ''b'')
      (Some ''delay'') 0 1 ck_inhibit_manager_init = Some (5, s1) \<and>
    lock_held s1 CK_INHIBIT_MODE_DELAY CK_INHIBIT_EVENT_SUSPEND 0 \<and> lock_hangup 0 s1 = Some s2 \<and>
    lock_counts s2 = lock_counts ck_inhibit_manager_init \<and> inhibit_list s2 = []"
proof -
  have "what_events ''sleep'' = {CK_INHIBIT_EVENT_SUSPEND}"
    by (auto simp: what_events_def what_tokens_def g_strsplit_def inhibitor_of_token_def)
  then show ?thesis
    using single_event_lock_roundtrip [of "[]" ck_inhibit_manager_init "sample_env 4" "''sleep''" "''delay''"
        CK_INHIBIT_EVENT_SUSPEND "''a''" "''b''" 0 1]
    by (simp add: ck_inhibit_manager_init_def lock_granted_def lock_mode_def)
      (simp add: ck_inhibit_manager_init_def [symmetric] sample_env_def get_named_pipe_path_def)
qed

text \<open>
  A lock that names several events is not released completely. When its client goes
  away the first signal disconnects the lock, the counters of its other events are never
  decremented, and each of them stays inhibited although the list of locks is empty.
\<close>

theorem multi_event_lock_leaks:
  assumes "pipe_env_ok E" and "lock_granted E awhat amode"
    and "e1 \<in> what_events awhat" and "e2 \<in> what_events awhat" and "e1 \<noteq> e2"
  shows "\<exists>s1 s2 ev. ck_inhibit_manager_create_lock E (Some awho) (Some awhat) (Some awhy) (Some amode)
      auid apid ck_inhibit_manager_init = Some (client_fd E, s1) \<and>
    lock_hangup 0 s1 = Some s2 \<and> ck_inhibit_manager_get_inhibit_list s2 = [] \<and>
    ev \<in> {e1, e2} \<and> get_inhibit_status s2 ev (lock_mode amode)"
proof -
  let ?s = ck_inhibit_manager_init
  have z: "next_obj ?s = 0" "all_named ?s" "lock_counts ?s m ev = 0" "inhibit_list ?s = []" for m ev
    by (auto simp: ck_inhibit_manager_init_def all_named_def)
  obtain s1 where c: "ck_inhibit_manager_create_lock E (Some awho) (Some awhat) (Some awhy) (Some amode)
      auid apid ?s = Some (client_fd E, s1)"
    using create_lock_granted [OF assms(2,1)] by blast
  note g = granted_state [OF assms(2,1) im_inv_init c]
  let ?t = "fold (closing_step (next_obj ?s)) event_order (shut (next_obj ?s) s1)"
  have "lock_hangup 0 s1 = Some ?t"
    using lock_hangup_eq [OF g(11), of "next_obj ?s"] g(4,5) by (simp add: z)
  moreover have "inhibit_list ?t = []"
    using release_counts(1) [OF assms(2,1) im_inv_init z(2) c refl] z(4) by simp
  moreover obtain ev where "ev \<in> {e1, e2}" "ev \<noteq> first_event (objs s1 (next_obj ?s))"
    using assms(5) by blast
  moreover from this have "get_inhibit_status ?t ev (lock_mode amode)"
    unfolding get_inhibit_status_def
    using release_counts(2) [OF assms(2,1) im_inv_init z(2) c refl, of "lock_mode amode" ev] assms(3,4) z(3)
    by auto
  ultimately show ?thesis using c by (auto simp: ck_inhibit_manager_get_inhibit_list_def)
qed

theorem multi_event_lock_leaks_witness:
  "\<exists>s1 s2 ev. ck_inhibit_manager_create_lock (sample_env 4) (Some ''a'') (Some ''shutdown:sleep'') (Some ''b'')
      (Some ''block'') 0 1 ck_inhibit_manager_init = Some (client_fd (sample_env 4), s1) \<and>
    lock_hangup 0 s1 = Some s2 \<and> ck_inhibit_manager_get_inhibit_list s2 = [] \<and>
    ev \<in> {CK_INHIBIT_EVENT_SHUTDOWN, CK_INHIBIT_EVENT_SUSPEND} \<and>
    get_inhibit_status s2 ev CK_INHIBIT_MODE_BLOCK"
proof -
  have ev: "CK_INHIBIT_EVENT_SHUTDOWN \<in> what_events ''shutdown:sleep''"
    "CK_INHIBIT_EVENT_SUSPEND \<in> what_events ''shutdown:sleep''"
    by (auto simp: what_events_def what_tokens_def g_strsplit_def inhibitor_of_token_def)
  then have "lock_granted (sample_env 4) ''shutdown:sleep'' ''block''"
    by (auto simp: lock_granted_def sample_env_def get_named_pipe_path_def)
  from multi_event_lock_leaks [OF sample_env_ok this ev, of "''a''" "''b''" 0 1]
  show ?thesis by (simp add: lock_mode_def)
qed

text \<open>
  A refused request reports the code of the first check that failed and changes no
  counter, but the lock object that was never opened stays in the list of locks.
\<close>

theorem refused_lock_stays_listed:
  assumes "pipe_env_ok E" and "\<not> lock_granted E awhat amode"
  shows "\<exists>s'. ck_inhibit_manager_create_lock E (Some awho) (Some awhat) (Some awhy) (Some amode) auid apid s
      = Some (refusal_code E awhat amode, s') \<and>
    lock_counts s' = lock_counts s \<and> notified s' = notified s \<and>
    ck_inhibit_manager_get_inhibit_list s' = ck_inhibit_manager_get_inhibit_list s @ [next_obj s] \<and>
    named_pipe (objs s' (next_obj s)) = - 1"
proof -
  obtain i where "ck_inhibit_manager_create_lock E (Some awho) (Some awhat) (Some awhy) (Some amode) auid apid s =
      Some (refusal_code E awhat amode,
        append_lock (next_obj s) (lock_put (next_obj s) i (with_new_lock s)))" "named_pipe i = - 1"
    using create_lock_refused [OF assms(2,1)] by blast
  then show ?thesis by (simp add: ck_inhibit_manager_get_inhibit_list_def)
qed

theorem refused_lock_stays_listed_witness:
  "\<exists>s'. ck_inhibit_manager_create_lock (sample_env 4) (Some ''a'') (Some ''reboot'') (Some ''b'') (Some ''block'')
      0 1 ck_inhibit_manager_init = Some (CK_INHIBIT_ERROR_INVALID_INPUT, s') \<and>
    ck_inhibit_manager_get_inhibit_list s' = [0]"
proof -
  have w: "what_events ''reboot'' = {}"
    by (auto simp: what_events_def what_tokens_def g_strsplit_def inhibitor_of_token_def)
  then have "\<not> lock_granted (sample_env 4) ''reboot'' ''block''" by (simp add: lock_granted_def)
  from refused_lock_stays_listed [OF sample_env_ok this, of "''a''" "''b''" 0 1 ck_inhibit_manager_init] w
  show ?thesis
    by (simp add: refusal_code_def sample_env_def)
      (auto simp: ck_inhibit_manager_get_inhibit_list_def ck_inhibit_manager_init_def)
qed

text \<open>
  Removing an open lock by its path reads freed memory: the signals of the closing
  lock remove its list node, which \<open>ck_inhibit_manager_remove_lock\<close> then dereferences
  (the model's \<open>None\<close>).
\<close>

theorem remove_open_lock_uses_freed_node:
  assumes "im_inv s" and "all_named s" and "pipe_env_ok E" and "lock_granted E awhat amode"
    and "\<forall>b \<in> set (inhibit_list s). named_pipe_path (objs s b) \<noteq> get_named_pipe_path E"
  shows "\<exists>s1. ck_inhibit_manager_create_lock E (Some awho) (Some awhat) (Some awhy) (Some amode) auid apid s
      = Some (client_fd E, s1) \<and>
    ck_inhibit_manager_remove_lock (get_named_pipe_path E) s1 = None"
proof -
  let ?a = "next_obj s"
  obtain s1 where c: "ck_inhibit_manager_create_lock E (Some awho) (Some awhat) (Some awhy) (Some amode) auid apid s
      = Some (client_fd E, s1)"
    using create_lock_granted [OF assms(4,3)] by blast
  note g = granted_state [OF assms(4,3,1) c]
  let ?t = "fold (closing_step ?a) event_order (shut ?a s1)"
  have "List.find (\<lambda>b. named_pipe_path (objs s1 b) = get_named_pipe_path E) (inhibit_list s) = None"
    using assms(5) g(2,9) by (metis (mono_tags, lifting) find_None_iff)
  then have find: "List.find (\<lambda>b. named_pipe_path (objs s1 b) = get_named_pipe_path E) (inhibit_list s1) = Some ?a"
    unfolding g(1) using g(6) by (simp add: find_snoc)
  have "emit_final_uninhibit_signals (lock_get ?a) (lock_put ?a) (on_lock_signal signal_depth ?a) (shut ?a s1) = Some ?t"
    unfolding emit_final_uninhibit_signals_def using g(11) by (intro emit_final_eq) (auto simp: pipe_inv_def)
  then have "ck_inhibit_remove_lock (lock_get ?a) (lock_put ?a) (on_lock_signal signal_depth ?a) s1 = Some ?t"
    using g(5) by (simp add: ck_inhibit_remove_lock_def close_named_pipe_def shut_def)
  moreover have "?a \<notin> set (inhibit_list ?t)"
    using release_counts(1) [OF assms(4,3,1,2) c refl] g(2) by simp
  ultimately have "ck_inhibit_manager_remove_lock (get_named_pipe_path E) s1 = None"
    using find by (simp add: ck_inhibit_manager_remove_lock_def remove_lock_with_def ck_inhibit_get_named_pipe_path_def)
  with c show ?thesis by blast
qed

theorem remove_open_lock_uses_freed_node_witness:
  "\<exists>s1. ck_inhibit_manager_create_lock (sample_env 4) (Some ''a'') (Some ''sleep'') (Some ''b'') (Some ''block'') 0 1
      ck_inhibit_manager_init = Some (5, s1) \<and>
    ck_inhibit_manager_remove_lock (Some ''/run/4'') s1 = None"
proof -
  have "dec 4 = ''4''" by code_simp
  then have p: "get_named_pipe_path (sample_env 4) = Some ''/run/4''" "client_fd (sample_env 4) = 5"
    by (simp_all add: sample_env_def get_named_pipe_path_def)
  have "what_events ''sleep'' = {CK_INHIBIT_EVENT_SUSPEND}"
    by (auto simp: what_events_def what_tokens_def g_strsplit_def inhibitor_of_token_def)
  then have "lock_granted (sample_env 4) ''sleep'' ''block''"
    by (simp add: lock_granted_def p(1))
  from remove_open_lock_uses_freed_node [OF im_inv_init _ sample_env_ok this, of "''a''" "''b''" 0 1]
  show ?thesis unfolding p
    by (simp add: all_named_def)
qed

end
