(* ===== verification/CK_Device.thy ===== *)
theory CK_Device
  imports CK_Prelude
begin

text \<open>
  Devices handed to a session controller: src/src/ck-device-udev.c and ck-device.h, and the build
  without them, src/src/ck-device-none.c.

  The answers of udev, open and the ioctls are the record \<open>device_env\<close>. The ioctls and
  closes a device performs are recorded, newest last, in \<open>dev_trace\<close>.
\<close>

datatype CkDeviceCategory = DEVICE_OTHER | DEVICE_DRM | DEVICE_EVDEV

datatype device_call = Set_Master int | Drop_Master int | Revoke int | Close_Fd int

record CkDevice =
  dev_major :: nat
  dev_minor :: nat
  udevice :: bool
  devnode :: cstring
  category :: CkDeviceCategory
  dev_fd :: int
  dev_state :: bool
  dev_trace :: "device_call list"

text \<open>
  \<open>udev_device major minor\<close> is what udev knows of a device: subsystem, sysname and device node.
\<close>

record device_env =
  udev_ok :: bool
  udev_device :: "nat \<Rightarrow> nat \<Rightarrow> (cstring \<times> string \<times> cstring) option"
  dev_open :: "string \<Rightarrow> int"
  set_master_ok :: "int \<Rightarrow> bool"

definition dev_call :: "device_call \<Rightarrow> CkDevice \<Rightarrow> CkDevice" where
  "dev_call c d = d\<lparr>dev_trace := dev_trace d @ [c]\<rparr>"

definition ck_device_evdev_revoke :: "int \<Rightarrow> CkDevice \<Rightarrow> CkDevice" where
  "ck_device_evdev_revoke fd d = (if fd < 0 then d else dev_call (Revoke fd) d)"

text \<open>Whether the request succeeded, and the device with the ioctl recorded.\<close>

definition change_drm_master :: "(int \<Rightarrow> bool) \<Rightarrow> (int \<Rightarrow> device_call) \<Rightarrow> int \<Rightarrow> CkDevice \<Rightarrow> bool \<times> CkDevice" where
  "change_drm_master ioctl_ok request fd d = (if fd < 0 then (False, d) else (ioctl_ok fd, dev_call (request fd) d))"

definition ck_device_drm_set_master :: "device_env \<Rightarrow> int \<Rightarrow> CkDevice \<Rightarrow> bool \<times> CkDevice" where
  "ck_device_drm_set_master E fd d = change_drm_master (set_master_ok E) Set_Master fd d"

text \<open>Nobody looks at the result of dropping.\<close>

definition ck_device_drm_drop_master :: "int \<Rightarrow> CkDevice \<Rightarrow> CkDevice" where
  "ck_device_drm_drop_master fd d = snd (change_drm_master (\<lambda>_. True) Drop_Master fd d)"

definition ck_device_open :: "device_env \<Rightarrow> bool \<Rightarrow> CkDevice \<Rightarrow> int \<times> CkDevice" where
  "ck_device_open E active d =
     (if \<not> udevice d then (- 1, d)
      else case devnode d of
        None \<Rightarrow> (- 1, d)
      | Some node \<Rightarrow>
          let fd = dev_open E node in
          if fd < 0 then (- 1, d)
          else case category d of
            DEVICE_DRM \<Rightarrow>
              if active then
                (case ck_device_drm_set_master E fd d of
                   (ok, d) \<Rightarrow> if ok then (fd, d) else (- 1, dev_call (Close_Fd fd) d))
              else (fd, ck_device_drm_drop_master fd d)
          | DEVICE_EVDEV \<Rightarrow> (fd, if active then d else ck_device_evdev_revoke fd d)
          | DEVICE_OTHER \<Rightarrow> (fd, d))"

definition device_category :: "cstring \<Rightarrow> string \<Rightarrow> CkDeviceCategory" where
  "device_category subsystem sysname =
     (if subsystem = Some ''drm'' \<and> take 4 sysname = ''card'' then DEVICE_DRM
      else if subsystem = Some ''input'' \<and> take 5 sysname = ''event'' then DEVICE_EVDEV
      else DEVICE_OTHER)"

definition ck_device_new :: "device_env \<Rightarrow> nat \<Rightarrow> nat \<Rightarrow> bool \<Rightarrow> CkDevice option" where
  "ck_device_new E major minor active =
     (if \<not> udev_ok E then None
      else case udev_device E major minor of
        None \<Rightarrow> None
      | Some (subsystem, sysname, node) \<Rightarrow>
          let d = \<lparr>dev_major = major, dev_minor = minor, udevice = True, devnode = node,
                   category = device_category subsystem sysname, dev_fd = - 1, dev_state = active,
                   dev_trace = []\<rparr>
          in if category d = DEVICE_OTHER then Some d
             else
               let (fd, d) = ck_device_open E active d in
               if fd < 0 \<and> active
               then (case ck_device_open E False d of (fd, d) \<Rightarrow> Some (d\<lparr>dev_fd := fd\<rparr>))
               else Some (d\<lparr>dev_fd := fd\<rparr>))"

definition ck_device_set_active :: "device_env \<Rightarrow> bool \<Rightarrow> CkDevice \<Rightarrow> CkDevice" where
  "ck_device_set_active E active d =
     (if dev_state d = active then d
      else
        let d = d\<lparr>dev_state := active\<rparr> in
        case category d of
          DEVICE_DRM \<Rightarrow>
            if active then snd (ck_device_drm_set_master E (dev_fd d) d)
            else ck_device_drm_drop_master (dev_fd d) d
        | DEVICE_EVDEV \<Rightarrow>
            if active
            then (case ck_device_open E active (dev_call (Close_Fd (dev_fd d)) d) of
                    (fd, d) \<Rightarrow> d\<lparr>dev_fd := fd\<rparr>)
            else ck_device_evdev_revoke (dev_fd d) d
        | DEVICE_OTHER \<Rightarrow> d)"

definition ck_device_finalize :: "device_env \<Rightarrow> CkDevice \<Rightarrow> CkDevice" where
  "ck_device_finalize E d =
     (let d = ck_device_set_active E False d in
      if 0 \<le> dev_fd d then dev_call (Close_Fd (dev_fd d)) d else d)"

definition ck_device_get_active :: "CkDevice \<Rightarrow> bool" where
  "ck_device_get_active d = dev_state d"

definition ck_device_get_major :: "CkDevice \<Rightarrow> nat" where
  "ck_device_get_major d = dev_major d"

definition ck_device_get_minor :: "CkDevice \<Rightarrow> nat" where
  "ck_device_get_minor d = dev_minor d"

definition ck_device_get_fd :: "CkDevice \<Rightarrow> int" where
  "ck_device_get_fd d = dev_fd d"

definition ck_device_get_category :: "CkDevice \<Rightarrow> CkDeviceCategory" where
  "ck_device_get_category d = category d"

definition ck_device_compare_devices :: "CkDevice \<Rightarrow> CkDevice \<Rightarrow> bool" where
  "ck_device_compare_devices d e = (dev_major d = dev_major e \<and> dev_minor d = dev_minor e)"

definition ck_device_compare :: "CkDevice \<Rightarrow> nat \<Rightarrow> nat \<Rightarrow> bool" where
  "ck_device_compare d major minor = (dev_major d = major \<and> dev_minor d = minor)"

definition ck_device_is_server_managed :: bool where
  "ck_device_is_server_managed = True"

section \<open>The build without udev\<close>

text \<open>src/src/ck-device-none.c: no device can be created, so no operation ever gets one.\<close>

definition ck_device_new_none :: "nat \<Rightarrow> nat \<Rightarrow> bool \<Rightarrow> CkDevice option" where
  "ck_device_new_none major minor active = None"

definition ck_device_set_active_none :: "bool \<Rightarrow> CkDevice \<Rightarrow> CkDevice" where
  "ck_device_set_active_none active d = d"

definition ck_device_get_active_none :: "CkDevice \<Rightarrow> bool" where
  "ck_device_get_active_none d = False"

definition ck_device_get_major_none :: "CkDevice \<Rightarrow> nat" where
  "ck_device_get_major_none d = 0"

definition ck_device_get_minor_none :: "CkDevice \<Rightarrow> nat" where
  "ck_device_get_minor_none d = 0"

definition ck_device_get_fd_none :: "CkDevice \<Rightarrow> int" where
  "ck_device_get_fd_none d = - 1"

definition ck_device_get_category_none :: "CkDevice \<Rightarrow> CkDeviceCategory" where
  "ck_device_get_category_none d = DEVICE_OTHER"

definition ck_device_compare_devices_none :: "CkDevice \<Rightarrow> CkDevice \<Rightarrow> bool" where
  "ck_device_compare_devices_none d e = False"

definition ck_device_compare_none :: "CkDevice \<Rightarrow> nat \<Rightarrow> nat \<Rightarrow> bool" where
  "ck_device_compare_none d major minor = False"

definition ck_device_is_server_managed_none :: bool where
  "ck_device_is_server_managed_none = False"

section \<open>Lemmas\<close>

lemma dev_call_fields [simp]:
  "dev_major (dev_call c d) = dev_major d" "dev_minor (dev_call c d) = dev_minor d"
  "dev_state (dev_call c d) = dev_state d" "category (dev_call c d) = category d"
  "dev_fd (dev_call c d) = dev_fd d" "udevice (dev_call c d) = udevice d" "devnode (dev_call c d) = devnode d"
  by (auto simp: dev_call_def)

lemmas device_ops [ck_defs] = ck_device_evdev_revoke_def ck_device_drm_set_master_def
  ck_device_drm_drop_master_def change_drm_master_def

lemma device_ops_state [simp]:
  "dev_major (ck_device_drm_drop_master fd d) = dev_major d" "dev_minor (ck_device_drm_drop_master fd d) = dev_minor d"
  "dev_state (ck_device_drm_drop_master fd d) = dev_state d"
  "dev_major (ck_device_evdev_revoke fd d) = dev_major d" "dev_minor (ck_device_evdev_revoke fd d) = dev_minor d"
  "dev_state (ck_device_evdev_revoke fd d) = dev_state d"
  "dev_major (snd (ck_device_drm_set_master E fd d)) = dev_major d"
  "dev_minor (snd (ck_device_drm_set_master E fd d)) = dev_minor d"
  "dev_state (snd (ck_device_drm_set_master E fd d)) = dev_state d"
  by (auto simp: device_ops)

lemma ck_device_open_state:
  assumes "ck_device_open E active d = (fd, d')"
  shows "dev_major d' = dev_major d \<and> dev_minor d' = dev_minor d \<and> dev_state d' = dev_state d"
  using assms
  by (auto simp: ck_device_open_def device_ops Let_def split: option.splits CkDeviceCategory.splits if_splits)

lemma ck_device_set_active_fields [simp]:
  "dev_state (ck_device_set_active E active d) = active"
  "dev_major (ck_device_set_active E active d) = dev_major d"
  "dev_minor (ck_device_set_active E active d) = dev_minor d"
  by (auto simp: ck_device_set_active_def Let_def dest!: ck_device_open_state
      split: CkDeviceCategory.splits prod.splits)

lemma ck_device_new_fields:
  assumes "ck_device_new E major minor active = Some d"
  shows "dev_major d = major" "dev_minor d = minor" "dev_state d = active"
  using assms
  by (auto simp: ck_device_new_def Let_def dest!: ck_device_open_state
      split: if_splits option.splits prod.splits)

end
