(* ===== verification/CK_TtyIdle.thy ===== *)
theory CK_TtyIdle
  imports CK_Prelude
begin

text \<open>
  The idle monitor of a text session's terminal: src/src/ck-tty-idle-monitor.c.

  The record is the private structure, with the pending timeout's delay, the watches
  registered at the file monitor and the emitted \<open>idle-hint-changed\<close> signals added. The
  answers a check gets from outside (the stat of the device, the clock, the identifiers
  of new timeouts and watches) are the record \<open>tty_env\<close>; a watch identifier 0 is a
  watch the file monitor could not add.
\<close>

section \<open>State\<close>

record CkTtyIdleMonitor =
  tm_device :: cstring
  tm_threshold :: nat
  tm_timeout_id :: nat
  tm_idle_hint :: bool
  tm_file_monitor :: bool
  tm_file_notify_id :: nat
  tm_delay :: nat
  tm_watches :: "nat list"
  tm_signals :: "bool list"

record tty_env =
  te_atime :: "int option"
  te_now :: int
  te_timeout_id :: nat
  te_notify_id :: nat

definition DEFAULT_THRESHOLD_SECONDS :: nat where
  "DEFAULT_THRESHOLD_SECONDS = 30"

section \<open>Operations\<close>

definition ck_tty_idle_monitor_init :: CkTtyIdleMonitor where
  "ck_tty_idle_monitor_init = \<lparr>tm_device = None, tm_threshold = DEFAULT_THRESHOLD_SECONDS,
     tm_timeout_id = 0, tm_idle_hint = False, tm_file_monitor = False, tm_file_notify_id = 0,
     tm_delay = 0, tm_watches = [], tm_signals = []\<rparr>"

definition ck_tty_idle_monitor_set_device :: "cstring \<Rightarrow> CkTtyIdleMonitor \<Rightarrow> CkTtyIdleMonitor" where
  "ck_tty_idle_monitor_set_device dev m = m\<lparr>tm_device := dev\<rparr>"

definition ck_tty_idle_monitor_set_threshold :: "nat \<Rightarrow> CkTtyIdleMonitor \<Rightarrow> CkTtyIdleMonitor" where
  "ck_tty_idle_monitor_set_threshold t m = m\<lparr>tm_threshold := t\<rparr>"

definition ck_tty_idle_monitor_new :: "cstring \<Rightarrow> CkTtyIdleMonitor" where
  "ck_tty_idle_monitor_new dev = ck_tty_idle_monitor_set_device dev ck_tty_idle_monitor_init"

definition tty_idle_monitor_set_idle_hint_internal :: "bool \<Rightarrow> CkTtyIdleMonitor \<Rightarrow> CkTtyIdleMonitor" where
  "tty_idle_monitor_set_idle_hint_internal hint m =
     (if tm_idle_hint m \<noteq> hint then m\<lparr>tm_idle_hint := hint, tm_signals := tm_signals m @ [hint]\<rparr> else m)"

definition remove_idle_hint_timeout :: "CkTtyIdleMonitor \<Rightarrow> CkTtyIdleMonitor" where
  "remove_idle_hint_timeout m = (if 0 < tm_timeout_id m then m\<lparr>tm_timeout_id := 0\<rparr> else m)"

definition monitor_add_watch :: "nat \<Rightarrow> CkTtyIdleMonitor \<Rightarrow> bool \<times> CkTtyIdleMonitor" where
  "monitor_add_watch nid m =
     (0 < nid, m\<lparr>tm_file_monitor := True, tm_file_notify_id := nid,
        tm_watches := (if 0 < nid then nid # tm_watches m else tm_watches m)\<rparr>)"

text \<open>The identifier is kept after its watch was removed.\<close>

definition monitor_remove_watch :: "CkTtyIdleMonitor \<Rightarrow> CkTtyIdleMonitor" where
  "monitor_remove_watch m =
     (if tm_file_monitor m \<and> 0 < tm_file_notify_id m
      then m\<lparr>tm_watches := filter (\<lambda>w. w \<noteq> tm_file_notify_id m) (tm_watches m)\<rparr> else m)"

definition schedule_tty_check :: "nat \<Rightarrow> nat \<Rightarrow> CkTtyIdleMonitor \<Rightarrow> CkTtyIdleMonitor" where
  "schedule_tty_check tid seconds m =
     (if tm_timeout_id m = 0 then m\<lparr>tm_timeout_id := tid, tm_delay := seconds\<rparr> else m)"

definition add_idle_hint_timeout :: "nat \<Rightarrow> CkTtyIdleMonitor \<Rightarrow> CkTtyIdleMonitor" where
  "add_idle_hint_timeout tid m = schedule_tty_check tid (tm_threshold m) m"

definition ck_tty_idle_monitor_stop :: "CkTtyIdleMonitor \<Rightarrow> CkTtyIdleMonitor" where
  "ck_tty_idle_monitor_stop m = monitor_remove_watch (remove_idle_hint_timeout m)"

definition ck_tty_idle_monitor_start :: "nat \<Rightarrow> CkTtyIdleMonitor \<Rightarrow> CkTtyIdleMonitor" where
  "ck_tty_idle_monitor_start tid m = add_idle_hint_timeout tid (ck_tty_idle_monitor_stop m)"

definition file_access_cb :: "nat \<Rightarrow> CkTtyIdleMonitor \<Rightarrow> CkTtyIdleMonitor" where
  "file_access_cb tid m = ck_tty_idle_monitor_start tid (tty_idle_monitor_set_idle_hint_internal False m)"

text \<open>An access time in the future counts as now.\<close>

definition tty_idletime :: "int \<Rightarrow> int \<Rightarrow> nat" where
  "tty_idletime atime now = nat (now - (if atime > now then now else atime))"

definition check_tty_idle :: "tty_env \<Rightarrow> CkTtyIdleMonitor \<Rightarrow> CkTtyIdleMonitor" where
  "check_tty_idle E m =
     (let m = m\<lparr>tm_timeout_id := 0\<rparr> in
      if tm_device m = None then m
      else case te_atime E of
        None \<Rightarrow> m
      | Some atime \<Rightarrow>
          let idletime = tty_idletime atime (te_now E);
              is_idle = (tm_threshold m \<le> idletime);
              m = tty_idle_monitor_set_idle_hint_internal is_idle m
          in if is_idle
             then (case monitor_add_watch (te_notify_id E) m of
                     (ok, m) \<Rightarrow> if ok then m else schedule_tty_check (te_timeout_id E) (tm_threshold m) m)
             else let remaining = tm_threshold m - idletime
               in schedule_tty_check (te_timeout_id E) (if 0 < remaining then remaining else tm_threshold m) m)"

definition ck_tty_idle_monitor_finalize :: "CkTtyIdleMonitor \<Rightarrow> CkTtyIdleMonitor" where
  "ck_tty_idle_monitor_finalize m = (ck_tty_idle_monitor_stop m)\<lparr>tm_device := None\<rparr>"

text \<open>
  What drives a running monitor: its timeout fires, or the device is accessed while a
  watch for it is registered.
\<close>

datatype tty_event = Tty_Timeout tty_env | Tty_Access nat nat

fun tty_step :: "tty_event \<Rightarrow> CkTtyIdleMonitor \<Rightarrow> CkTtyIdleMonitor option" where
  "tty_step (Tty_Timeout E) m = Some (if tm_timeout_id m = 0 then m else check_tty_idle E m)"
| "tty_step (Tty_Access w tid) m = Some (if w \<in> set (tm_watches m) then file_access_cb tid m else m)"

text \<open>The main loop's timeout identifiers are positive, and the device can be examined.\<close>

fun tty_event_ok :: "tty_event \<Rightarrow> bool" where
  "tty_event_ok (Tty_Timeout E) = (te_atime E \<noteq> None \<and> 0 < te_timeout_id E)"
| "tty_event_ok (Tty_Access w tid) = (0 < tid)"

section \<open>Invariant\<close>

text \<open>Something will wake the monitor up: a timeout, or a registered watch.\<close>

definition tty_armed :: "CkTtyIdleMonitor \<Rightarrow> bool" where
  "tty_armed m = (tm_timeout_id m \<noteq> 0 \<or> (tm_file_notify_id m \<noteq> 0 \<and> tm_file_notify_id m \<in> set (tm_watches m)))"

definition tty_inv :: "CkTtyIdleMonitor \<Rightarrow> bool" where
  "tty_inv m = (tm_device m \<noteq> None \<and> tty_armed m \<and>
     (tm_signals m \<noteq> [] \<longrightarrow> tm_idle_hint m = last (tm_signals m)) \<and>
     (tm_signals m = [] \<longrightarrow> \<not> tm_idle_hint m))"

lemmas tty_ops [ck_defs] = tty_idle_monitor_set_idle_hint_internal_def monitor_add_watch_def
  monitor_remove_watch_def schedule_tty_check_def add_idle_hint_timeout_def remove_idle_hint_timeout_def
  ck_tty_idle_monitor_stop_def ck_tty_idle_monitor_start_def file_access_cb_def

lemma tty_start_inv:
  assumes "tm_device m \<noteq> None" and "tm_signals m = []" and "\<not> tm_idle_hint m" and "0 < tid"
  shows "tty_inv (ck_tty_idle_monitor_start tid m)"
  using assms by (auto simp: tty_inv_def tty_armed_def tty_ops)

lemma tty_access_inv: "tty_inv m \<Longrightarrow> 0 < tid \<Longrightarrow> tty_inv (file_access_cb tid m)"
  by (auto simp: tty_inv_def tty_armed_def tty_ops)

lemma tty_check_inv:
  assumes "tty_inv m" and "te_atime E \<noteq> None" and "0 < te_timeout_id E"
  shows "tty_inv (check_tty_idle E m)"
  using assms
  by (auto simp: tty_inv_def tty_armed_def check_tty_idle_def Let_def tty_ops split: option.splits)

interpretation tty: machine tty_step tty_event_ok
  "\<lambda>m. \<exists>dev tid. 0 < tid \<and> m = ck_tty_idle_monitor_start tid (ck_tty_idle_monitor_new (Some dev))" tty_inv
proof
  fix s assume "\<exists>dev tid. 0 < tid \<and> s = ck_tty_idle_monitor_start tid (ck_tty_idle_monitor_new (Some dev))"
  then show "tty_inv s"
    by (auto intro!: tty_start_inv simp: ck_tty_idle_monitor_new_def ck_tty_idle_monitor_set_device_def
        ck_tty_idle_monitor_init_def)
next
  fix s e assume "tty_inv s" "tty_event_ok e"
  then show "\<exists>s'. tty_step e s = Some s' \<and> tty_inv s'"
    by (cases e) (auto intro: tty_access_inv tty_check_inv)
qed

section \<open>Properties\<close>

text \<open>
  A started monitor never falls asleep while its device can be examined: after every
  sequence of timeouts and accesses a timeout is pending or a watch is registered, and
  the idle hint it last signalled is the one it holds.
\<close>

theorem tty_monitor_stays_armed:
  assumes "0 < tid" and "list_all tty_event_ok es"
  shows "\<exists>m. run tty_step es (ck_tty_idle_monitor_start tid (ck_tty_idle_monitor_new (Some dev))) = Some m \<and>
    tty_armed m \<and> (if tm_signals m = [] then \<not> tm_idle_hint m else tm_idle_hint m = last (tm_signals m))"
  using tty.run_returns [of "ck_tty_idle_monitor_start tid (ck_tty_idle_monitor_new (Some dev))" es] assms
  by (auto simp: tty_inv_def)

theorem tty_monitor_stays_armed_witness:
  "\<exists>m. run tty_step [Tty_Timeout \<lparr>te_atime = Some 100, te_now = 140, te_timeout_id = 7, te_notify_id = 3\<rparr>,
        Tty_Access 3 8] (ck_tty_idle_monitor_start 5 (ck_tty_idle_monitor_new (Some ''/dev/tty1''))) = Some m \<and>
    tty_armed m \<and> tm_signals m = [True, False]"
  using tty_monitor_stays_armed [of 5 "[Tty_Timeout \<lparr>te_atime = Some 100, te_now = 140, te_timeout_id = 7,
      te_notify_id = 3\<rparr>, Tty_Access 3 8]" "''/dev/tty1''"]
  by (simp add: check_tty_idle_def tty_idletime_def tty_ops ck_tty_idle_monitor_new_def
      ck_tty_idle_monitor_set_device_def ck_tty_idle_monitor_init_def DEFAULT_THRESHOLD_SECONDS_def)

text \<open>
  A check decides by the threshold and plans the next look exactly when the terminal
  can become idle: when it is not idle yet, the timeout is set to the seconds that are
  missing, at least one and at most the threshold.
\<close>

theorem check_tty_idle_reschedules:
  assumes "tm_device m \<noteq> None" and "te_atime E = Some atime" and "0 < te_timeout_id E"
  shows "tm_idle_hint (check_tty_idle E m) = (tm_threshold m \<le> tty_idletime atime (te_now E)) \<and>
    (tm_idle_hint (check_tty_idle E m) \<or>
      (tm_timeout_id (check_tty_idle E m) = te_timeout_id E \<and>
       tm_delay (check_tty_idle E m) + tty_idletime atime (te_now E) = tm_threshold m \<and>
       tm_delay (check_tty_idle E m) \<in> {1..tm_threshold m}))"
  using assms by (auto simp: check_tty_idle_def Let_def tty_ops split: option.splits)

theorem check_tty_idle_reschedules_witness:
  "tm_delay (check_tty_idle \<lparr>te_atime = Some 100, te_now = 112, te_timeout_id = 7, te_notify_id = 3\<rparr>
     (ck_tty_idle_monitor_new (Some ''/dev/tty1''))) + 12 = 30"
  using check_tty_idle_reschedules [of "ck_tty_idle_monitor_new (Some ''/dev/tty1'')"
      "\<lparr>te_atime = Some 100, te_now = 112, te_timeout_id = 7, te_notify_id = 3\<rparr>" 100]
  by (auto simp: tty_idletime_def ck_tty_idle_monitor_new_def ck_tty_idle_monitor_set_device_def
      ck_tty_idle_monitor_init_def DEFAULT_THRESHOLD_SECONDS_def)

end
