(* ===== verification/CK_Session.thy ===== *)
theory CK_Session
  imports CK_Device CK_TtyIdle
begin

text \<open>
  A login session: src/src/ck-session.c.

  The record joins the private structure (\<open>CkSessionPrivate\<close>) with the D-Bus properties the
  generated skeleton stores, and adds \<open>s_emitted\<close>: the signals and messages sent and the
  terminal requests made, newest last. D-Bus method handlers return the session and the
  answer to the caller. What comes from outside (the clock, source identifiers, the bus
  daemon's answers, consoles, devices) is the record \<open>session_env\<close>.
\<close>

section \<open>Types\<close>

type_synonym timeval = "nat \<times> nat"

datatype CkSessionError =
    CK_SESSION_ERROR_FAILED
  | CK_SESSION_ERROR_GENERAL
  | CK_SESSION_ERROR_INSUFFICIENT_PERMISSION
  | CK_SESSION_ERROR_NOT_SUPPORTED
  | CK_SESSION_ERROR_ALREADY_ACTIVE

text \<open>The answer to a D-Bus call; \<open>No_reply\<close> when the handler never completes the invocation.\<close>

datatype 'e reply =
    Complete
  | Reply_bool bool
  | Reply_string cstring
  | Reply_uint nat
  | Reply_device int bool
  | Throw 'e
  | No_reply

datatype session_signal =
    Lock_Signal
  | Unlock_Signal
  | IdleHintChanged bool
  | ActiveChanged bool
  | PauseDevice nat nat string
  | ResumeDevice cstring nat nat int
  | Chown_Console int nat
  | Vt_Reldisp int
  | Vt_Setmode_Auto
  | Kd_Setmode_Graphics
  | Kd_Setmode_Text

record CkSession =
  s_id :: cstring
  s_path :: cstring
  s_cookie :: cstring
  s_seat_id :: cstring
  s_seat_path :: cstring
  s_runtime_dir :: cstring
  s_login_session_id :: cstring
  s_session_controller :: cstring
  s_session_controller_watchid :: nat
  s_devices :: "CkDevice list"
  s_pause_devices_timer :: nat
  s_tty_fd :: int
  s_old_kbd_mode :: int
  s_sig_watch_s1 :: nat
  s_sig_watch_s2 :: nat
  s_creation_time :: timeval
  s_idle_monitor :: "CkTtyIdleMonitor option"
  s_idle_since_hint :: timeval
  s_connection :: bool
  s_unix_user :: nat
  s_session_type :: cstring
  s_session_service :: cstring
  s_session_class :: cstring
  s_session_state :: cstring
  s_x11_display :: cstring
  s_x11_display_device :: cstring
  s_display_device :: cstring
  s_remote_host_name :: cstring
  s_vtnr :: nat
  s_seat :: "(string \<times> string) option"
  s_active :: bool
  s_is_local :: bool
  s_idle_hint :: bool
  s_locked_hint :: bool
  s_emitted :: "session_signal list"

record session_env =
  se_now :: timeval
  se_timer_id :: nat
  se_watch_id :: nat
  se_caller_uid :: "string \<Rightarrow> nat option"
  se_caller_pid :: "string \<Rightarrow> nat option"
  se_open_console :: "nat \<Rightarrow> int"
  se_getpwuid :: "nat \<Rightarrow> bool"
  se_kbd_mode :: int
  se_graphical_mode :: "bool option"
  se_kd_graphics_ok :: bool
  se_vt_setmode_ok :: bool
  se_sig_ids :: "nat \<times> nat"
  se_device :: device_env
  se_dead_fd :: "int \<Rightarrow> bool"
  se_export_ok :: bool

definition emit :: "session_signal \<Rightarrow> CkSession \<Rightarrow> CkSession" where
  "emit sig s = s\<lparr>s_emitted := s_emitted s @ [sig]\<rparr>"

section \<open>Locking and hints\<close>

definition ck_session_lock :: "CkSession \<Rightarrow> CkSession" where
  "ck_session_lock s = emit Lock_Signal (s\<lparr>s_locked_hint := True\<rparr>)"

definition ck_session_unlock :: "CkSession \<Rightarrow> CkSession" where
  "ck_session_unlock s = emit Unlock_Signal (s\<lparr>s_locked_hint := False\<rparr>)"

definition dbus_lock :: "CkSession \<Rightarrow> CkSession \<times> CkSessionError reply" where
  "dbus_lock s = (ck_session_lock s, Complete)"

definition dbus_unlock :: "CkSession \<Rightarrow> CkSession \<times> CkSessionError reply" where
  "dbus_unlock s = (ck_session_unlock s, Complete)"

definition get_caller_info :: "session_env \<Rightarrow> cstring \<Rightarrow> (nat \<times> nat) option" where
  "get_caller_info E sender =
     (case sender of
        None \<Rightarrow> None
      | Some n \<Rightarrow>
          (case se_caller_uid E n of
             None \<Rightarrow> None
           | Some u \<Rightarrow> (case se_caller_pid E n of None \<Rightarrow> None | Some p \<Rightarrow> Some (u, p))))"

definition session_set_idle_hint_internal :: "session_env \<Rightarrow> bool \<Rightarrow> CkSession \<Rightarrow> CkSession" where
  "session_set_idle_hint_internal E hint s =
     (if s_idle_hint s \<noteq> hint
      then emit (IdleHintChanged hint) (s\<lparr>s_idle_hint := hint, s_idle_since_hint := se_now E\<rparr>)
      else s)"

definition dbus_get_idle_since_hint ::
  "(timeval \<Rightarrow> string) \<Rightarrow> CkSession \<Rightarrow> CkSession \<times> CkSessionError reply" where
  "dbus_get_idle_since_hint iso8601 s =
     (if \<not> s_idle_hint s then (s, Throw CK_SESSION_ERROR_GENERAL)
      else (s, Reply_string (Some (iso8601 (s_idle_since_hint s)))))"

definition dbus_get_idle_hint :: "CkSession \<Rightarrow> CkSession \<times> CkSessionError reply" where
  "dbus_get_idle_hint s = (s, Reply_bool (s_idle_hint s))"

definition dbus_set_idle_hint ::
  "session_env \<Rightarrow> cstring \<Rightarrow> bool \<Rightarrow> CkSession \<Rightarrow> CkSession \<times> CkSessionError reply" where
  "dbus_set_idle_hint E sender hint s =
     (case get_caller_info E sender of
        None \<Rightarrow> (s, Throw CK_SESSION_ERROR_FAILED)
      | Some (calling_uid, _) \<Rightarrow>
          if s_unix_user s \<noteq> calling_uid then (s, Throw CK_SESSION_ERROR_INSUFFICIENT_PERMISSION)
          else (session_set_idle_hint_internal E hint s, Complete))"

definition dbus_set_locked_hint ::
  "session_env \<Rightarrow> cstring \<Rightarrow> bool \<Rightarrow> CkSession \<Rightarrow> CkSession \<times> CkSessionError reply" where
  "dbus_set_locked_hint E sender hint s =
     (case get_caller_info E sender of
        None \<Rightarrow> (s, Throw CK_SESSION_ERROR_FAILED)
      | Some (calling_uid, _) \<Rightarrow>
          if s_unix_user s \<noteq> calling_uid then (s, Throw CK_SESSION_ERROR_INSUFFICIENT_PERMISSION)
          else (s\<lparr>s_locked_hint := hint\<rparr>, Complete))"

definition default_string :: "string \<Rightarrow> cstring \<Rightarrow> cstring" where
  "default_string d x = (case x of None \<Rightarrow> Some d | Some v \<Rightarrow> Some v)"

definition dbus_get_session_service :: "CkSession \<Rightarrow> CkSession \<times> CkSessionError reply" where
  "dbus_get_session_service s = (s, Reply_string (default_string ''unspecified'' (s_session_service s)))"

definition dbus_get_session_type :: "CkSession \<Rightarrow> CkSession \<times> CkSessionError reply" where
  "dbus_get_session_type s = (s, Reply_string (default_string ''unspecified'' (s_session_type s)))"

definition dbus_get_session_class :: "CkSession \<Rightarrow> CkSession \<times> CkSessionError reply" where
  "dbus_get_session_class s = (s, Reply_string (default_string ''user'' (s_session_class s)))"

definition dbus_get_session_state :: "CkSession \<Rightarrow> CkSession \<times> CkSessionError reply" where
  "dbus_get_session_state s = (s, Reply_string (default_string ''online'' (s_session_state s)))"

section \<open>Activation and devices\<close>

definition mark_inactive :: "CkSession \<Rightarrow> CkSession" where
  "mark_inactive s = (emit (ActiveChanged False) (s\<lparr>s_active := False\<rparr>))\<lparr>s_session_state := Some ''online''\<rparr>"

definition mark_active :: "CkSession \<Rightarrow> CkSession" where
  "mark_active s = (emit (ActiveChanged True) (s\<lparr>s_active := True\<rparr>))\<lparr>s_session_state := Some ''active''\<rparr>"

definition cancel_pause_timer :: "CkSession \<Rightarrow> CkSession" where
  "cancel_pause_timer s = (if s_pause_devices_timer s \<noteq> 0 then s\<lparr>s_pause_devices_timer := 0\<rparr> else s)"

definition ck_session_check_paused_devices :: "CkSession \<Rightarrow> CkSession" where
  "ck_session_check_paused_devices s =
     (if \<exists>d \<in> set (s_devices s). ck_device_get_active d then s
      else cancel_pause_timer (if s_active s then mark_inactive s else s))"

definition force_pause_devices :: "session_env \<Rightarrow> CkSession \<Rightarrow> CkSession" where
  "force_pause_devices E s =
     ck_session_check_paused_devices
       (s\<lparr>s_devices := map (ck_device_set_active (se_device E) False) (s_devices s),
          s_pause_devices_timer := 0\<rparr>)"

definition pause_type :: "bool \<Rightarrow> string" where
  "pause_type force = (if force then ''force'' else ''pause'')"

definition pause_signals :: "bool \<Rightarrow> CkDevice list \<Rightarrow> session_signal list" where
  "pause_signals force ds =
     map (\<lambda>d. PauseDevice (ck_device_get_major d) (ck_device_get_minor d) (pause_type force))
       (filter ck_device_get_active ds)"

definition ck_session_pause_all_devices :: "session_env \<Rightarrow> bool \<Rightarrow> CkSession \<Rightarrow> CkSession" where
  "ck_session_pause_all_devices E force s =
     (let s = s\<lparr>s_emitted := s_emitted s @ pause_signals force (s_devices s),
               s_devices := (if force then map (ck_device_set_active (se_device E) False) (s_devices s)
                             else s_devices s)\<rparr>
      in if force \<or> s_devices s = [] then mark_inactive s
         else s\<lparr>s_pause_devices_timer := se_timer_id E\<rparr>)"

definition resume_signals :: "cstring \<Rightarrow> CkDevice list \<Rightarrow> session_signal list" where
  "resume_signals controller ds =
     map (\<lambda>d. ResumeDevice controller (ck_device_get_major d) (ck_device_get_minor d) (ck_device_get_fd d))
       (filter (\<lambda>d. 0 \<le> ck_device_get_fd d) ds)"

definition ck_session_resume_all_devices :: "session_env \<Rightarrow> CkSession \<Rightarrow> CkSession" where
  "ck_session_resume_all_devices E s =
     (let s = (if 0 < s_vtnr s \<and> 0 \<le> se_open_console E (s_vtnr s) \<and> se_getpwuid E (s_unix_user s)
               then emit (Chown_Console (se_open_console E (s_vtnr s)) (s_unix_user s)) s else s)
      in if s_session_controller s = None then mark_active s
         else
           let ds = map (ck_device_set_active (se_device E) True) (s_devices s)
           in mark_active (s\<lparr>s_devices := ds,
                s_emitted := s_emitted s @ resume_signals (s_session_controller s) ds\<rparr>))"

definition ck_session_set_active :: "session_env \<Rightarrow> bool \<Rightarrow> bool \<Rightarrow> CkSession \<Rightarrow> CkSession" where
  "ck_session_set_active E active force s =
     (if s_active s = active then s
      else
        let s = cancel_pause_timer s
        in if \<not> active then ck_session_pause_all_devices E force s
           else ck_session_resume_all_devices E s)"

definition dbus_is_active :: "CkSession \<Rightarrow> CkSession \<times> CkSessionError reply" where
  "dbus_is_active s = (s, Reply_bool (s_active s))"

section \<open>Identity and properties\<close>

definition dbus_get_id :: "CkSession \<Rightarrow> CkSession \<times> CkSessionError reply" where
  "dbus_get_id s = (s, Reply_string (s_path s))"

definition ck_session_get_id :: "CkSession \<Rightarrow> cstring" where
  "ck_session_get_id s = s_id s"

definition ck_session_get_path :: "CkSession \<Rightarrow> cstring" where
  "ck_session_get_path s = s_path s"

definition dbus_get_seat_id :: "CkSession \<Rightarrow> CkSession \<times> CkSessionError reply" where
  "dbus_get_seat_id s =
     (if s_seat_id s = None then (s, Throw CK_SESSION_ERROR_FAILED) else (s, Reply_string (s_seat_path s)))"

definition ck_session_get_seat_id :: "CkSession \<Rightarrow> cstring" where
  "ck_session_get_seat_id s = s_seat_id s"

definition dbus_get_user :: "CkSession \<Rightarrow> CkSession \<times> CkSessionError reply" where
  "dbus_get_user s = (s, Reply_uint (s_unix_user s))"

definition dbus_get_unix_user :: "CkSession \<Rightarrow> CkSession \<times> CkSessionError reply" where
  "dbus_get_unix_user s = (s, Reply_uint (s_unix_user s))"

definition ck_session_set_unix_user :: "nat \<Rightarrow> CkSession \<Rightarrow> CkSession" where
  "ck_session_set_unix_user u s = s\<lparr>s_unix_user := u\<rparr>"

definition dbus_get_x11_display :: "CkSession \<Rightarrow> CkSession \<times> CkSessionError reply" where
  "dbus_get_x11_display s = (s, Reply_string (Some (NONULL_STRING (s_x11_display s))))"

definition ck_session_set_x11_display :: "cstring \<Rightarrow> CkSession \<Rightarrow> CkSession" where
  "ck_session_set_x11_display v s = s\<lparr>s_x11_display := v\<rparr>"

definition dbus_get_display_device :: "CkSession \<Rightarrow> CkSession \<times> CkSessionError reply" where
  "dbus_get_display_device s = (s, Reply_string (Some (NONULL_STRING (s_display_device s))))"

definition ck_session_set_display_device :: "cstring \<Rightarrow> CkSession \<Rightarrow> CkSession" where
  "ck_session_set_display_device v s = s\<lparr>s_display_device := v\<rparr>"

definition dbus_get_x11_display_device :: "CkSession \<Rightarrow> CkSession \<times> CkSessionError reply" where
  "dbus_get_x11_display_device s = (s, Reply_string (Some (NONULL_STRING (s_x11_display_device s))))"

definition ck_session_set_x11_display_device :: "cstring \<Rightarrow> CkSession \<Rightarrow> CkSession" where
  "ck_session_set_x11_display_device v s = s\<lparr>s_x11_display_device := v\<rparr>"

definition dbus_get_remote_host_name :: "CkSession \<Rightarrow> CkSession \<times> CkSessionError reply" where
  "dbus_get_remote_host_name s = (s, Reply_string (Some (NONULL_STRING (s_remote_host_name s))))"

definition ck_session_set_remote_host_name :: "cstring \<Rightarrow> CkSession \<Rightarrow> CkSession" where
  "ck_session_set_remote_host_name v s = s\<lparr>s_remote_host_name := v\<rparr>"

definition dbus_get_creation_time :: "(timeval \<Rightarrow> string) \<Rightarrow> CkSession \<Rightarrow> CkSession \<times> CkSessionError reply" where
  "dbus_get_creation_time iso8601 s = (s, Reply_string (Some (iso8601 (s_creation_time s))))"

definition ck_session_get_creation_time :: "(timeval \<Rightarrow> string) \<Rightarrow> CkSession \<Rightarrow> string" where
  "ck_session_get_creation_time iso8601 s = iso8601 (s_creation_time s)"

definition dbus_is_local :: "CkSession \<Rightarrow> CkSession \<times> CkSessionError reply" where
  "dbus_is_local s = (s, Reply_bool (s_is_local s))"

definition ck_session_set_is_local :: "bool \<Rightarrow> CkSession \<Rightarrow> CkSession" where
  "ck_session_set_is_local b s = s\<lparr>s_is_local := b\<rparr>"

definition ck_session_is_local :: "CkSession \<Rightarrow> bool" where
  "ck_session_is_local s = s_is_local s"

definition ck_session_set_id :: "cstring \<Rightarrow> CkSession \<Rightarrow> CkSession" where
  "ck_session_set_id v s = s\<lparr>s_id := v\<rparr>"

definition ck_session_set_cookie :: "cstring \<Rightarrow> CkSession \<Rightarrow> CkSession" where
  "ck_session_set_cookie v s = s\<lparr>s_cookie := v\<rparr>"

text \<open>The \<open>Seat\<close> property changes only when both strings are given.\<close>

definition ck_session_set_seat_id :: "cstring \<Rightarrow> cstring \<Rightarrow> CkSession \<Rightarrow> CkSession \<times> bool" where
  "ck_session_set_seat_id sid spath s =
     (let s = s\<lparr>s_seat_id := sid, s_seat_path := spath\<rparr> in
      case (sid, spath) of
        (Some i, Some p) \<Rightarrow> (s\<lparr>s_seat := Some (i, p)\<rparr>, True)
      | _ \<Rightarrow> (s, False))"

definition ck_session_set_runtime_dir :: "cstring \<Rightarrow> CkSession \<Rightarrow> CkSession" where
  "ck_session_set_runtime_dir v s = s\<lparr>s_runtime_dir := v\<rparr>"

definition ck_session_get_runtime_dir :: "CkSession \<Rightarrow> cstring" where
  "ck_session_get_runtime_dir s = s_runtime_dir s"

definition dbus_get_runtime_dir :: "CkSession \<Rightarrow> CkSession \<times> CkSessionError reply" where
  "dbus_get_runtime_dir s =
     (if s_runtime_dir s = None then (s, Throw CK_SESSION_ERROR_FAILED) else (s, Reply_string (s_runtime_dir s)))"

definition dbus_get_login_session_id :: "CkSession \<Rightarrow> CkSession \<times> CkSessionError reply" where
  "dbus_get_login_session_id s = (s, Reply_string (Some (NONULL_STRING (s_login_session_id s))))"

definition dbus_get_vtnr :: "CkSession \<Rightarrow> CkSession \<times> CkSessionError reply" where
  "dbus_get_vtnr s = (s, Reply_uint (s_vtnr s))"

definition ck_session_set_login_session_id :: "cstring \<Rightarrow> CkSession \<Rightarrow> CkSession" where
  "ck_session_set_login_session_id v s = s\<lparr>s_login_session_id := v\<rparr>"

definition ck_session_set_session_service :: "cstring \<Rightarrow> CkSession \<Rightarrow> CkSession" where
  "ck_session_set_session_service v s = s\<lparr>s_session_service := v\<rparr>"

definition ck_session_set_session_type :: "cstring \<Rightarrow> CkSession \<Rightarrow> CkSession" where
  "ck_session_set_session_type v s = s\<lparr>s_session_type := v\<rparr>"

section \<open>The session controller\<close>

definition vt_leave_handler :: "session_env \<Rightarrow> CkSession \<Rightarrow> CkSession" where
  "vt_leave_handler E s = emit (Vt_Reldisp 1) (ck_session_pause_all_devices E True s)"

text \<open>\<open>VT_ACKACQ\<close> is 2.\<close>

definition vt_acquire_handler :: "CkSession \<Rightarrow> CkSession" where
  "vt_acquire_handler s = emit (Vt_Reldisp 2) s"

text \<open>\<open>se_graphical_mode\<close> is the answer of \<open>KDGETMODE\<close>: \<open>Some False\<close> for text mode.\<close>

definition ck_session_setup_vt_signal :: "session_env \<Rightarrow> nat \<Rightarrow> CkSession \<Rightarrow> CkSession" where
  "ck_session_setup_vt_signal E vtnr s =
     (let s = s\<lparr>s_tty_fd := se_open_console E vtnr\<rparr> in
      if s_tty_fd s < 0 then s
      else
        let s = s\<lparr>s_old_kbd_mode := se_kbd_mode E\<rparr> in
        case se_graphical_mode E of
          None \<Rightarrow> s
        | Some True \<Rightarrow> s
        | Some False \<Rightarrow>
            if \<not> se_kd_graphics_ok E then s
            else
              let s = emit Kd_Setmode_Graphics s in
              if \<not> se_vt_setmode_ok E then s
              else s\<lparr>s_sig_watch_s1 := fst (se_sig_ids E), s_sig_watch_s2 := snd (se_sig_ids E)\<rparr>)"

definition ck_session_remove_all_devices :: "CkSession \<Rightarrow> CkSession" where
  "ck_session_remove_all_devices s = s\<lparr>s_devices := []\<rparr>"

definition ck_session_controller_cleanup :: "CkSession \<Rightarrow> CkSession" where
  "ck_session_controller_cleanup s =
     (let s = s\<lparr>s_session_controller_watchid := 0\<rparr>;
          s = cancel_pause_timer s;
          s = s\<lparr>s_session_controller := None\<rparr>;
          s = ck_session_remove_all_devices s;
          s = (if s_sig_watch_s1 s \<noteq> 0
               then (emit Kd_Setmode_Text (emit Vt_Setmode_Auto s))\<lparr>s_sig_watch_s1 := 0, s_sig_watch_s2 := 0\<rparr>
               else s)
      in if s_tty_fd s \<noteq> - 1 then s\<lparr>s_tty_fd := - 1\<rparr> else s)"

definition ck_session_set_session_controller :: "session_env \<Rightarrow> cstring \<Rightarrow> CkSession \<Rightarrow> CkSession" where
  "ck_session_set_session_controller E bus_name s =
     (let s = ck_session_controller_cleanup s in
      if bus_name = None then s
      else
        let s = s\<lparr>s_session_controller := bus_name, s_session_controller_watchid := se_watch_id E\<rparr>
        in if 0 < s_vtnr s then ck_session_setup_vt_signal E (s_vtnr s) s else s)"

definition session_controller_vanished :: "session_env \<Rightarrow> CkSession \<Rightarrow> CkSession" where
  "session_controller_vanished E s =
     ck_session_set_session_controller E None (s\<lparr>s_session_controller_watchid := 0\<rparr>)"

definition dbus_can_control_session :: "CkSession \<Rightarrow> CkSession \<times> CkSessionError reply" where
  "dbus_can_control_session s = (s, Reply_bool ck_device_is_server_managed)"

definition dbus_take_control ::
  "session_env \<Rightarrow> cstring \<Rightarrow> bool \<Rightarrow> CkSession \<Rightarrow> CkSession \<times> CkSessionError reply" where
  "dbus_take_control E sender force s =
     (if \<not> ck_device_is_server_managed then (s, Throw CK_SESSION_ERROR_NOT_SUPPORTED)
      else case get_caller_info E sender of
        None \<Rightarrow> (s, Throw CK_SESSION_ERROR_GENERAL)
      | Some (u, _) \<Rightarrow>
          if s_session_controller s = sender then (s, Complete)
          else if s_session_controller s = None \<or> (force \<and> u = 0)
          then (ck_session_set_session_controller E sender s, Complete)
          else if force then (s, Throw CK_SESSION_ERROR_INSUFFICIENT_PERMISSION)
          else (s, Throw CK_SESSION_ERROR_FAILED))"

definition dbus_release_control ::
  "session_env \<Rightarrow> cstring \<Rightarrow> CkSession \<Rightarrow> CkSession \<times> CkSessionError reply" where
  "dbus_release_control E sender s =
     (if s_session_controller s = sender then (ck_session_set_session_controller E None s, Complete)
      else (s, Throw CK_SESSION_ERROR_FAILED))"

text \<open>
  The device with the given numbers. An input device whose descriptor is dead is dropped
  from the list and not found.
\<close>

definition ck_session_get_device ::
  "session_env \<Rightarrow> nat \<Rightarrow> nat \<Rightarrow> CkSession \<Rightarrow> CkSession \<times> CkDevice option" where
  "ck_session_get_device E major minor s =
     (case List.find (\<lambda>d. ck_device_compare d major minor) (s_devices s) of
        None \<Rightarrow> (s, None)
      | Some d \<Rightarrow>
          if ck_device_get_category d = DEVICE_EVDEV \<and> se_dead_fd E (ck_device_get_fd d)
          then (s\<lparr>s_devices := remove1 d (s_devices s)\<rparr>, None)
          else (s, Some d))"

definition ck_session_create_device ::
  "session_env \<Rightarrow> nat \<Rightarrow> nat \<Rightarrow> CkSession \<Rightarrow> CkSession \<times> CkDevice option" where
  "ck_session_create_device E major minor s =
     (case ck_session_get_device E major minor s of
        (s, Some d) \<Rightarrow> (s, Some d)
      | (s, None) \<Rightarrow>
          (case ck_device_new (se_device E) major minor (s_active s) of
             None \<Rightarrow> (s, None)
           | Some d \<Rightarrow> (s\<lparr>s_devices := d # s_devices s\<rparr>, Some d)))"

definition ck_session_remove_device :: "CkDevice \<Rightarrow> CkSession \<Rightarrow> CkSession" where
  "ck_session_remove_device d s = s\<lparr>s_devices := remove1 d (s_devices s)\<rparr>"

definition dbus_take_device ::
  "session_env \<Rightarrow> cstring \<Rightarrow> nat \<Rightarrow> nat \<Rightarrow> CkSession \<Rightarrow> CkSession \<times> CkSessionError reply" where
  "dbus_take_device E sender major minor s =
     (if s_session_controller s \<noteq> sender then (s, Throw CK_SESSION_ERROR_FAILED)
      else case ck_session_get_device E major minor s of
        (s, Some _) \<Rightarrow> (s, Throw CK_SESSION_ERROR_GENERAL)
      | (s, None) \<Rightarrow>
          (case ck_session_create_device E major minor s of
             (s, None) \<Rightarrow> (s, Throw CK_SESSION_ERROR_NOT_SUPPORTED)
           | (s, Some d) \<Rightarrow>
               if ck_device_get_fd d = - 1 then (s, Throw CK_SESSION_ERROR_NOT_SUPPORTED)
               else (s, Reply_device (ck_device_get_fd d) (s_active s))))"

definition dbus_release_device ::
  "session_env \<Rightarrow> cstring \<Rightarrow> nat \<Rightarrow> nat \<Rightarrow> CkSession \<Rightarrow> CkSession \<times> CkSessionError reply" where
  "dbus_release_device E sender major minor s =
     (if s_session_controller s \<noteq> sender then (s, Throw CK_SESSION_ERROR_FAILED)
      else case ck_session_get_device E major minor s of
        (s, None) \<Rightarrow> (s, Throw CK_SESSION_ERROR_FAILED)
      | (s, Some d) \<Rightarrow> (ck_session_remove_device d s, Complete))"

text \<open>The list holds the object itself, so pausing it changes the entry of the list.\<close>

fun pause_entry :: "device_env \<Rightarrow> CkDevice \<Rightarrow> CkDevice list \<Rightarrow> CkDevice list" where
  "pause_entry E d [] = []"
| "pause_entry E d (x # xs) = (if x = d then ck_device_set_active E False x # xs else x # pause_entry E d xs)"

definition dbus_pause_device_complete ::
  "session_env \<Rightarrow> cstring \<Rightarrow> nat \<Rightarrow> nat \<Rightarrow> CkSession \<Rightarrow> CkSession \<times> CkSessionError reply" where
  "dbus_pause_device_complete E sender major minor s =
     (if s_session_controller s \<noteq> sender then (s, Throw CK_SESSION_ERROR_FAILED)
      else case ck_session_get_device E major minor s of
        (s, None) \<Rightarrow> (s, Throw CK_SESSION_ERROR_FAILED)
      | (s, Some d) \<Rightarrow>
          (ck_session_check_paused_devices (s\<lparr>s_devices := pause_entry (se_device E) d (s_devices s)\<rparr>), Complete))"

section \<open>Construction\<close>

definition CK_DBUS_PATH :: string where
  "CK_DBUS_PATH = ''/org/freedesktop/ConsoleKit''"

definition ck_session_init :: "session_env \<Rightarrow> CkSession" where
  "ck_session_init E = \<lparr>s_id = None, s_path = None, s_cookie = None, s_seat_id = None, s_seat_path = None,
     s_runtime_dir = None, s_login_session_id = None, s_session_controller = None,
     s_session_controller_watchid = 0, s_devices = [], s_pause_devices_timer = 0, s_tty_fd = - 1,
     s_old_kbd_mode = 0, s_sig_watch_s1 = 0, s_sig_watch_s2 = 0, s_creation_time = se_now E,
     s_idle_monitor = None, s_idle_since_hint = (0, 0), s_connection = False, s_unix_user = 0,
     s_session_type = None, s_session_service = None, s_session_class = None, s_session_state = None,
     s_x11_display = None, s_x11_display_device = None, s_display_device = None, s_remote_host_name = None,
     s_vtnr = 0, s_seat = None, s_active = False, s_is_local = False, s_idle_hint = False,
     s_locked_hint = False, s_emitted = []\<rparr>"

definition session_is_text :: "CkSession \<Rightarrow> bool" where
  "session_is_text s = (\<not> IS_STR_SET (s_x11_display_device s) \<and> \<not> IS_STR_SET (s_x11_display s) \<and>
     IS_STR_SET (s_display_device s))"

definition tty_idle_changed_cb :: "session_env \<Rightarrow> bool \<Rightarrow> CkSession \<Rightarrow> CkSession" where
  "tty_idle_changed_cb E hint s = session_set_idle_hint_internal E hint s"

definition session_add_activity_watch :: "session_env \<Rightarrow> CkSession \<Rightarrow> CkSession" where
  "session_add_activity_watch E s =
     (let m = (case s_idle_monitor s of None \<Rightarrow> ck_tty_idle_monitor_new (s_display_device s) | Some m \<Rightarrow> m)
      in s\<lparr>s_idle_monitor := Some (ck_tty_idle_monitor_start (se_timer_id E) m)\<rparr>)"

definition session_remove_activity_watch :: "CkSession \<Rightarrow> CkSession" where
  "session_remove_activity_watch s = (if s_idle_monitor s = None then s else s\<lparr>s_idle_monitor := None\<rparr>)"

text \<open>The values D-Bus carries for session parameters, and the types of the session's properties.\<close>

datatype gvariant = V_bool bool | V_string string | V_uint nat | V_int int | V_pair string string

datatype gtype = G_TYPE_STRING | G_TYPE_UINT | G_TYPE_BOOLEAN | G_TYPE_VARIANT

text \<open>
  The properties of a session object: those of the D-Bus interface (all writable GObject
  properties) and the private ones.
\<close>

definition find_property :: "string \<Rightarrow> gtype option" where
  "find_property n =
     (if n \<in> {''id'', ''cookie'', ''login-session-id'', ''session-controller'', ''session-service'',
              ''session-type'', ''session-class'', ''session-state'', ''remote-host-name'',
              ''display-device'', ''x11-display'', ''x11-display-device''} then Some G_TYPE_STRING
      else if n \<in> {''unix-user'', ''user'', ''vtnr''} then Some G_TYPE_UINT
      else if n \<in> {''active'', ''is-local'', ''idle-hint'', ''locked-hint''} then Some G_TYPE_BOOLEAN
      else if n = ''seat'' then Some G_TYPE_VARIANT
      else None)"

definition str_of :: "gvariant \<Rightarrow> cstring" where
  "str_of v = (case v of V_string s \<Rightarrow> Some s | _ \<Rightarrow> None)"

definition uint_of :: "gvariant \<Rightarrow> nat" where
  "uint_of v = (case v of V_uint n \<Rightarrow> n | _ \<Rightarrow> 0)"

definition bool_of :: "gvariant \<Rightarrow> bool" where
  "bool_of v = (case v of V_bool b \<Rightarrow> b | _ \<Rightarrow> False)"

definition ck_session_set_property :: "session_env \<Rightarrow> string \<Rightarrow> gvariant \<Rightarrow> CkSession \<Rightarrow> CkSession" where
  "ck_session_set_property E n v s =
     (if n = ''id'' then ck_session_set_id (str_of v) s
      else if n = ''cookie'' then ck_session_set_cookie (str_of v) s
      else if n = ''login-session-id'' then ck_session_set_login_session_id (str_of v) s
      else if n = ''session-controller'' then ck_session_set_session_controller E (str_of v) s
      else if n = ''session-service'' then s\<lparr>s_session_service := str_of v\<rparr>
      else if n = ''session-type'' then s\<lparr>s_session_type := str_of v\<rparr>
      else if n = ''session-class'' then s\<lparr>s_session_class := str_of v\<rparr>
      else if n = ''session-state'' then s\<lparr>s_session_state := str_of v\<rparr>
      else if n = ''remote-host-name'' then s\<lparr>s_remote_host_name := str_of v\<rparr>
      else if n = ''display-device'' then s\<lparr>s_display_device := str_of v\<rparr>
      else if n = ''x11-display'' then s\<lparr>s_x11_display := str_of v\<rparr>
      else if n = ''x11-display-device'' then s\<lparr>s_x11_display_device := str_of v\<rparr>
      else if n = ''unix-user'' then s\<lparr>s_unix_user := uint_of v\<rparr>
      else if n = ''vtnr'' then s\<lparr>s_vtnr := uint_of v\<rparr>
      else if n = ''active'' then s\<lparr>s_active := bool_of v\<rparr>
      else if n = ''is-local'' then s\<lparr>s_is_local := bool_of v\<rparr>
      else if n = ''idle-hint'' then s\<lparr>s_idle_hint := bool_of v\<rparr>
      else if n = ''locked-hint'' then s\<lparr>s_locked_hint := bool_of v\<rparr>
      else s)"

text \<open>The private properties are the ones that can be read; a null value is the empty option.\<close>

definition ck_session_get_property :: "string \<Rightarrow> CkSession \<Rightarrow> cstring option" where
  "ck_session_get_property n s =
     (if n = ''id'' then Some (s_id s)
      else if n = ''cookie'' then Some (s_cookie s)
      else if n = ''login-session-id'' then Some (s_login_session_id s)
      else if n = ''session-controller'' then Some (s_session_controller s)
      else None)"

text \<open>
  The loop that collects the parameters: \<open>id\<close> and \<open>cookie\<close> are reserved, unknown names
  and values that cannot be transformed to the property's type are skipped. \<open>transform\<close>
  stands for \<open>g_value_transform\<close>.
\<close>

fun collect_params :: "(gtype \<Rightarrow> gvariant \<Rightarrow> gvariant option) \<Rightarrow> (string \<times> gvariant) list \<Rightarrow> (string \<times> gvariant) list" where
  "collect_params transform [] = []"
| "collect_params transform ((n, v) # ps) =
     (if n = ''id'' \<or> n = ''cookie'' then collect_params transform ps
      else case find_property n of
        None \<Rightarrow> collect_params transform ps
      | Some t \<Rightarrow>
          (case transform t v of
             None \<Rightarrow> collect_params transform ps
           | Some v \<Rightarrow> (n, v) # collect_params transform ps))"

text \<open>
  GObject sets the construct properties first (absent ones to NULL), runs the constructor
  and only then sets the other properties.
\<close>

definition construct_property :: "string \<Rightarrow> bool" where
  "construct_property n = (n \<in> {''id'', ''cookie'', ''login-session-id'', ''session-controller''})"

definition ck_session_constructor :: "session_env \<Rightarrow> (string \<times> gvariant) list \<Rightarrow> CkSession" where
  "ck_session_constructor E ps =
     (let arg = (\<lambda>n. case map_of ps n of None \<Rightarrow> None | Some v \<Rightarrow> str_of v);
          s = ck_session_set_id (arg ''id'') (ck_session_init E);
          s = ck_session_set_cookie (arg ''cookie'') s;
          s = ck_session_set_login_session_id (arg ''login-session-id'') s;
          s = ck_session_set_session_controller E (arg ''session-controller'') s;
          s = (if session_is_text s then session_add_activity_watch E s else s)
      in s\<lparr>s_path := Some (CK_DBUS_PATH @ ''/'' @ NONULL_STRING (s_id s))\<rparr>)"

definition g_object_newv :: "session_env \<Rightarrow> (string \<times> gvariant) list \<Rightarrow> CkSession" where
  "g_object_newv E ps =
     fold (\<lambda>(n, v). ck_session_set_property E n v)
       (filter (\<lambda>(n, v). \<not> construct_property n) ps) (ck_session_constructor E ps)"

text \<open>
  The state that should default to "online" is tested on the class, which was set two
  lines before.
\<close>

definition register_session :: "session_env \<Rightarrow> bool \<Rightarrow> CkSession \<Rightarrow> CkSession option" where
  "register_session E connection s =
     (let s = (if connection then s\<lparr>s_connection := True\<rparr> else s) in
      if \<not> s_connection s then None
      else if \<not> se_export_ok E then None
      else
        let s = (if s_session_type s = None then s\<lparr>s_session_type := Some ''unspecified''\<rparr> else s);
            s = (if s_session_service s = None then s\<lparr>s_session_service := Some ''unspecified''\<rparr> else s);
            s = (if s_session_class s = None then s\<lparr>s_session_class := Some ''user''\<rparr> else s);
            s = (if s_session_class s = None then s\<lparr>s_session_class := Some ''online''\<rparr> else s)
        in Some s)"

definition ck_session_new :: "session_env \<Rightarrow> string \<Rightarrow> string \<Rightarrow> bool \<Rightarrow> CkSession option" where
  "ck_session_new E ssid cookie connection =
     register_session E connection (g_object_newv E [(''id'', V_string ssid), (''cookie'', V_string cookie)])"

definition ck_session_new_with_parameters ::
  "session_env \<Rightarrow> (gtype \<Rightarrow> gvariant \<Rightarrow> gvariant option) \<Rightarrow> string \<Rightarrow> string \<Rightarrow>
   (string \<times> gvariant) list \<Rightarrow> bool \<Rightarrow> CkSession option" where
  "ck_session_new_with_parameters E transform ssid cookie parameters connection =
     register_session E connection (g_object_newv E
       ([(''id'', V_string ssid), (''cookie'', V_string cookie)] @ collect_params transform parameters))"

text \<open>What is left of the session when its last reference is dropped.\<close>

definition ck_session_finalize :: "session_env \<Rightarrow> CkSession \<Rightarrow> CkSession" where
  "ck_session_finalize E s =
     (let s = session_remove_activity_watch s;
          s = ck_session_set_session_controller E None s;
          s = ck_session_remove_all_devices s;
          s = s\<lparr>s_id := None, s_path := None, s_cookie := None, s_login_session_id := None,
                s_runtime_dir := None, s_seat_id := None, s_seat_path := None\<rparr>
      in cancel_pause_timer s)"

section \<open>Programs and the database\<close>

definition env_entry :: "string \<Rightarrow> cstring \<Rightarrow> string list" where
  "env_entry name v = (case v of None \<Rightarrow> [] | Some v \<Rightarrow> [name @ ''='' @ v])"

definition set_entry :: "string \<Rightarrow> cstring \<Rightarrow> string list" where
  "set_entry name v = (if IS_STR_SET v then env_entry name v else [])"

definition bool_string :: "bool \<Rightarrow> string" where
  "bool_string b = (if b then ''true'' else ''false'')"

text \<open>\<open>%s\<close> prints a NULL pointer as "(null)".\<close>

definition printf_string :: "cstring \<Rightarrow> string" where
  "printf_string v = (case v of None \<Rightarrow> ''(null)'' | Some v \<Rightarrow> v)"

definition session_env_vector :: "CkSession \<Rightarrow> string list" where
  "session_env_vector s =
     [''CK_SESSION_ID='' @ printf_string (s_id s)] @
     env_entry ''CK_SESSION_SERVICE'' (s_session_service s) @
     env_entry ''CK_SESSION_TYPE'' (s_session_type s) @
     [''CK_SESSION_SEAT_ID='' @ printf_string (s_seat_id s)] @
     [''CK_SESSION_USER_UID='' @ dec_int (as_gint (s_unix_user s))] @
     set_entry ''CK_SESSION_DISPLAY_DEVICE'' (s_display_device s) @
     set_entry ''CK_SESSION_X11_DISPLAY_DEVICE'' (s_x11_display_device s) @
     [''CK_SESSION_X11_DISPLAY='' @ NONULL_STRING (s_x11_display s)] @
     set_entry ''CK_SESSION_REMOTE_HOST_NAME'' (s_remote_host_name s) @
     [''CK_SESSION_IS_ACTIVE='' @ bool_string (s_active s)] @
     [''CK_SESSION_IS_LOCAL='' @ bool_string (s_is_local s)]"

definition session_env_capacity :: nat where
  "session_env_capacity = 11"

text \<open>
  The directories, action and environment of the programs to run; \<open>None\<close> when the
  entries and the final NULL do not fit the array \<open>extra_env\<close>.
\<close>

definition ck_session_run_programs ::
  "string \<Rightarrow> string \<Rightarrow> CkSession \<Rightarrow> string \<Rightarrow> (string \<times> string \<times> string list) list option" where
  "ck_session_run_programs sysconfdir libdir s action =
     (let env = session_env_vector s in
      if length env + 1 \<le> session_env_capacity
      then Some [(sysconfdir @ ''/ConsoleKit/run-session.d'', action, env),
                 (libdir @ ''/ConsoleKit/run-session.d'', action, env)]
      else None)"

type_synonym key_file = "((string \<times> string), string) ghash"

definition kf_set :: "string \<Rightarrow> string \<Rightarrow> string \<Rightarrow> key_file \<Rightarrow> key_file" where
  "kf_set g key v kf = g_hash_table_insert kf (g, key) v"

definition kf_set_opt :: "string \<Rightarrow> string \<Rightarrow> cstring \<Rightarrow> key_file \<Rightarrow> key_file" where
  "kf_set_opt g key v kf = (if IS_STR_SET v then kf_set g key (NONULL_STRING v) kf else kf)"

definition kf_set_nonnull :: "string \<Rightarrow> string \<Rightarrow> cstring \<Rightarrow> key_file \<Rightarrow> key_file" where
  "kf_set_nonnull g key v kf = (case v of None \<Rightarrow> kf | Some v \<Rightarrow> kf_set g key v kf)"

definition ck_session_dump :: "(timeval \<Rightarrow> string) \<Rightarrow> CkSession \<Rightarrow> key_file \<Rightarrow> key_file" where
  "ck_session_dump iso8601 s kf =
     (let g = ''Session '' @ printf_string (s_id s);
          kf = kf_set g ''uid'' (dec_int (as_gint (s_unix_user s))) kf;
          kf = kf_set g ''seat'' (NONULL_STRING (s_seat_id s)) kf;
          kf = kf_set_nonnull g ''service'' (s_session_service s) kf;
          kf = kf_set_nonnull g ''type'' (s_session_type s) kf;
          kf = kf_set_opt g ''login_session_id'' (s_login_session_id s) kf;
          kf = kf_set_opt g ''display_device'' (s_display_device s) kf;
          kf = kf_set_opt g ''x11_display_device'' (s_x11_display_device s) kf;
          kf = kf_set_opt g ''x11_display'' (s_x11_display s) kf;
          kf = kf_set_opt g ''remote_host_name'' (s_remote_host_name s) kf;
          kf = kf_set g ''remote_host_name'' (NONULL_STRING (s_remote_host_name s)) kf;
          kf = kf_set g ''is_active'' (bool_string (s_active s)) kf;
          kf = kf_set g ''is_local'' (bool_string (s_is_local s)) kf;
          kf = kf_set g ''XDG_RUNTIME_DIR'' (NONULL_STRING (s_runtime_dir s)) kf;
          kf = kf_set g ''creation_time'' (iso8601 (s_creation_time s)) kf
      in kf)"

section \<open>Invariant\<close>

definition device_number :: "CkDevice \<Rightarrow> nat \<times> nat" where
  "device_number d = (dev_major d, dev_minor d)"

text \<open>
  The reported state agrees with the active flag, devices belong to a controller and are
  listed once, and an inactive session has no device in use.
\<close>

definition session_inv :: "CkSession \<Rightarrow> bool" where
  "session_inv s =
     ((s_active s \<longleftrightarrow> s_session_state s = Some ''active'') \<and>
      (s_devices s \<noteq> [] \<longrightarrow> s_session_controller s \<noteq> None) \<and>
      distinct (map device_number (s_devices s)) \<and>
      (\<not> s_active s \<longrightarrow> (\<forall>d \<in> set (s_devices s). \<not> dev_state d)))"

datatype session_event =
    Set_Active session_env bool bool
  | Pause_Timeout session_env
  | Vt_Leave session_env
  | Vt_Acquire
  | Take_Control session_env string bool
  | Release_Control session_env string
  | Controller_Vanished session_env
  | Take_Device session_env string nat nat
  | Release_Device session_env string nat nat
  | Pause_Complete session_env string nat nat
  | Set_Idle_Hint session_env string bool
  | Set_Locked_Hint session_env string bool
  | Lock_Session
  | Unlock_Session

fun session_step :: "session_event \<Rightarrow> CkSession \<Rightarrow> CkSession option" where
  "session_step (Set_Active E a f) s = Some (ck_session_set_active E a f s)"
| "session_step (Pause_Timeout E) s = Some (if s_pause_devices_timer s = 0 then s else force_pause_devices E s)"
| "session_step (Vt_Leave E) s = Some (if s_sig_watch_s1 s = 0 then s else vt_leave_handler E s)"
| "session_step Vt_Acquire s = Some (if s_sig_watch_s2 s = 0 then s else vt_acquire_handler s)"
| "session_step (Take_Control E sender f) s = Some (fst (dbus_take_control E (Some sender) f s))"
| "session_step (Release_Control E sender) s = Some (fst (dbus_release_control E (Some sender) s))"
| "session_step (Controller_Vanished E) s = Some (session_controller_vanished E s)"
| "session_step (Take_Device E sender a b) s = Some (fst (dbus_take_device E (Some sender) a b s))"
| "session_step (Release_Device E sender a b) s = Some (fst (dbus_release_device E (Some sender) a b s))"
| "session_step (Pause_Complete E sender a b) s = Some (fst (dbus_pause_device_complete E (Some sender) a b s))"
| "session_step (Set_Idle_Hint E sender b) s = Some (fst (dbus_set_idle_hint E (Some sender) b s))"
| "session_step (Set_Locked_Hint E sender b) s = Some (fst (dbus_set_locked_hint E (Some sender) b s))"
| "session_step Lock_Session s = Some (ck_session_lock s)"
| "session_step Unlock_Session s = Some (ck_session_unlock s)"

lemma emit_fields [simp]:
  "s_active (emit g s) = s_active s" "s_session_state (emit g s) = s_session_state s"
  "s_devices (emit g s) = s_devices s" "s_session_controller (emit g s) = s_session_controller s"
  "s_sig_watch_s1 (emit g s) = s_sig_watch_s1 s" "s_tty_fd (emit g s) = s_tty_fd s"
  "s_pause_devices_timer (emit g s) = s_pause_devices_timer s" "s_vtnr (emit g s) = s_vtnr s"
  "s_idle_monitor (emit g s) = s_idle_monitor s"
  by (auto simp: emit_def)

lemma mark_fields [simp]:
  "\<not> s_active (mark_inactive s)" "s_active (mark_active s)"
  "s_session_state (mark_inactive s) = Some ''online''" "s_session_state (mark_active s) = Some ''active''"
  "s_devices (mark_inactive s) = s_devices s" "s_devices (mark_active s) = s_devices s"
  "s_session_controller (mark_inactive s) = s_session_controller s"
  "s_session_controller (mark_active s) = s_session_controller s"
  "s_pause_devices_timer (mark_inactive s) = s_pause_devices_timer s"
  by (auto simp: mark_inactive_def mark_active_def)

lemma cancel_fields [simp]:
  "s_active (cancel_pause_timer s) = s_active s" "s_session_state (cancel_pause_timer s) = s_session_state s"
  "s_devices (cancel_pause_timer s) = s_devices s"
  "s_session_controller (cancel_pause_timer s) = s_session_controller s"
  "s_pause_devices_timer (cancel_pause_timer s) = 0" "s_idle_monitor (cancel_pause_timer s) = s_idle_monitor s"
  "s_sig_watch_s1 (cancel_pause_timer s) = s_sig_watch_s1 s" "s_vtnr (cancel_pause_timer s) = s_vtnr s"
  by (auto simp: cancel_pause_timer_def)

lemma device_number_set_active [simp]: "device_number (ck_device_set_active E b d) = device_number d"
  by (simp add: device_number_def)

lemma map_device_number [simp]:
  "map device_number (map (ck_device_set_active E b) ds) = map device_number ds"
  "device_number \<circ> ck_device_set_active E b = device_number"
  by auto

lemma session_inv_frame:
  "session_inv s \<Longrightarrow> s_active s' = s_active s \<Longrightarrow> s_session_state s' = s_session_state s \<Longrightarrow>
   s_devices s' = s_devices s \<Longrightarrow> s_session_controller s' = s_session_controller s \<Longrightarrow> session_inv s'"
  by (simp add: session_inv_def)

lemma check_paused_inv: 
  assumes "session_inv s"
  shows "session_inv (ck_session_check_paused_devices s)"
  using assms by (auto simp: ck_session_check_paused_devices_def session_inv_def ck_device_get_active_def)

lemma force_pause_inv: "session_inv s \<Longrightarrow> session_inv (force_pause_devices E s)"
  by (auto simp: force_pause_devices_def intro!: check_paused_inv) (auto simp: session_inv_def)

lemma pause_all_inv: "session_inv s \<Longrightarrow> session_inv (ck_session_pause_all_devices E f s)"
  by (auto simp: ck_session_pause_all_devices_def session_inv_def Let_def)

lemma resume_all_inv: "session_inv s \<Longrightarrow> session_inv (ck_session_resume_all_devices E s)"
  by (auto simp: ck_session_resume_all_devices_def session_inv_def Let_def)

lemma set_active_inv: "session_inv s \<Longrightarrow> session_inv (ck_session_set_active E a f s)"
  using pause_all_inv [of "cancel_pause_timer s"] resume_all_inv [of "cancel_pause_timer s"]
  by (auto simp: ck_session_set_active_def session_inv_frame [of s "cancel_pause_timer s"])

lemma setup_vt_frame [simp]:
  "s_active (ck_session_setup_vt_signal E n s) = s_active s"
  "s_session_state (ck_session_setup_vt_signal E n s) = s_session_state s"
  "s_devices (ck_session_setup_vt_signal E n s) = s_devices s"
  "s_session_controller (ck_session_setup_vt_signal E n s) = s_session_controller s"
  "s_idle_monitor (ck_session_setup_vt_signal E n s) = s_idle_monitor s"
  by (auto simp: ck_session_setup_vt_signal_def Let_def split: option.splits bool.splits)

lemma set_controller_fields [simp]:
  "s_active (ck_session_set_session_controller E c s) = s_active s"
  "s_session_state (ck_session_set_session_controller E c s) = s_session_state s"
  "s_devices (ck_session_set_session_controller E c s) = []"
  "s_session_controller (ck_session_set_session_controller E c s) = c"
  "s_idle_monitor (ck_session_set_session_controller E c s) = s_idle_monitor s"
  by (auto simp: ck_session_set_session_controller_def ck_session_controller_cleanup_def
      ck_session_remove_all_devices_def Let_def)

lemma set_controller_inv: "session_inv s \<Longrightarrow> session_inv (ck_session_set_session_controller E c s)"
  by (auto simp: session_inv_def)

lemma get_device_spec:
  assumes "ck_session_get_device E a b s = (s', r)"
  shows "session_inv s \<Longrightarrow> session_inv s'" "s_session_controller s' = s_session_controller s"
    "s_active s' = s_active s" "r = Some d \<Longrightarrow> d \<in> set (s_devices s) \<and> s' = s"
    "session_inv s \<Longrightarrow> r = None \<Longrightarrow> (a, b) \<notin> device_number ` set (s_devices s')"
proof -
  note def = assms [unfolded ck_session_get_device_def]
  show "s_session_controller s' = s_session_controller s" "s_active s' = s_active s"
    using def by (auto split: option.splits if_splits)
  show "r = Some d \<Longrightarrow> d \<in> set (s_devices s) \<and> s' = s"
    using def by (auto split: option.splits if_splits dest: find_SomeD)
  assume inv: "session_inv s"
  have "session_inv s' \<and> (r = None \<longrightarrow> (a, b) \<notin> device_number ` set (s_devices s'))"
  proof (cases "List.find (\<lambda>d. ck_device_compare d a b) (s_devices s)")
    case None
    then have "\<forall>d \<in> set (s_devices s). \<not> ck_device_compare d a b" by (simp add: find_None_iff)
    moreover have "s' = s" using def None by simp
    ultimately show ?thesis using inv by (auto simp: ck_device_compare_def device_number_def)
  next
    case (Some d)
    note d = find_SomeD [OF Some]
    show ?thesis
    proof (cases "ck_device_get_category d = DEVICE_EVDEV \<and> se_dead_fd E (ck_device_get_fd d)")
      case True
      then have s': "s' = s\<lparr>s_devices := remove1 d (s_devices s)\<rparr>" using def Some by simp
      have dist: "distinct (map device_number (s_devices s))" using inv by (simp add: session_inv_def)
      have "device_number d = (a, b)" using d by (simp add: ck_device_compare_def device_number_def)
      then have "(a, b) \<notin> device_number ` set (remove1 d (s_devices s))"
        using distinct_map_remove1(2) [OF dist] d by metis
      moreover have "session_inv s'"
        using inv distinct_map_remove1(1) [OF dist, of d] unfolding s' session_inv_def
        by (auto dest: notin_set_remove1)
      ultimately show ?thesis by (simp add: s')
    next
      case False
      then have "s' = s" "r = Some d" using def Some by auto
      with inv show ?thesis by simp
    qed
  qed
  then show "session_inv s'" "r = None \<Longrightarrow> (a, b) \<notin> device_number ` set (s_devices s')" by auto
qed

lemma create_device_inv:
  assumes "session_inv s" and "s_session_controller s \<noteq> None" and "ck_session_create_device E a b s = (s', r)"
  shows "session_inv s'"
proof (cases "ck_session_get_device E a b s")
  case (Pair t q)
  note g = get_device_spec [OF Pair]
  show ?thesis
  proof (cases "q = None \<and> ck_device_new (se_device E) a b (s_active t) \<noteq> None")
    case True
    then obtain d where d: "ck_device_new (se_device E) a b (s_active t) = Some d" by auto
    then have s': "s' = t\<lparr>s_devices := d # s_devices t\<rparr>"
      using assms(3) Pair True by (simp add: ck_session_create_device_def)
    have "device_number d \<notin> device_number ` set (s_devices t)"
      using g(5) assms(1) True ck_device_new_fields [OF d] by (simp add: device_number_def)
    then show ?thesis
      using g(1) [OF assms(1)] g(2) assms(2) ck_device_new_fields [OF d] unfolding s' session_inv_def
      by simp
  next
    case False
    then have "s' = t"
      using assms(3) Pair by (auto simp: ck_session_create_device_def split: option.splits)
    then show ?thesis using g(1) assms(1) by simp
  qed
qed

lemma take_device_inv:
  assumes "session_inv s"
  shows "session_inv (fst (dbus_take_device E (Some sender) a b s))"
proof (cases "s_session_controller s = Some sender")
  case True
  obtain t q where t: "ck_session_get_device E a b s = (t, q)" by fastforce
  obtain u r where u: "ck_session_create_device E a b t = (u, r)" by fastforce
  have "session_inv t" "session_inv u"
    using get_device_spec(1,2) [OF t] create_device_inv [OF _ _ u] assms True by auto
  then show ?thesis by (simp add: dbus_take_device_def True t u split: option.splits)
qed (use assms in \<open>simp add: dbus_take_device_def\<close>)

lemma release_device_inv:
  assumes "session_inv s"
  shows "session_inv (fst (dbus_release_device E (Some sender) a b s))"
proof (cases "s_session_controller s = Some sender")
  case True
  obtain t q where t: "ck_session_get_device E a b s = (t, q)" by fastforce
  have inv: "session_inv t" "s_session_controller t = s_session_controller s"
    using get_device_spec(1,2) [OF t] assms by auto
  have "session_inv (ck_session_remove_device d t)" for d
    using inv True distinct_map_remove1(1) [of device_number "s_devices t" d]
    unfolding ck_session_remove_device_def session_inv_def by (auto dest: notin_set_remove1)
  with inv show ?thesis by (simp add: dbus_release_device_def True t split: option.splits)
qed (use assms in \<open>simp add: dbus_release_device_def\<close>)

lemma pause_entry_props:
  "map device_number (pause_entry E d xs) = map device_number xs"
  "pause_entry E d xs = [] \<longleftrightarrow> xs = []"
  "\<forall>x \<in> set xs. \<not> dev_state x \<Longrightarrow> \<forall>x \<in> set (pause_entry E d xs). \<not> dev_state x"
  by (induction xs) auto

lemma pause_complete_inv:
  assumes "session_inv s"
  shows "session_inv (fst (dbus_pause_device_complete E (Some sender) a b s))"
proof (cases "s_session_controller s = Some sender")
  case True
  obtain t q where t: "ck_session_get_device E a b s = (t, q)" by fastforce
  have inv: "session_inv t" using get_device_spec(1) [OF t] assms by auto
  then have "session_inv (t\<lparr>s_devices := pause_entry (se_device E) d (s_devices t)\<rparr>)" for d
    using pause_entry_props(3) [of "s_devices t" "se_device E" d]
    unfolding session_inv_def by (auto simp: pause_entry_props(1,2))
  with inv show ?thesis
    by (simp add: dbus_pause_device_complete_def True t check_paused_inv split: option.splits)
qed (use assms in \<open>simp add: dbus_pause_device_complete_def\<close>)

lemma session_step_inv:
  assumes "session_inv s"
  shows "\<exists>s'. session_step e s = Some s' \<and> session_inv s'"
proof (cases e)
  case (Pause_Timeout E)
  then show ?thesis using assms force_pause_inv by simp
next
  case (Vt_Leave E)
  have "session_inv (vt_leave_handler E s)"
    unfolding vt_leave_handler_def by (rule session_inv_frame [OF pause_all_inv [OF assms]]) auto
  then show ?thesis using Vt_Leave assms by simp
next
  case Vt_Acquire
  have "session_inv (vt_acquire_handler s)"
    unfolding vt_acquire_handler_def by (rule session_inv_frame [OF assms]) auto
  then show ?thesis using Vt_Acquire assms by simp
next
  case (Take_Control E sender f)
  then show ?thesis
    using assms set_controller_inv by (auto simp: dbus_take_control_def split: option.splits)
next
  case (Release_Control E sender)
  then show ?thesis using assms set_controller_inv by (simp add: dbus_release_control_def)
next
  case (Controller_Vanished E)
  have "session_inv (s\<lparr>s_session_controller_watchid := 0\<rparr>)" by (rule session_inv_frame [OF assms]) auto
  then show ?thesis using Controller_Vanished set_controller_inv by (simp add: session_controller_vanished_def)
next
  case (Set_Idle_Hint E sender b)
  have "session_inv (session_set_idle_hint_internal E b s)"
    by (rule session_inv_frame [OF assms]) (auto simp: session_set_idle_hint_internal_def)
  then show ?thesis using Set_Idle_Hint assms by (auto simp: dbus_set_idle_hint_def split: option.splits)
next
  case (Set_Locked_Hint E sender b)
  have "session_inv (s\<lparr>s_locked_hint := b\<rparr>)" by (rule session_inv_frame [OF assms]) auto
  then show ?thesis using Set_Locked_Hint assms by (auto simp: dbus_set_locked_hint_def split: option.splits)
next
  case Lock_Session
  have "session_inv (ck_session_lock s)"
    by (rule session_inv_frame [OF assms]) (auto simp: ck_session_lock_def)
  then show ?thesis using Lock_Session by simp
next
  case Unlock_Session
  have "session_inv (ck_session_unlock s)"
    by (rule session_inv_frame [OF assms]) (auto simp: ck_session_unlock_def)
  then show ?thesis using Unlock_Session by simp
qed (use assms set_active_inv take_device_inv release_device_inv pause_complete_inv in simp_all)

subsection \<open>New sessions\<close>

lemma constructor_fields:
  "\<not> s_active (ck_session_constructor E ps)" "s_session_state (ck_session_constructor E ps) = None"
  "s_devices (ck_session_constructor E ps) = []" "s_idle_monitor (ck_session_constructor E ps) = None"
proof -
  have "\<not> session_is_text (ck_session_set_session_controller E c (ck_session_set_login_session_id l
      (ck_session_set_cookie k (ck_session_set_id i (ck_session_init E)))))" for c l k i
    by (auto simp: session_is_text_def ck_session_set_session_controller_def ck_session_controller_cleanup_def
        ck_session_remove_all_devices_def cancel_pause_timer_def ck_session_set_login_session_id_def
        ck_session_set_cookie_def ck_session_set_id_def ck_session_init_def Let_def)
  then show "\<not> s_active (ck_session_constructor E ps)" "s_session_state (ck_session_constructor E ps) = None"
    "s_devices (ck_session_constructor E ps) = []" "s_idle_monitor (ck_session_constructor E ps) = None"
    by (auto simp: ck_session_constructor_def Let_def ck_session_set_login_session_id_def
        ck_session_set_cookie_def ck_session_set_id_def ck_session_init_def)
qed

lemma session_property_roundtrip:
  assumes "n \<in> {''id'', ''cookie'', ''login-session-id'', ''session-controller''}"
  shows "ck_session_get_property n (ck_session_set_property E n (V_string v) s) = Some (Some v)"
  using assms by (auto simp: ck_session_get_property_def ck_session_set_property_def str_of_def ck_session_set_id_def
      ck_session_set_cookie_def ck_session_set_login_session_id_def)

lemma set_property_frame:
  assumes "\<not> construct_property n"
  shows "s_devices (ck_session_set_property E n v s) = s_devices s"
    "s_idle_monitor (ck_session_set_property E n v s) = s_idle_monitor s"
    "n \<noteq> ''active'' \<Longrightarrow> s_active (ck_session_set_property E n v s) = s_active s"
    "n \<noteq> ''session-state'' \<Longrightarrow> s_session_state (ck_session_set_property E n v s) = s_session_state s"
  using assms by (auto simp: ck_session_set_property_def construct_property_def)

lemma set_properties_frame:
  assumes "\<And>n v. (n, v) \<in> set ps \<Longrightarrow> \<not> construct_property n"
  shows "s_devices (fold (\<lambda>(n, v). ck_session_set_property E n v) ps s) = s_devices s"
    "s_idle_monitor (fold (\<lambda>(n, v). ck_session_set_property E n v) ps s) = s_idle_monitor s"
    "''active'' \<notin> fst ` set ps \<Longrightarrow> s_active (fold (\<lambda>(n, v). ck_session_set_property E n v) ps s) = s_active s"
    "''session-state'' \<notin> fst ` set ps \<Longrightarrow>
      s_session_state (fold (\<lambda>(n, v). ck_session_set_property E n v) ps s) = s_session_state s"
  using assms by (induction ps arbitrary: s) (fastforce simp: set_property_frame)+

lemma newv_fields:
  "s_devices (g_object_newv E ps) = []" "s_idle_monitor (g_object_newv E ps) = None"
  "''active'' \<notin> fst ` set ps \<Longrightarrow> \<not> s_active (g_object_newv E ps)"
  "''session-state'' \<notin> fst ` set ps \<Longrightarrow> s_session_state (g_object_newv E ps) = None"
proof -
  let ?qs = "filter (\<lambda>(n, v). \<not> construct_property n) ps"
  have qs: "\<not> construct_property n" if "(n, v) \<in> set ?qs" for n v using that by simp
  have names: "fst ` set ?qs \<subseteq> fst ` set ps" by auto
  note f = set_properties_frame [where ps = ?qs and E = E and s = "ck_session_constructor E ps"]
  show "s_devices (g_object_newv E ps) = []" "s_idle_monitor (g_object_newv E ps) = None"
    unfolding g_object_newv_def by (subst f; auto simp: constructor_fields)+
  show "''active'' \<notin> fst ` set ps \<Longrightarrow> \<not> s_active (g_object_newv E ps)"
    using f(3) names by (auto simp: g_object_newv_def constructor_fields)
  show "''session-state'' \<notin> fst ` set ps \<Longrightarrow> s_session_state (g_object_newv E ps) = None"
    using f(4) names by (auto simp: g_object_newv_def constructor_fields)
qed

lemma register_fields:
  assumes "register_session E c s = Some s'"
  shows "s_devices s' = s_devices s" "s_idle_monitor s' = s_idle_monitor s" "s_active s' = s_active s"
    "s_session_state s' = s_session_state s" "s_session_service s' \<noteq> None" "s_session_type s' \<noteq> None"
    "s_display_device s' = s_display_device s"
  using assms by (auto simp: register_session_def Let_def split: if_splits)

lemma collect_params_names: "fst ` set (collect_params tr ps) \<subseteq> fst ` set ps"
proof (induction ps)
  case (Cons p ps)
  then show ?case by (cases p) (auto split: option.splits)
qed simp

text \<open>Creating a session from parameters that do not set its activity.\<close>

definition fresh_session :: "CkSession \<Rightarrow> bool" where
  "fresh_session s = (\<exists>E tr ssid cookie ps c.
     ck_session_new_with_parameters E tr ssid cookie ps c = Some s \<and>
     ''active'' \<notin> fst ` set ps \<and> ''session-state'' \<notin> fst ` set ps)"

lemma fresh_session_inv: "fresh_session s \<Longrightarrow> session_inv s"
proof -
  assume "fresh_session s"
  then obtain E tr ssid cookie ps c where
    r: "register_session E c (g_object_newv E
          ([(''id'', V_string ssid), (''cookie'', V_string cookie)] @ collect_params tr ps)) = Some s"
    and ps: "''active'' \<notin> fst ` set ps" "''session-state'' \<notin> fst ` set ps"
    by (auto simp: fresh_session_def ck_session_new_with_parameters_def)
  let ?ps = "[(''id'', V_string ssid), (''cookie'', V_string cookie)] @ collect_params tr ps"
  have "''active'' \<notin> fst ` set ?ps" "''session-state'' \<notin> fst ` set ?ps"
    using ps collect_params_names [of tr ps] by auto
  with register_fields [OF r] newv_fields [where ps = ?ps and E = E] show "session_inv s"
    by (simp add: session_inv_def)
qed

interpretation session: machine session_step "\<lambda>_. True" fresh_session session_inv
  by unfold_locales (auto simp: fresh_session_inv session_step_inv)

section \<open>Properties\<close>

text \<open>
  C4: From its creation on, whatever the bus, the timer and the terminal do, an inactive
  session has no device in use, devices are held only under a session controller and
  never twice, and the reported state is "active" exactly when the session is active.
\<close>

theorem inactive_session_has_no_active_device:
  assumes "fresh_session s"
  shows "\<exists>t. run session_step es s = Some t \<and>
    (s_active t \<or> list_all (\<lambda>d. \<not> ck_device_get_active d) (s_devices t)) \<and>
    (s_devices t = [] \<or> s_session_controller t \<noteq> None) \<and>
    distinct (map device_number (s_devices t)) \<and>
    s_active t = (s_session_state t = Some ''active'')"
  using session.run_returns [OF assms, of es]
  by (auto simp: session_inv_def list_all_iff ck_device_get_active_def)

definition sample_dev_env :: device_env where
  "sample_dev_env = \<lparr>udev_ok = True, udev_device = (\<lambda>a b. Some (Some ''input'', ''event1'', Some ''/dev/input/event1'')),
     dev_open = (\<lambda>_. 9), set_master_ok = (\<lambda>_. True)\<rparr>"

definition sample_senv :: session_env where
  "sample_senv = \<lparr>se_now = (5, 0), se_timer_id = 3, se_watch_id = 4, se_caller_uid = (\<lambda>_. Some 1000),
     se_caller_pid = (\<lambda>_. Some 77), se_open_console = (\<lambda>_. 8), se_getpwuid = (\<lambda>_. True), se_kbd_mode = 0,
     se_graphical_mode = Some False, se_kd_graphics_ok = True, se_vt_setmode_ok = True, se_sig_ids = (11, 12),
     se_device = sample_dev_env, se_dead_fd = (\<lambda>_. False), se_export_ok = True\<rparr>"

definition sample_session :: CkSession where
  "sample_session = the (ck_session_new_with_parameters sample_senv (\<lambda>_. Some) ''Session1'' ''c''
     [(''unix-user'', V_uint 1000), (''display-device'', V_string ''/dev/tty2'')] True)"

lemmas session_new_eval = ck_session_new_with_parameters_def register_session_def g_object_newv_def
  construct_property_def ck_session_constructor_def ck_session_set_property_def find_property_def
  ck_session_init_def ck_session_set_id_def ck_session_set_cookie_def ck_session_set_login_session_id_def
  ck_session_set_session_controller_def ck_session_controller_cleanup_def ck_session_remove_all_devices_def
  cancel_pause_timer_def session_is_text_def str_of_def uint_of_def bool_of_def CK_DBUS_PATH_def

lemma sample_session_eq:
  "ck_session_new_with_parameters sample_senv (\<lambda>_. Some) ''Session1'' ''c''
     [(''unix-user'', V_uint 1000), (''display-device'', V_string ''/dev/tty2'')] True = Some sample_session"
  by (simp add: sample_session_def session_new_eval sample_senv_def)

lemma sample_session_fresh: "fresh_session sample_session"
  unfolding fresh_session_def
  by (rule exI, rule exI, rule exI, rule exI, rule exI, rule exI, rule conjI [OF sample_session_eq]) simp

theorem inactive_session_has_no_active_device_witness:
  "\<exists>t. run session_step [Set_Active sample_senv True False, Take_Control sample_senv '':1.5'' False,
       Take_Device sample_senv '':1.5'' 13 64, Set_Active sample_senv False False, Pause_Timeout sample_senv]
       sample_session = Some t \<and>
    (s_active t \<or> list_all (\<lambda>d. \<not> ck_device_get_active d) (s_devices t))"
  using inactive_session_has_no_active_device [OF sample_session_fresh] by blast

text \<open>
  C16: Only the session controller can use the device methods: a caller that is not the
  controller gets an error and changes nothing; and control passes to a new caller only
  when there is no controller or when root forces it.
\<close>

theorem controller_methods_are_guarded:
  assumes "s_session_controller s \<noteq> Some sender"
  shows "dbus_take_device E (Some sender) major minor s = (s, Throw CK_SESSION_ERROR_FAILED) \<and>
    dbus_release_device E (Some sender) major minor s = (s, Throw CK_SESSION_ERROR_FAILED) \<and>
    dbus_pause_device_complete E (Some sender) major minor s = (s, Throw CK_SESSION_ERROR_FAILED) \<and>
    dbus_release_control E (Some sender) s = (s, Throw CK_SESSION_ERROR_FAILED) \<and>
    (s_session_controller (fst (dbus_take_control E (Some sender) force s)) = Some sender) =
      (se_caller_pid E sender \<noteq> None \<and> se_caller_uid E sender \<noteq> None \<and>
       (s_session_controller s = None \<or> force \<and> se_caller_uid E sender = Some 0))"
  using assms
  by (auto simp: dbus_take_device_def dbus_release_device_def dbus_pause_device_complete_def
      dbus_release_control_def dbus_take_control_def get_caller_info_def ck_device_is_server_managed_def
      split: option.splits)

theorem controller_methods_are_guarded_witness:
  "dbus_take_device sample_senv (Some '':1.5'') 13 64 sample_session = (sample_session, Throw CK_SESSION_ERROR_FAILED) \<and>
   s_session_controller (fst (dbus_take_control sample_senv (Some '':1.5'') False sample_session)) = Some '':1.5''"
proof -
  have "s_session_controller sample_session = None"
    by (simp add: sample_session_def session_new_eval sample_senv_def)
  then show ?thesis
    using controller_methods_are_guarded [of sample_session "'':1.5''" sample_senv 13 64 False]
    by (simp add: sample_senv_def)
qed

text \<open>
  A reactivation that comes while the session still waits for its devices to be
  paused is lost: \<open>ck_session_set_active\<close> takes the call for redundant and keeps the
  timer, and when the timer fires the session the user returned to becomes inactive and
  all its devices are paused.
\<close>

theorem reactivation_during_pause_is_lost:
  assumes "s_active s" and "s_devices s \<noteq> []" and "0 < se_timer_id E"
    and "t = ck_session_set_active E' True False (ck_session_set_active E False False s)"
  shows "s_pause_devices_timer t = se_timer_id E \<and> s_active t \<and>
    \<not> s_active (force_pause_devices E'' t) \<and>
    list_all (\<lambda>d. \<not> ck_device_get_active d) (s_devices (force_pause_devices E'' t))"
  using assms
  by (auto simp: ck_session_set_active_def ck_session_pause_all_devices_def Let_def force_pause_devices_def
      ck_session_check_paused_devices_def ck_device_get_active_def list_all_iff)

theorem reactivation_during_pause_is_lost_witness:
  "\<exists>s. s_active s \<and> \<not> s_active (force_pause_devices sample_senv
     (ck_session_set_active sample_senv True False (ck_session_set_active sample_senv False False s)))"
proof -
  define d where "d = the (ck_device_new sample_dev_env 13 64 True)"
  let ?s = "sample_session\<lparr>s_active := True, s_devices := [d]\<rparr>"
  have "s_active ?s" "s_devices ?s \<noteq> []" "0 < se_timer_id sample_senv" by (simp_all add: sample_senv_def)
  from reactivation_during_pause_is_lost [OF this refl, of sample_senv sample_senv]
  show ?thesis by (intro exI [of _ ?s]) simp
qed

text \<open>
  No session gets an idle monitor. The constructor decides by the display device
  whether a session is a text session, but GObject sets that property only after the
  constructor has run; so even a session opened on a terminal is never watched.
\<close>

theorem new_session_has_no_idle_monitor:
  assumes "ck_session_new_with_parameters E tr ssid cookie ps c = Some s"
  shows "s_idle_monitor s = None"
  using assms unfolding ck_session_new_with_parameters_def
  by (auto dest!: register_fields(2) simp: newv_fields)

theorem new_session_has_no_idle_monitor_witness:
  "session_is_text sample_session \<and> s_idle_monitor sample_session = None"
  using new_session_has_no_idle_monitor [OF sample_session_eq]
  by (simp add: sample_session_def session_new_eval sample_senv_def)

text \<open>
  Registering a session fills in the type, the service and the class but never the
  state: the test for the state's default looks at the class.
\<close>

theorem register_session_defaults:
  assumes "se_export_ok E"
  shows "\<exists>s'. register_session E True s = Some s' \<and>
    s_session_type s' = default_string ''unspecified'' (s_session_type s) \<and>
    s_session_service s' = default_string ''unspecified'' (s_session_service s) \<and>
    s_session_class s' = default_string ''user'' (s_session_class s) \<and>
    s_session_state s' = s_session_state s"
  using assms by (auto simp: register_session_def Let_def default_string_def split: option.splits)

theorem register_session_defaults_witness:
  "\<exists>s'. register_session sample_senv True (ck_session_init sample_senv) = Some s' \<and>
     s_session_class s' = Some ''user'' \<and> s_session_state s' = None"
proof -
  have "se_export_ok sample_senv" "s_session_class (ck_session_init sample_senv) = None"
      "s_session_state (ck_session_init sample_senv) = None"
    by (simp_all add: sample_senv_def ck_session_init_def)
  with register_session_defaults [of sample_senv "ck_session_init sample_senv"] show ?thesis
    by (auto simp: default_string_def)
qed

text \<open>
  The environment array of the session programs is one entry too short: it is
  overrun exactly when service and type are set (they always are after registration) and
  the display device, the X11 display device and the remote host name are all non-empty.
\<close>

theorem session_programs_overrun:
  "(ck_session_run_programs sysconfdir libdir s action = None) \<longleftrightarrow>
     s_session_service s \<noteq> None \<and> s_session_type s \<noteq> None \<and> IS_STR_SET (s_display_device s) \<and>
     IS_STR_SET (s_x11_display_device s) \<and> IS_STR_SET (s_remote_host_name s)"
proof -
  have len: "length (env_entry n v) = (if v = None then 0 else 1)"
      "length (set_entry n v) = (if IS_STR_SET v then 1 else 0)" for n v
    by (auto simp: env_entry_def set_entry_def IS_STR_SET_def split: option.splits)
  show ?thesis
    by (simp add: ck_session_run_programs_def session_env_vector_def Let_def len session_env_capacity_def)
qed

end
