(* ===== verification/CK_Text.thy ===== *)
theory CK_Text
  imports CK_Prelude
begin

text \<open>
  Reading text the way the C library and GLib do: white space and numbers of \<open>sscanf\<close> and
  \<open>strtoul\<close>, substring search, and the part of GRegex the log reader uses, literals,
  character classes with a repetition, named groups and optional groups, with the
  leftmost greedy backtracking search.
\<close>

section \<open>Numbers and searching\<close>

definition is_space :: "char \<Rightarrow> bool" where
  "is_space c = (c = CHR '' '' \<or> (9 \<le> (of_char c :: nat) \<and> (of_char c :: nat) \<le> 13))"

text \<open>
  The \<open>%u\<close> (32 bits) and \<open>%lu\<close> (64 bits) conversions of \<open>sscanf\<close>: white space, an optional
  sign, digits; the value is that of \<open>strtoul\<close> on 64 bits, stored in \<open>bits\<close>. The rest of
  the input is returned too.
\<close>

definition scan_unsigned :: "nat \<Rightarrow> string \<Rightarrow> (nat \<times> string) option" where
  "scan_unsigned bits s =
     (let s = dropWhile is_space s;
          neg = (s \<noteq> [] \<and> hd s = CHR ''-'');
          s = (if s \<noteq> [] \<and> (hd s = CHR ''-'' \<or> hd s = CHR ''+'') then tl s else s);
          ds = takeWhile is_digit s;
          v = min (dec_val ds) (2 ^ 64 - 1)
      in if ds = [] then None
         else Some ((if neg \<and> dec_val ds < 2 ^ 64 then (2 ^ 64 - v) mod 2 ^ 64 else v) mod 2 ^ bits,
                    dropWhile is_digit s))"

text \<open>Removing white space at the end.\<close>

definition g_strchomp :: "string \<Rightarrow> string" where
  "g_strchomp s = rev (dropWhile is_space (rev s))"

text \<open>\<open>g_strstr_len\<close>: the rest of the text from the first occurrence on.\<close>

fun g_strstr :: "string \<Rightarrow> string \<Rightarrow> string option" where
  "g_strstr n [] = (if n = [] then Some [] else None)"
| "g_strstr n (c # s) = (if take (length n) (c # s) = n then Some (c # s) else g_strstr n s)"

lemma is_digit_not_space [simp]: "is_digit c \<Longrightarrow> \<not> is_space c"
  by (auto simp: is_digit_def is_space_def)

lemma dropWhile_hd: "s = [] \<or> \<not> P (hd s) \<Longrightarrow> dropWhile P s = s"
  by (cases s) auto

text \<open>A run of digits that is followed by something else is read as its value.\<close>

lemma scan_unsigned_digits:
  assumes "ds \<noteq> []" "list_all is_digit ds" "r = [] \<or> \<not> is_digit (hd r)" "dec_val ds < 2 ^ bits" "bits \<le> 64"
  shows "scan_unsigned bits (ds @ r) = Some (dec_val ds, r)"
proof -
  have hd: "is_digit (hd ds)" using assms(1,2) by (cases ds) auto
  have sp: "dropWhile is_space (ds @ r) = ds @ r"
    using hd assms(1) by (intro dropWhile_hd) (auto simp: hd_append)
  have all: "\<forall>c \<in> set ds. is_digit c" using assms(2) by (simp add: list_all_iff)
  have t: "takeWhile is_digit (ds @ r) = ds" "dropWhile is_digit (ds @ r) = r"
    using all assms(3) by (cases r; simp add: takeWhile_append dropWhile_append dropWhile_eq_Nil_conv)+
  have "hd ds \<noteq> CHR ''-''" "hd ds \<noteq> CHR ''+''" using hd by (auto simp: is_digit_def)
  moreover have "(2 :: nat) ^ bits \<le> 2 ^ 64" using assms(5) by (intro power_increasing) auto
  then have "dec_val ds \<le> 2 ^ 64 - 1" using assms(4) by linarith
  then have "min (dec_val ds) (2 ^ 64 - 1) = dec_val ds" by (rule min_absorb1)
  ultimately show ?thesis
    unfolding scan_unsigned_def Let_def sp using assms(1,4) by (simp only: hd_append t if_False if_True) (simp add: t)
qed

lemma dec_all_digits [simp]: "list_all is_digit (dec n)"
  by (simp add: list_all_iff)

lemma g_strstr_skip:
  assumes "n \<noteq> []" "hd n \<notin> set a"
  shows "g_strstr n (a @ s) = g_strstr n s"
  using assms(2)
proof (induction a)
  case (Cons c a)
  then have "take (length n) (c # a @ s) \<noteq> n" using assms(1) by (cases n) auto
  with Cons show ?case by simp
qed simp

lemma g_strstr_here: "g_strstr n (n @ s) = Some (n @ s)"
  by (cases n; cases s) auto

section \<open>Regular expressions\<close>

text \<open>
  Strings are bytes in UTF-8. \<open>Cls p m g\<close>: at least \<open>m\<close> characters of class \<open>p\<close>, captured under the name \<open>g\<close>
  if it has one; \<open>p\<close> looks at single bytes, so it is a class that has all characters beyond ASCII or none. \<open>Dots g\<close> is \<open>.*\<close>, any
  number of characters up to a line break of any kind.
\<close>

definition newline_at :: "string \<Rightarrow> bool" where
  "newline_at s =
     (take 1 s \<in> {[CHR 0x0A], [CHR 0x0B], [CHR 0x0C], [CHR 0x0D]} \<or> take 2 s = [CHR 0xC2, CHR 0x85] \<or>
      take 3 s \<in> {[CHR 0xE2, CHR 0x80, CHR 0xA8], [CHR 0xE2, CHR 0x80, CHR 0xA9]})"

fun dots_length :: "string \<Rightarrow> nat" where
  "dots_length [] = 0"
| "dots_length (c # s) = (if newline_at (c # s) then 0 else Suc (dots_length s))"

datatype rx =
    Lit string
  | Cls "char \<Rightarrow> bool" nat cstring
  | Dots cstring
  | Opt "rx list"

definition first_some :: "'a option list \<Rightarrow> 'a option" where
  "first_some xs = (case List.find (\<lambda>x. x \<noteq> None) xs of None \<Rightarrow> None | Some x \<Rightarrow> x)"

definition capture :: "cstring \<Rightarrow> string \<Rightarrow> (string \<times> string) list \<Rightarrow> (string \<times> string) list" where
  "capture g v c = (case g of None \<Rightarrow> c | Some n \<Rightarrow> (n, v) # c)"

function (sequential) rx_match :: "rx list \<Rightarrow> string \<Rightarrow> (string \<times> string) list option" where
  "rx_match [] s = Some []"
| "rx_match (Lit l # r) s = (if take (length l) s = l then rx_match r (drop (length l) s) else None)"
| "rx_match (Cls p m g # r) s =
     first_some (map (\<lambda>k. map_option (capture g (take k s)) (rx_match r (drop k s)))
       (rev [m ..< Suc (length (takeWhile p s))]))"
| "rx_match (Dots g # r) s =
     first_some (map (\<lambda>k. map_option (capture g (take k s)) (rx_match r (drop k s))) (rev [0 ..< Suc (dots_length s)]))"
| "rx_match (Opt q # r) s = (case rx_match (q @ r) s of None \<Rightarrow> rx_match r s | Some c \<Rightarrow> Some c)"
  by pat_completeness auto
termination by (relation "measure (\<lambda>(r, s). size_list size r)") auto

fun rx_search :: "rx list \<Rightarrow> string \<Rightarrow> (string \<times> string) list option" where
  "rx_search r [] = rx_match r []"
| "rx_search r (c # s) = (case rx_match r (c # s) of None \<Rightarrow> rx_search r s | Some m \<Rightarrow> Some m)"

text \<open>
  UTF-8 as PCRE checks it: no overlong forms, no surrogates, nothing beyond U+10FFFF. A
  subject that is not valid does not match.
\<close>

definition utf8_tail :: "nat \<Rightarrow> nat" where
  "utf8_tail n = (if n < 0x80 then 0 else if 0xC2 \<le> n \<and> n < 0xE0 then 1 else if 0xE0 \<le> n \<and> n < 0xF0 then 2 else 3)"

definition utf8_char :: "nat \<Rightarrow> nat list \<Rightarrow> bool" where
  "utf8_char n t =
     (length t = utf8_tail n \<and> (n < 0x80 \<or> 0xC2 \<le> n \<and> n < 0xF5) \<and> list_all (\<lambda>c. 0x80 \<le> c \<and> c < 0xC0) t \<and>
      (n = 0xE0 \<longrightarrow> 0xA0 \<le> hd t) \<and> (n = 0xED \<longrightarrow> hd t < 0xA0) \<and> (n = 0xF0 \<longrightarrow> 0x90 \<le> hd t) \<and> (n = 0xF4 \<longrightarrow> hd t < 0x90))"

function utf8_valid :: "string \<Rightarrow> bool" where
  "utf8_valid [] = True"
| "utf8_valid (c # s) =
     (let k = utf8_tail (of_char c)
      in utf8_char (of_char c) (map of_char (take k s)) \<and> utf8_valid (drop k s))"
  by pat_completeness auto
termination by (relation "measure length") auto

definition g_regex_match :: "rx list \<Rightarrow> string \<Rightarrow> (string \<times> string) list option" where
  "g_regex_match r s = (if utf8_valid s then rx_search r s else None)"

function (sequential) rx_names :: "rx list \<Rightarrow> string list" where
  "rx_names [] = []"
| "rx_names (Lit l # r) = rx_names r"
| "rx_names (Cls p m g # r) = (case g of None \<Rightarrow> rx_names r | Some n \<Rightarrow> n # rx_names r)"
| "rx_names (Dots g # r) = (case g of None \<Rightarrow> rx_names r | Some n \<Rightarrow> n # rx_names r)"
| "rx_names (Opt q # r) = rx_names (q @ r)"
  by pat_completeness auto
termination by (relation "measure (size_list size)") auto

text \<open>
  \<open>g_match_info_fetch_named\<close>: NULL for a name the expression does not have and for a group
  behind the last one that matched; the empty string for an unset group before it.
\<close>

definition fetch_named :: "rx list \<Rightarrow> (string \<times> string) list \<Rightarrow> string \<Rightarrow> cstring" where
  "fetch_named r caps n =
     (if n \<notin> set (rx_names r) then None
      else case map_of caps n of
        Some v \<Rightarrow> Some v
      | None \<Rightarrow>
          if list_ex (\<lambda>m. map_of caps m \<noteq> None) (tl (dropWhile (\<lambda>m. m \<noteq> n) (rx_names r))) then Some '''' else None)"

lemma first_some_Cons: "first_some (x # xs) = (case x of None \<Rightarrow> first_some xs | Some y \<Rightarrow> Some y)"
  by (cases x) (auto simp: first_some_def)

text \<open>A class that stops at the literal behind it is matched by exactly the text before it.\<close>

lemma rx_match_field:
  assumes "list_all p v" "m \<le> length v" "l = c # l'" "\<not> p c" "rx_match r t = Some caps"
  shows "rx_match (Cls p m g # Lit l # r) (v @ l @ t) = Some (capture g v caps)"
proof -
  have "takeWhile p (v @ l @ t) = v"
    using assms(1,3,4) by (simp add: takeWhile_append list_all_iff)
  moreover have "rev [m ..< Suc (length v)] = length v # rev [m ..< length v]"
    using assms(2) by simp
  ultimately show ?thesis using assms(5) by (simp add: first_some_Cons)
qed

lemma rx_match_last:
  assumes "list_all p v" "m \<le> length v" "t = [] \<or> \<not> p (hd t)"
  shows "rx_match [Cls p m g] (v @ t) = Some (capture g v [])"
proof -
  have "takeWhile p (v @ t) = v" using assms(1,3) by (cases t) (auto simp: list_all_iff takeWhile_append)
  moreover have "rev [m ..< Suc (length v)] = length v # rev [m ..< length v]" using assms(2) by simp
  ultimately show ?thesis by (simp add: first_some_Cons)
qed

text \<open>What is read up to the line break also takes the literal before it, and gives that back.\<close>

lemma dots_length_le: "dots_length s \<le> length s"
  by (induction s) auto

lemma dots_length_end:
  assumes "dots_length v = length v" "t = [] \<or> newline_at t" "c \<in> {CHR 0x27}"
  shows "dots_length (v @ c # t) = Suc (length v)"
  using assms(1)
proof (induction v)
  case Nil
  then show ?case using assms(2,3) by (cases t) (auto simp: newline_at_def take_Cons')
next
  case (Cons x v)
  then have x: "\<not> newline_at (x # v)" "dots_length v = length v" using dots_length_le [of v] by (auto split: if_splits)
  have "newline_at (x # v @ c # t) = newline_at (x # v)"
    using assms(3) by (cases v; cases "tl v") (auto simp: newline_at_def take_Cons')
  with Cons.IH [OF x(2)] x(1) show ?case by simp
qed

lemma rx_match_dots:
  assumes "dots_length v = length v" "t = [] \<or> newline_at t" "c \<in> {CHR 0x27}"
  shows "rx_match [Dots g, Lit [c]] (v @ c # t) = Some (capture g v [])"
proof -
  have "take (Suc 0) t \<noteq> [c]" using assms(2,3) by (cases t) (auto simp: newline_at_def take_Cons')
  then show ?thesis using dots_length_end [OF assms] by (simp add: first_some_Cons)
qed

text \<open>ASCII text is valid, and so are valid texts one after the other.\<close>

lemma utf8_valid_append: "utf8_valid a \<Longrightarrow> utf8_valid (a @ b) = utf8_valid b"
proof (induction a rule: utf8_valid.induct)
  case (2 c s)
  let ?k = "utf8_tail (of_char c)"
  have v: "utf8_char (of_char c) (map of_char (take ?k s))" "utf8_valid (drop ?k s)" using 2(2) by (simp_all add: Let_def)
  then have "min (length s) ?k = ?k" by (simp add: utf8_char_def)
  then have "?k \<le> length s" by (metis min.cobounded1)
  with 2(1) [OF refl v(2)] v(1) show ?case by (simp add: Let_def)
qed simp

definition ascii_char :: "char \<Rightarrow> bool" where
  "ascii_char c = (of_char c < (128 :: nat))"

lemma utf8_valid_ascii: "list_all ascii_char s \<Longrightarrow> utf8_valid s"
  by (induction s) (simp_all add: ascii_char_def utf8_char_def utf8_tail_def Let_def)

declare utf8_valid.simps(2) [simp del]

lemma utf8_valid_literal [simp]: "utf8_valid (Char b0 b1 b2 b3 b4 b5 b6 False # s) = utf8_valid s"
proof -
  have "ascii_char (Char b0 b1 b2 b3 b4 b5 b6 False)" by (simp add: ascii_char_def of_char_def)
  then have "utf8_valid [Char b0 b1 b2 b3 b4 b5 b6 False]" by (intro utf8_valid_ascii) simp
  from utf8_valid_append [OF this, of s] show ?thesis by simp
qed

lemma rx_match_lit [simp]: "rx_match (Lit l # r) (l @ t) = rx_match r t"
  by simp

lemma rx_search_match: "rx_match r s = Some c \<Longrightarrow> rx_search r s = Some c"
  by (cases s) auto

section \<open>Lines of fields\<close>

text \<open>
  A line of fields: each field is a literal, the class and least length of its value and
  the name of its group; a last literal may follow.
\<close>

type_synonym field = "string \<times> (char \<Rightarrow> bool) \<times> nat \<times> string"

fun line_rx :: "field list \<Rightarrow> string \<Rightarrow> rx list" where
  "line_rx [] e = (if e = [] then [] else [Lit e])"
| "line_rx ((l, p, m, g) # fs) e = Lit l # Cls p m (Some g) # line_rx fs e"

fun line_text :: "field list \<Rightarrow> string \<Rightarrow> string list \<Rightarrow> string" where
  "line_text ((l, p, m, g) # fs) e (v # vs) = l @ v @ line_text fs e vs"
| "line_text fs e vs = e"

definition line_next :: "field list \<Rightarrow> string \<Rightarrow> string" where
  "line_next fs e = (case fs of [] \<Rightarrow> e | (l, _) # _ \<Rightarrow> l)"

text \<open>The values have their classes, and what follows a value does not.\<close>

fun line_ok :: "field list \<Rightarrow> string \<Rightarrow> string list \<Rightarrow> bool" where
  "line_ok [] e [] = True"
| "line_ok ((l, p, m, g) # fs) e (v # vs) =
     (list_all p v \<and> m \<le> length v \<and>
      (case line_next fs e of [] \<Rightarrow> fs = [] | c # _ \<Rightarrow> \<not> p c) \<and> line_ok fs e vs)"
| "line_ok _ e _ = False"

lemma line_text_append: "length vs = length fs \<Longrightarrow> line_text fs (e @ t) vs = line_text fs e vs @ t"
  by (induction fs e vs rule: line_text.induct) auto

lemma line_ok_length: "line_ok fs e vs \<Longrightarrow> length vs = length fs"
  by (induction fs e vs rule: line_ok.induct) auto

lemma line_ok_append: "e \<noteq> [] \<Longrightarrow> line_ok fs (e @ t) vs = line_ok fs e vs"
proof (induction fs e vs rule: line_ok.induct)
  case (2 l p m g fs e v vs)
  then show ?case by (cases e) (auto simp: line_next_def split: list.splits)
qed auto

text \<open>
  A printed line with a rest \<open>t\<close> behind it matches its expression, and every group captures its
  value. The line read is \<open>line_text fs (e @ t) vs\<close>, so \<open>line_ok\<close> looks at the rest as well.
\<close>

lemma rx_match_line_tail:
  assumes "line_ok fs (e @ t) vs"
  shows "rx_match (line_rx fs e) (line_text fs (e @ t) vs) = Some (zip (map (\<lambda>(l, p, m, g). g) fs) vs)"
  using assms
proof (induction fs "e @ t" vs rule: line_ok.induct)
  case 1
  then show ?case by simp
next
  case (2 l p m g fs v vs)
  then have IH: "rx_match (line_rx fs e) (line_text fs (e @ t) vs) = Some (zip (map (\<lambda>(l, p, m, g). g) fs) vs)"
    and ok: "list_all p v" "m \<le> length v" "line_ok fs (e @ t) vs" by simp_all
  show ?case
  proof (cases "fs = [] \<and> e = []")
    case True
    then have "vs = []" using ok(3) by (cases vs) auto
    moreover have "t = [] \<or> \<not> p (hd t)" using 2(2) True by (cases t) (auto simp: line_next_def)
    ultimately show ?thesis
      using True rx_match_last [OF ok(1,2), of t "Some g"] by (simp add: capture_def del: rx_match.simps(3))
  next
    case False
    then obtain c r where nx: "line_next fs (e @ t) = c # r" using 2(2) by (cases "line_next fs (e @ t)") (auto simp: line_next_def)
    then have np: "\<not> p c" using 2(2) by simp
    have "\<exists>c' l' r. line_rx fs e = Lit (c' # l') # r \<and> c' = c \<and> (\<exists>t'. line_text fs (e @ t) vs = (c' # l') @ t' \<and>
        rx_match (line_rx fs e) (line_text fs (e @ t) vs) = rx_match r t')"
    proof (cases fs)
      case Nil
      then show ?thesis using False nx by (cases e) (auto simp: line_next_def)
    next
      case (Cons f fs')
      obtain l2 p2 m2 g2 where f: "f = (l2, p2, m2, g2)" by (cases f)
      have l2: "l2 = c # r" using nx Cons f by (simp add: line_next_def)
      obtain v2 vs2 where vs: "vs = v2 # vs2" using ok(3) Cons f by (cases vs) auto
      show ?thesis by (simp add: Cons f l2 vs del: rx_match.simps(3))
    qed
    then obtain l' r' t' where r: "line_rx fs e = Lit (c # l') # r'" "line_text fs (e @ t) vs = (c # l') @ t'"
        "rx_match (line_rx fs e) (line_text fs (e @ t) vs) = rx_match r' t'" by blast
    from rx_match_field [OF ok(1,2) _ np, of _ l' r' t' _ "Some g"] IH r
    show ?thesis by (simp add: capture_def del: rx_match.simps(3))
  qed
qed simp_all

lemma rx_match_line:
  assumes "line_ok fs e vs"
  shows "rx_match (line_rx fs e) (line_text fs e vs) = Some (zip (map (\<lambda>(l, p, m, g). g) fs) vs)"
  using rx_match_line_tail [of fs e "[]" vs] assms by simp

lemma rx_names_line [simp]: "rx_names (line_rx fs e) = map (\<lambda>(l, p, m, g). g) fs"
  by (induction fs e rule: line_rx.induct) auto

declare rx_search.simps [simp del]

end
