(* ===== verification/CK_VtMonitor.thy ===== *)
theory CK_VtMonitor
  imports CK_Text
begin

text \<open>
  The monitor of virtual terminals: src/src/ck-vt-monitor.c, in the configuration that
  has one waiting thread per console (Linux without a switch signal), and the names of
  console devices: src/src/ck-sysdeps-linux.c.

  A thread is in \<open>vt_waiting\<close> while it blocks in \<open>ck_wait_for_active_console_num\<close>, in
  \<open>vt_scheduling\<close> between putting its event on the queue and scheduling the handler, and in
  \<open>vt_exiting\<close> from then until it removed itself from the hash table; \<open>vt_thread_hash\<close>
  holds the keys of the table. Each locked section of a thread is one step. The idle handler is one step
  too: it holds the lock of the queue all along, so nothing is pushed meanwhile, and what else
  threads do then (scheduling a handler that is scheduled already, leaving the table) has the effect it has
  before the handler.
\<close>

section \<open>Console devices\<close>

definition PATH_TTY :: string where
  "PATH_TTY = ''/dev/tty''"

definition MAX_NR_CONSOLES :: nat where
  "MAX_NR_CONSOLES = 63"

definition ck_get_max_num_consoles :: nat where
  "ck_get_max_num_consoles = MAX_NR_CONSOLES"

definition ck_get_console_device_for_num :: "nat \<Rightarrow> string" where
  "ck_get_console_device_for_num num = PATH_TTY @ dec num"

definition scan_uint :: "string \<Rightarrow> nat option" where
  "scan_uint s = map_option fst (scan_unsigned 32 s)"

definition ck_get_console_num_from_device :: "cstring \<Rightarrow> nat option" where
  "ck_get_console_num_from_device device =
     (case device of
        None \<Rightarrow> None
      | Some d \<Rightarrow>
          if take (length PATH_TTY) d = PATH_TTY then scan_uint (drop (length PATH_TTY) d) else None)"

section \<open>The monitor\<close>

datatype CkVtMonitorError =
    CK_VT_MONITOR_ERROR_GENERAL
  | CK_VT_MONITOR_ERROR_NO_CONSOLE
  | CK_VT_MONITOR_ERROR_ALREADY_ACTIVE

record CkVtMonitor =
  vfd :: int
  vt_thread_hash :: "nat list"
  vt_active_num :: nat
  vt_event_queue :: "nat list"
  vt_process_queue_id :: nat
  vt_waiting :: "nat list"
  vt_scheduling :: "nat list"
  vt_exiting :: "nat list"
  vt_active_changed :: "nat list"

definition vt_add_watch_unlocked :: "(nat \<Rightarrow> bool) \<Rightarrow> nat \<Rightarrow> CkVtMonitor \<Rightarrow> CkVtMonitor" where
  "vt_add_watch_unlocked thread_ok num v =
     (if thread_ok num
      then v\<lparr>vt_thread_hash := num # vt_thread_hash v, vt_waiting := num # vt_waiting v\<rparr> else v)"

text \<open>The consoles of the loop that adds watches: it ends before the number of consoles.\<close>

definition watched_consoles :: "nat \<Rightarrow> nat list" where
  "watched_consoles max_consoles = [1..<max_consoles]"

declare watched_consoles_def [simp]

definition vt_add_watches :: "(nat \<Rightarrow> bool) \<Rightarrow> CkVtMonitor \<Rightarrow> CkVtMonitor" where
  "vt_add_watches thread_ok v =
     fold (\<lambda>i v. if i = vt_active_num v then v
                 else if i \<in> set (vt_thread_hash v) then v
                 else vt_add_watch_unlocked thread_ok i v)
       (watched_consoles ck_get_max_num_consoles) v"

text \<open>\<open>fd\<close> is the console's descriptor, -1 when none could be opened.\<close>

definition ck_vt_monitor_init :: "(nat \<Rightarrow> bool) \<Rightarrow> int \<Rightarrow> nat option \<Rightarrow> CkVtMonitor" where
  "ck_vt_monitor_init thread_ok fd active =
     (let v = \<lparr>vfd = fd, vt_thread_hash = [], vt_active_num = 0, vt_event_queue = [],
               vt_process_queue_id = 0, vt_waiting = [], vt_scheduling = [], vt_exiting = [], vt_active_changed = []\<rparr>
      in if fd = - 1 then v
         else vt_add_watches thread_ok
                (v\<lparr>vt_active_num := (case active of None \<Rightarrow> 0 | Some n \<Rightarrow> n)\<rparr>))"

text \<open>Asks the kernel for a switch; \<open>activate_ok\<close> is its answer. The monitor does not change.\<close>

definition ck_vt_monitor_set_active :: "(nat \<Rightarrow> bool) \<Rightarrow> nat \<Rightarrow> CkVtMonitor \<Rightarrow> CkVtMonitorError + unit" where
  "ck_vt_monitor_set_active activate_ok num v =
     (if num = vt_active_num v then Inl CK_VT_MONITOR_ERROR_ALREADY_ACTIVE
      else if vfd v = - 1 then Inl CK_VT_MONITOR_ERROR_NO_CONSOLE
      else if activate_ok num then Inr () else Inl CK_VT_MONITOR_ERROR_GENERAL)"

definition ck_vt_monitor_get_active :: "CkVtMonitor \<Rightarrow> CkVtMonitorError + nat" where
  "ck_vt_monitor_get_active v =
     (if vfd v = - 1 then Inl CK_VT_MONITOR_ERROR_NO_CONSOLE else Inr (vt_active_num v))"

definition change_active_num :: "(nat \<Rightarrow> bool) \<Rightarrow> nat \<Rightarrow> CkVtMonitor \<Rightarrow> CkVtMonitor" where
  "change_active_num thread_ok num v =
     (if vt_active_num v \<noteq> num
      then let v = vt_add_watches thread_ok (v\<lparr>vt_active_num := num\<rparr>)
        in v\<lparr>vt_active_changed := vt_active_changed v @ [num]\<rparr>
      else v)"

text \<open>The loop that drains the queue and keeps the last event.\<close>

fun compress_queue :: "nat option \<Rightarrow> nat list \<Rightarrow> nat option" where
  "compress_queue data [] = data"
| "compress_queue data (d # q) = compress_queue (Some d) q"

definition process_queue :: "(nat \<Rightarrow> bool) \<Rightarrow> CkVtMonitor \<Rightarrow> CkVtMonitor" where
  "process_queue thread_ok v =
     (let data = compress_queue None (vt_event_queue v);
          v = v\<lparr>vt_event_queue := []\<rparr>;
          v = (case data of None \<Rightarrow> v | Some num \<Rightarrow> change_active_num thread_ok num v)
      in v\<lparr>vt_process_queue_id := 0\<rparr>)"

definition schedule_process_queue :: "nat \<Rightarrow> CkVtMonitor \<Rightarrow> CkVtMonitor" where
  "schedule_process_queue idle_id v =
     (if vt_process_queue_id v = 0 then v\<lparr>vt_process_queue_id := idle_id\<rparr> else v)"

text \<open>The three sections of a thread: its wait ended (with \<open>res\<close>), scheduling, and leaving the table.\<close>

definition vt_thread_woken :: "bool \<Rightarrow> nat \<Rightarrow> CkVtMonitor \<Rightarrow> CkVtMonitor" where
  "vt_thread_woken res num v =
     (let v = v\<lparr>vt_waiting := remove1 num (vt_waiting v)\<rparr>
      in if res then v\<lparr>vt_event_queue := vt_event_queue v @ [num], vt_scheduling := num # vt_scheduling v\<rparr>
         else v\<lparr>vt_exiting := num # vt_exiting v\<rparr>)"

definition vt_thread_schedule :: "nat \<Rightarrow> nat \<Rightarrow> CkVtMonitor \<Rightarrow> CkVtMonitor" where
  "vt_thread_schedule idle_id num v =
     (let v = schedule_process_queue idle_id v
      in v\<lparr>vt_scheduling := remove1 num (vt_scheduling v), vt_exiting := num # vt_exiting v\<rparr>)"

definition vt_thread_exit :: "nat \<Rightarrow> CkVtMonitor \<Rightarrow> CkVtMonitor" where
  "vt_thread_exit num v =
     v\<lparr>vt_thread_hash := removeAll num (vt_thread_hash v), vt_exiting := remove1 num (vt_exiting v)\<rparr>"

datatype vt_event =
    Vt_Woken bool nat
  | Vt_Schedule nat nat
  | Vt_Exit nat
  | Vt_Idle "nat \<Rightarrow> bool"

fun vt_step :: "vt_event \<Rightarrow> CkVtMonitor \<Rightarrow> CkVtMonitor option" where
  "vt_step (Vt_Woken res num) v = Some (if num \<in> set (vt_waiting v) then vt_thread_woken res num v else v)"
| "vt_step (Vt_Schedule idle_id num) v =
     Some (if num \<in> set (vt_scheduling v) then vt_thread_schedule idle_id num v else v)"
| "vt_step (Vt_Exit num) v = Some (if num \<in> set (vt_exiting v) then vt_thread_exit num v else v)"
| "vt_step (Vt_Idle thread_ok) v =
     Some (if vt_process_queue_id v = 0 then v else process_queue thread_ok v)"

text \<open>The ids GLib gives to sources are positive.\<close>

fun vt_event_ok :: "vt_event \<Rightarrow> bool" where
  "vt_event_ok (Vt_Schedule idle_id num) = (0 < idle_id)"
| "vt_event_ok e = True"

section \<open>Lemmas\<close>

definition vt_threads_ok :: "CkVtMonitor \<Rightarrow> bool" where
  "vt_threads_ok v =
     (distinct (vt_waiting v @ vt_scheduling v @ vt_exiting v) \<and>
      set (vt_thread_hash v) = set (vt_waiting v @ vt_scheduling v @ vt_exiting v) \<and>
      (\<forall>i \<in> set (vt_thread_hash v). 1 \<le> i \<and> i < MAX_NR_CONSOLES))"

definition vt_inv :: "CkVtMonitor \<Rightarrow> bool" where
  "vt_inv v =
     (vt_threads_ok v \<and> (vt_event_queue v \<noteq> [] \<longrightarrow> vt_process_queue_id v \<noteq> 0 \<or> vt_scheduling v \<noteq> []) \<and>
      (vt_active_changed v \<noteq> [] \<longrightarrow> vt_active_num v = last (vt_active_changed v)))"

definition add_watch_step :: "(nat \<Rightarrow> bool) \<Rightarrow> nat \<Rightarrow> CkVtMonitor \<Rightarrow> CkVtMonitor" where
  "add_watch_step ok i v =
     (if i = vt_active_num v then v else if i \<in> set (vt_thread_hash v) then v
      else vt_add_watch_unlocked ok i v)"

lemma vt_add_watches_step: "vt_add_watches ok v = fold (add_watch_step ok) [1..<MAX_NR_CONSOLES] v"
  by (simp add: vt_add_watches_def add_watch_step_def [abs_def] ck_get_max_num_consoles_def)

lemma add_watch_step_fields [simp]:
  "vt_active_num (add_watch_step ok i v) = vt_active_num v"
  "vt_event_queue (add_watch_step ok i v) = vt_event_queue v"
  "vt_process_queue_id (add_watch_step ok i v) = vt_process_queue_id v"
  "vt_active_changed (add_watch_step ok i v) = vt_active_changed v"
  "vt_exiting (add_watch_step ok i v) = vt_exiting v" "vt_scheduling (add_watch_step ok i v) = vt_scheduling v" "vfd (add_watch_step ok i v) = vfd v"
  by (auto simp: add_watch_step_def vt_add_watch_unlocked_def)

lemma fold_add_watch_fields [simp]:
  "vt_active_num (fold (add_watch_step ok) is v) = vt_active_num v"
  "vt_event_queue (fold (add_watch_step ok) is v) = vt_event_queue v"
  "vt_process_queue_id (fold (add_watch_step ok) is v) = vt_process_queue_id v"
  "vt_active_changed (fold (add_watch_step ok) is v) = vt_active_changed v"
  "vt_exiting (fold (add_watch_step ok) is v) = vt_exiting v" "vt_scheduling (fold (add_watch_step ok) is v) = vt_scheduling v" "vfd (fold (add_watch_step ok) is v) = vfd v"
  by (induction "is" arbitrary: v) auto

lemma add_watch_step_threads:
  "vt_threads_ok v \<Longrightarrow> 1 \<le> i \<Longrightarrow> i < MAX_NR_CONSOLES \<Longrightarrow> vt_threads_ok (add_watch_step ok i v)"
  by (auto simp: vt_threads_ok_def add_watch_step_def vt_add_watch_unlocked_def)

lemma fold_add_watch_threads:
  "vt_threads_ok v \<Longrightarrow> \<forall>i \<in> set is. 1 \<le> i \<and> i < MAX_NR_CONSOLES \<Longrightarrow>
   vt_threads_ok (fold (add_watch_step ok) is v)"
  by (induction "is" arbitrary: v) (auto simp: add_watch_step_threads)

lemma fold_add_watch_set:
  "set (vt_waiting (fold (add_watch_step ok) is v)) =
     set (vt_waiting v) \<union> {i \<in> set is. i \<noteq> vt_active_num v \<and> i \<notin> set (vt_thread_hash v) \<and> ok i}"
  by (induction "is" arbitrary: v) (auto simp: add_watch_step_def vt_add_watch_unlocked_def)

lemma vt_add_watches_threads: "vt_threads_ok v \<Longrightarrow> vt_threads_ok (vt_add_watches ok v)"
  unfolding vt_add_watches_step by (rule fold_add_watch_threads) auto

lemma vt_add_watches_fields [simp]:
  "vt_active_num (vt_add_watches ok v) = vt_active_num v"
  "vt_event_queue (vt_add_watches ok v) = vt_event_queue v"
  "vt_process_queue_id (vt_add_watches ok v) = vt_process_queue_id v"
  "vt_active_changed (vt_add_watches ok v) = vt_active_changed v"
  "vt_exiting (vt_add_watches ok v) = vt_exiting v" "vt_scheduling (vt_add_watches ok v) = vt_scheduling v" "vfd (vt_add_watches ok v) = vfd v"
  by (auto simp: vt_add_watches_step)

lemma compress_queue_last: "compress_queue data q = (if q = [] then data else Some (last q))"
  by (induction data q rule: compress_queue.induct) auto

lemma change_active_inv:
  assumes "vt_inv v"
  shows "vt_inv (change_active_num ok num v)"
proof -
  have "vt_threads_ok (vt_add_watches ok (v\<lparr>vt_active_num := num\<rparr>))"
    using assms by (intro vt_add_watches_threads) (simp add: vt_inv_def vt_threads_ok_def)
  then show ?thesis
    using assms by (auto simp: change_active_num_def vt_inv_def vt_threads_ok_def Let_def)
qed

lemma process_queue_inv:
  assumes "vt_inv v"
  shows "vt_inv (process_queue ok v)"
proof -
  have "vt_inv (v\<lparr>vt_event_queue := []\<rparr>)" using assms by (simp add: vt_inv_def vt_threads_ok_def)
  moreover from this have "vt_inv (change_active_num ok num (v\<lparr>vt_event_queue := []\<rparr>))" for num
    by (rule change_active_inv)
  moreover have "vt_event_queue (change_active_num ok num (v\<lparr>vt_event_queue := []\<rparr>)) = []" for num
    by (simp add: change_active_num_def Let_def)
  ultimately show ?thesis
    by (auto simp: process_queue_def vt_inv_def vt_threads_ok_def Let_def split: option.splits)
qed

lemma vt_step_inv: "vt_inv v \<Longrightarrow> vt_event_ok e \<Longrightarrow> \<exists>v'. vt_step e v = Some v' \<and> vt_inv v'"
proof (cases e)
  case (Vt_Woken res num)
  assume "vt_inv v"
  with Vt_Woken show ?thesis
    by (auto simp: vt_thread_woken_def vt_inv_def vt_threads_ok_def Let_def dest: notin_set_remove1)
next
  case (Vt_Schedule idle_id num)
  assume "vt_inv v" "vt_event_ok e"
  with Vt_Schedule show ?thesis
    by (auto simp: vt_thread_schedule_def schedule_process_queue_def vt_inv_def vt_threads_ok_def Let_def
        dest: notin_set_remove1)
next
  case (Vt_Exit num)
  assume "vt_inv v"
  with Vt_Exit show ?thesis
    by (auto simp: vt_thread_exit_def vt_inv_def vt_threads_ok_def dest: notin_set_remove1)
qed (simp add: process_queue_inv)

lemma vt_init_inv: "vt_inv (ck_vt_monitor_init ok fd active)"
proof -
  have "vt_threads_ok (vt_add_watches ok \<lparr>vfd = fd, vt_thread_hash = [], vt_active_num = n, vt_event_queue = [],
      vt_process_queue_id = 0, vt_waiting = [], vt_scheduling = [], vt_exiting = [], vt_active_changed = []\<rparr>)" for n
    by (rule vt_add_watches_threads) (simp add: vt_threads_ok_def)
  then show ?thesis by (simp add: ck_vt_monitor_init_def vt_inv_def Let_def) (simp add: vt_threads_ok_def)
qed

interpretation vt: machine vt_step vt_event_ok "\<lambda>v. \<exists>ok fd active. v = ck_vt_monitor_init ok fd active" vt_inv
  by unfold_locales (auto simp: vt_init_inv vt_step_inv)

section \<open>Properties\<close>

lemma console_num_of_device:
  assumes "n < 2 ^ 32"
  shows "ck_get_console_num_from_device (Some (ck_get_console_device_for_num n)) = Some n"
  using assms scan_unsigned_digits [of "dec n" "[]" 32]
  by (simp add: ck_get_console_num_from_device_def ck_get_console_device_for_num_def scan_uint_def)

text \<open>
  A console number survives the way through its device name, for every 32-bit number.
\<close>

theorem console_device_roundtrip:
  assumes "n < 2 ^ 32"
  shows "ck_get_console_num_from_device (Some (ck_get_console_device_for_num n)) = Some n"
  using assms by (rule console_num_of_device)

theorem console_device_roundtrip_witness:
  "ck_get_console_num_from_device (Some ''/dev/tty7'') = Some 7"
proof -
  have "ck_get_console_device_for_num 7 = ''/dev/tty7''" by code_simp
  with console_device_roundtrip [of 7] show ?thesis by simp
qed

text \<open>
  C14: In every state the threads and the main loop can reach, however their locked sections are
  interleaved, the monitor's number is the last one it announced, and no queued event is forgotten:
  the handler is scheduled, or a thread that has pushed its event has yet to schedule it, and
  the next of them to do so leaves it scheduled. There is exactly one thread per entry
  of the thread table, in one of its three sections. Processing the queue moves to the newest event with
  at most one signal.
\<close>

theorem vt_monitor_consistent:
  assumes "list_all vt_event_ok es"
  shows "\<exists>v. run vt_step es (ck_vt_monitor_init ok fd active) = Some v \<and>
    (vt_active_changed v = [] \<or> vt_active_num v = last (vt_active_changed v)) \<and>
    (vt_event_queue v = [] \<or> vt_process_queue_id v \<noteq> 0 \<or> vt_scheduling v \<noteq> []) \<and>
    (\<forall>num idle_id. 0 < idle_id \<longrightarrow> vt_process_queue_id (vt_thread_schedule idle_id num v) \<noteq> 0) \<and>
    distinct (vt_waiting v @ vt_scheduling v @ vt_exiting v) \<and>
    set (vt_thread_hash v) = set (vt_waiting v @ vt_scheduling v @ vt_exiting v) \<and>
    vt_event_queue (process_queue ok' v) = [] \<and>
    vt_active_num (process_queue ok' v) =
      (if vt_event_queue v = [] then vt_active_num v else last (vt_event_queue v)) \<and>
    vt_active_changed (process_queue ok' v) = vt_active_changed v @
      (if vt_active_num (process_queue ok' v) = vt_active_num v then [] else [vt_active_num (process_queue ok' v)])"
proof -
  obtain v where v: "run vt_step es (ck_vt_monitor_init ok fd active) = Some v" "vt_inv v"
    using vt.run_returns [OF _ assms] by blast
  then show ?thesis
    by (auto simp: vt_inv_def vt_threads_ok_def process_queue_def compress_queue_last change_active_num_def
        vt_thread_schedule_def schedule_process_queue_def Let_def)
qed

text \<open>Two threads push before the first one schedules, and the handler runs before the second one does.\<close>

theorem vt_monitor_consistent_witness:
  "\<exists>v. run vt_step [Vt_Woken True 2, Vt_Woken True 3, Vt_Schedule 5 3, Vt_Idle (\<lambda>_. True), Vt_Schedule 6 2, Vt_Exit 2]
      (ck_vt_monitor_init (\<lambda>_. True) 4 (Some 1)) = Some v \<and>
    (vt_event_queue v = [] \<or> vt_process_queue_id v \<noteq> 0 \<or> vt_scheduling v \<noteq> [])"
  using vt_monitor_consistent [of "[Vt_Woken True 2, Vt_Woken True 3, Vt_Schedule 5 3, Vt_Idle (\<lambda>_. True), Vt_Schedule 6 2, Vt_Exit 2]"
      "\<lambda>_. True" 4 "Some 1"] by auto

text \<open>
  When no thread is behind its wait, a processed switch leaves every console but the
  active one watched, if threads can be created.
\<close>

theorem switch_watches_all_consoles:
  assumes "vt_inv v" and "vt_scheduling v = []" and "vt_exiting v = []" and "vt_event_queue v \<noteq> []"
    and "last (vt_event_queue v) \<noteq> vt_active_num v" and "1 \<le> i" and "i < MAX_NR_CONSOLES"
    and "i \<noteq> last (vt_event_queue v)"
  shows "i \<in> set (vt_waiting (process_queue (\<lambda>_. True) v))"
  using assms
  by (auto simp: process_queue_def compress_queue_last change_active_num_def vt_add_watches_step
      fold_add_watch_set vt_inv_def vt_threads_ok_def Let_def)

definition quiet_monitor :: CkVtMonitor where
  "quiet_monitor = \<lparr>vfd = 4, vt_thread_hash = [], vt_active_num = 1, vt_event_queue = [2],
     vt_process_queue_id = 9, vt_waiting = [], vt_scheduling = [], vt_exiting = [], vt_active_changed = []\<rparr>"

theorem switch_watches_all_consoles_witness:
  "1 \<in> set (vt_waiting (process_queue (\<lambda>_. True) quiet_monitor))"
proof -
  have "vt_inv quiet_monitor" by (simp add: vt_inv_def vt_threads_ok_def quiet_monitor_def)
  from switch_watches_all_consoles [OF this, of 1] show ?thesis
    by (simp add: quiet_monitor_def MAX_NR_CONSOLES_def)
qed

text \<open>
  A watch can be lost. Two switches come before the queue is processed while the
  thread of the first console has not left the table yet: no new thread is started for
  it, and once the old one is gone nobody waits for that console although everything is
  idle.
\<close>

theorem vt_watch_can_be_lost:
  "\<exists>v. run vt_step [Vt_Woken True 2, Vt_Schedule 5 2, Vt_Woken True 3, Vt_Schedule 6 3, Vt_Idle (\<lambda>_. True), Vt_Exit 2, Vt_Exit 3]
      (ck_vt_monitor_init (\<lambda>_. True) 4 (Some 1)) = Some v \<and>
    vt_active_num v = 3 \<and> vt_event_queue v = [] \<and> vt_scheduling v = [] \<and> vt_exiting v = [] \<and> 2 \<notin> set (vt_waiting v)"
proof -
  let ?v = "ck_vt_monitor_init (\<lambda>_. True) 4 (Some 1)"
  have w: "set (vt_waiting ?v) = {i. 1 \<le> i \<and> i < 63 \<and> i \<noteq> 1}"
    by (auto simp: ck_vt_monitor_init_def vt_add_watches_step fold_add_watch_set MAX_NR_CONSOLES_def Let_def)
  have f: "vt_exiting ?v = []" "vt_scheduling ?v = []" "vt_event_queue ?v = []" "vt_process_queue_id ?v = 0" "vt_active_num ?v = 1"
    by (auto simp: ck_vt_monitor_init_def Let_def)
  have inv: "distinct (vt_waiting ?v)" "set (vt_thread_hash ?v) = set (vt_waiting ?v)"
    using vt_init_inv [of "\<lambda>_. True" 4 "Some 1"] f by (auto simp: vt_inv_def vt_threads_ok_def)
  show ?thesis
    using w f inv
    by (simp add: vt_thread_woken_def vt_thread_schedule_def schedule_process_queue_def process_queue_def change_active_num_def
        vt_thread_exit_def vt_add_watches_step fold_add_watch_set Let_def)
qed

end
