(* ===== verification/CK_Seat.thy ===== *)
theory CK_Seat
  imports CK_Session CK_VtMonitor
begin

text \<open>
  Seats and session switching: src/src/ck-seat.c.

  Sessions and seats are objects of a heap: a \<open>CkSession *\<close> is the address of a session,
  NULL is \<open>None\<close>, and pointer equality is equality of addresses. The record \<open>seat_world\<close>
  holds the heap, the terminal monitor that all seats share, the pending activations
  (\<open>ActivateData\<close>), the connected \<open>activate\<close> handlers and the bus traffic. The manager
  extends it (CK_Manager), so the operations are written for any extension; the
  manager's reaction to the seat's private signals is the argument \<open>h\<close>.
\<close>

section \<open>Types\<close>

datatype CkSeatKind = CK_SEAT_KIND_STATIC | CK_SEAT_KIND_DYNAMIC

datatype CkSeatError =
    CK_SEAT_ERROR_GENERAL
  | CK_SEAT_ERROR_FAILED
  | CK_SEAT_ERROR_INSUFFICIENT_PERMISSION
  | CK_SEAT_ERROR_NOT_SUPPORTED
  | CK_SEAT_ERROR_NO_ACTIVE_SESSION
  | CK_SEAT_ERROR_ALREADY_ACTIVE
  | CK_SEAT_ERROR_NO_SESSIONS

record CkSeat =
  st_id :: cstring
  st_path :: cstring
  st_kind :: CkSeatKind
  st_sessions :: "(string, nat) ghash"
  st_devices :: "(string \<times> string) list"
  st_active_session :: "nat option"
  st_vt_monitor :: bool
  st_connection :: bool
  st_name :: cstring
  st_can_graphical :: bool

datatype seat_out =
    Seat_Session_Added nat cstring
  | Seat_Session_Removed nat cstring
  | Seat_Active_Session_Changed nat string
  | Seat_Device_Added nat "string \<times> string"
  | Reply_Value nat
  | Reply_Error nat CkSeatError

datatype seat_signal =
    Active_Session_Changed_Full nat "nat option" "nat option"
  | Session_Added_Full nat nat
  | Session_Removed_Full nat nat

text \<open>An \<open>ActivateData\<close>: the seat, the console waited for, the invocation to answer.\<close>

type_synonym activate_data = "nat \<times> nat \<times> nat option"

record seat_world =
  sess :: "nat \<Rightarrow> CkSession"
  seats :: "nat \<Rightarrow> CkSeat"
  vtm :: CkVtMonitor
  pending :: "activate_data list"
  activate_handlers :: "(nat \<times> nat) list"
  seat_log :: "seat_out list"

record seat_env =
  sv_session :: session_env
  sv_activate_ok :: "nat \<Rightarrow> bool"
  sv_iso8601 :: "timeval \<Rightarrow> string"
  sv_export_ok :: bool

definition send :: "seat_out \<Rightarrow> 'a seat_world_scheme \<Rightarrow> 'a seat_world_scheme" where
  "send out w = w\<lparr>seat_log := seat_log w @ [out]\<rparr>"

definition upd_session :: "nat \<Rightarrow> (CkSession \<Rightarrow> CkSession) \<Rightarrow> 'a seat_world_scheme \<Rightarrow> 'a seat_world_scheme" where
  "upd_session a f w = w\<lparr>sess := (sess w)(a := f (sess w a))\<rparr>"

definition upd_seat :: "nat \<Rightarrow> (CkSeat \<Rightarrow> CkSeat) \<Rightarrow> 'a seat_world_scheme \<Rightarrow> 'a seat_world_scheme" where
  "upd_seat st f w = w\<lparr>seats := (seats w)(st := f (seats w st))\<rparr>"

definition set_active :: "seat_env \<Rightarrow> nat \<Rightarrow> bool \<Rightarrow> bool \<Rightarrow> 'a seat_world_scheme \<Rightarrow> 'a seat_world_scheme" where
  "set_active E a active force w = upd_session a (ck_session_set_active (sv_session E) active force) w"

section \<open>Activation\<close>

definition ck_seat_get_active_session :: "nat \<Rightarrow> 'a seat_world_scheme \<Rightarrow> CkSeatError + cstring" where
  "ck_seat_get_active_session st w =
     (case st_active_session (seats w st) of
        None \<Rightarrow> Inl CK_SEAT_ERROR_NO_ACTIVE_SESSION
      | Some a \<Rightarrow> Inr (ck_session_get_path (sess w a)))"

definition dbus_get_active_session :: "nat \<Rightarrow> 'a seat_world_scheme \<Rightarrow> CkSeatError reply" where
  "dbus_get_active_session st w =
     (case ck_seat_get_active_session st w of
        Inl _ \<Rightarrow> Throw CK_SEAT_ERROR_NO_ACTIVE_SESSION
      | Inr None \<Rightarrow> Throw CK_SEAT_ERROR_NO_ACTIVE_SESSION
      | Inr p \<Rightarrow> Reply_string p)"

text \<open>A pending activation is answered by the first change of the active console.\<close>

definition activated_cb :: "nat \<Rightarrow> activate_data \<Rightarrow> 'a seat_world_scheme \<Rightarrow> 'a seat_world_scheme" where
  "activated_cb num ad w =
     (case ad of (st, n, context) \<Rightarrow>
        let w = (case context of
                   None \<Rightarrow> w
                 | Some c \<Rightarrow> if n = num then send (Reply_Value c) w else send (Reply_Error c CK_SEAT_ERROR_GENERAL) w)
        in w\<lparr>pending := remove1 ad (pending w)\<rparr>)"

text \<open>The device that names a session's console.\<close>

definition activation_device :: "CkSession \<Rightarrow> cstring" where
  "activation_device s = (if IS_STR_SET (s_x11_display_device s) then s_x11_display_device s else s_display_device s)"

definition ck_seat_activate_session ::
  "seat_env \<Rightarrow> nat option \<Rightarrow> nat option \<Rightarrow> nat option \<Rightarrow> 'a seat_world_scheme \<Rightarrow>
   CkSeatError option \<times> 'a seat_world_scheme" where
  "ck_seat_activate_session E seat session context w =
     (case seat of
        None \<Rightarrow> (Some CK_SEAT_ERROR_FAILED, w)
      | Some st \<Rightarrow>
          if st_kind (seats w st) \<noteq> CK_SEAT_KIND_STATIC then (Some CK_SEAT_ERROR_NOT_SUPPORTED, w)
          else case session of
            None \<Rightarrow> (Some CK_SEAT_ERROR_FAILED, w)
          | Some a \<Rightarrow>
              (case ck_get_console_num_from_device (activation_device (sess w a)) of
                 None \<Rightarrow> (Some CK_SEAT_ERROR_FAILED, w)
               | Some num \<Rightarrow>
                   let ad = (st, num, context);
                       w = w\<lparr>pending := pending w @ [ad]\<rparr>;
                       w = (case st_active_session (seats w st) of
                              None \<Rightarrow> w
                            | Some old \<Rightarrow> if old \<noteq> a then set_active E old False True w else w)
                   in (case ck_vt_monitor_set_active (sv_activate_ok E) num (vtm w) of
                         Inr _ \<Rightarrow> (None, w)
                       | Inl e \<Rightarrow>
                           let (err, w) = (if e = CK_VT_MONITOR_ERROR_ALREADY_ACTIVE
                                           then (None, set_active E a True True w)
                                           else (Some CK_SEAT_ERROR_FAILED, w))
                           in (err, w\<lparr>pending := butlast (pending w)\<rparr>))))"

text \<open>The reply follows at once, whatever the pending activation will answer later.\<close>

definition dbus_activate_session ::
  "seat_env \<Rightarrow> nat \<Rightarrow> nat \<Rightarrow> cstring \<Rightarrow> 'a seat_world_scheme \<Rightarrow> 'a seat_world_scheme" where
  "dbus_activate_session E st context ssid w =
     (let session = (case ssid of None \<Rightarrow> None | Some i \<Rightarrow> g_hash_table_lookup (st_sessions (seats w st)) i) in
      case ck_seat_activate_session E (Some st) session (Some context) w of
        (Some e, w) \<Rightarrow> send (Reply_Error context e) w
      | (None, w) \<Rightarrow> send (Reply_Value context) w)"

definition find_session_by_vt :: "'a seat_world_scheme \<Rightarrow> nat \<Rightarrow> string \<Rightarrow> nat \<Rightarrow> bool" where
  "find_session_by_vt w vtnum key a = (s_vtnr (sess w a) = vtnum)"

definition dbus_switch_to ::
  "seat_env \<Rightarrow> nat \<Rightarrow> nat \<Rightarrow> nat \<Rightarrow> 'a seat_world_scheme \<Rightarrow> 'a seat_world_scheme" where
  "dbus_switch_to E st context vtnr w =
     (case g_hash_table_find (st_sessions (seats w st)) (find_session_by_vt w vtnr) of
        Some a \<Rightarrow> dbus_activate_session E st context (ck_session_get_id (sess w a)) w
      | None \<Rightarrow>
          if st_vt_monitor (seats w st)
          then (case ck_vt_monitor_set_active (sv_activate_ok E) vtnr (vtm w) of
                  Inr _ \<Rightarrow> send (Reply_Value context) w
                | Inl _ \<Rightarrow> send (Reply_Error context CK_SEAT_ERROR_FAILED) w)
          else send (Reply_Error context CK_SEAT_ERROR_GENERAL) w)"

section \<open>The session of a console\<close>

definition match_session_display_device :: "'a seat_world_scheme \<Rightarrow> string \<Rightarrow> string \<Rightarrow> nat \<Rightarrow> bool" where
  "match_session_display_device w device key a = (s_display_device (sess w a) = Some device)"

definition match_session_x11_display_device :: "'a seat_world_scheme \<Rightarrow> string \<Rightarrow> string \<Rightarrow> nat \<Rightarrow> bool" where
  "match_session_x11_display_device w device key a = (s_x11_display_device (sess w a) = Some device)"

definition find_all_func :: "(string \<Rightarrow> nat \<Rightarrow> bool) \<Rightarrow> string \<times> nat \<Rightarrow> nat list \<Rightarrow> nat list" where
  "find_all_func p kv l = (if p (fst kv) (snd kv) then snd kv # l else l)"

definition hash_table_find_all :: "(string, nat) ghash \<Rightarrow> (string \<Rightarrow> nat \<Rightarrow> bool) \<Rightarrow> nat list" where
  "hash_table_find_all t p = fold (find_all_func p) t []"

definition find_sessions_for_display_device :: "nat \<Rightarrow> string \<Rightarrow> 'a seat_world_scheme \<Rightarrow> nat list" where
  "find_sessions_for_display_device st device w =
     hash_table_find_all (st_sessions (seats w st)) (match_session_display_device w device)"

definition find_sessions_for_x11_display_device :: "nat \<Rightarrow> string \<Rightarrow> 'a seat_world_scheme \<Rightarrow> nat list" where
  "find_sessions_for_x11_display_device st device w =
     hash_table_find_all (st_sessions (seats w st)) (match_session_x11_display_device w device)"

text \<open>The order of the ISO 8601 creation times as strings.\<close>

definition sort_sessions_by_age :: "seat_env \<Rightarrow> 'a seat_world_scheme \<Rightarrow> nat \<Rightarrow> nat \<Rightarrow> bool" where
  "sort_sessions_by_age E w a b =
     strcmp_le (ck_session_get_creation_time (sv_iso8601 E) (sess w a))
               (ck_session_get_creation_time (sv_iso8601 E) (sess w b))"

definition find_oldest_session :: "seat_env \<Rightarrow> 'a seat_world_scheme \<Rightarrow> nat list \<Rightarrow> nat" where
  "find_oldest_session E w l = hd (g_list_sort (sort_sessions_by_age E w) l)"

definition find_session_for_display_device ::
  "seat_env \<Rightarrow> nat \<Rightarrow> string \<Rightarrow> 'a seat_world_scheme \<Rightarrow> nat option" where
  "find_session_for_display_device E st device w =
     (let l = find_sessions_for_x11_display_device st device w;
          l = (if l = [] then find_sessions_for_display_device st device w else l)
      in if l = [] then None
         else if length l = 1 then Some (hd l)
         else Some (find_oldest_session E w l))"

definition change_active_session ::
  "seat_env \<Rightarrow> (seat_signal \<Rightarrow> 'a seat_world_scheme \<Rightarrow> 'a seat_world_scheme) \<Rightarrow> nat \<Rightarrow> nat option \<Rightarrow>
   'a seat_world_scheme \<Rightarrow> 'a seat_world_scheme" where
  "change_active_session E h st session w =
     (let old = st_active_session (seats w st) in
      if old = session
      then (case session of None \<Rightarrow> w | Some a \<Rightarrow> set_active E a True True w)
      else
        let w = (case old of None \<Rightarrow> w | Some o' \<Rightarrow> set_active E o' False True w);
            w = upd_seat st (\<lambda>s. s\<lparr>st_active_session := session\<rparr>) w;
            w = (case session of None \<Rightarrow> w | Some a \<Rightarrow> set_active E a True True w);
            w = h (Active_Session_Changed_Full st old session) w
        in (case session of
              None \<Rightarrow> w
            | Some a \<Rightarrow>
                (case ck_session_get_path (sess w a) of
                   None \<Rightarrow> w
                 | Some p \<Rightarrow> send (Seat_Active_Session_Changed st p) w)))"

definition update_active_vt ::
  "seat_env \<Rightarrow> (seat_signal \<Rightarrow> 'a seat_world_scheme \<Rightarrow> 'a seat_world_scheme) \<Rightarrow> nat \<Rightarrow> nat \<Rightarrow>
   'a seat_world_scheme \<Rightarrow> 'a seat_world_scheme" where
  "update_active_vt E h st num w =
     change_active_session E h st
       (find_session_for_display_device E st (ck_get_console_device_for_num num) w) w"

definition maybe_update_active_session ::
  "seat_env \<Rightarrow> (seat_signal \<Rightarrow> 'a seat_world_scheme \<Rightarrow> 'a seat_world_scheme) \<Rightarrow> nat \<Rightarrow>
   'a seat_world_scheme \<Rightarrow> 'a seat_world_scheme" where
  "maybe_update_active_session E h st w =
     (if st_kind (seats w st) \<noteq> CK_SEAT_KIND_STATIC then w
      else case ck_vt_monitor_get_active (vtm w) of
        Inl _ \<Rightarrow> w
      | Inr num \<Rightarrow> update_active_vt E h st num w)"

text \<open>The handler of a session's \<open>activate\<close> signal: the invocation is not passed on.\<close>

definition session_activate ::
  "seat_env \<Rightarrow> nat \<Rightarrow> nat \<Rightarrow> 'a seat_world_scheme \<Rightarrow> CkSeatError option \<times> 'a seat_world_scheme" where
  "session_activate E a st w = ck_seat_activate_session E (Some st) (Some a) None w"

text \<open>
  \<open>dbus_activate\<close> of a session (src/src/ck-session.c): the signal runs the handler of the
  seat the session is attached to; without one the initial error stays. The call is
  never answered when the error says the session is already active.
\<close>

definition dbus_activate ::
  "seat_env \<Rightarrow> nat \<Rightarrow> 'a seat_world_scheme \<Rightarrow> 'a seat_world_scheme \<times> CkSessionError reply" where
  "dbus_activate E a w =
     (case List.find (\<lambda>(b, st). b = a) (activate_handlers w) of
        None \<Rightarrow> (w, Throw CK_SESSION_ERROR_NOT_SUPPORTED)
      | Some (_, st) \<Rightarrow>
          (case session_activate E a st w of
             (None, w) \<Rightarrow> (w, Complete)
           | (Some CK_SEAT_ERROR_ALREADY_ACTIVE, w) \<Rightarrow> (w, No_reply)
           | (Some CK_SEAT_ERROR_NOT_SUPPORTED, w) \<Rightarrow> (w, Throw CK_SESSION_ERROR_NOT_SUPPORTED)
           | (Some _, w) \<Rightarrow> (w, Throw CK_SESSION_ERROR_GENERAL)))"

section \<open>Sessions of a seat\<close>

definition ck_seat_remove_session ::
  "seat_env \<Rightarrow> (seat_signal \<Rightarrow> 'a seat_world_scheme \<Rightarrow> 'a seat_world_scheme) \<Rightarrow> nat \<Rightarrow> nat \<Rightarrow>
   'a seat_world_scheme \<Rightarrow> bool \<times> 'a seat_world_scheme" where
  "ck_seat_remove_session E h st a w =
     (let ssid = NONULL_STRING (ck_session_get_id (sess w a)) in
      case g_hash_table_lookup (st_sessions (seats w st)) ssid of
        None \<Rightarrow> (False, w)
      | Some _ \<Rightarrow>
          let w = w\<lparr>activate_handlers := removeAll (a, st) (activate_handlers w)\<rparr>;
              w = upd_seat st (\<lambda>s. s\<lparr>st_sessions := g_hash_table_remove (st_sessions s) ssid\<rparr>) w;
              w = h (Session_Removed_Full st a) w;
              w = send (Seat_Session_Removed st (ck_session_get_path (sess w a))) w
          in (True, maybe_update_active_session E h st w))"

definition ck_seat_add_session ::
  "seat_env \<Rightarrow> (seat_signal \<Rightarrow> 'a seat_world_scheme \<Rightarrow> 'a seat_world_scheme) \<Rightarrow> nat \<Rightarrow> nat \<Rightarrow>
   'a seat_world_scheme \<Rightarrow> 'a seat_world_scheme" where
  "ck_seat_add_session E h st a w =
     (let ssid = NONULL_STRING (ck_session_get_id (sess w a));
          w = upd_seat st (\<lambda>s. s\<lparr>st_sessions := g_hash_table_insert (st_sessions s) ssid a\<rparr>) w;
          w = upd_session a (\<lambda>s. fst (ck_session_set_seat_id (st_id (seats w st)) (st_path (seats w st)) s)) w;
          w = w\<lparr>activate_handlers := activate_handlers w @ [(a, st)]\<rparr>;
          w = h (Session_Added_Full st a) w;
          w = send (Seat_Session_Added st (ck_session_get_path (sess w a))) w
      in maybe_update_active_session E h st w)"

definition active_vt_changed ::
  "seat_env \<Rightarrow> (seat_signal \<Rightarrow> 'a seat_world_scheme \<Rightarrow> 'a seat_world_scheme) \<Rightarrow> nat \<Rightarrow> nat \<Rightarrow>
   'a seat_world_scheme \<Rightarrow> 'a seat_world_scheme" where
  "active_vt_changed E h st num w = update_active_vt E h st num w"

definition ck_seat_can_activate_sessions :: "CkSeat \<Rightarrow> bool" where
  "ck_seat_can_activate_sessions s = (st_kind s = CK_SEAT_KIND_STATIC)"

definition dbus_can_activate_sessions :: "CkSeat \<Rightarrow> CkSeatError reply" where
  "dbus_can_activate_sessions s = Reply_bool (st_kind s = CK_SEAT_KIND_STATIC)"

section \<open>Devices and accessors\<close>

definition ck_seat_has_device :: "string \<times> string \<Rightarrow> CkSeat \<Rightarrow> bool" where
  "ck_seat_has_device d s = list_ex (\<lambda>e. e = d) (st_devices s)"

definition ck_seat_add_device :: "nat \<Rightarrow> string \<times> string \<Rightarrow> 'a seat_world_scheme \<Rightarrow> bool \<times> 'a seat_world_scheme" where
  "ck_seat_add_device st d w =
     (if ck_seat_has_device d (seats w st) then (False, w)
      else (True, send (Seat_Device_Added st d) (upd_seat st (\<lambda>s. s\<lparr>st_devices := st_devices s @ [d]\<rparr>) w)))"

definition ck_seat_remove_device :: "CkSeat \<Rightarrow> CkSeat" where
  "ck_seat_remove_device s = s"

definition ck_seat_get_kind :: "CkSeat \<Rightarrow> CkSeatKind" where
  "ck_seat_get_kind s = st_kind s"

definition ck_seat_get_id :: "CkSeat \<Rightarrow> cstring" where
  "ck_seat_get_id s = st_id s"

definition ck_seat_get_path :: "CkSeat \<Rightarrow> cstring" where
  "ck_seat_get_path s = st_path s"

definition dbus_get_seat_path :: "CkSeat \<Rightarrow> CkSeatError reply" where
  "dbus_get_seat_path s = Reply_string (st_path s)"

definition dbus_get_name :: "CkSeat \<Rightarrow> CkSeatError reply" where
  "dbus_get_name s = Reply_string (st_name s)"

definition ck_seat_can_graphical :: bool where
  "ck_seat_can_graphical = True"

definition ck_seat_register :: "seat_env \<Rightarrow> CkSeat \<Rightarrow> CkSeat option" where
  "ck_seat_register E s =
     (if \<not> st_connection s then None
      else if \<not> sv_export_ok E then None
      else Some (s\<lparr>st_can_graphical := ck_seat_can_graphical\<rparr>))"

definition ck_seat_get_sessions :: "CkSeat \<Rightarrow> string list" where
  "ck_seat_get_sessions s = map fst (st_sessions s)"

definition dbus_get_sessions :: "nat \<Rightarrow> 'a seat_world_scheme \<Rightarrow> CkSeatError + cstring list" where
  "dbus_get_sessions st w =
     (let paths = map (\<lambda>kv. ck_session_get_path (sess w (snd kv))) (st_sessions (seats w st))
      in if paths = [] then Inl CK_SEAT_ERROR_NO_SESSIONS else Inr paths)"

definition ck_seat_get_devices :: "CkSeat \<Rightarrow> (string \<times> string) list" where
  "ck_seat_get_devices s = st_devices s"

definition fill_variant :: "string \<times> string \<Rightarrow> (string \<times> string) list \<Rightarrow> (string \<times> string) list" where
  "fill_variant device ar = ar @ [device]"

definition dbus_get_devices :: "CkSeat \<Rightarrow> (string \<times> string) list" where
  "dbus_get_devices s = fold fill_variant (st_devices s) []"

lemma dbus_get_devices_eq: "dbus_get_devices s = ck_seat_get_devices s"
proof -
  have "fold fill_variant ds ar = ar @ ds" for ds ar by (induction ds arbitrary: ar) (simp_all add: fill_variant_def)
  then show ?thesis by (simp add: dbus_get_devices_def ck_seat_get_devices_def)
qed

section \<open>Construction\<close>

definition ck_seat_set_id :: "cstring \<Rightarrow> CkSeat \<Rightarrow> CkSeat" where
  "ck_seat_set_id i s = s\<lparr>st_id := i\<rparr>"

definition ck_seat_set_kind :: "CkSeatKind \<Rightarrow> CkSeat \<Rightarrow> CkSeat" where
  "ck_seat_set_kind k s =
     (let s = s\<lparr>st_kind := k\<rparr> in
      if k = CK_SEAT_KIND_STATIC then s\<lparr>st_name := Some ''seat0''\<rparr> else s\<lparr>st_name := st_id s\<rparr>)"

definition ck_seat_init :: CkSeat where
  "ck_seat_init = \<lparr>st_id = None, st_path = None, st_kind = CK_SEAT_KIND_STATIC, st_sessions = [],
     st_devices = [], st_active_session = None, st_vt_monitor = False, st_connection = False,
     st_name = None, st_can_graphical = False\<rparr>"

definition ck_seat_constructor :: "CkSeat \<Rightarrow> CkSeat" where
  "ck_seat_constructor s =
     (let s = (if st_kind s = CK_SEAT_KIND_STATIC then s\<lparr>st_vt_monitor := True\<rparr> else s)
      in s\<lparr>st_path := Some (CK_DBUS_PATH @ ''/'' @ printf_string (st_id s))\<rparr>)"

text \<open>The construction properties, set in the order they are given.\<close>

datatype seat_property = PROP_ID cstring | PROP_KIND CkSeatKind | PROP_CONNECTION bool

fun ck_seat_set_property :: "seat_property \<Rightarrow> CkSeat \<Rightarrow> CkSeat" where
  "ck_seat_set_property (PROP_ID i) s = ck_seat_set_id i s"
| "ck_seat_set_property (PROP_KIND k) s = ck_seat_set_kind k s"
| "ck_seat_set_property (PROP_CONNECTION c) s = s\<lparr>st_connection := c\<rparr>"

definition ck_seat_new :: "string \<Rightarrow> CkSeatKind \<Rightarrow> bool \<Rightarrow> CkSeat" where
  "ck_seat_new sid kind connection =
     ck_seat_constructor (fold ck_seat_set_property [PROP_ID (Some sid), PROP_KIND kind, PROP_CONNECTION connection] ck_seat_init)"

text \<open>At address \<open>st\<close>; a device that is already present is not added again.\<close>

definition ck_seat_new_with_devices ::
  "nat \<Rightarrow> string \<Rightarrow> CkSeatKind \<Rightarrow> (string \<times> string) list \<Rightarrow> bool \<Rightarrow> 'a seat_world_scheme \<Rightarrow> 'a seat_world_scheme" where
  "ck_seat_new_with_devices st sid kind devices connection w =
     fold (\<lambda>d w. snd (ck_seat_add_device st d w)) devices (upd_seat st (\<lambda>_. ck_seat_new sid kind connection) w)"

text \<open>
  A seat file: its start group, the \<open>Hidden\<close> flag and the \<open>Devices\<close> list, \<open>None\<close> when it
  cannot be loaded. An entry is split at its first colon; one without a colon has no
  second string to build the pair from.
\<close>

record seat_file =
  sf_group :: cstring
  sf_hidden :: bool
  sf_devices :: "string list"

definition split_device :: "string \<Rightarrow> (string \<times> string) option" where
  "split_device d =
     (if CHR '':'' \<in> set d
      then Some (takeWhile (\<lambda>c. c \<noteq> CHR '':'') d, tl (dropWhile (\<lambda>c. c \<noteq> CHR '':'') d)) else None)"

definition ck_seat_new_from_file ::
  "nat \<Rightarrow> string \<Rightarrow> seat_file option \<Rightarrow> bool \<Rightarrow> 'a seat_world_scheme \<Rightarrow> 'a seat_world_scheme option" where
  "ck_seat_new_from_file st sid file connection w =
     (case file of
        None \<Rightarrow> None
      | Some f \<Rightarrow>
          if sf_group f \<noteq> Some ''Seat Entry'' then None
          else if sf_hidden f then None
          else Some (ck_seat_new_with_devices st sid CK_SEAT_KIND_STATIC
                       (List.map_filter split_device (sf_devices f)) connection w))"

section \<open>Programs and the database\<close>

definition env_add_session_info :: "string \<Rightarrow> CkSession \<Rightarrow> string list" where
  "env_add_session_info prefix s =
     set_entry (prefix @ ''ID'') (s_id s) @
     set_entry (prefix @ ''TYPE'') (s_session_type s) @
     [prefix @ ''USER_UID='' @ dec (s_unix_user s)] @
     set_entry (prefix @ ''DISPLAY_DEVICE'') (s_display_device s) @
     set_entry (prefix @ ''X11_DISPLAY_DEVICE'') (s_x11_display_device s) @
     set_entry (prefix @ ''X11_DISPLAY'') (s_x11_display s) @
     set_entry (prefix @ ''REMOTE_HOST_NAME'') (s_remote_host_name s) @
     [prefix @ ''IS_LOCAL='' @ bool_string (ck_session_is_local s)]"

definition seat_env_capacity :: nat where
  "seat_env_capacity = 18"

definition seat_env_vector :: "nat \<Rightarrow> nat option \<Rightarrow> nat option \<Rightarrow> 'a seat_world_scheme \<Rightarrow> string list" where
  "seat_env_vector st old_session new_session w =
     [''CK_SEAT_ID='' @ printf_string (st_id (seats w st))] @
     (case old_session of None \<Rightarrow> [] | Some a \<Rightarrow> env_add_session_info ''CK_SEAT_OLD_SESSION_'' (sess w a)) @
     (case new_session of None \<Rightarrow> [] | Some a \<Rightarrow> env_add_session_info ''CK_SEAT_SESSION_'' (sess w a))"

definition ck_seat_run_programs ::
  "string \<Rightarrow> string \<Rightarrow> nat \<Rightarrow> nat option \<Rightarrow> nat option \<Rightarrow> string \<Rightarrow> 'a seat_world_scheme \<Rightarrow>
   (string \<times> string \<times> string list) list option" where
  "ck_seat_run_programs sysconfdir libdir st old_session new_session action w =
     (let env = seat_env_vector st old_session new_session w in
      if length env + 1 \<le> seat_env_capacity
      then Some [(sysconfdir @ ''/ConsoleKit/run-seat.d'', action, env),
                 (libdir @ ''/ConsoleKit/run-seat.d'', action, env)]
      else None)"

definition kind_int :: "CkSeatKind \<Rightarrow> nat" where
  "kind_int k = (case k of CK_SEAT_KIND_STATIC \<Rightarrow> 0 | CK_SEAT_KIND_DYNAMIC \<Rightarrow> 1)"

definition dump_seat_session_iter :: "'a seat_world_scheme \<Rightarrow> string \<times> nat \<Rightarrow> string \<Rightarrow> string" where
  "dump_seat_session_iter w kv str =
     (if str = [] then [] else str @ '' '') @ NONULL_STRING (ck_session_get_id (sess w (snd kv)))"

text \<open>
  \<open>None\<close> when the seat has devices: they are stored as variants and read as value arrays.
\<close>

definition ck_seat_dump :: "nat \<Rightarrow> 'a seat_world_scheme \<Rightarrow> key_file \<Rightarrow> key_file option" where
  "ck_seat_dump st w kf =
     (let s = seats w st;
          g = ''Seat '' @ printf_string (st_id s);
          kf = kf_set g ''kind'' (dec (kind_int (st_kind s))) kf;
          kf = kf_set g ''sessions'' (fold (dump_seat_session_iter w) (st_sessions s) []) kf
      in if st_devices s \<noteq> [] then None
         else
           let kf = kf_set g ''devices'' '''' kf
           in Some (case st_active_session s of
                      None \<Rightarrow> kf
                    | Some a \<Rightarrow> kf_set g ''active_session'' (NONULL_STRING (ck_session_get_id (sess w a))) kf))"

section \<open>Lemmas\<close>

lemma upd_fields [simp]:
  "seats (upd_session a f w) = seats w" "vtm (upd_session a f w) = vtm w" "pending (upd_session a f w) = pending w"
  "activate_handlers (upd_session a f w) = activate_handlers w" "seat_log (upd_session a f w) = seat_log w"
  "sess (upd_session a f w) b = (if b = a then f (sess w a) else sess w b)"
  "sess (upd_seat st g w) = sess w" "vtm (upd_seat st g w) = vtm w" "pending (upd_seat st g w) = pending w"
  "activate_handlers (upd_seat st g w) = activate_handlers w" "seat_log (upd_seat st g w) = seat_log w"
  "seats (upd_seat st g w) st' = (if st' = st then g (seats w st) else seats w st')"
  by (auto simp: upd_session_def upd_seat_def)

lemma set_active_world [simp]:
  "seats (set_active E a act force w) = seats w" "vtm (set_active E a act force w) = vtm w"
  "pending (set_active E a act force w) = pending w" "seat_log (set_active E a act force w) = seat_log w"
  "sess (set_active E a act force w) b =
     (if b = a then ck_session_set_active (sv_session E) act force (sess w a) else sess w b)"
  by (auto simp: set_active_def)

lemma send_fields [simp]:
  "sess (send out w) = sess w" "seats (send out w) = seats w" "vtm (send out w) = vtm w"
  "pending (send out w) = pending w" "activate_handlers (send out w) = activate_handlers w"
  "seat_log (send out w) = seat_log w @ [out]"
  by (auto simp: send_def)

text \<open>A forced change takes effect at once.\<close>

lemma set_active_forced [simp]: "s_active (ck_session_set_active E act True s) = act"
  by (auto simp: ck_session_set_active_def ck_session_pause_all_devices_def
      ck_session_resume_all_devices_def Let_def)

text \<open>What switching does not touch of a session.\<close>

lemma emit_identity [simp]:
  "s_id (emit g s) = s_id s" "s_path (emit g s) = s_path s" "s_display_device (emit g s) = s_display_device s"
  "s_x11_display_device (emit g s) = s_x11_display_device s" "s_creation_time (emit g s) = s_creation_time s"
  by (auto simp: emit_def)

lemma set_active_identity [simp]:
  "s_id (ck_session_set_active E act f s) = s_id s" "s_path (ck_session_set_active E act f s) = s_path s"
  "s_display_device (ck_session_set_active E act f s) = s_display_device s"
  "s_x11_display_device (ck_session_set_active E act f s) = s_x11_display_device s"
  by (auto simp: ck_session_set_active_def ck_session_pause_all_devices_def ck_session_resume_all_devices_def
      mark_active_def mark_inactive_def cancel_pause_timer_def Let_def)

lemma set_find_all: "set (hash_table_find_all t p) = {a. \<exists>k. (k, a) \<in> set t \<and> p k a}"
proof -
  have "set (fold (find_all_func p) t l) = set l \<union> {a. \<exists>k. (k, a) \<in> set t \<and> p k a}" for l
    by (induction t arbitrary: l) (auto simp: find_all_func_def)
  then show ?thesis by (simp add: hash_table_find_all_def)
qed

lemma age_order:
  "sort_sessions_by_age E w a b \<or> sort_sessions_by_age E w b a"
  "sort_sessions_by_age E w a b \<Longrightarrow> sort_sessions_by_age E w b c \<Longrightarrow> sort_sessions_by_age E w a c"
  unfolding sort_sessions_by_age_def using strcmp_le_total strcmp_le_trans by blast+

lemma find_session_member:
  assumes "find_session_for_display_device E st dev w = Some a"
  shows "a \<in> snd ` set (st_sessions (seats w st))"
    "s_x11_display_device (sess w a) = Some dev \<or> s_display_device (sess w a) = Some dev"
proof -
  let ?x = "find_sessions_for_x11_display_device st dev w" and ?d = "find_sessions_for_display_device st dev w"
  let ?l = "if ?x = [] then ?d else ?x"
  have l: "?l \<noteq> []" "a = hd ?l \<or> a = find_oldest_session E w ?l"
    using assms by (auto simp: find_session_for_display_device_def Let_def split: if_splits)
  have "find_oldest_session E w ?l \<in> set (g_list_sort (sort_sessions_by_age E w) ?l)"
    unfolding find_oldest_session_def using l(1) by (intro hd_in_set) (simp only: g_list_sort_eq_Nil not_False_eq_True)
  then have "find_oldest_session E w ?l \<in> set ?l" by (simp only: set_g_list_sort)
  with l hd_in_set [OF l(1)] have "a \<in> set ?l" by blast
  then consider "a \<in> set ?x" | "a \<in> set ?d" by (auto split: if_splits)
  then have "\<exists>k. (k, a) \<in> set (st_sessions (seats w st)) \<and>
      (s_x11_display_device (sess w a) = Some dev \<or> s_display_device (sess w a) = Some dev)"
    by cases (auto simp: find_sessions_for_x11_display_device_def find_sessions_for_display_device_def set_find_all
        match_session_x11_display_device_def match_session_display_device_def)
  then show "a \<in> snd ` set (st_sessions (seats w st))"
    "s_x11_display_device (sess w a) = Some dev \<or> s_display_device (sess w a) = Some dev"
    by (auto intro: image_eqI [where x = "(_, a)"])
qed

section \<open>Switching with an observer\<close>

text \<open>No session of the seat but the active one is active; and the active one is.\<close>

definition only_active :: "nat \<Rightarrow> 'a seat_world_scheme \<Rightarrow> bool" where
  "only_active st w =
     (\<forall>b \<in> snd ` set (st_sessions (seats w st)). s_active (sess w b) \<longrightarrow> st_active_session (seats w st) = Some b)"

definition active_is_active :: "nat \<Rightarrow> 'a seat_world_scheme \<Rightarrow> bool" where
  "active_is_active st w = (case st_active_session (seats w st) of None \<Rightarrow> True | Some a \<Rightarrow> s_active (sess w a))"

text \<open>
  What the seat needs of whoever listens to its private signals: the listener leaves the
  sessions, the seats and the terminal monitor alone.
\<close>

locale seat_observer =
  fixes h :: "seat_signal \<Rightarrow> 'a seat_world_scheme \<Rightarrow> 'a seat_world_scheme"
  assumes h_sess [simp]: "sess (h g w) = sess w"
    and h_seats [simp]: "seats (h g w) = seats w"
    and h_vtm [simp]: "vtm (h g w) = vtm w"
begin

lemma change_active_frame:
  "seats (change_active_session E h st session w) = (seats w)(st := (seats w st)\<lparr>st_active_session := session\<rparr>)"
  "vtm (change_active_session E h st session w) = vtm w"
  "b \<notin> set_option session \<Longrightarrow> b \<notin> set_option (st_active_session (seats w st)) \<Longrightarrow>
     sess (change_active_session E h st session w) b = sess w b"
proof -
  have "seats w = (seats w)(st := (seats w st)\<lparr>st_active_session := st_active_session (seats w st)\<rparr>)" by simp
  then show "seats (change_active_session E h st session w) = (seats w)(st := (seats w st)\<lparr>st_active_session := session\<rparr>)"
    by (auto simp: change_active_session_def Let_def fun_eq_iff split: option.splits)
qed (auto simp: change_active_session_def Let_def split: option.splits)

lemma change_active_activity:
  "s_active (sess (change_active_session E h st session w) b) =
     (if session = Some b then True
      else if st_active_session (seats w st) = Some b then False
      else s_active (sess w b))"
  by (auto simp: change_active_session_def Let_def split: option.splits)

lemma change_active_consistent:
  assumes "only_active st w"
  shows "only_active st (change_active_session E h st session w)"
    "active_is_active st (change_active_session E h st session w)"
    "st_active_session (seats (change_active_session E h st session w) st) = session"
  using assms
  by (auto simp: only_active_def active_is_active_def change_active_frame change_active_activity split: option.splits)

lemma update_active_vt_consistent:
  assumes "only_active st w"
  shows "only_active st (update_active_vt E h st num w)" "active_is_active st (update_active_vt E h st num w)"
    "st_active_session (seats (update_active_vt E h st num w) st) =
       find_session_for_display_device E st (ck_get_console_device_for_num num) w"
  using change_active_consistent [OF assms] by (auto simp: update_active_vt_def)

lemma maybe_update_frame:
  "st_sessions (seats (maybe_update_active_session E h st w) st) = st_sessions (seats w st)"
  by (auto simp: maybe_update_active_session_def update_active_vt_def change_active_frame split: sum.splits)

lemma maybe_update_consistent:
  assumes "only_active st w"
  shows "only_active st (maybe_update_active_session E h st w)"
  using assms update_active_vt_consistent(1) [OF assms]
  by (auto simp: maybe_update_active_session_def split: sum.splits)

lemma add_session_consistent:
  assumes "only_active st w" and "\<not> s_active (sess w a)"
  shows "only_active st (ck_seat_add_session E h st a w)"
proof -
  have set_seat: "s_active (fst (ck_session_set_seat_id i p s)) = s_active s" for i p s
    by (auto simp: ck_session_set_seat_id_def Let_def split: option.splits)
  have "snd ` set (AList.update k a t) \<subseteq> insert a (snd ` set t)" for k and t :: "(string, nat) ghash"
    by (induction t) auto
  then have "b = a \<or> b \<in> snd ` set t" if "b \<in> snd ` set (g_hash_table_insert t k a)" for b k and t :: "(string, nat) ghash"
    using that unfolding g_hash_table_insert_def by blast
  note sub = this
  show ?thesis
    unfolding ck_seat_add_session_def Let_def
  proof (rule maybe_update_consistent, unfold only_active_def, intro ballI impI)
    fix b
    let ?k = "NONULL_STRING (ck_session_get_id (sess w a))"
    let ?w1 = "upd_seat st (\<lambda>s. s\<lparr>st_sessions := g_hash_table_insert (st_sessions s) ?k a\<rparr>) w"
    let ?w2 = "upd_session a (\<lambda>s. fst (ck_session_set_seat_id (st_id (seats ?w1 st)) (st_path (seats ?w1 st)) s)) ?w1"
    let ?w3 = "h (Session_Added_Full st a) (?w2\<lparr>activate_handlers := activate_handlers ?w2 @ [(a, st)]\<rparr>)"
    let ?w = "send (Seat_Session_Added st (ck_session_get_path (sess ?w3 a))) ?w3"
    assume b: "b \<in> snd ` set (st_sessions (seats ?w st))" "s_active (sess ?w b)"
    from b(2) have "b \<noteq> a" "s_active (sess w b)" using assms(2) by (auto simp: set_seat split: if_splits)
    moreover have "b = a \<or> b \<in> snd ` set (st_sessions (seats w st))"
      using sub [of b "st_sessions (seats w st)" ?k] b(1) by simp
    ultimately show "st_active_session (seats ?w st) = Some b"
      using assms(1) by (auto simp: only_active_def)
  qed
qed

lemma remove_session_consistent:
  assumes "only_active st w"
  shows "only_active st (snd (ck_seat_remove_session E h st a w))"
proof -
  have "set (AList.delete k t) \<subseteq> set t" for k and t :: "(string, nat) ghash"
    by (simp add: AList.delete_eq)
  then have "b \<in> snd ` set t" if "b \<in> snd ` set (g_hash_table_remove t k)" for b k and t :: "(string, nat) ghash"
    using that unfolding g_hash_table_remove_def by blast
  note sub = this
  let ?k = "NONULL_STRING (ck_session_get_id (sess w a))"
  let ?w1 = "upd_seat st (\<lambda>s. s\<lparr>st_sessions := g_hash_table_remove (st_sessions s) ?k\<rparr>)
      (w\<lparr>activate_handlers := removeAll (a, st) (activate_handlers w)\<rparr>)"
  let ?w2 = "send (Seat_Session_Removed st (ck_session_get_path (sess w a))) (h (Session_Removed_Full st a) ?w1)"
  have "only_active st ?w2"
  proof (unfold only_active_def, intro ballI impI)
    fix b assume "b \<in> snd ` set (st_sessions (seats ?w2 st))" "s_active (sess ?w2 b)"
    then have "b \<in> snd ` set (st_sessions (seats w st))" "s_active (sess w b)"
      using sub [of b "st_sessions (seats w st)" ?k] by simp_all
    then show "st_active_session (seats ?w2 st) = Some b" using assms by (auto simp: only_active_def)
  qed
  then have "only_active st (maybe_update_active_session E h st ?w2)" by (rule maybe_update_consistent)
  then show ?thesis
    using assms by (auto simp: ck_seat_remove_session_def Let_def split: option.splits)
qed

end

text \<open>
  What a listener keeps beside the seats, \<open>F\<close>, is not touched by the seats' operations if
  its handlers do not touch it.
\<close>

locale seat_frame = seat_observer h for h :: "seat_signal \<Rightarrow> 'a seat_world_scheme \<Rightarrow> 'a seat_world_scheme" +
  fixes F :: "'a seat_world_scheme \<Rightarrow> 'f"
  assumes F_session [simp]: "F (upd_session a f w) = F w"
    and F_seat [simp]: "F (upd_seat st g w) = F w"
    and F_send [simp]: "F (send x w) = F w"
    and F_handlers [simp]: "F (w\<lparr>activate_handlers := l\<rparr>) = F w"
    and F_pending [simp]: "F (w\<lparr>pending := p\<rparr>) = F w"
    and F_h [simp]: "F (h sig w) = F w"
begin

lemma F_set_active [simp]: "F (set_active E a act force w) = F w"
  by (simp add: set_active_def)

lemma F_change_active [simp]: "F (change_active_session E h st session w) = F w"
  by (auto simp: change_active_session_def Let_def split: option.splits)

lemma F_update_active_vt [simp]: "F (update_active_vt E h st num w) = F w" "F (active_vt_changed E h st num w) = F w"
  by (simp_all add: update_active_vt_def active_vt_changed_def)

lemma F_maybe_update [simp]: "F (maybe_update_active_session E h st w) = F w"
  by (auto simp: maybe_update_active_session_def split: sum.splits)

lemma F_add_session [simp]: "F (ck_seat_add_session E h st a w) = F w"
  by (simp add: ck_seat_add_session_def Let_def)

lemma F_remove_session [simp]: "F (snd (ck_seat_remove_session E h st a w)) = F w"
  by (auto simp: ck_seat_remove_session_def Let_def split: option.splits)

lemma F_activate [simp]: "F (snd (ck_seat_activate_session E seat session c w)) = F w"
  by (auto simp: ck_seat_activate_session_def Let_def split: option.splits sum.splits prod.splits)

end

section \<open>Properties\<close>

text \<open>
  The session found for a console is one of the seat's sessions on that device, X11
  display devices being tried first, and no other session on the same device is older.
\<close>

theorem oldest_session_of_console:
  assumes "find_session_for_display_device E st dev w = Some a"
  shows "a \<in> snd ` set (st_sessions (seats w st)) \<and>
    (if \<exists>b \<in> snd ` set (st_sessions (seats w st)). s_x11_display_device (sess w b) = Some dev
     then s_x11_display_device (sess w a) = Some dev \<and>
       (\<forall>b \<in> snd ` set (st_sessions (seats w st)). s_x11_display_device (sess w b) = Some dev \<longrightarrow>
          sort_sessions_by_age E w a b)
     else s_display_device (sess w a) = Some dev \<and>
       (\<forall>b \<in> snd ` set (st_sessions (seats w st)). s_display_device (sess w b) = Some dev \<longrightarrow>
          sort_sessions_by_age E w a b))"
proof -
  let ?x = "find_sessions_for_x11_display_device st dev w" and ?d = "find_sessions_for_display_device st dev w"
  have x: "set ?x = {b \<in> snd ` set (st_sessions (seats w st)). s_x11_display_device (sess w b) = Some dev}"
    by (force simp: find_sessions_for_x11_display_device_def set_find_all match_session_x11_display_device_def)
  have d: "set ?d = {b \<in> snd ` set (st_sessions (seats w st)). s_display_device (sess w b) = Some dev}"
    by (force simp: find_sessions_for_display_device_def set_find_all match_session_display_device_def)
  have pick: "a \<in> set l \<and> (\<forall>b \<in> set l. sort_sessions_by_age E w a b)"
    if "l \<noteq> []" "a = (if length l = 1 then hd l else find_oldest_session E w l)" for l
  proof (cases "length l = 1")
    case True
    then obtain y where "l = [y]" by (auto simp: length_Suc_conv)
    with that show ?thesis by (simp add: sort_sessions_by_age_def)
  next
    case False
    then have a: "a = hd (g_list_sort (sort_sessions_by_age E w) l)" using that by (simp add: find_oldest_session_def)
    have "a \<in> set (g_list_sort (sort_sessions_by_age E w) l)"
      unfolding a using that(1) by (intro hd_in_set) simp
    moreover have "sort_sessions_by_age E w a b" if "b \<in> set l" for b
      unfolding a using hd_g_list_sort [OF age_order that] .
    ultimately show ?thesis by simp
  qed
  show ?thesis
  proof (cases "?x = []")
    case True
    then have none: "\<not> (\<exists>b \<in> snd ` set (st_sessions (seats w st)). s_x11_display_device (sess w b) = Some dev)"
      using x by auto
    have "?d \<noteq> [] \<and> a = (if length ?d = 1 then hd ?d else find_oldest_session E w ?d)"
      using assms True by (auto simp: find_session_for_display_device_def Let_def split: if_splits)
    with pick [of ?d] none show ?thesis by (simp only: d if_False) blast
  next
    case False
    then have some: "\<exists>b \<in> snd ` set (st_sessions (seats w st)). s_x11_display_device (sess w b) = Some dev"
      using hd_in_set [OF False] x by blast
    have "a = (if length ?x = 1 then hd ?x else find_oldest_session E w ?x)"
      using assms False by (auto simp: find_session_for_display_device_def Let_def split: if_splits)
    with pick [OF False] some show ?thesis by (simp only: x if_True) blast
  qed
qed

text \<open>The sessions that compete for a console: those whose X11 display device it is, or else those whose display device it is.\<close>

definition console_sessions :: "nat \<Rightarrow> string \<Rightarrow> 'a seat_world_scheme \<Rightarrow> nat set" where
  "console_sessions st dev w =
     (let x = {b \<in> snd ` set (st_sessions (seats w st)). s_x11_display_device (sess w b) = Some dev}
      in if x = {} then {b \<in> snd ` set (st_sessions (seats w st)). s_display_device (sess w b) = Some dev} else x)"

lemma find_session_oldest:
  "case find_session_for_display_device E st dev w of
     None \<Rightarrow> console_sessions st dev w = {}
   | Some a \<Rightarrow> a \<in> console_sessions st dev w \<and> (\<forall>b \<in> console_sessions st dev w. sort_sessions_by_age E w a b)"
proof (cases "find_session_for_display_device E st dev w")
  case None
  then have "find_sessions_for_x11_display_device st dev w = []" "find_sessions_for_display_device st dev w = []"
    by (auto simp: find_session_for_display_device_def Let_def split: if_splits)
  then have "set (find_sessions_for_x11_display_device st dev w) = {}" "set (find_sessions_for_display_device st dev w) = {}" by simp_all
  then show ?thesis
    by (auto simp: None console_sessions_def find_sessions_for_x11_display_device_def find_sessions_for_display_device_def
        set_find_all match_session_x11_display_device_def match_session_display_device_def Let_def)
next
  case (Some a)
  from oldest_session_of_console [OF this] show ?thesis
    by (auto simp: Some console_sessions_def Let_def split: if_splits)
qed

definition sample_seat_env :: seat_env where
  "sample_seat_env = \<lparr>sv_session = sample_senv, sv_activate_ok = (\<lambda>n. n < 10), sv_iso8601 = (\<lambda>(s, u). dec s),
     sv_export_ok = True\<rparr>"

definition tty_session :: "string \<Rightarrow> string \<Rightarrow> nat \<Rightarrow> CkSession" where
  "tty_session i dev t = (ck_session_init sample_senv)\<lparr>s_id := Some i, s_path := Some (''/'' @ i),
     s_display_device := Some dev, s_creation_time := (t, 0)\<rparr>"

text \<open>Two sessions on the second console, one on the third; the first two share a seat's table.\<close>

definition sample_world :: seat_world where
  "sample_world = \<lparr>sess = (\<lambda>a. if a = 0 then (tty_session ''Session1'' ''/dev/tty2'' 1)\<lparr>s_active := True\<rparr>
                          else if a = 1 then tty_session ''Session2'' ''/dev/tty2'' 2
                          else tty_session ''Session3'' ''/dev/tty3'' 3),
     seats = (\<lambda>_. (ck_seat_new ''seat0'' CK_SEAT_KIND_STATIC True)\<lparr>
        st_sessions := [(''Session2'', 1), (''Session1'', 0), (''Session3'', 2)], st_active_session := Some 0\<rparr>),
     vtm = (ck_vt_monitor_init (\<lambda>_. False) 4 (Some 2)), pending = [], activate_handlers = [(0, 0), (1, 0), (2, 0)],
     seat_log = []\<rparr>"

theorem oldest_session_of_console_witness:
  "find_session_for_display_device sample_seat_env 0 ''/dev/tty2'' sample_world = Some 0 \<and>
   0 \<in> snd ` set (st_sessions (seats sample_world 0)) \<and> sort_sessions_by_age sample_seat_env sample_world 0 1"
proof -
  have d: "dec (Suc 0) = ''1''" "dec 1 = ''1''" "dec 2 = ''2''" by code_simp+
  have f: "find_session_for_display_device sample_seat_env 0 ''/dev/tty2'' sample_world = Some 0"
    by (simp add: find_session_for_display_device_def find_sessions_for_x11_display_device_def
        find_sessions_for_display_device_def hash_table_find_all_def find_all_func_def sample_world_def
        match_session_x11_display_device_def match_session_display_device_def tty_session_def ck_session_init_def
        find_oldest_session_def g_list_sort_def sort_sessions_by_age_def ck_session_get_creation_time_def
        sample_seat_env_def d)
  have "s_x11_display_device (sess sample_world b) = None" for b
    by (simp add: sample_world_def tty_session_def ck_session_init_def)
  moreover have "1 \<in> snd ` set (st_sessions (seats sample_world 0))" "s_display_device (sess sample_world 1) = Some ''/dev/tty2''"
    by (auto simp: sample_world_def tty_session_def)
  ultimately show ?thesis using oldest_session_of_console [OF f] f by auto
qed

text \<open>
  An activation whose console switch fails still takes the seat's session away: the
  call reports an error and the seat keeps its active session, but that session has been
  made inactive and nothing reactivates it.
\<close>

theorem failed_activation_deactivates_old_session:
  assumes "st_kind (seats w st) = CK_SEAT_KIND_STATIC" and "st_active_session (seats w st) = Some old"
    and "old \<noteq> a" and "ck_get_console_num_from_device (activation_device (sess w a)) = Some num"
    and "num \<noteq> vt_active_num (vtm w)" and "vfd (vtm w) \<noteq> - 1" and "\<not> sv_activate_ok E num"
  shows "\<exists>w'. ck_seat_activate_session E (Some st) (Some a) c w = (Some CK_SEAT_ERROR_FAILED, w') \<and>
    st_active_session (seats w' st) = Some old \<and> \<not> s_active (sess w' old) \<and> s_active (sess w' a) = s_active (sess w a)"
  using assms by (simp add: ck_seat_activate_session_def ck_vt_monitor_set_active_def Let_def)

lemma sample_world_vt [simp]: "vt_active_num (vtm sample_world) = 2" "vfd (vtm sample_world) = 4"
  by (simp_all add: sample_world_def ck_vt_monitor_init_def Let_def)

lemma sample_world_console:
  "ck_get_console_num_from_device (activation_device (sess sample_world 1)) = Some 2"
  "ck_get_console_num_from_device (activation_device (sess sample_world 2)) = Some 3"
proof -
  have n: "ck_get_console_device_for_num 2 = ''/dev/tty2''" "ck_get_console_device_for_num 3 = ''/dev/tty3''"
    by code_simp+
  have d: "ck_get_console_num_from_device (Some ''/dev/tty2'') = Some 2"
    "ck_get_console_num_from_device (Some ''/dev/tty3'') = Some 3"
    using console_num_of_device [of 2] console_num_of_device [of 3] by (simp_all add: n)
  show "ck_get_console_num_from_device (activation_device (sess sample_world 1)) = Some 2"
    "ck_get_console_num_from_device (activation_device (sess sample_world 2)) = Some 3"
    using d by (simp_all add: sample_world_def activation_device_def tty_session_def ck_session_init_def)
qed

theorem failed_activation_deactivates_old_session_witness:
  "\<exists>w'. ck_seat_activate_session (sample_seat_env\<lparr>sv_activate_ok := (\<lambda>_. False)\<rparr>) (Some 0) (Some 2) None sample_world
       = (Some CK_SEAT_ERROR_FAILED, w') \<and> st_active_session (seats w' 0) = Some 0 \<and> \<not> s_active (sess w' 0)"
proof -
  have "st_kind (seats sample_world 0) = CK_SEAT_KIND_STATIC" "st_active_session (seats sample_world 0) = Some 0"
    by (simp_all add: sample_world_def ck_seat_new_def ck_seat_constructor_def ck_seat_set_kind_def Let_def)
  from failed_activation_deactivates_old_session [OF this _ sample_world_console(2), where
      E = "sample_seat_env\<lparr>sv_activate_ok := (\<lambda>_. False)\<rparr>" and c = None]
  show ?thesis by auto
qed

text \<open>
  A successful ActivateSession call is answered twice: \<open>dbus_activate_session\<close>
  completes the invocation at once and leaves it with the pending activation, which
  completes it again when the console changes.
\<close>

theorem activate_session_answers_twice:
  assumes "ck_seat_activate_session E (Some st) (g_hash_table_lookup (st_sessions (seats w st)) ssid) (Some c) w
      = (None, w1)"
    and "ad \<in> set (pending w1)" and "ad = (st, num, Some c)"
  shows "\<exists>r. seat_log (activated_cb n ad (dbus_activate_session E st c (Some ssid) w)) =
    seat_log w1 @ [Reply_Value c, r] \<and> r \<in> {Reply_Value c, Reply_Error c CK_SEAT_ERROR_GENERAL}"
  using assms by (auto simp: dbus_activate_session_def activated_cb_def Let_def)

theorem activate_session_answers_twice_witness:
  "\<exists>w1 ad r. ck_seat_activate_session sample_seat_env (Some 0) (Some 2) (Some 7) sample_world = (None, w1) \<and>
     ad \<in> set (pending w1) \<and>
     seat_log (activated_cb 3 ad (dbus_activate_session sample_seat_env 0 7 (Some ''Session3'') sample_world)) =
       seat_log w1 @ [Reply_Value 7, r]"
proof -
  have k: "st_kind (seats sample_world 0) = CK_SEAT_KIND_STATIC" "st_active_session (seats sample_world 0) = Some 0"
      "g_hash_table_lookup (st_sessions (seats sample_world 0)) ''Session3'' = Some 2" "sv_activate_ok sample_seat_env 3"
    by (simp_all add: sample_world_def ck_seat_new_def ck_seat_constructor_def ck_seat_set_kind_def Let_def
        g_hash_table_lookup_def sample_seat_env_def)
  obtain w1 where w1: "ck_seat_activate_session sample_seat_env (Some 0) (Some 2) (Some 7) sample_world = (None, w1)"
      "(0, 3, Some 7) \<in> set (pending w1)"
    using k by (simp add: ck_seat_activate_session_def sample_world_console ck_vt_monitor_set_active_def Let_def)
  from activate_session_answers_twice [of sample_seat_env 0 sample_world "''Session3''" 7 w1 "(0, 3, Some 7)" 3 3]
  show ?thesis using w1 k(3) by fastforce
qed

text \<open>
  The environment array of the seat programs is always large enough, for every pair
  of sessions.
\<close>

theorem seat_programs_fit:
  "ck_seat_run_programs sysconfdir libdir st old_session new_session action w \<noteq> None"
proof -
  have len: "length (set_entry n v) \<le> 1" for n v
    by (auto simp: set_entry_def env_entry_def split: option.splits)
  have "length (env_add_session_info p s) \<le> 8" for p s
    using len [of "p @ ''ID''" "s_id s"] len [of "p @ ''TYPE''" "s_session_type s"]
      len [of "p @ ''DISPLAY_DEVICE''" "s_display_device s"]
      len [of "p @ ''X11_DISPLAY_DEVICE''" "s_x11_display_device s"]
      len [of "p @ ''X11_DISPLAY''" "s_x11_display s"] len [of "p @ ''REMOTE_HOST_NAME''" "s_remote_host_name s"]
    by (simp add: env_add_session_info_def)
  note l = this
  have "length (seat_env_vector st old_session new_session w) \<le> 17"
    using l [of "''CK_SEAT_OLD_SESSION_''" "sess w (the old_session)"] l [of "''CK_SEAT_SESSION_''" "sess w (the new_session)"]
    by (auto simp: seat_env_vector_def split: option.splits)
  then show ?thesis by (simp add: ck_seat_run_programs_def seat_env_capacity_def Let_def)
qed

end
