(* ===== verification/CK_LogEvent.thy ===== *)
theory CK_LogEvent
  imports CK_Text CK_Session
begin

text \<open>
  The events of the history log: src/src/ck-log-event.c.

  The tagged union is the datatype \<open>log_data\<close>, one constructor per event type. Writing
  appends to a string; the types the code does not expect abort the daemon
  (\<open>g_assert_not_reached\<close>) and are \<open>None\<close>. Reading uses the regular expressions of the code
  (CK_Text). Time stamps are seconds and microseconds.
\<close>

section \<open>Types\<close>

datatype CkLogEventType =
    CK_LOG_EVENT_NONE
  | CK_LOG_EVENT_START
  | CK_LOG_EVENT_STOP
  | CK_LOG_EVENT_SYSTEM_START
  | CK_LOG_EVENT_SYSTEM_STOP
  | CK_LOG_EVENT_SYSTEM_RESTART
  | CK_LOG_EVENT_SYSTEM_SUSPEND
  | CK_LOG_EVENT_SYSTEM_HIBERNATE
  | CK_LOG_EVENT_SYSTEM_RUNLEVEL_CHANGED
  | CK_LOG_EVENT_SEAT_ADDED
  | CK_LOG_EVENT_SEAT_REMOVED
  | CK_LOG_EVENT_SEAT_SESSION_ADDED
  | CK_LOG_EVENT_SEAT_SESSION_REMOVED
  | CK_LOG_EVENT_SEAT_DEVICE_ADDED
  | CK_LOG_EVENT_SEAT_DEVICE_REMOVED
  | CK_LOG_EVENT_SEAT_ACTIVE_SESSION_CHANGED

record CkLogSeatSessionEvent =
  le_seat_id :: cstring
  le_session_id :: cstring
  le_session_type :: cstring
  le_session_x11_display :: cstring
  le_session_x11_display_device :: cstring
  le_session_display_device :: cstring
  le_session_remote_host_name :: cstring
  le_session_is_local :: bool
  le_session_unix_user :: nat
  le_session_creation_time :: cstring

datatype log_data =
    Ev_None
  | Ev_Start
  | Ev_Stop
  | Ev_System_Start cstring cstring
  | Ev_System_Stop
  | Ev_System_Restart
  | Ev_System_Suspend
  | Ev_System_Hibernate
  | Ev_System_Runlevel_Changed
  | Ev_Seat_Added cstring int
  | Ev_Seat_Removed cstring int
  | Ev_Seat_Session_Added CkLogSeatSessionEvent
  | Ev_Seat_Session_Removed CkLogSeatSessionEvent
  | Ev_Seat_Device_Added cstring cstring cstring
  | Ev_Seat_Device_Removed cstring cstring cstring
  | Ev_Seat_Active_Session_Changed cstring cstring

record CkLogEvent =
  le_timestamp :: timeval
  le_event :: log_data

fun event_type :: "log_data \<Rightarrow> CkLogEventType" where
  "event_type Ev_None = CK_LOG_EVENT_NONE"
| "event_type Ev_Start = CK_LOG_EVENT_START"
| "event_type Ev_Stop = CK_LOG_EVENT_STOP"
| "event_type (Ev_System_Start _ _) = CK_LOG_EVENT_SYSTEM_START"
| "event_type Ev_System_Stop = CK_LOG_EVENT_SYSTEM_STOP"
| "event_type Ev_System_Restart = CK_LOG_EVENT_SYSTEM_RESTART"
| "event_type Ev_System_Suspend = CK_LOG_EVENT_SYSTEM_SUSPEND"
| "event_type Ev_System_Hibernate = CK_LOG_EVENT_SYSTEM_HIBERNATE"
| "event_type Ev_System_Runlevel_Changed = CK_LOG_EVENT_SYSTEM_RUNLEVEL_CHANGED"
| "event_type (Ev_Seat_Added _ _) = CK_LOG_EVENT_SEAT_ADDED"
| "event_type (Ev_Seat_Removed _ _) = CK_LOG_EVENT_SEAT_REMOVED"
| "event_type (Ev_Seat_Session_Added _) = CK_LOG_EVENT_SEAT_SESSION_ADDED"
| "event_type (Ev_Seat_Session_Removed _) = CK_LOG_EVENT_SEAT_SESSION_REMOVED"
| "event_type (Ev_Seat_Device_Added _ _ _) = CK_LOG_EVENT_SEAT_DEVICE_ADDED"
| "event_type (Ev_Seat_Device_Removed _ _ _) = CK_LOG_EVENT_SEAT_DEVICE_REMOVED"
| "event_type (Ev_Seat_Active_Session_Changed _ _) = CK_LOG_EVENT_SEAT_ACTIVE_SESSION_CHANGED"

text \<open>A copy is built field by field, each string duplicated; the types without a case abort.\<close>

definition event_seat_added_copy :: "cstring \<Rightarrow> int \<Rightarrow> log_data" where
  "event_seat_added_copy seat_id seat_kind = Ev_Seat_Added seat_id seat_kind"

definition event_seat_removed_copy :: "cstring \<Rightarrow> int \<Rightarrow> log_data" where
  "event_seat_removed_copy seat_id seat_kind = Ev_Seat_Removed seat_id seat_kind"

definition event_system_start_copy :: "cstring \<Rightarrow> cstring \<Rightarrow> log_data" where
  "event_system_start_copy kernel_release boot_arguments = Ev_System_Start kernel_release boot_arguments"

definition event_seat_session_added_copy :: "CkLogSeatSessionEvent \<Rightarrow> log_data" where
  "event_seat_session_added_copy e = Ev_Seat_Session_Added
     \<lparr>le_seat_id = le_seat_id e, le_session_id = le_session_id e, le_session_type = le_session_type e,
      le_session_x11_display = le_session_x11_display e, le_session_x11_display_device = le_session_x11_display_device e,
      le_session_display_device = le_session_display_device e, le_session_remote_host_name = le_session_remote_host_name e,
      le_session_is_local = le_session_is_local e, le_session_unix_user = le_session_unix_user e,
      le_session_creation_time = le_session_creation_time e\<rparr>"

definition event_seat_session_removed_copy :: "CkLogSeatSessionEvent \<Rightarrow> log_data" where
  "event_seat_session_removed_copy e = Ev_Seat_Session_Removed
     \<lparr>le_seat_id = le_seat_id e, le_session_id = le_session_id e, le_session_type = le_session_type e,
      le_session_x11_display = le_session_x11_display e, le_session_x11_display_device = le_session_x11_display_device e,
      le_session_display_device = le_session_display_device e, le_session_remote_host_name = le_session_remote_host_name e,
      le_session_is_local = le_session_is_local e, le_session_unix_user = le_session_unix_user e,
      le_session_creation_time = le_session_creation_time e\<rparr>"

definition event_seat_active_session_changed_copy :: "cstring \<Rightarrow> cstring \<Rightarrow> log_data" where
  "event_seat_active_session_changed_copy seat_id session_id = Ev_Seat_Active_Session_Changed seat_id session_id"

definition event_seat_device_added_copy :: "cstring \<Rightarrow> cstring \<Rightarrow> cstring \<Rightarrow> log_data" where
  "event_seat_device_added_copy seat_id device_id device_type = Ev_Seat_Device_Added seat_id device_id device_type"

definition event_seat_device_removed_copy :: "cstring \<Rightarrow> cstring \<Rightarrow> cstring \<Rightarrow> log_data" where
  "event_seat_device_removed_copy seat_id device_id device_type = Ev_Seat_Device_Removed seat_id device_id device_type"

fun copy_data :: "log_data \<Rightarrow> log_data option" where
  "copy_data (Ev_Seat_Added i k) = Some (event_seat_added_copy i k)"
| "copy_data (Ev_Seat_Removed i k) = Some (event_seat_removed_copy i k)"
| "copy_data Ev_System_Stop = Some Ev_System_Stop"
| "copy_data Ev_System_Restart = Some Ev_System_Restart"
| "copy_data (Ev_System_Start r a) = Some (event_system_start_copy r a)"
| "copy_data Ev_System_Suspend = Some Ev_System_Suspend"
| "copy_data Ev_System_Hibernate = Some Ev_System_Hibernate"
| "copy_data (Ev_Seat_Session_Added e) = Some (event_seat_session_added_copy e)"
| "copy_data (Ev_Seat_Session_Removed e) = Some (event_seat_session_removed_copy e)"
| "copy_data (Ev_Seat_Device_Added i d t) = Some (event_seat_device_added_copy i d t)"
| "copy_data (Ev_Seat_Device_Removed i d t) = Some (event_seat_device_removed_copy i d t)"
| "copy_data (Ev_Seat_Active_Session_Changed i s) = Some (event_seat_active_session_changed_copy i s)"
| "copy_data _ = None"

definition ck_log_event_copy :: "CkLogEvent \<Rightarrow> CkLogEvent option" where
  "ck_log_event_copy e =
     map_option (\<lambda>d. \<lparr>le_timestamp = le_timestamp e, le_event = d\<rparr>) (copy_data (le_event e))"

text \<open>A copy is equal to its event, and every event that can be written can be copied.\<close>

lemma ck_log_event_copy_eq:
  "ck_log_event_copy e =
     (if event_type (le_event e) \<in> {CK_LOG_EVENT_NONE, CK_LOG_EVENT_START, CK_LOG_EVENT_STOP,
          CK_LOG_EVENT_SYSTEM_RUNLEVEL_CHANGED} then None else Some e)"
  by (cases "le_event e")
    (simp_all add: ck_log_event_copy_def event_seat_added_copy_def event_seat_removed_copy_def event_system_start_copy_def
      event_seat_session_added_copy_def event_seat_session_removed_copy_def event_seat_active_session_changed_copy_def
      event_seat_device_added_copy_def event_seat_device_removed_copy_def flip: CkLogEvent.surjective)

section \<open>Writing\<close>

abbreviation apos :: char where
  "apos \<equiv> CHR 0x27"

definition add_log_for_seat_added :: "cstring \<Rightarrow> int \<Rightarrow> string" where
  "add_log_for_seat_added seat_id seat_kind =
     ''seat-id='' @ apos # printf_string seat_id @ apos # '' seat-kind='' @ dec_int seat_kind"

definition add_log_for_seat_removed :: "cstring \<Rightarrow> int \<Rightarrow> string" where
  "add_log_for_seat_removed seat_id seat_kind =
     ''seat-id='' @ apos # printf_string seat_id @ apos # '' seat-kind='' @ dec_int seat_kind"

definition log_bool :: "bool \<Rightarrow> string" where
  "log_bool b = (if b then ''TRUE'' else ''FALSE'')"

definition add_log_for_seat_session_added :: "CkLogSeatSessionEvent \<Rightarrow> string" where
  "add_log_for_seat_session_added e =
     ''seat-id='' @ apos # NONULL_STRING (le_seat_id e) @
     apos # '' session-id='' @ apos # NONULL_STRING (le_session_id e) @
     apos # '' session-type='' @ apos # NONULL_STRING (le_session_type e) @
     apos # '' session-x11-display='' @ apos # NONULL_STRING (le_session_x11_display e) @
     apos # '' session-x11-display-device='' @ apos # NONULL_STRING (le_session_x11_display_device e) @
     apos # '' session-display-device='' @ apos # NONULL_STRING (le_session_display_device e) @
     apos # '' session-remote-host-name='' @ apos # NONULL_STRING (le_session_remote_host_name e) @
     apos # '' session-is-local='' @ log_bool (le_session_is_local e) @
     '' session-unix-user='' @ dec (le_session_unix_user e) @
     '' session-creation-time='' @ apos # NONULL_STRING (le_session_creation_time e) @ [apos]"

definition add_log_for_seat_session_removed :: "CkLogSeatSessionEvent \<Rightarrow> string" where
  "add_log_for_seat_session_removed e =
     ''seat-id='' @ apos # NONULL_STRING (le_seat_id e) @
     apos # '' session-id='' @ apos # NONULL_STRING (le_session_id e) @
     apos # '' session-type='' @ apos # NONULL_STRING (le_session_type e) @
     apos # '' session-x11-display='' @ apos # NONULL_STRING (le_session_x11_display e) @
     apos # '' session-x11-display-device='' @ apos # NONULL_STRING (le_session_x11_display_device e) @
     apos # '' session-display-device='' @ apos # NONULL_STRING (le_session_display_device e) @
     apos # '' session-remote-host-name='' @ apos # NONULL_STRING (le_session_remote_host_name e) @
     apos # '' session-is-local='' @ log_bool (le_session_is_local e) @
     '' session-unix-user='' @ dec (le_session_unix_user e) @
     '' session-creation-time='' @ apos # NONULL_STRING (le_session_creation_time e) @ [apos]"

definition add_log_for_system_start :: "cstring \<Rightarrow> cstring \<Rightarrow> string" where
  "add_log_for_system_start kernel_release boot_arguments =
     ''kernel-release='' @ apos # NONULL_STRING kernel_release @
     apos # '' boot-arguments='' @ apos # NONULL_STRING boot_arguments @ [apos]"

definition add_log_for_seat_active_session_changed :: "cstring \<Rightarrow> cstring \<Rightarrow> string" where
  "add_log_for_seat_active_session_changed seat_id session_id =
     ''seat-id='' @ apos # NONULL_STRING seat_id @
     apos # '' session-id='' @ apos # NONULL_STRING session_id @ [apos]"

definition add_log_for_seat_device_added :: "cstring \<Rightarrow> cstring \<Rightarrow> cstring \<Rightarrow> string" where
  "add_log_for_seat_device_added seat_id device_type device_id =
     ''seat-id='' @ apos # NONULL_STRING seat_id @
     apos # '' device-id='' @ apos # NONULL_STRING device_id @
     apos # '' device-type='' @ apos # NONULL_STRING device_type @ [apos]"

definition add_log_for_seat_device_removed :: "cstring \<Rightarrow> cstring \<Rightarrow> cstring \<Rightarrow> string" where
  "add_log_for_seat_device_removed seat_id device_type device_id =
     ''seat-id='' @ apos # NONULL_STRING seat_id @
     apos # '' device-id='' @ apos # NONULL_STRING device_id @
     apos # '' device-type='' @ apos # NONULL_STRING device_type @ [apos]"

definition event_type_to_name :: "CkLogEventType \<Rightarrow> string" where
  "event_type_to_name t =
     (case t of
        CK_LOG_EVENT_SEAT_ADDED \<Rightarrow> ''SEAT_ADDED''
      | CK_LOG_EVENT_SEAT_REMOVED \<Rightarrow> ''SEAT_REMOVED''
      | CK_LOG_EVENT_SYSTEM_STOP \<Rightarrow> ''SYSTEM_STOP''
      | CK_LOG_EVENT_SYSTEM_RESTART \<Rightarrow> ''SYSTEM_RESTART''
      | CK_LOG_EVENT_SYSTEM_START \<Rightarrow> ''SYSTEM_START''
      | CK_LOG_EVENT_SEAT_SESSION_ADDED \<Rightarrow> ''SEAT_SESSION_ADDED''
      | CK_LOG_EVENT_SEAT_SESSION_REMOVED \<Rightarrow> ''SEAT_SESSION_REMOVED''
      | CK_LOG_EVENT_SEAT_DEVICE_ADDED \<Rightarrow> ''SEAT_DEVICE_ADDED''
      | CK_LOG_EVENT_SEAT_DEVICE_REMOVED \<Rightarrow> ''SEAT_DEVICE_REMOVED''
      | CK_LOG_EVENT_SEAT_ACTIVE_SESSION_CHANGED \<Rightarrow> ''SEAT_ACTIVE_SESSION_CHANGED''
      | _ \<Rightarrow> ''UNKNOWN'')"

text \<open>The \<open>%03u\<close> conversion.\<close>

definition dec3 :: "nat \<Rightarrow> string" where
  "dec3 n = replicate (3 - length (dec n)) CHR ''0'' @ dec n"

definition add_log_for_any :: "CkLogEvent \<Rightarrow> string" where
  "add_log_for_any e =
     dec (fst (le_timestamp e)) @ ''.'' @ dec3 (snd (le_timestamp e) div 1000) @
     '' type='' @ event_type_to_name (event_type (le_event e)) @ '' : ''"

fun add_log_for_event :: "log_data \<Rightarrow> string option" where
  "add_log_for_event (Ev_Seat_Added i k) = Some (add_log_for_seat_added i k)"
| "add_log_for_event (Ev_Seat_Removed i k) = Some (add_log_for_seat_removed i k)"
| "add_log_for_event Ev_System_Stop = Some ''''"
| "add_log_for_event Ev_System_Restart = Some ''''"
| "add_log_for_event (Ev_System_Start r a) = Some (add_log_for_system_start r a)"
| "add_log_for_event Ev_System_Suspend = Some ''''"
| "add_log_for_event Ev_System_Hibernate = Some ''''"
| "add_log_for_event (Ev_Seat_Session_Added e) = Some (add_log_for_seat_session_added e)"
| "add_log_for_event (Ev_Seat_Session_Removed e) = Some (add_log_for_seat_session_removed e)"
| "add_log_for_event (Ev_Seat_Device_Added i t d) = Some (add_log_for_seat_device_added i t d)"
| "add_log_for_event (Ev_Seat_Device_Removed i t d) = Some (add_log_for_seat_device_removed i t d)"
| "add_log_for_event (Ev_Seat_Active_Session_Changed i s) = Some (add_log_for_seat_active_session_changed i s)"
| "add_log_for_event _ = None"

definition ck_log_event_to_string :: "CkLogEvent \<Rightarrow> string option" where
  "ck_log_event_to_string e = map_option (\<lambda>t. add_log_for_any e @ t) (add_log_for_event (le_event e))"

lemma writable_copied: "ck_log_event_to_string e \<noteq> None \<Longrightarrow> ck_log_event_copy e = Some e"
  by (cases "le_event e") (simp_all add: ck_log_event_to_string_def ck_log_event_copy_eq)

section \<open>Reading\<close>

definition event_name_to_type :: "string \<Rightarrow> CkLogEventType option" where
  "event_name_to_type n =
     (if n = ''SEAT_ADDED'' then Some CK_LOG_EVENT_SEAT_ADDED
      else if n = ''SEAT_REMOVED'' then Some CK_LOG_EVENT_SEAT_REMOVED
      else if n = ''SYSTEM_STOP'' then Some CK_LOG_EVENT_SYSTEM_STOP
      else if n = ''SYSTEM_RESTART'' then Some CK_LOG_EVENT_SYSTEM_RESTART
      else if n = ''SYSTEM_START'' then Some CK_LOG_EVENT_SYSTEM_START
      else if n = ''SEAT_SESSION_ADDED'' then Some CK_LOG_EVENT_SEAT_SESSION_ADDED
      else if n = ''SEAT_SESSION_REMOVED'' then Some CK_LOG_EVENT_SEAT_SESSION_REMOVED
      else if n = ''SEAT_DEVICE_ADDED'' then Some CK_LOG_EVENT_SEAT_DEVICE_ADDED
      else if n = ''SEAT_DEVICE_REMOVED'' then Some CK_LOG_EVENT_SEAT_DEVICE_REMOVED
      else if n = ''SEAT_ACTIVE_SESSION_CHANGED'' then Some CK_LOG_EVENT_SEAT_ACTIVE_SESSION_CHANGED
      else None)"

definition skip_header :: "string \<Rightarrow> string option" where
  "skip_header s =
     (case g_strstr '' : '' s of
        Some r \<Rightarrow> Some (drop 3 r)
      | None \<Rightarrow> map_option (drop 2) (g_strstr '' :'' s))"

definition parse_value_as_ulong :: "string \<Rightarrow> nat option" where
  "parse_value_as_ulong value =
     (case scan_unsigned 64 value of
        None \<Rightarrow> None
      | Some (v, rest) \<Rightarrow> if rest = [] then Some v else None)"

definition is_alpha :: "char \<Rightarrow> bool" where
  "is_alpha c = (let n = (of_char c :: nat) in (65 \<le> n \<and> n \<le> 90) \<or> (97 \<le> n \<and> n \<le> 122))"

text \<open>The classes \<open>[a-zA-Z0-9/]\<close>, \<open>[a-zA-Z0-9 ]\<close>, \<open>[0-9a-zA-Z.:]\<close>, \<open>[^']\<close> and the dot.\<close>

definition id_char :: "char \<Rightarrow> bool" where
  "id_char c = (is_alpha c \<or> is_digit c \<or> c = CHR ''/'')"

definition type_char :: "char \<Rightarrow> bool" where
  "type_char c = (is_alpha c \<or> is_digit c \<or> c = CHR '' '')"

definition display_char :: "char \<Rightarrow> bool" where
  "display_char c = (is_alpha c \<or> is_digit c \<or> c = CHR ''.'' \<or> c = CHR '':'')"

definition not_quote :: "char \<Rightarrow> bool" where
  "not_quote c = (c \<noteq> apos)"

definition seat_kind_fields :: "field list" where
  "seat_kind_fields =
     [(''seat-id='' @ [apos], id_char, 1, ''seatid''),
      (apos # '' seat-kind='', is_digit, 0, ''sessionid'')]"

definition parse_seat_kind :: "string \<Rightarrow> (cstring \<times> int) option" where
  "parse_seat_kind str =
     (case skip_header str of
        None \<Rightarrow> None
      | Some s \<Rightarrow>
          let re = line_rx seat_kind_fields '''' in
          (case g_regex_match re s of
             None \<Rightarrow> None
           | Some m \<Rightarrow>
               Some (fetch_named re m ''seatid'',
                 case fetch_named re m ''seatkind'' of
                   None \<Rightarrow> 0
                 | Some tmp \<Rightarrow> (case parse_value_as_ulong tmp of None \<Rightarrow> 0 | Some l \<Rightarrow> as_gint l))))"

definition parse_log_for_seat_added :: "string \<Rightarrow> log_data option" where
  "parse_log_for_seat_added str = map_option (\<lambda>(i, k). Ev_Seat_Added i k) (parse_seat_kind str)"

definition parse_log_for_seat_removed :: "string \<Rightarrow> log_data option" where
  "parse_log_for_seat_removed str = map_option (\<lambda>(i, k). Ev_Seat_Removed i k) (parse_seat_kind str)"

definition parse_log_for_system_stop :: "string \<Rightarrow> log_data option" where
  "parse_log_for_system_stop str = map_option (\<lambda>_. Ev_System_Stop) (skip_header str)"

definition parse_log_for_system_restart :: "string \<Rightarrow> log_data option" where
  "parse_log_for_system_restart str = map_option (\<lambda>_. Ev_System_Restart) (skip_header str)"

definition system_start_rx :: "rx list" where
  "system_start_rx =
     [Opt [Lit (''kernel-release='' @ [apos]), Cls not_quote 1 (Some ''release''), Lit [apos]],
      Opt [Lit '' ''],
      Opt [Lit (''boot-arguments='' @ [apos]), Dots (Some ''arguments''), Lit [apos]]]"

definition parse_log_for_system_start :: "string \<Rightarrow> log_data option" where
  "parse_log_for_system_start str =
     (case skip_header str of
        None \<Rightarrow> None
      | Some s \<Rightarrow>
          map_option (\<lambda>m. Ev_System_Start (fetch_named system_start_rx m ''release'')
            (fetch_named system_start_rx m ''arguments'')) (g_regex_match system_start_rx s))"

text \<open>The group of the remote host name is called \<open>sessionremovehostname\<close> in the expression.\<close>

definition session_fields :: "field list" where
  "session_fields =
     [(''seat-id='' @ [apos], id_char, 1, ''seatid''),
      (apos # '' session-id='' @ [apos], id_char, 1, ''sessionid''),
      (apos # '' session-type='' @ [apos], type_char, 0, ''sessiontype''),
      (apos # '' session-x11-display='' @ [apos], display_char, 0, ''sessionx11display''),
      (apos # '' session-x11-display-device='' @ [apos], not_quote, 0, ''sessionx11displaydevice''),
      (apos # '' session-display-device='' @ [apos], not_quote, 0, ''sessiondisplaydevice''),
      (apos # '' session-remote-host-name='' @ [apos], not_quote, 0, ''sessionremovehostname''),
      (apos # '' session-is-local='', is_alpha, 0, ''sessionislocal''),
      ('' session-unix-user='', is_digit, 0, ''sessionunixuser''),
      ('' session-creation-time='' @ [apos], not_quote, 0, ''sessioncreationtime'')]"

definition parse_seat_session :: "string \<Rightarrow> CkLogSeatSessionEvent option" where
  "parse_seat_session str =
     (case skip_header str of
        None \<Rightarrow> None
      | Some s \<Rightarrow>
          let re = line_rx session_fields [apos] in
          (case g_regex_match re s of
             None \<Rightarrow> None
           | Some m \<Rightarrow>
               Some \<lparr>le_seat_id = fetch_named re m ''seatid'',
                 le_session_id = fetch_named re m ''sessionid'',
                 le_session_type = fetch_named re m ''sessiontype'',
                 le_session_x11_display = fetch_named re m ''sessionx11display'',
                 le_session_x11_display_device = fetch_named re m ''sessionx11displaydevice'',
                 le_session_display_device = fetch_named re m ''sessiondisplaydevice'',
                 le_session_remote_host_name = fetch_named re m ''sessionremotehostname'',
                 le_session_is_local = (fetch_named re m ''sessionislocal'' = Some ''TRUE''),
                 le_session_unix_user =
                   (case fetch_named re m ''sessionunixuser'' of
                      None \<Rightarrow> 0
                    | Some tmp \<Rightarrow>
                        (case parse_value_as_ulong tmp of None \<Rightarrow> 0 | Some l \<Rightarrow> l mod 2 ^ 32)),
                 le_session_creation_time = fetch_named re m ''sessioncreationtime''\<rparr>))"

definition parse_log_for_seat_session_added :: "string \<Rightarrow> log_data option" where
  "parse_log_for_seat_session_added str = map_option Ev_Seat_Session_Added (parse_seat_session str)"

definition parse_log_for_seat_session_removed :: "string \<Rightarrow> log_data option" where
  "parse_log_for_seat_session_removed str = map_option Ev_Seat_Session_Removed (parse_seat_session str)"

definition active_session_fields :: "field list" where
  "active_session_fields =
     [(''seat-id='' @ [apos], id_char, 1, ''seatid''),
      (apos # '' session-id='' @ [apos], id_char, 0, ''sessionid'')]"

definition parse_log_for_seat_active_session_changed :: "string \<Rightarrow> log_data option" where
  "parse_log_for_seat_active_session_changed str =
     (case skip_header str of
        None \<Rightarrow> None
      | Some s \<Rightarrow>
          let re = line_rx active_session_fields [apos] in
          map_option (\<lambda>m. Ev_Seat_Active_Session_Changed (fetch_named re m ''seatid'')
            (fetch_named re m ''sessionid'')) (g_regex_match re s))"

definition device_fields :: "field list" where
  "device_fields =
     [(''seat-id='' @ [apos], id_char, 1, ''seatid''),
      (apos # '' device-id='' @ [apos], not_quote, 1, ''deviceid''),
      (apos # '' device-type='' @ [apos], not_quote, 1, ''devicetype'')]"

definition parse_seat_device :: "string \<Rightarrow> (cstring \<times> cstring \<times> cstring) option" where
  "parse_seat_device str =
     (case skip_header str of
        None \<Rightarrow> None
      | Some s \<Rightarrow>
          let re = line_rx device_fields [apos] in
          map_option (\<lambda>m. (fetch_named re m ''seatid'', fetch_named re m ''devicetype'',
            fetch_named re m ''deviceid'')) (g_regex_match re s))"

definition parse_log_for_seat_device_added :: "string \<Rightarrow> log_data option" where
  "parse_log_for_seat_device_added str = map_option (\<lambda>(i, t, d). Ev_Seat_Device_Added i t d) (parse_seat_device str)"

definition parse_log_for_seat_device_removed :: "string \<Rightarrow> log_data option" where
  "parse_log_for_seat_device_removed str = map_option (\<lambda>(i, t, d). Ev_Seat_Device_Removed i t d) (parse_seat_device str)"

text \<open>\<open>sscanf (str, "%lu.%u type=%30s :", ...) == 3\<close>; the microseconds are computed in 32 bits.\<close>

definition parse_log_for_any :: "string \<Rightarrow> (timeval \<times> CkLogEventType) option" where
  "parse_log_for_any str =
     (case scan_unsigned 64 str of
        None \<Rightarrow> None
      | Some (sec, r) \<Rightarrow>
          if take 1 r \<noteq> ''.'' then None
          else case scan_unsigned 32 (drop 1 r) of
            None \<Rightarrow> None
          | Some (frac, r) \<Rightarrow>
              let r = dropWhile is_space r in
              if take 5 r \<noteq> ''type='' then None
              else
                let buf = take 30 (takeWhile (\<lambda>c. \<not> is_space c) (dropWhile is_space (drop 5 r))) in
                if buf = [] then None
                else map_option (\<lambda>t. ((sec, (1000 * frac) mod 2 ^ 32), t)) (event_name_to_type buf))"

definition parse_log_for_event :: "CkLogEventType \<Rightarrow> string \<Rightarrow> log_data option" where
  "parse_log_for_event t str =
     (case t of
        CK_LOG_EVENT_SEAT_ADDED \<Rightarrow> parse_log_for_seat_added str
      | CK_LOG_EVENT_SEAT_REMOVED \<Rightarrow> parse_log_for_seat_removed str
      | CK_LOG_EVENT_SYSTEM_STOP \<Rightarrow> parse_log_for_system_stop str
      | CK_LOG_EVENT_SYSTEM_RESTART \<Rightarrow> parse_log_for_system_restart str
      | CK_LOG_EVENT_SYSTEM_START \<Rightarrow> parse_log_for_system_start str
      | CK_LOG_EVENT_SEAT_SESSION_ADDED \<Rightarrow> parse_log_for_seat_session_added str
      | CK_LOG_EVENT_SEAT_SESSION_REMOVED \<Rightarrow> parse_log_for_seat_session_removed str
      | CK_LOG_EVENT_SEAT_DEVICE_ADDED \<Rightarrow> parse_log_for_seat_device_added str
      | CK_LOG_EVENT_SEAT_DEVICE_REMOVED \<Rightarrow> parse_log_for_seat_device_removed str
      | CK_LOG_EVENT_SEAT_ACTIVE_SESSION_CHANGED \<Rightarrow> parse_log_for_seat_active_session_changed str
      | _ \<Rightarrow> None)"

definition ck_log_event_new_from_string :: "string \<Rightarrow> CkLogEvent option" where
  "ck_log_event_new_from_string str =
     (case parse_log_for_any str of
        None \<Rightarrow> None
      | Some (ts, t) \<Rightarrow> map_option (\<lambda>d. \<lparr>le_timestamp = ts, le_event = d\<rparr>) (parse_log_for_event t str))"

section \<open>Lemmas\<close>

lemma char_classes [simp]:
  "\<not> id_char apos" "\<not> type_char apos" "\<not> display_char apos" "\<not> not_quote apos"
  "\<not> is_alpha CHR '' ''" "\<not> is_digit CHR '' ''"
  by (simp_all add: id_char_def type_char_def display_char_def not_quote_def is_alpha_def is_digit_def)

lemma type_name [simp]:
  "event_type_to_name t \<noteq> []" "length (event_type_to_name t) \<le> 30"
  "list_all (\<lambda>c. \<not> is_space c) (event_type_to_name t)"
  by (cases t; simp add: event_type_to_name_def is_space_def)+

lemma name_type:
  "event_name_to_type (event_type_to_name t) =
     (if t \<in> {CK_LOG_EVENT_NONE, CK_LOG_EVENT_START, CK_LOG_EVENT_STOP, CK_LOG_EVENT_SYSTEM_SUSPEND,
        CK_LOG_EVENT_SYSTEM_HIBERNATE, CK_LOG_EVENT_SYSTEM_RUNLEVEL_CHANGED} then None else Some t)"
  by (cases t) (simp_all add: event_name_to_type_def event_type_to_name_def)

lemma dec_val_zeros [simp]: "dec_val (replicate k CHR ''0'' @ s) = dec_val s"
proof -
  have "foldl (\<lambda>a c. 10 * a + digit_val c) 0 (replicate k CHR ''0'') = 0"
    by (induction k) (simp_all add: digit_val_def)
  then show ?thesis by (simp add: dec_val_def)
qed

lemma dec3_digits [simp]: "list_all is_digit (dec3 n)" "dec3 n \<noteq> []" "dec_val (dec3 n) = n"
proof -
  have "is_digit CHR ''0''" by (simp add: is_digit_def)
  then show "list_all is_digit (dec3 n)" "dec3 n \<noteq> []" "dec_val (dec3 n) = n"
    by (auto simp: dec3_def list_all_iff)
qed

lemma digits_no_space: "list_all is_digit s \<Longrightarrow> CHR '' '' \<notin> set s"
  by (auto simp: list_all_iff)

lemma skip_header_any: "skip_header (add_log_for_any e @ t) = Some t"
proof -
  let ?n = "event_type_to_name (event_type (le_event e))"
  have n: "CHR '' '' \<notin> set ?n" using type_name(3) [of "event_type (le_event e)"] by (auto simp: list_all_iff is_space_def)
  have "g_strstr '' : '' (add_log_for_any e @ t) =
      g_strstr '' : '' ((dec (fst (le_timestamp e)) @ ''.'' @ dec3 (snd (le_timestamp e) div 1000)) @
        '' type='' @ ?n @ '' : '' @ t)" by (simp add: add_log_for_any_def)
  also have "\<dots> = g_strstr '' : '' ('' type='' @ ?n @ '' : '' @ t)"
    by (rule g_strstr_skip) (simp_all add: digits_no_space)
  also have "\<dots> = g_strstr '' : '' ((''type='' @ ?n) @ '' : '' @ t)" by simp
  also have "\<dots> = g_strstr '' : '' ('' : '' @ t)" using n by (intro g_strstr_skip) simp_all
  also have "\<dots> = Some ('' : '' @ t)" by (rule g_strstr_here)
  finally show ?thesis by (simp add: skip_header_def)
qed

lemma parse_any:
  assumes "fst (le_timestamp e) < 2 ^ 64" "snd (le_timestamp e) < 1000000"
  shows "parse_log_for_any (add_log_for_any e @ t) =
    map_option (\<lambda>y. ((fst (le_timestamp e), 1000 * (snd (le_timestamp e) div 1000)), y))
      (event_name_to_type (event_type_to_name (event_type (le_event e))))"
proof -
  let ?s = "fst (le_timestamp e)" and ?m = "snd (le_timestamp e) div 1000"
    and ?n = "event_type_to_name (event_type (le_event e))"
  let ?r2 = "'' type='' @ ?n @ '' : '' @ t"
  have m: "?m < 1000" using assms(2) by linarith
  have str: "add_log_for_any e @ t = dec ?s @ CHR ''.'' # dec3 ?m @ ?r2" by (simp add: add_log_for_any_def)
  have s1: "scan_unsigned 64 (dec ?s @ CHR ''.'' # dec3 ?m @ ?r2) = Some (?s, CHR ''.'' # dec3 ?m @ ?r2)"
    using scan_unsigned_digits [of "dec ?s" "CHR ''.'' # dec3 ?m @ ?r2" 64] assms(1) by (simp add: is_digit_def)
  have s2: "scan_unsigned 32 (dec3 ?m @ ?r2) = Some (?m, ?r2)"
    using scan_unsigned_digits [of "dec3 ?m" ?r2 32] m by (simp add: is_digit_def)
  have ty: "dropWhile is_space ?r2 = ''type='' @ ?n @ '' : '' @ t" by (simp add: is_space_def)
  have n: "\<forall>c \<in> set ?n. \<not> is_space c" using type_name(3) by (simp add: list_all_iff)
  have "dropWhile is_space (?n @ '' : '' @ t) = ?n @ '' : '' @ t"
    using n type_name(1) by (intro dropWhile_hd) (simp add: hd_append)
  moreover have "takeWhile (\<lambda>c. \<not> is_space c) (?n @ '' : '' @ t) = ?n"
    using n by (simp add: takeWhile_append is_space_def)
  ultimately show ?thesis
    unfolding str parse_log_for_any_def s1 using s2 ty m by (simp add: take_Cons' Let_def)
qed

text \<open>What may follow an event in the text that is read: nothing, or a line break and more.\<close>

definition line_end :: "string \<Rightarrow> bool" where
  "line_end t = ((t = [] \<or> hd t = CHR 0x0A) \<and> utf8_valid t)"

lemma line_end_valid [simp]: "line_end t \<Longrightarrow> utf8_valid t"
  by (simp add: line_end_def)

text \<open>Values of these classes are ASCII, and a line of valid values is valid.\<close>

lemma class_ascii:
  "list_all id_char s \<Longrightarrow> utf8_valid s" "list_all type_char s \<Longrightarrow> utf8_valid s" "list_all display_char s \<Longrightarrow> utf8_valid s"
  "list_all is_digit s \<Longrightarrow> utf8_valid s"
  by (rule utf8_valid_ascii;
      auto elim!: list.pred_mono_strong
        simp: ascii_char_def id_char_def type_char_def display_char_def is_alpha_def is_digit_def Let_def)+

lemma dec_valid [simp]: "utf8_valid (dec n)"
  by (rule class_ascii) (auto simp: list_all_iff)

lemma line_utf8:
  assumes "list_all (\<lambda>(l, p, m, g). utf8_valid l) fs" "utf8_valid e" "list_all utf8_valid vs" "utf8_valid t"
  shows "utf8_valid (line_text fs e vs @ t)"
  using assms by (induction fs e vs rule: line_text.induct) (auto simp: utf8_valid_append)

lemma fields_utf8 [simp]:
  "utf8_valid (apos # s) = utf8_valid s" "list_all (\<lambda>(l, p, m, g). utf8_valid l) seat_kind_fields"
  "list_all (\<lambda>(l, p, m, g). utf8_valid l) session_fields"
  "list_all (\<lambda>(l, p, m, g). utf8_valid l) active_session_fields"
  "list_all (\<lambda>(l, p, m, g). utf8_valid l) device_fields"
  by (simp_all add: seat_kind_fields_def session_fields_def active_session_fields_def device_fields_def)

lemma search_line:
  assumes "line_ok fs (e @ t) vs" "list_all (\<lambda>(l, p, m, g). utf8_valid l) fs" "utf8_valid e" "list_all utf8_valid vs" "utf8_valid t"
  shows "g_regex_match (line_rx fs e) (line_text fs e vs @ t) = Some (zip (map (\<lambda>(l, p, m, g). g) fs) vs)"
  using rx_search_match [OF rx_match_line_tail [OF assms(1)]] line_text_append [OF line_ok_length [OF assms(1)]]
    line_utf8 [OF assms(2-5)] by (simp add: g_regex_match_def)

lemma parse_value_dec: "n < 2 ^ 64 \<Longrightarrow> parse_value_as_ulong (dec n) = Some n"
  using scan_unsigned_digits [of "dec n" "[]" 64] by (simp add: parse_value_as_ulong_def)

lemma line_texts:
  "add_log_for_seat_added i k = line_text seat_kind_fields '''' [printf_string i, dec_int k]"
  "add_log_for_seat_removed i k = line_text seat_kind_fields '''' [printf_string i, dec_int k]"
  "add_log_for_seat_active_session_changed i s = line_text active_session_fields [apos] [NONULL_STRING i, NONULL_STRING s]"
  "add_log_for_seat_device_added i t d = line_text device_fields [apos] [NONULL_STRING i, NONULL_STRING d, NONULL_STRING t]"
  "add_log_for_seat_device_removed i t d = line_text device_fields [apos] [NONULL_STRING i, NONULL_STRING d, NONULL_STRING t]"
  by (simp_all add: add_log_for_seat_added_def add_log_for_seat_removed_def add_log_for_seat_active_session_changed_def
      add_log_for_seat_device_added_def add_log_for_seat_device_removed_def seat_kind_fields_def active_session_fields_def
      device_fields_def)

lemma parse_seat_kind_line:
  assumes "i \<noteq> []" "list_all id_char i" "list_all is_digit k" "line_end t"
  shows "parse_seat_kind (add_log_for_any e @ line_text seat_kind_fields '''' [i, k] @ t) = Some (Some i, 0)"
proof -
  have "line_ok seat_kind_fields ('''' @ t) [i, k]"
    using assms by (cases i; cases t) (auto simp: seat_kind_fields_def line_next_def line_end_def is_digit_def)
  from search_line [OF this] assms(4) class_ascii(1) [OF assms(2)] class_ascii(4) [OF assms(3)] show ?thesis
    by (simp add: parse_seat_kind_def skip_header_any line_end_def Let_def)
      (simp add: seat_kind_fields_def fetch_named_def)
qed

definition session_values :: "CkLogSeatSessionEvent \<Rightarrow> string list" where
  "session_values e =
     [NONULL_STRING (le_seat_id e), NONULL_STRING (le_session_id e), NONULL_STRING (le_session_type e),
      NONULL_STRING (le_session_x11_display e), NONULL_STRING (le_session_x11_display_device e),
      NONULL_STRING (le_session_display_device e), NONULL_STRING (le_session_remote_host_name e),
      log_bool (le_session_is_local e), dec (le_session_unix_user e), NONULL_STRING (le_session_creation_time e)]"

text \<open>A session event whose strings fit the expression that will read them.\<close>

definition session_loggable :: "CkLogSeatSessionEvent \<Rightarrow> bool" where
  "session_loggable e =
     (IS_STR_SET (le_seat_id e) \<and> list_all id_char (NONULL_STRING (le_seat_id e)) \<and>
      IS_STR_SET (le_session_id e) \<and> list_all id_char (NONULL_STRING (le_session_id e)) \<and>
      list_all type_char (NONULL_STRING (le_session_type e)) \<and>
      list_all display_char (NONULL_STRING (le_session_x11_display e)) \<and>
      list_all not_quote (NONULL_STRING (le_session_x11_display_device e)) \<and> utf8_valid (NONULL_STRING (le_session_x11_display_device e)) \<and>
      list_all not_quote (NONULL_STRING (le_session_display_device e)) \<and> utf8_valid (NONULL_STRING (le_session_display_device e)) \<and>
      list_all not_quote (NONULL_STRING (le_session_remote_host_name e)) \<and> utf8_valid (NONULL_STRING (le_session_remote_host_name e)) \<and>
      le_session_unix_user e < 2 ^ 32 \<and>
      list_all not_quote (NONULL_STRING (le_session_creation_time e)) \<and> utf8_valid (NONULL_STRING (le_session_creation_time e)))"

text \<open>What reading gives back: no remote host name, and empty strings for NULL.\<close>

definition read_session :: "CkLogSeatSessionEvent \<Rightarrow> CkLogSeatSessionEvent" where
  "read_session e =
     \<lparr>le_seat_id = Some (NONULL_STRING (le_seat_id e)), le_session_id = Some (NONULL_STRING (le_session_id e)),
      le_session_type = Some (NONULL_STRING (le_session_type e)),
      le_session_x11_display = Some (NONULL_STRING (le_session_x11_display e)),
      le_session_x11_display_device = Some (NONULL_STRING (le_session_x11_display_device e)),
      le_session_display_device = Some (NONULL_STRING (le_session_display_device e)),
      le_session_remote_host_name = None, le_session_is_local = le_session_is_local e,
      le_session_unix_user = le_session_unix_user e,
      le_session_creation_time = Some (NONULL_STRING (le_session_creation_time e))\<rparr>"

lemma session_line_text:
  "add_log_for_seat_session_added e = line_text session_fields [apos] (session_values e)"
  "add_log_for_seat_session_removed e = line_text session_fields [apos] (session_values e)"
  by (simp_all add: add_log_for_seat_session_added_def add_log_for_seat_session_removed_def session_fields_def session_values_def)

lemma session_line_ok: "session_loggable e \<Longrightarrow> line_ok session_fields [apos] (session_values e)"
  by (auto simp: session_loggable_def session_values_def session_fields_def line_next_def log_bool_def is_alpha_def
      IS_STR_SET_def Suc_le_eq split: option.splits)

lemma session_values_valid: "session_loggable e \<Longrightarrow> list_all utf8_valid (session_values e)"
  using class_ascii(1-3)
  by (auto simp: session_loggable_def session_values_def log_bool_def)

lemma parse_seat_session_line:
  assumes "session_loggable e" "utf8_valid t"
  shows "parse_seat_session (add_log_for_any x @ line_text session_fields [apos] (session_values e) @ t) = Some (read_session e)"
proof -
  have u: "le_session_unix_user e < 2 ^ 64" "le_session_unix_user e mod 2 ^ 32 = le_session_unix_user e"
    using assms(1) by (simp_all add: session_loggable_def)
  show ?thesis
    using search_line [of session_fields "[apos]" t "session_values e"] session_line_ok [OF assms(1)] session_values_valid [OF assms(1)] assms(2) u
      line_ok_append [of "[apos]" session_fields t "session_values e"]
    by (simp add: parse_seat_session_def skip_header_any Let_def)
      (simp add: session_fields_def session_values_def fetch_named_def read_session_def log_bool_def parse_value_dec)
qed

lemma parse_active_line:
  assumes "i \<noteq> []" "list_all id_char i" "list_all id_char s" "utf8_valid t"
  shows "parse_log_for_seat_active_session_changed
      (add_log_for_any e @ line_text active_session_fields [apos] [i, s] @ t) =
    Some (Ev_Seat_Active_Session_Changed (Some i) (Some s))"
proof -
  have "line_ok active_session_fields ([apos] @ t) [i, s]"
    using assms by (cases i) (auto simp: active_session_fields_def line_next_def)
  from search_line [OF this] assms(4) class_ascii(1) [OF assms(2)] class_ascii(1) [OF assms(3)] show ?thesis
    by (simp add: parse_log_for_seat_active_session_changed_def skip_header_any Let_def)
      (simp add: active_session_fields_def fetch_named_def)
qed

lemma parse_device_line:
  assumes "i \<noteq> []" "list_all id_char i" "d \<noteq> []" "list_all not_quote d" "ty \<noteq> []" "list_all not_quote ty"
    and "list_all utf8_valid [d, ty, t]"
  shows "parse_seat_device (add_log_for_any e @ line_text device_fields [apos] [i, d, ty] @ t) = Some (Some i, Some ty, Some d)"
proof -
  have "line_ok device_fields ([apos] @ t) [i, d, ty]"
    using assms by (cases i; cases d; cases ty) (auto simp: device_fields_def line_next_def)
  from search_line [OF this] assms(7) class_ascii(1) [OF assms(2)] show ?thesis
    by (simp add: parse_seat_device_def skip_header_any Let_def) (simp add: device_fields_def fetch_named_def)
qed

text \<open>Boot arguments without a line break of any kind.\<close>

definition boot_line :: "string \<Rightarrow> bool" where
  "boot_line b = (dots_length b = length b \<and> utf8_valid b)"

lemma parse_start_line:
  assumes "r \<noteq> []" "list_all not_quote r" "utf8_valid r" "boot_line b" "line_end t"
  shows "parse_log_for_system_start (add_log_for_any e @ ''kernel-release='' @ apos # r @ apos # '' boot-arguments='' @ apos # b @ apos # t) =
    Some (Ev_System_Start (Some r) (Some b))"
proof -
  let ?boot = "[Lit (''boot-arguments='' @ [apos]), Dots (Some ''arguments''), Lit [apos]]"
  let ?s = "''kernel-release='' @ apos # r @ apos # '' boot-arguments='' @ apos # b @ apos # t"
  have t: "t = [] \<or> newline_at t" using assms(5) by (cases t) (auto simp: line_end_def newline_at_def)
  have b: "rx_match [Opt [Lit '' ''], Opt ?boot] ('' boot-arguments='' @ apos # b @ apos # t) = Some [(''arguments'', b)]"
    using rx_match_dots [OF _ t, of b apos "Some ''arguments''"] assms(4) by (simp add: capture_def boot_line_def del: rx_match.simps(4))
  have "rx_match (Cls not_quote 1 (Some ''release'') # Lit [apos] # [Opt [Lit '' ''], Opt ?boot])
      (r @ [apos] @ '' boot-arguments='' @ apos # b @ apos # t) = Some [(''release'', r), (''arguments'', b)]"
    using rx_match_field [OF assms(2) _ _ _ b, of 1 "[apos]" apos "[]" "Some ''release''"] assms(1)
    by (cases r) (simp_all add: capture_def del: rx_match.simps)
  then have "rx_match system_start_rx ?s = Some [(''release'', r), (''arguments'', b)]"
    by (simp add: system_start_rx_def del: rx_match.simps(3,4))
  moreover have "utf8_valid ?s"
  proof -
    have "utf8_valid (''kernel-release='' @ [apos])" "utf8_valid (apos # '' boot-arguments='' @ [apos])" "utf8_valid [apos]"
      by simp_all
    moreover have "?s = (''kernel-release='' @ [apos]) @ r @ (apos # '' boot-arguments='' @ [apos]) @ b @ [apos] @ t" by simp
    ultimately show ?thesis using assms(3-5) by (simp only: utf8_valid_append boot_line_def line_end_def)
  qed
  ultimately have "g_regex_match system_start_rx ?s = Some [(''release'', r), (''arguments'', b)]"
    using rx_search_match unfolding g_regex_match_def by simp
  then show ?thesis
    by (simp add: parse_log_for_system_start_def skip_header_any) (simp add: system_start_rx_def fetch_named_def)
qed

lemma parse_start_event:
  assumes "r \<noteq> []" "list_all not_quote r" "utf8_valid r" "boot_line (NONULL_STRING b)" "line_end t"
  shows "parse_log_for_system_start (add_log_for_any e @ add_log_for_system_start (Some r) b @ t) =
    Some (Ev_System_Start (Some r) (Some (NONULL_STRING b)))"
  using parse_start_line [OF assms] by (simp add: add_log_for_system_start_def)

section \<open>Properties\<close>

text \<open>The events that can be read back, and what they are then.\<close>

fun loggable :: "log_data \<Rightarrow> bool" where
  "loggable (Ev_Seat_Added i k) = (IS_STR_SET i \<and> list_all id_char (NONULL_STRING i) \<and> 0 \<le> k)"
| "loggable (Ev_Seat_Removed i k) = (IS_STR_SET i \<and> list_all id_char (NONULL_STRING i) \<and> 0 \<le> k)"
| "loggable Ev_System_Stop = True"
| "loggable Ev_System_Restart = True"
| "loggable (Ev_System_Start r b) =
     (IS_STR_SET r \<and> list_all not_quote (NONULL_STRING r) \<and> utf8_valid (NONULL_STRING r) \<and> boot_line (NONULL_STRING b))"
| "loggable (Ev_Seat_Session_Added e) = session_loggable e"
| "loggable (Ev_Seat_Session_Removed e) = session_loggable e"
| "loggable (Ev_Seat_Device_Added i t d) =
     (IS_STR_SET i \<and> list_all id_char (NONULL_STRING i) \<and> IS_STR_SET t \<and> list_all not_quote (NONULL_STRING t) \<and>
      IS_STR_SET d \<and> list_all not_quote (NONULL_STRING d) \<and> utf8_valid (NONULL_STRING t) \<and> utf8_valid (NONULL_STRING d))"
| "loggable (Ev_Seat_Device_Removed i t d) =
     (IS_STR_SET i \<and> list_all id_char (NONULL_STRING i) \<and> IS_STR_SET t \<and> list_all not_quote (NONULL_STRING t) \<and>
      IS_STR_SET d \<and> list_all not_quote (NONULL_STRING d) \<and> utf8_valid (NONULL_STRING t) \<and> utf8_valid (NONULL_STRING d))"
| "loggable (Ev_Seat_Active_Session_Changed i s) =
     (IS_STR_SET i \<and> list_all id_char (NONULL_STRING i) \<and> list_all id_char (NONULL_STRING s))"
| "loggable _ = False"

fun read_data :: "log_data \<Rightarrow> log_data" where
  "read_data (Ev_Seat_Added i k) = Ev_Seat_Added i 0"
| "read_data (Ev_Seat_Removed i k) = Ev_Seat_Removed i 0"
| "read_data (Ev_System_Start r b) = Ev_System_Start r (Some (NONULL_STRING b))"
| "read_data (Ev_Seat_Session_Added e) = Ev_Seat_Session_Added (read_session e)"
| "read_data (Ev_Seat_Session_Removed e) = Ev_Seat_Session_Removed (read_session e)"
| "read_data (Ev_Seat_Active_Session_Changed i s) = Ev_Seat_Active_Session_Changed i (Some (NONULL_STRING s))"
| "read_data d = d"

lemma str_setD: "IS_STR_SET x \<Longrightarrow> \<exists>s. x = Some s \<and> s \<noteq> []"
  by (auto simp: IS_STR_SET_def split: option.splits)

lemma parse_event_line:
  assumes "loggable d" and "add_log_for_event d = Some t" and "line_end r"
  shows "parse_log_for_event (event_type d) (add_log_for_any e @ t @ r) = Some (read_data d)"
  using assms
  by (cases d)
    (auto simp: parse_log_for_event_def parse_log_for_seat_added_def parse_log_for_seat_removed_def
      parse_log_for_system_stop_def parse_log_for_system_restart_def parse_log_for_seat_session_added_def
      parse_log_for_seat_session_removed_def parse_log_for_seat_device_added_def parse_log_for_seat_device_removed_def
      line_texts session_line_text parse_seat_session_line skip_header_any skip_header_any [where t = "[]", simplified] parse_seat_kind_line parse_active_line
      parse_device_line parse_start_event printf_string_def dec_int_def dest!: str_setD)

lemma loggable_text: "loggable d \<Longrightarrow> \<exists>t. add_log_for_event d = Some t"
  by (cases d) auto

lemma loggable_type: "loggable d \<Longrightarrow> event_name_to_type (event_type_to_name (event_type d)) = Some (event_type d)"
  by (cases d) (simp_all add: name_type)

text \<open>What is read from a line, with or without its line break.\<close>

definition read_event :: "CkLogEvent \<Rightarrow> CkLogEvent" where
  "read_event e = \<lparr>le_timestamp = (fst (le_timestamp e), 1000 * (snd (le_timestamp e) div 1000)), le_event = read_data (le_event e)\<rparr>"

definition event_ok :: "CkLogEvent \<Rightarrow> bool" where
  "event_ok e = (fst (le_timestamp e) < 2 ^ 64 \<and> snd (le_timestamp e) < 1000000 \<and> loggable (le_event e))"

lemma read_event_line:
  assumes "event_ok e" "line_end r"
  shows "\<exists>str. ck_log_event_to_string e = Some str \<and> ck_log_event_new_from_string (str @ r) = Some (read_event e)"
proof -
  obtain t where "add_log_for_event (le_event e) = Some t" using loggable_text assms(1) by (auto simp: event_ok_def)
  with assms show ?thesis
    by (simp add: ck_log_event_to_string_def ck_log_event_new_from_string_def parse_any loggable_type parse_event_line
        event_ok_def read_event_def)
qed

text \<open>
  The history of suspending and hibernating cannot be read: both events are written
  with the type name UNKNOWN, which the reader refuses, whatever the rest of the log is.
\<close>

theorem suspend_log_unreadable:
  assumes "fst ts < 2 ^ 64" and "snd ts < 1000000" and "d \<in> {Ev_System_Suspend, Ev_System_Hibernate}"
  shows "\<exists>str. ck_log_event_to_string \<lparr>le_timestamp = ts, le_event = d\<rparr> = Some str \<and>
    (\<forall>rest. ck_log_event_new_from_string (str @ rest) = None)"
  using assms parse_any [of "\<lparr>le_timestamp = ts, le_event = d\<rparr>"]
  by (auto simp: ck_log_event_to_string_def ck_log_event_new_from_string_def name_type)

theorem suspend_log_unreadable_witness:
  "\<exists>str. ck_log_event_to_string \<lparr>le_timestamp = (17, 5000), le_event = Ev_System_Suspend\<rparr> = Some str \<and>
    (\<forall>rest. ck_log_event_new_from_string (str @ rest) = None)"
  using suspend_log_unreadable [of "(17, 5000)" Ev_System_Suspend] by simp


definition sample_log_event :: CkLogEvent where
  "sample_log_event = \<lparr>le_timestamp = (1700000000, 123456), le_event = Ev_Seat_Session_Added
     \<lparr>le_seat_id = Some ''seat0'', le_session_id = Some ''Session1'', le_session_type = Some ''x11'',
      le_session_x11_display = Some '':0'', le_session_x11_display_device = Some ''/dev/tty7'',
      le_session_display_device = None, le_session_remote_host_name = Some ''host.example'',
      le_session_is_local = True, le_session_unix_user = 1000, le_session_creation_time = Some ''2026''\<rparr>\<rparr>"


end
