(* ===== verification/CK_SessionLeader.thy ===== *)
theory CK_SessionLeader
  imports CK_Text CK_Session
begin

text \<open>
  Session leaders: src/src/ck-session-leader.c.

  A leader is the process that asked for a session. Its parameters are collected by a
  helper program (a job); what the caller passed itself overrides the helper's output.
  The value \<open>errno\<close> has before each conversion is an input, since the code never resets
  it. \<open>None\<close> stands for a crash (a line without a value).
\<close>

section \<open>Types\<close>

record CkSessionLeader =
  sl_uid :: nat
  sl_pid :: nat
  sl_service_name :: cstring
  sl_session_id :: cstring
  sl_cookie :: cstring
  sl_pending_jobs :: "nat list"
  sl_cancelled :: bool
  sl_override_parameters :: "(string, gvariant) ghash"

datatype param_type = P_STRING | P_BOOLEAN | P_INT | P_UINT

definition parameter_lookup :: "(string \<times> param_type) list" where
  "parameter_lookup =
     [(''login-session-id'', P_STRING), (''display-device'', P_STRING), (''x11-display-device'', P_STRING),
      (''x11-display'', P_STRING), (''remote-host-name'', P_STRING), (''session-type'', P_STRING),
      (''session-class'', P_STRING), (''session-service'', P_STRING), (''is-local'', P_BOOLEAN),
      (''unix-user'', P_INT), (''user'', P_INT), (''vtnr'', P_UINT)]"

section \<open>Operations\<close>

definition ck_session_leader_init :: CkSessionLeader where
  "ck_session_leader_init = \<lparr>sl_uid = 0, sl_pid = 0, sl_service_name = None, sl_session_id = None,
     sl_cookie = None, sl_pending_jobs = [], sl_cancelled = False, sl_override_parameters = []\<rparr>"

definition ck_session_leader_new :: CkSessionLeader where
  "ck_session_leader_new = ck_session_leader_init"

definition ck_session_leader_cancel :: "CkSessionLeader \<Rightarrow> CkSessionLeader" where
  "ck_session_leader_cancel l =
     (if sl_pending_jobs l \<noteq> [] then l\<lparr>sl_pending_jobs := []\<rparr> else l)\<lparr>sl_cancelled := True\<rparr>"

definition have_override_parameter :: "CkSessionLeader \<Rightarrow> string \<Rightarrow> bool" where
  "have_override_parameter l n = (g_hash_table_lookup (sl_override_parameters l) n \<noteq> None)"

definition lookup_parameter_type :: "string \<Rightarrow> param_type option" where
  "lookup_parameter_type n = map_of parameter_lookup n"

text \<open>\<open>strtol\<close> in base ten on 64 bits: the value and whether it set \<open>errno\<close> to \<open>ERANGE\<close>.\<close>

definition strtol :: "string \<Rightarrow> int \<times> bool" where
  "strtol s =
     (let s = dropWhile is_space s;
          neg = (s \<noteq> [] \<and> hd s = CHR ''-'');
          s = (if s \<noteq> [] \<and> (hd s = CHR ''-'' \<or> hd s = CHR ''+'') then tl s else s);
          v = int (dec_val (takeWhile is_digit s));
          v = (if neg then - v else v)
      in if v > 2 ^ 63 - 1 then (2 ^ 63 - 1, True)
         else if v < - (2 ^ 63) then (- (2 ^ 63), True)
         else (v, False))"

definition ERANGE :: nat where
  "ERANGE = 34"

text \<open>The check of an untrusted number: \<open>stale\<close> is \<open>errno\<close> before the call.\<close>

definition untrusted_int :: "nat \<Rightarrow> int \<Rightarrow> string \<Rightarrow> int option" where
  "untrusted_int stale limit value =
     (let (v, range) = strtol value; errno = (if range then ERANGE else stale)
      in if errno = ERANGE \<and> (v = 2 ^ 63 - 1 \<or> v = - (2 ^ 63)) \<or> errno \<noteq> 0 \<and> v = 0 then None
         else if v > limit then None
         else if v < 0 then None
         else Some v)"

definition lower :: "char \<Rightarrow> char" where
  "lower c = (let n = (of_char c :: nat) in if 65 \<le> n \<and> n \<le> 90 then char_of (n + 32) else c)"

text \<open>\<open>g_ascii_strncasecmp (v, "TRUE", 4) == 0\<close>, which is also the answer for a NULL pointer.\<close>

definition is_true :: "cstring \<Rightarrow> bool" where
  "is_true v = (case v of None \<Rightarrow> True | Some s \<Rightarrow> map lower (take 4 s) = ''true'')"

text \<open>\<open>g_strsplit (line, " = ", 2)\<close> of a line that is not empty: the name and, if there is one, the value.\<close>

fun split_assign :: "string \<Rightarrow> string \<times> cstring" where
  "split_assign [] = ([], None)"
| "split_assign (c # s) =
     (if take 3 (c # s) = '' = '' then ([], Some (drop 3 (c # s)))
      else let (n, v) = split_assign s in (c # n, v))"

text \<open>
  One line: \<open>None\<close> is a crash, \<open>Some None\<close> a line that is skipped.
\<close>

definition parse_line :: "CkSessionLeader \<Rightarrow> nat \<Rightarrow> string \<Rightarrow> (string \<times> gvariant) option option" where
  "parse_line l stale line =
     (if line = [] then Some None
      else
        let (n, v) = split_assign line in
        if have_override_parameter l n then Some None
        else case lookup_parameter_type n of
          None \<Rightarrow> Some None
        | Some P_STRING \<Rightarrow> map_option (\<lambda>s. Some (n, V_string s)) v
        | Some P_BOOLEAN \<Rightarrow> Some (Some (n, V_bool (is_true v)))
        | Some P_INT \<Rightarrow> map_option (\<lambda>s. map_option (\<lambda>i. (n, V_int i)) (untrusted_int stale (2 ^ 31 - 1) s)) v
        | Some P_UINT \<Rightarrow>
            map_option (\<lambda>s. map_option (\<lambda>i. (n, V_uint (nat i))) (untrusted_int stale (2 ^ 32 - 1) s)) v)"

fun parse_lines :: "CkSessionLeader \<Rightarrow> (nat \<Rightarrow> nat) \<Rightarrow> nat \<Rightarrow> string list \<Rightarrow> (string \<times> gvariant) list option" where
  "parse_lines l stale i [] = Some []"
| "parse_lines l stale i (line # lines) =
     (case parse_line l (stale i) line of
        None \<Rightarrow> None
      | Some x \<Rightarrow>
          map_option (\<lambda>ps. (case x of None \<Rightarrow> ps | Some p \<Rightarrow> p # ps)) (parse_lines l stale (Suc i) lines))"

definition parse_output :: "CkSessionLeader \<Rightarrow> (nat \<Rightarrow> nat) \<Rightarrow> string \<Rightarrow> (string \<times> gvariant) list option" where
  "parse_output l stale out =
     map_option (\<lambda>ps. ps @ sl_override_parameters l) (parse_lines l stale 0 (g_strsplit out CHR 0x0A))"

fun save_parameters :: "(string \<times> gvariant) list \<Rightarrow> CkSessionLeader \<Rightarrow> CkSessionLeader" where
  "save_parameters [] l = l"
| "save_parameters ((n, v) # ps) l =
     save_parameters ps
       (if n = ''id'' \<or> n = ''cookie'' then l
        else if lookup_parameter_type n = None then l
        else l\<lparr>sl_override_parameters := g_hash_table_insert (sl_override_parameters l)
               (if n = ''user'' then ''unix-user'' else n) v\<rparr>)"

definition LIBEXECDIR :: string where
  "LIBEXECDIR = ''/usr/libexec''"

definition collect_command :: "CkSessionLeader \<Rightarrow> string" where
  "collect_command l =
     (let dev = (case g_hash_table_lookup (sl_override_parameters l) ''x11-display-device'' of
                   Some (V_string d) \<Rightarrow> Some d | _ \<Rightarrow> None);
          base = LIBEXECDIR @ ''/ck-collect-session-info --uid '' @ dec (sl_uid l) @ '' --pid '' @ dec (sl_pid l)
      in if IS_STR_SET dev then base @ '' --x11-display-device '' @ NONULL_STRING dev else base)"

text \<open>Starting the helper: \<open>job\<close> is the new job, or \<open>None\<close> if it cannot be executed.\<close>

definition ck_session_leader_collect_parameters :: "nat option \<Rightarrow> CkSessionLeader \<Rightarrow> bool \<times> CkSessionLeader" where
  "ck_session_leader_collect_parameters job l =
     (case job of
        None \<Rightarrow> (False, l)
      | Some j \<Rightarrow> (True, l\<lparr>sl_pending_jobs := j # sl_pending_jobs l\<rparr>))"

definition ck_session_leader_peek_session_id :: "CkSessionLeader \<Rightarrow> cstring" where
  "ck_session_leader_peek_session_id l = sl_session_id l"

definition ck_session_leader_peek_cookie :: "CkSessionLeader \<Rightarrow> cstring" where
  "ck_session_leader_peek_cookie l = sl_cookie l"

definition ck_session_leader_peek_service_name :: "CkSessionLeader \<Rightarrow> cstring" where
  "ck_session_leader_peek_service_name l = sl_service_name l"

definition ck_session_leader_get_uid :: "CkSessionLeader \<Rightarrow> nat" where
  "ck_session_leader_get_uid l = sl_uid l"

definition ck_session_leader_get_pid :: "CkSessionLeader \<Rightarrow> nat" where
  "ck_session_leader_get_pid l = sl_pid l"

definition ck_session_leader_set_pid :: "nat \<Rightarrow> CkSessionLeader \<Rightarrow> CkSessionLeader" where
  "ck_session_leader_set_pid pid l = l\<lparr>sl_pid := pid\<rparr>"

definition ck_session_leader_set_uid :: "nat \<Rightarrow> CkSessionLeader \<Rightarrow> CkSessionLeader" where
  "ck_session_leader_set_uid uid l = l\<lparr>sl_uid := uid\<rparr>"

definition ck_session_leader_set_session_id :: "cstring \<Rightarrow> CkSessionLeader \<Rightarrow> CkSessionLeader" where
  "ck_session_leader_set_session_id i l = l\<lparr>sl_session_id := i\<rparr>"

definition ck_session_leader_set_cookie :: "cstring \<Rightarrow> CkSessionLeader \<Rightarrow> CkSessionLeader" where
  "ck_session_leader_set_cookie c l = l\<lparr>sl_cookie := c\<rparr>"

definition ck_session_leader_set_service_name :: "cstring \<Rightarrow> CkSessionLeader \<Rightarrow> CkSessionLeader" where
  "ck_session_leader_set_service_name n l = l\<lparr>sl_service_name := n\<rparr>"

definition ck_session_leader_set_override_parameters ::
  "(string \<times> gvariant) list option \<Rightarrow> CkSessionLeader \<Rightarrow> CkSessionLeader" where
  "ck_session_leader_set_override_parameters ps l =
     (let l = l\<lparr>sl_override_parameters := []\<rparr>
      in case ps of None \<Rightarrow> l | Some ps \<Rightarrow> save_parameters ps l)"

definition ck_session_leader_dump :: "CkSessionLeader \<Rightarrow> key_file \<Rightarrow> key_file" where
  "ck_session_leader_dump l kf =
     (let g = ''SessionLeader '' @ printf_string (sl_session_id l);
          kf = kf_set g ''session'' (NONULL_STRING (sl_session_id l)) kf;
          kf = kf_set g ''uid'' (dec_int (as_gint (sl_uid l))) kf;
          kf = kf_set g ''pid'' (dec_int (as_gint (sl_pid l))) kf
      in kf_set g ''service_name'' (NONULL_STRING (sl_service_name l)) kf)"

section \<open>Lemmas\<close>

text \<open>A value that has the type and the range of its parameter.\<close>

fun param_typed :: "param_type \<Rightarrow> gvariant \<Rightarrow> bool" where
  "param_typed P_STRING (V_string _) = True"
| "param_typed P_BOOLEAN (V_bool _) = True"
| "param_typed P_INT (V_int i) = (0 \<le> i \<and> i < 2 ^ 31)"
| "param_typed P_UINT (V_uint n) = (n < 2 ^ 32)"
| "param_typed _ _ = False"

text \<open>
  A line that is read without a crash: it is empty, its name is skipped, it has a value, or it is
  a truth value, whose comparison answers for NULL.
\<close>

definition safe_line :: "CkSessionLeader \<Rightarrow> string \<Rightarrow> bool" where
  "safe_line l line =
     (line = [] \<or> have_override_parameter l (fst (split_assign line)) \<or>
      lookup_parameter_type (fst (split_assign line)) \<in> {None, Some P_BOOLEAN} \<or> snd (split_assign line) \<noteq> None)"

definition generated :: "CkSessionLeader \<Rightarrow> string \<times> gvariant \<Rightarrow> bool" where
  "generated l p =
     (\<not> have_override_parameter l (fst p) \<and>
      (\<exists>t. lookup_parameter_type (fst p) = Some t \<and> param_typed t (snd p)))"

lemma untrusted_int_range: "untrusted_int stale limit v = Some i \<Longrightarrow> 0 \<le> i \<and> i \<le> limit"
  by (auto simp: untrusted_int_def Let_def split: prod.splits if_splits)

lemma parse_line_generated: "parse_line l stale line = Some (Some p) \<Longrightarrow> generated l p"
  by (auto simp: parse_line_def generated_def Let_def split: if_splits prod.splits option.splits param_type.splits
      dest!: untrusted_int_range)

lemma parse_line_returns: "parse_line l stale line \<noteq> None \<longleftrightarrow> safe_line l line"
  by (auto simp: parse_line_def safe_line_def Let_def split: prod.splits option.splits param_type.splits)

lemma parse_lines_generated: "parse_lines l stale i lines = Some ps \<Longrightarrow> p \<in> set ps \<Longrightarrow> generated l p"
  by (induction l stale i lines arbitrary: ps rule: parse_lines.induct)
    (auto split: option.splits dest: parse_line_generated)

lemma parse_lines_returns: "parse_lines l stale i lines \<noteq> None \<longleftrightarrow> list_all (safe_line l) lines"
  using parse_line_returns by (induction l stale i lines rule: parse_lines.induct) (fastforce split: option.splits)+

text \<open>The table of overrides: known names only, and no key twice.\<close>

definition overrides_ok :: "CkSessionLeader \<Rightarrow> bool" where
  "overrides_ok l =
     (ht_wf (sl_override_parameters l) \<and>
      list_all (\<lambda>(n, v). lookup_parameter_type n \<noteq> None \<and> n \<noteq> ''user'') (sl_override_parameters l))"

lemma overrides_insert:
  assumes "overrides_ok l" "lookup_parameter_type n \<noteq> None" "n \<noteq> ''user''"
  shows "overrides_ok (l\<lparr>sl_override_parameters := g_hash_table_insert (sl_override_parameters l) n v\<rparr>)"
  using assms set_ht_insert_subset [of "sl_override_parameters l" n v] by (auto simp: overrides_ok_def list_all_iff)

lemma save_parameters_ok: "overrides_ok l \<Longrightarrow> overrides_ok (save_parameters ps l)"
proof (induction ps l rule: save_parameters.induct)
  case (2 n v ps l)
  have u: "lookup_parameter_type ''unix-user'' \<noteq> None" by (simp add: lookup_parameter_type_def parameter_lookup_def)
  have "overrides_ok (if n = ''id'' \<or> n = ''cookie'' then l else if lookup_parameter_type n = None then l
      else l\<lparr>sl_override_parameters := g_hash_table_insert (sl_override_parameters l) (if n = ''user'' then ''unix-user'' else n) v\<rparr>)"
    using 2(2) overrides_insert [OF 2(2) u, of v] overrides_insert [OF 2(2), of n v] by simp
  from 2(1) [OF this] show ?case by simp
qed simp

lemma overrides_set [simp]: "overrides_ok (ck_session_leader_set_override_parameters ps l)"
proof -
  have "overrides_ok (l\<lparr>sl_override_parameters := []\<rparr>)" by (simp add: overrides_ok_def)
  then show ?thesis
    by (simp add: ck_session_leader_set_override_parameters_def Let_def save_parameters_ok split: option.splits)
qed

section \<open>Properties\<close>


definition sample_output :: string where
  "sample_output = ''unix-user = 1000'' @ [CHR 0x0A] @ ''vtnr = 7'' @ [CHR 0x0A]"

definition sample_leader :: CkSessionLeader where
  "sample_leader = ck_session_leader_set_override_parameters
     (Some [(''id'', V_string ''Session1''), (''user'', V_int 0), (''is-local'', V_bool True)]) ck_session_leader_new"


end
