(* ===== verification/CK_Manager.thy ===== *)
theory CK_Manager
  imports CK_Seat CK_SessionLeader CK_LogEvent CK_InhibitManager "HOL-Library.Word"
begin

text \<open>
  The manager, first part: its state, serial numbers, the event log, the database file and
  the handlers of the seats' signals (src/src/ck-manager.c).

  The record \<open>manager_world\<close> extends the heap of the seats by the manager's private data and
  by what the daemon did: queued log events, the database, bus traffic. \<open>manager_env\<close> is what
  the rest of the system answers while one event is handled. A fault is recorded when the
  code reads or writes memory it must not.
\<close>

section \<open>Types\<close>

datatype CkManagerError =
    CK_MANAGER_ERROR_FAILED
  | CK_MANAGER_ERROR_GENERAL
  | CK_MANAGER_ERROR_INSUFFICIENT_PERMISSION
  | CK_MANAGER_ERROR_AUTHORIZATION_REQUIRED
  | CK_MANAGER_ERROR_NOT_SUPPORTED
  | CK_MANAGER_ERROR_BUSY
  | CK_MANAGER_ERROR_INHIBITED
  | CK_MANAGER_ERROR_INVALID_INPUT
  | CK_MANAGER_ERROR_OOM
  | CK_MANAGER_ERROR_NO_SEATS
  | CK_MANAGER_ERROR_NO_SESSIONS
  | CK_MANAGER_ERROR_NOTHING_INHIBITED

datatype SIGNALS = PREPARE_FOR_SHUTDOWN | PREPARE_FOR_SLEEP

record SystemActionData =
  sa_context :: nat
  sa_command :: string
  sa_event_type :: log_data
  sa_description :: string
  sa_signal :: SIGNALS

datatype manager_out =
    Prepare_For_Shutdown bool
  | Prepare_For_Sleep bool
  | Seat_Added cstring
  | Seat_Removed cstring
  | Session_New cstring cstring
  | Session_Removed cstring cstring
  | System_Idle_Hint_Changed bool
  | Command_Run string
  | Programs_Run "(string \<times> string \<times> string list) list"
  | Runtime_Dir_Removed nat
  | Process_Group_Created nat cstring nat
  | Answer nat "CkManagerError reply"
  | Answer_Paths nat "cstring list"
  | Answer_Fd nat int
  | Answer_Inhibitors nat "(cstring \<times> cstring \<times> cstring \<times> cstring \<times> nat \<times> nat) list"
  | Answer_Sessions nat "(string \<times> nat \<times> string \<times> cstring \<times> cstring) list"
  | Answer_Seats nat "(cstring \<times> cstring) list"

datatype fault = Dump_Reads_Variant_As_Array | Environment_Overrun

text \<open>A question to the authority, and what runs when it is answered.\<close>

datatype auth_callback =
    Do_Restart | Do_Stop | Do_Suspend | Do_Hibernate | Do_Hybrid_Sleep
  | Ready_Cb
  | Logind_Ready_Cb

record auth_request =
  ar_context :: nat
  ar_action :: string
  ar_interactive :: bool
  ar_callback :: auth_callback

text \<open>The job that collects the parameters of a leader, with the invocation it will answer.\<close>

record collect_job =
  cj_id :: nat
  cj_leader :: nat
  cj_context :: nat

record manager_world = seat_world +
  mg_seats :: "(string, nat) ghash"
  mg_sessions :: "(string, nat) ghash"
  mg_leaders :: "(string, nat) ghash"
  leader_heap :: "nat \<Rightarrow> CkSessionLeader"
  next_address :: nat
  session_serial :: "32 word"
  seat_serial :: "32 word"
  system_idle_hint :: bool
  system_idle_since_hint :: timeval
  system_action_idle_id :: nat
  system_action_data :: "SystemActionData option"
  action_timer :: "(SystemActionData \<times> nat) option"
  auth_pending :: "auth_request list"
  inhibit_manager :: CkInhibitManager
  seat_handlers :: "nat list"
  idle_handlers :: "nat list"
  jobs :: "collect_job list"
  event_log :: "CkLogEvent list"
  database :: cstring
  database_tmp :: cstring
  mg_out :: "manager_out list"
  faults :: "fault list"

text \<open>
  What the file system does while the database is written: bytes written before a failure. The
  last two fields are the address of the variable \<open>uid\<close> in the call for the n-th session, and what
  is stored at such an address after the calls have returned.
\<close>

record dump_env =
  dm_mkdir :: bool
  dm_open :: bool
  dm_text :: "key_file \<Rightarrow> cstring"
  dm_write :: "nat option"
  dm_close :: bool
  dm_rename :: bool
  dm_unlink :: bool
  dm_uid_address :: "nat \<Rightarrow> nat"
  dm_uid_stale :: "nat \<Rightarrow> nat"

record manager_env =
  mv_seat :: seat_env
  mv_dump :: dump_env
  mv_now :: timeval
  mv_host_name :: string
  mv_random :: "nat \<Rightarrow> nat \<times> timeval"
  mv_caller_uid :: "string \<Rightarrow> nat option"
  mv_caller_pid :: "string \<Rightarrow> nat option"
  mv_user_name :: "nat \<Rightarrow> cstring"
  mv_transform :: "gtype \<Rightarrow> gvariant \<Rightarrow> gvariant option"
  mv_runtime_dir :: "nat \<Rightarrow> cstring"
  mv_process_ssid :: "nat \<Rightarrow> cstring"
  mv_process_cookie :: "nat \<Rightarrow> cstring"
  mv_process_stat :: "nat \<Rightarrow> bool"
  mv_job :: "nat option"
  mv_spawn_ok :: bool
  mv_timeout_id :: nat
  mv_can_suspend :: bool
  mv_can_hibernate :: bool
  mv_can_hybrid_sleep :: bool
  mv_sysconfdir :: string
  mv_libdir :: string

definition out :: "manager_out \<Rightarrow> manager_world \<Rightarrow> manager_world" where
  "out x w = w\<lparr>mg_out := mg_out w @ [x]\<rparr>"

definition throw_error :: "nat \<Rightarrow> CkManagerError \<Rightarrow> manager_world \<Rightarrow> manager_world" where
  "throw_error context e w = out (Answer context (Throw e)) w"

section \<open>Serial numbers and names\<close>

text \<open>\<open>guint32\<close> counters that wrap when they become negative as \<open>gint32\<close>.\<close>

definition next_session_serial :: "32 word \<Rightarrow> 32 word" where
  "next_session_serial serial = (if sint (serial + 1) < 0 then 1 else serial + 1)"

definition next_seat_serial :: "32 word \<Rightarrow> 32 word" where
  "next_seat_serial serial = (if sint (serial + 1) < 0 then 0 else serial + 1)"

definition get_next_session_serial :: "manager_world \<Rightarrow> 32 word \<times> manager_world" where
  "get_next_session_serial w = (session_serial w, w\<lparr>session_serial := next_session_serial (session_serial w)\<rparr>)"

definition get_next_seat_serial :: "manager_world \<Rightarrow> 32 word \<times> manager_world" where
  "get_next_seat_serial w = (seat_serial w, w\<lparr>seat_serial := next_seat_serial (seat_serial w)\<rparr>)"

text \<open>The loops that look for a free name; \<open>None\<close> is a loop that does not end.\<close>

partial_function (option) generate_session_id :: "manager_world \<Rightarrow> (string \<times> manager_world) option" where
  "generate_session_id w =
     (let (serial, w) = get_next_session_serial w; i = ''Session'' @ dec (unat serial)
      in if g_hash_table_lookup (mg_sessions w) i \<noteq> None then generate_session_id w else Some (i, w))"

partial_function (option) generate_seat_id :: "manager_world \<Rightarrow> (string \<times> manager_world) option" where
  "generate_seat_id w =
     (let (serial, w) = get_next_seat_serial w; i = ''seat'' @ dec (unat serial)
      in if g_hash_table_lookup (mg_seats w) i \<noteq> None then generate_seat_id w else Some (i, w))"

text \<open>The cookie: the host name, the time and a random number, drawn until it is new.\<close>

definition cookie_text :: "string \<Rightarrow> nat \<times> timeval \<Rightarrow> string" where
  "cookie_text host r =
     host @ ''-'' @ dec (fst (snd r)) @ ''.'' @ dec (snd (snd r)) @ ''-'' @ dec (fst r)"

partial_function (option) generate_session_cookie :: "manager_env \<Rightarrow> nat \<Rightarrow> manager_world \<Rightarrow> string option" where
  "generate_session_cookie E k w =
     (let cookie = cookie_text (mv_host_name E) (mv_random E k)
      in if g_hash_table_lookup (mg_leaders w) cookie \<noteq> None then generate_session_cookie E (Suc k) w else Some cookie)"

definition get_object_id_basename :: "cstring \<Rightarrow> cstring" where
  "get_object_id_basename i =
     (case i of
        None \<Rightarrow> None
      | Some s \<Rightarrow>
          if take (length (CK_DBUS_PATH @ ''/'')) s = CK_DBUS_PATH @ ''/''
          then Some (drop (length (CK_DBUS_PATH @ ''/'')) s) else Some s)"

section \<open>The event log\<close>

definition log_event :: "manager_env \<Rightarrow> log_data \<Rightarrow> manager_world \<Rightarrow> manager_world" where
  "log_event E d w = w\<lparr>event_log := event_log w @ [\<lparr>le_timestamp = mv_now E, le_event = d\<rparr>]\<rparr>"

definition log_seat_added_event :: "manager_env \<Rightarrow> nat \<Rightarrow> manager_world \<Rightarrow> manager_world" where
  "log_seat_added_event E st w =
     log_event E (Ev_Seat_Added (ck_seat_get_id (seats w st)) (int (kind_int (ck_seat_get_kind (seats w st))))) w"

definition log_seat_removed_event :: "manager_env \<Rightarrow> nat \<Rightarrow> manager_world \<Rightarrow> manager_world" where
  "log_seat_removed_event E st w =
     log_event E (Ev_Seat_Removed (ck_seat_get_id (seats w st)) (int (kind_int (ck_seat_get_kind (seats w st))))) w"

definition log_system_action_event :: "manager_env \<Rightarrow> log_data \<Rightarrow> manager_world \<Rightarrow> manager_world" where
  "log_system_action_event E d w = log_event E d w"

definition seat_session_event :: "manager_env \<Rightarrow> nat \<Rightarrow> cstring \<Rightarrow> manager_world \<Rightarrow> CkLogSeatSessionEvent" where
  "seat_session_event E st ssid w =
     (let e = \<lparr>le_seat_id = ck_seat_get_id (seats w st), le_session_id = ssid, le_session_type = None,
               le_session_x11_display = None, le_session_x11_display_device = None, le_session_display_device = None,
               le_session_remote_host_name = None, le_session_is_local = False, le_session_unix_user = 0,
               le_session_creation_time = None\<rparr>
      in case g_hash_table_lookup (mg_sessions w) (NONULL_STRING ssid) of
           None \<Rightarrow> e
         | Some a \<Rightarrow>
             let s = sess w a in
             e\<lparr>le_session_type := s_session_type s, le_session_x11_display := s_x11_display s,
               le_session_x11_display_device := s_x11_display_device s, le_session_display_device := s_display_device s,
               le_session_remote_host_name := s_remote_host_name s, le_session_is_local := s_is_local s,
               le_session_unix_user := s_unix_user s,
               le_session_creation_time := Some (ck_session_get_creation_time (sv_iso8601 (mv_seat E)) s)\<rparr>)"

definition log_seat_session_added_event :: "manager_env \<Rightarrow> nat \<Rightarrow> cstring \<Rightarrow> manager_world \<Rightarrow> manager_world" where
  "log_seat_session_added_event E st ssid w = log_event E (Ev_Seat_Session_Added (seat_session_event E st ssid w)) w"

definition log_seat_session_removed_event :: "manager_env \<Rightarrow> nat \<Rightarrow> cstring \<Rightarrow> manager_world \<Rightarrow> manager_world" where
  "log_seat_session_removed_event E st ssid w = log_event E (Ev_Seat_Session_Removed (seat_session_event E st ssid w)) w"

definition log_seat_active_session_changed_event :: "manager_env \<Rightarrow> nat \<Rightarrow> cstring \<Rightarrow> manager_world \<Rightarrow> manager_world" where
  "log_seat_active_session_changed_event E st ssid w =
     log_event E (Ev_Seat_Active_Session_Changed (ck_seat_get_id (seats w st)) ssid) w"

definition log_seat_device_added_event :: "manager_env \<Rightarrow> nat \<Rightarrow> string \<times> string \<Rightarrow> manager_world \<Rightarrow> manager_world" where
  "log_seat_device_added_event E st d w =
     log_event E (Ev_Seat_Device_Added (ck_seat_get_id (seats w st)) (Some (fst d)) (Some (snd d))) w"

definition log_seat_device_removed_event :: "manager_env \<Rightarrow> nat \<Rightarrow> string \<times> string \<Rightarrow> manager_world \<Rightarrow> manager_world" where
  "log_seat_device_removed_event E st d w =
     log_event E (Ev_Seat_Device_Removed (ck_seat_get_id (seats w st)) (Some (fst d)) (Some (snd d))) w"

section \<open>The database file\<close>

definition dump_manager_seat_iter :: "manager_world \<Rightarrow> string \<times> nat \<Rightarrow> string \<Rightarrow> string" where
  "dump_manager_seat_iter w kv str =
     (if str = [] then [] else str @ '';'') @ NONULL_STRING (ck_seat_get_id (seats w (snd kv)))"

fun dump_seats :: "manager_world \<Rightarrow> (string \<times> nat) list \<Rightarrow> key_file \<Rightarrow> key_file option" where
  "dump_seats w [] kf = Some kf"
| "dump_seats w (kv # t) kf =
     (case ck_seat_dump (snd kv) w kf of None \<Rightarrow> None | Some kf \<Rightarrow> dump_seats w t kf)"

definition dump_state_session_iter :: "manager_env \<Rightarrow> manager_world \<Rightarrow> string \<times> nat \<Rightarrow> key_file \<Rightarrow> key_file" where
  "dump_state_session_iter E w kv kf = ck_session_dump (sv_iso8601 (mv_seat E)) (sess w (snd kv)) kf"

definition dump_state_leader_iter :: "manager_world \<Rightarrow> string \<times> nat \<Rightarrow> key_file \<Rightarrow> key_file" where
  "dump_state_leader_iter w kv kf = ck_session_leader_dump (leader_heap w (snd kv)) kf"

definition get_user_name :: "manager_env \<Rightarrow> nat \<Rightarrow> cstring" where
  "get_user_name E u = mv_user_name E u"

text \<open>Display managers are not users; the name of another user may be unknown.\<close>

definition session_is_real_user :: "manager_env \<Rightarrow> CkSession \<Rightarrow> cstring option" where
  "session_is_real_user E s =
     (let username = get_user_name E (s_unix_user s) in
      if username \<in> Some ` {''gdm'', ''_gdm'', ''sddm'', ''_sddm'', ''kdm'', ''_kdm''} then None
      else Some username)"

text \<open>
  The section of the users. The table is keyed by the address of the local variable \<open>uid\<close> of
  \<open>collect_user_data_dump\<close>, which is read after the function returned.
\<close>

record UserDataDump =
  ud_sessions :: string
  ud_is_local :: bool

definition collect_user_data_dump ::
  "manager_env \<Rightarrow> manager_world \<Rightarrow> nat \<times> string \<times> nat \<Rightarrow> (nat, UserDataDump) ghash \<Rightarrow> (nat, UserDataDump) ghash" where
  "collect_user_data_dump E w call hash =
     (case call of (i, ssid, a) \<Rightarrow>
        (case session_is_real_user E (sess w a) of
           Some (Some username) \<Rightarrow>
             let uid = dm_uid_address (mv_dump E) i;
                 data = (case g_hash_table_lookup hash uid of None \<Rightarrow> \<lparr>ud_sessions = [], ud_is_local = False\<rparr> | Some data \<Rightarrow> data);
                 data = data\<lparr>ud_sessions := (if ud_sessions data = [] then [] else ud_sessions data @ '';'') @ ssid\<rparr>;
                 data = (if s_is_local (sess w a) then data\<lparr>ud_is_local := True\<rparr> else data)
             in g_hash_table_insert hash uid data
         | _ \<Rightarrow> hash))"

definition dump_user_iter :: "manager_env \<Rightarrow> nat \<times> UserDataDump \<Rightarrow> key_file \<Rightarrow> key_file" where
  "dump_user_iter E entry kf =
     (let user_group = ''User '' @ dec (dm_uid_stale (mv_dump E) (fst entry));
          kf = kf_set user_group ''is_local'' (bool_string (ud_is_local (snd entry))) kf
      in kf_set user_group ''sessions'' (ud_sessions (snd entry)) kf)"

definition dump_user_section :: "manager_env \<Rightarrow> manager_world \<Rightarrow> key_file \<Rightarrow> key_file" where
  "dump_user_section E w kf =
     fold (dump_user_iter E) (fold (collect_user_data_dump E w) (enumerate 0 (mg_sessions w)) []) kf"

text \<open>The key file; \<open>None\<close> is the fault of dumping a seat.\<close>

definition manager_key_file :: "manager_env \<Rightarrow> manager_world \<Rightarrow> key_file option" where
  "manager_key_file E w =
     (let kf = kf_set ''Seats'' ''seats'' (fold (dump_manager_seat_iter w) (mg_seats w) []) []
      in map_option (\<lambda>kf.
           let kf = fold (dump_state_session_iter E w) (mg_sessions w) kf;
               kf = fold (dump_state_leader_iter w) (mg_leaders w) kf
           in dump_user_section E w kf) (dump_seats w (mg_seats w) kf))"

text \<open>Writing at the start of a file that is not truncated.\<close>

definition overlay :: "string \<Rightarrow> string \<Rightarrow> string" where
  "overlay new old = new @ drop (length new) old"

text \<open>The result of writing and the text of the temporary file; \<open>None\<close> is a fault.\<close>

definition do_dump :: "manager_env \<Rightarrow> string \<Rightarrow> manager_world \<Rightarrow> (bool \<times> string) option" where
  "do_dump E tmp w =
     map_option (\<lambda>kf.
       (case dm_text (mv_dump E) kf of
          None \<Rightarrow> (True, tmp)
        | Some str \<Rightarrow>
            (case dm_write (mv_dump E) of
               None \<Rightarrow> (True, overlay str tmp)
             | Some k \<Rightarrow> if k < length str then (False, overlay (take k str) tmp) else (True, overlay str tmp))))
       (manager_key_file E w)"

definition unlink_database :: "manager_env \<Rightarrow> manager_world \<Rightarrow> manager_world" where
  "unlink_database E w = (if dm_unlink (mv_dump E) then w\<lparr>database := None\<rparr> else w)"

definition ck_manager_dump :: "manager_env \<Rightarrow> manager_world \<Rightarrow> manager_world" where
  "ck_manager_dump E w =
     (if \<not> dm_mkdir (mv_dump E) then w
      else if \<not> dm_open (mv_dump E) then unlink_database E w
      else case do_dump E (NONULL_STRING (database_tmp w)) w of
        None \<Rightarrow> w\<lparr>faults := Dump_Reads_Variant_As_Array # faults w\<rparr>
      | Some (ok, text) \<Rightarrow>
          let w = w\<lparr>database_tmp := Some text\<rparr> in
          if ok \<and> dm_close (mv_dump E) \<and> dm_rename (mv_dump E)
          then w\<lparr>database := Some text, database_tmp := None\<rparr>
          else unlink_database E w)"

section \<open>Seats\<close>

definition run_seat_programs :: "manager_env \<Rightarrow> nat \<Rightarrow> nat option \<Rightarrow> nat option \<Rightarrow> string \<Rightarrow> manager_world \<Rightarrow> manager_world" where
  "run_seat_programs E st old_session new_session action w =
     (case ck_seat_run_programs (mv_sysconfdir E) (mv_libdir E) st old_session new_session action w of
        None \<Rightarrow> w\<lparr>faults := Environment_Overrun # faults w\<rparr>
      | Some ps \<Rightarrow> out (Programs_Run ps) w)"

definition run_session_programs :: "manager_env \<Rightarrow> nat \<Rightarrow> string \<Rightarrow> manager_world \<Rightarrow> manager_world" where
  "run_session_programs E a action w =
     (case ck_session_run_programs (mv_sysconfdir E) (mv_libdir E) (sess w a) action of
        None \<Rightarrow> w\<lparr>faults := Environment_Overrun # faults w\<rparr>
      | Some ps \<Rightarrow> out (Programs_Run ps) w)"

definition on_seat_active_session_changed_full ::
  "manager_env \<Rightarrow> nat \<Rightarrow> nat option \<Rightarrow> nat option \<Rightarrow> manager_world \<Rightarrow> manager_world" where
  "on_seat_active_session_changed_full E st old_session session w =
     (let ssid = (case session of None \<Rightarrow> None | Some a \<Rightarrow> ck_session_get_id (sess w a));
          w = ck_manager_dump E w;
          w = run_seat_programs E st old_session session ''seat_active_session_changed'' w
      in log_seat_active_session_changed_event E st ssid w)"

definition on_seat_session_added_full :: "manager_env \<Rightarrow> nat \<Rightarrow> nat \<Rightarrow> manager_world \<Rightarrow> manager_world" where
  "on_seat_session_added_full E st a w =
     (let ssid = ck_session_get_id (sess w a);
          w = ck_manager_dump E w;
          w = run_session_programs E a ''session_added'' w
      in log_seat_session_added_event E st ssid w)"

definition on_seat_session_removed_full :: "manager_env \<Rightarrow> nat \<Rightarrow> nat \<Rightarrow> manager_world \<Rightarrow> manager_world" where
  "on_seat_session_removed_full E st a w =
     (let ssid = ck_session_get_id (sess w a);
          w = ck_manager_dump E w;
          w = run_session_programs E a ''session_removed'' w
      in log_seat_session_removed_event E st ssid w)"

definition on_seat_device_added :: "manager_env \<Rightarrow> nat \<Rightarrow> string \<times> string \<Rightarrow> manager_world \<Rightarrow> manager_world" where
  "on_seat_device_added E st d w = log_seat_device_added_event E st d (ck_manager_dump E w)"

definition on_seat_device_removed :: "manager_env \<Rightarrow> nat \<Rightarrow> string \<times> string \<Rightarrow> manager_world \<Rightarrow> manager_world" where
  "on_seat_device_removed E st d w = log_seat_device_removed_event E st d (ck_manager_dump E w)"

definition connect_seat_signals :: "nat \<Rightarrow> manager_world \<Rightarrow> manager_world" where
  "connect_seat_signals st w = w\<lparr>seat_handlers := st # seat_handlers w\<rparr>"

definition disconnect_seat_signals :: "nat \<Rightarrow> manager_world \<Rightarrow> manager_world" where
  "disconnect_seat_signals st w = w\<lparr>seat_handlers := removeAll st (seat_handlers w)\<rparr>"

text \<open>The handlers run for a seat they are connected to.\<close>

fun on_seat_signal :: "manager_env \<Rightarrow> seat_signal \<Rightarrow> manager_world \<Rightarrow> manager_world" where
  "on_seat_signal E (Active_Session_Changed_Full st old_session session) w =
     (if st \<in> set (seat_handlers w) then on_seat_active_session_changed_full E st old_session session w else w)"
| "on_seat_signal E (Session_Added_Full st a) w =
     (if st \<in> set (seat_handlers w) then on_seat_session_added_full E st a w else w)"
| "on_seat_signal E (Session_Removed_Full st a) w =
     (if st \<in> set (seat_handlers w) then on_seat_session_removed_full E st a w else w)"

text \<open>A seat at a new address; the second component is NULL when it cannot be exported.\<close>

definition announce_seat :: "manager_env \<Rightarrow> string \<Rightarrow> nat \<Rightarrow> manager_world \<Rightarrow> nat option \<times> manager_world" where
  "announce_seat E sid st w =
     (let w = connect_seat_signals st w in
      case ck_seat_register (mv_seat E) (seats w st) of
        None \<Rightarrow> (None, disconnect_seat_signals st w)
      | Some s \<Rightarrow>
          let w = upd_seat st (\<lambda>_. s) w;
              w = w\<lparr>mg_seats := g_hash_table_insert (mg_seats w) sid st\<rparr>;
              w = ck_manager_dump E w;
              w = run_seat_programs E st None None ''seat_added'' w;
              w = out (Seat_Added (ck_seat_get_path (seats w st))) w
          in (Some st, log_seat_added_event E st w))"

definition add_new_seat :: "manager_env \<Rightarrow> CkSeatKind \<Rightarrow> manager_world \<Rightarrow> (nat option \<times> manager_world) option" where
  "add_new_seat E kind w =
     (case generate_seat_id w of
        None \<Rightarrow> None
      | Some (sid, w) \<Rightarrow>
          let st = next_address w;
              w = w\<lparr>next_address := Suc st\<rparr>;
              w = upd_seat st (\<lambda>_. ck_seat_new sid kind True) w
          in Some (announce_seat E sid st w))"

definition add_seat_for_file :: "manager_env \<Rightarrow> seat_file option \<Rightarrow> manager_world \<Rightarrow> manager_world option" where
  "add_seat_for_file E file w =
     (case generate_seat_id w of
        None \<Rightarrow> None
      | Some (sid, w) \<Rightarrow>
          let st = next_address w in
          (case ck_seat_new_from_file st sid file True (w\<lparr>next_address := Suc st\<rparr>) of
             None \<Rightarrow> Some w
           | Some w \<Rightarrow> Some (snd (announce_seat E sid st w))))"

text \<open>The entries of the seat directory, in the order they are read; \<open>None\<close> when it cannot be opened.\<close>

fun load_seat_files :: "manager_env \<Rightarrow> (string \<times> seat_file option) list \<Rightarrow> manager_world \<Rightarrow> manager_world option" where
  "load_seat_files E [] w = Some w"
| "load_seat_files E ((name, file) # fs) w =
     (if drop (length name - 5) name = ''.seat''
      then (case add_seat_for_file E file w of None \<Rightarrow> None | Some w \<Rightarrow> load_seat_files E fs w)
      else load_seat_files E fs w)"

definition load_seats_from_dir ::
  "manager_env \<Rightarrow> (string \<times> seat_file option) list option \<Rightarrow> manager_world \<Rightarrow> (bool \<times> manager_world) option" where
  "load_seats_from_dir E dir w =
     (case dir of
        None \<Rightarrow> Some (False, w)
      | Some fs \<Rightarrow> map_option (Pair True) (load_seat_files E fs w))"

definition create_seats ::
  "manager_env \<Rightarrow> (string \<times> seat_file option) list option \<Rightarrow> manager_world \<Rightarrow> manager_world option" where
  "create_seats E dir w = map_option snd (load_seats_from_dir E dir w)"

definition remove_seat :: "manager_env \<Rightarrow> nat \<Rightarrow> manager_world \<Rightarrow> manager_world" where
  "remove_seat E st w =
     (let sid = NONULL_STRING (ck_seat_get_id (seats w st)) in
      case g_hash_table_lookup (mg_seats w) sid of
        None \<Rightarrow> w
      | Some orig \<Rightarrow>
          let w = w\<lparr>mg_seats := g_hash_table_remove (mg_seats w) sid\<rparr>;
              w = disconnect_seat_signals orig w;
              w = ck_manager_dump E w;
              w = run_seat_programs E st None None ''seat_removed'' w;
              w = out (Seat_Removed (ck_seat_get_path (seats w orig))) w
          in log_seat_removed_event E orig w)"

definition find_seat_for_session :: "nat \<Rightarrow> manager_world \<Rightarrow> nat option" where
  "find_seat_for_session a w =
     (let s = sess w a;
          is_static_x11 = (IS_STR_SET (s_x11_display s) \<and> IS_STR_SET (s_x11_display_device s) \<and>
            \<not> IS_STR_SET (s_remote_host_name s) \<and> ck_session_is_local s);
          is_static_text = (\<not> is_static_x11 \<and> \<not> IS_STR_SET (s_x11_display s) \<and> \<not> IS_STR_SET (s_x11_display_device s) \<and>
            IS_STR_SET (s_display_device s) \<and> \<not> IS_STR_SET (s_remote_host_name s) \<and> ck_session_is_local s)
      in if (is_static_x11 \<or> is_static_text) \<and> s_vtnr s > 0
         then g_hash_table_lookup (mg_seats w) ''seat0'' else None)"

section \<open>Frames\<close>

text \<open>The world without its traces: the log, the database, the bus traffic and the faults.\<close>

definition core :: "manager_world \<Rightarrow> manager_world" where
  "core w = w\<lparr>seat_log := [], event_log := [], database := None, database_tmp := None, mg_out := [], faults := []\<rparr>"

lemma coreD:
  assumes "core v = core w"
  shows "sess v = sess w"
    "seats v = seats w"
    "vtm v = vtm w"
    "pending v = pending w"
    "activate_handlers v = activate_handlers w"
    "mg_seats v = mg_seats w"
    "mg_sessions v = mg_sessions w"
    "mg_leaders v = mg_leaders w"
    "leader_heap v = leader_heap w"
    "next_address v = next_address w"
    "session_serial v = session_serial w"
    "seat_serial v = seat_serial w"
    "system_idle_hint v = system_idle_hint w"
    "system_idle_since_hint v = system_idle_since_hint w"
    "system_action_idle_id v = system_action_idle_id w"
    "system_action_data v = system_action_data w"
    "action_timer v = action_timer w"
    "auth_pending v = auth_pending w"
    "inhibit_manager v = inhibit_manager w"
    "seat_handlers v = seat_handlers w"
    "idle_handlers v = idle_handlers w"
    "jobs v = jobs w"
  using assms by (cases v; cases w; simp add: core_def)+

lemma core_out [simp]: "core (out x w) = core w"
  by (simp add: core_def out_def)

lemma core_log [simp]: "core (log_event E d w) = core w"
  by (simp add: core_def log_event_def)

lemma core_send [simp]: "core (send x w) = core w"
  by (simp add: core_def send_def)

lemma core_throw [simp]: "core (throw_error c e w) = core w"
  by (simp add: throw_error_def)

lemma core_dump [simp]: "core (ck_manager_dump E w) = core w"
  by (auto simp: core_def ck_manager_dump_def unlink_database_def Let_def split: option.splits prod.splits)

lemma core_programs [simp]:
  "core (run_seat_programs E st a b act w) = core w" "core (run_session_programs E c act w) = core w"
  by (auto simp: run_seat_programs_def run_session_programs_def out_def core_def split: option.splits)

lemmas log_defs = log_seat_added_event_def log_seat_removed_event_def log_system_action_event_def
  log_seat_session_added_event_def log_seat_session_removed_event_def log_seat_active_session_changed_event_def
  log_seat_device_added_event_def log_seat_device_removed_event_def

lemma core_on_seat_signal [simp]: "core (on_seat_signal E g w) = core w"
  by (cases g) (auto simp: on_seat_active_session_changed_full_def on_seat_session_added_full_def
      on_seat_session_removed_full_def log_defs Let_def)

lemmas core_fields [simp] = coreD [OF core_out] coreD [OF core_log] coreD [OF core_send] coreD [OF core_throw]
  coreD [OF core_dump] coreD [OF core_programs(1)] coreD [OF core_programs(2)] coreD [OF core_on_seat_signal]

text \<open>The manager's books: its own fields without the traces.\<close>

definition books :: "manager_world \<Rightarrow> unit manager_world_ext" where
  "books w = seat_world.more (core w)"

lemma booksD:
  assumes "books v = books w"
  shows "mg_seats v = mg_seats w"
    "mg_sessions v = mg_sessions w"
    "mg_leaders v = mg_leaders w"
    "leader_heap v = leader_heap w"
    "next_address v = next_address w"
    "session_serial v = session_serial w"
    "seat_serial v = seat_serial w"
    "system_idle_hint v = system_idle_hint w"
    "system_idle_since_hint v = system_idle_since_hint w"
    "system_action_idle_id v = system_action_idle_id w"
    "system_action_data v = system_action_data w"
    "action_timer v = action_timer w"
    "auth_pending v = auth_pending w"
    "inhibit_manager v = inhibit_manager w"
    "seat_handlers v = seat_handlers w"
    "idle_handlers v = idle_handlers w"
    "jobs v = jobs w"
  using assms by (cases v; cases w; simp add: books_def core_def)+

lemma books_core: "core v = core w \<Longrightarrow> books v = books w"
  by (simp add: books_def)

lemma books_update [simp]:
  "books (upd_session a f w) = books w" "books (upd_seat st g w) = books w" "books (send x w) = books w"
  "books (w\<lparr>activate_handlers := l\<rparr>) = books w" "books (w\<lparr>pending := p\<rparr>) = books w"
  by (cases w; simp add: books_def core_def upd_session_def upd_seat_def send_def)+

lemmas books_trace [simp] = books_core [OF core_out] books_core [OF core_log] books_core [OF core_throw]
  books_core [OF core_dump] books_core [OF core_programs(1)] books_core [OF core_programs(2)]
  books_core [OF core_on_seat_signal]

interpretation mgr: seat_frame "on_seat_signal E" books for E
  by unfold_locales (simp_all only: core_fields books_update books_trace)

lemmas mgr_books [simp] = mgr.F_set_active mgr.F_change_active mgr.F_update_active_vt mgr.F_maybe_update mgr.F_add_session
  mgr.F_remove_session mgr.F_activate

section \<open>Fresh names\<close>

text \<open>
  A counter that runs through a cycle of distinct names finds a free one if fewer names
  are taken than the cycle is long.
\<close>

locale serial_space =
  fixes nxt :: "'s \<Rightarrow> 's" and name :: "'s \<Rightarrow> string" and valid :: "'s \<Rightarrow> bool" and period :: nat
  assumes valid_nxt: "valid s \<Longrightarrow> valid (nxt s)"
    and distinct_names: "valid s \<Longrightarrow> i < period \<Longrightarrow> j < period \<Longrightarrow> name ((nxt ^^ i) s) = name ((nxt ^^ j) s) \<Longrightarrow> i = j"
begin

lemma some_free:
  assumes "valid s" "finite T" "card T < period"
  obtains k where "k < period" "name ((nxt ^^ k) s) \<notin> T" "\<And>j. j < k \<Longrightarrow> name ((nxt ^^ j) s) \<in> T"
proof -
  have inj: "inj_on (\<lambda>k. name ((nxt ^^ k) s)) {..<period}"
    using distinct_names [OF assms(1)] by (auto intro!: inj_onI)
  have "\<exists>k < period. name ((nxt ^^ k) s) \<notin> T"
  proof (rule ccontr)
    assume "\<not> (\<exists>k < period. name ((nxt ^^ k) s) \<notin> T)"
    then have "(\<lambda>k. name ((nxt ^^ k) s)) ` {..<period} \<subseteq> T" by auto
    from card_mono [OF assms(2) this] show False using card_image [OF inj] assms(3) by simp
  qed
  then obtain k where k: "k < period" "name ((nxt ^^ k) s) \<notin> T" by blast
  define m where "m = (LEAST j. name ((nxt ^^ j) s) \<notin> T)"
  have "name ((nxt ^^ m) s) \<notin> T" unfolding m_def by (rule LeastI [where P = "\<lambda>j. name ((nxt ^^ j) s) \<notin> T"], rule k(2))
  moreover have "m \<le> k" unfolding m_def by (rule Least_le) (rule k(2))
  moreover have "name ((nxt ^^ j) s) \<in> T" if "j < m" for j using not_less_Least [of j] that unfolding m_def by blast
  ultimately show ?thesis using k(1) that [of m] by simp
qed

text \<open>A loop that tries one name after the other therefore ends, with a free name.\<close>

lemma loop_finds_free:
  assumes "valid s" "finite T" "card T < period"
    and step: "\<And>s. loop s = (if name s \<in> T then loop (nxt s) else res s)"
  shows "\<exists>t. loop s = res t \<and> valid t \<and> name t \<notin> T"
proof -
  obtain k where k: "k < period" "name ((nxt ^^ k) s) \<notin> T" "\<And>j. j < k \<Longrightarrow> name ((nxt ^^ j) s) \<in> T"
    using some_free [OF assms(1-3)] by metis
  have "loop s = loop ((nxt ^^ j) s)" if "j \<le> k" for j
    using that by (induction j) (simp_all add: step [of "(nxt ^^ j) s" for j] k(3))
  from this [of k] have "loop s = res ((nxt ^^ k) s)" using step [of "(nxt ^^ k) s"] k(2) by simp
  moreover have "valid ((nxt ^^ j) s)" for j by (induction j) (simp_all add: assms(1) valid_nxt)
  ultimately show ?thesis using k(2) by blast
qed

end

text \<open>The two counters stay below the sign bit and have all their values in one cycle.\<close>

lemma serial_sint:
  fixes s :: "32 word"
  assumes "unat s < 2 ^ 31"
  shows "(sint (s + 1) < 0) = (unat s = 2 ^ 31 - 1)" "unat s \<noteq> 2 ^ 31 - 1 \<Longrightarrow> unat (s + 1) = unat s + 1"
proof -
  have u: "unat (s + 1) = unat s + 1" using assms by (simp add: unat_plus_if_size word_size)
  then show "unat s \<noteq> 2 ^ 31 - 1 \<Longrightarrow> unat (s + 1) = unat s + 1" by simp
  have "(sint (s + 1) < 0) = odd (unat (s + 1) div 2 ^ 31)"
    using bit_last_iff [of "s + 1"] bit_unsigned_iff [where ?'a = nat, of "s + 1" 31] by (simp add: bit_iff_odd)
  also have "\<dots> = (2 ^ 31 \<le> unat (s + 1))"
  proof -
    have "unat (s + 1) \<le> 2 ^ 31" using u assms by simp
    then show ?thesis by (cases "unat (s + 1) = 2 ^ 31") (simp_all add: div_less)
  qed
  finally have "(sint (s + 1) < 0) = (2 ^ 31 \<le> unat (s + 1))" .
  then show "(sint (s + 1) < 0) = (unat s = 2 ^ 31 - 1)" using u assms by auto
qed

lemma next_session_serial_unat:
  assumes "1 \<le> unat s" "unat s < 2 ^ 31"
  shows "unat (next_session_serial s) = (unat s - 1 + 1) mod (2 ^ 31 - 1) + 1"
proof (cases "unat s = 2 ^ 31 - 1")
  case True
  then show ?thesis using serial_sint(1) [OF assms(2)] by (simp add: next_session_serial_def)
next
  case False
  then show ?thesis using serial_sint [OF assms(2)] assms by (simp add: next_session_serial_def)
qed

lemma next_seat_serial_unat:
  assumes "unat s < 2 ^ 31"
  shows "unat (next_seat_serial s) = (unat s + 1) mod 2 ^ 31"
  using serial_sint [OF assms] assms by (cases "unat s = 2 ^ 31 - 1") (simp_all add: next_seat_serial_def)

definition session_serial_ok :: "32 word \<Rightarrow> bool" where
  "session_serial_ok s = (1 \<le> unat s \<and> unat s < 2 ^ 31)"

definition seat_serial_ok :: "32 word \<Rightarrow> bool" where
  "seat_serial_ok s = (unat s < 2 ^ 31)"

lemma session_serial_iter:
  assumes "session_serial_ok s"
  shows "session_serial_ok ((next_session_serial ^^ k) s) \<and>
    unat ((next_session_serial ^^ k) s) = (unat s - 1 + k) mod (2 ^ 31 - 1) + 1"
proof (induction k)
  case 0
  then show ?case using assms by (auto simp: session_serial_ok_def)
next
  case (Suc k)
  have "unat (next_session_serial ((next_session_serial ^^ k) s)) =
      ((unat s - 1 + k) mod (2 ^ 31 - 1) + 1) mod (2 ^ 31 - 1) + 1"
    using next_session_serial_unat [of "(next_session_serial ^^ k) s"] Suc by (simp add: session_serial_ok_def)
  also have "\<dots> = (unat s - 1 + Suc k) mod (2 ^ 31 - 1) + 1" by (simp only: mod_add_left_eq) simp
  finally have u: "unat ((next_session_serial ^^ Suc k) s) = (unat s - 1 + Suc k) mod (2 ^ 31 - 1) + 1" by simp
  moreover have "(unat s - 1 + Suc k) mod (2 ^ 31 - 1) < 2 ^ 31 - 1" by (rule mod_less_divisor) simp
  ultimately show ?case by (auto simp: session_serial_ok_def)
qed

lemma seat_serial_iter:
  assumes "seat_serial_ok s"
  shows "seat_serial_ok ((next_seat_serial ^^ k) s) \<and> unat ((next_seat_serial ^^ k) s) = (unat s + k) mod 2 ^ 31"
proof (induction k)
  case 0
  then show ?case using assms by (auto simp: seat_serial_ok_def)
next
  case (Suc k)
  have "unat (next_seat_serial ((next_seat_serial ^^ k) s)) = ((unat s + k) mod 2 ^ 31 + 1) mod 2 ^ 31"
    using next_seat_serial_unat [of "(next_seat_serial ^^ k) s"] Suc by (simp add: seat_serial_ok_def)
  also have "\<dots> = (unat s + Suc k) mod 2 ^ 31" by (simp only: mod_add_left_eq) simp
  finally have u: "unat ((next_seat_serial ^^ Suc k) s) = (unat s + Suc k) mod 2 ^ 31" by simp
  then show ?case by (auto simp: seat_serial_ok_def)
qed

lemma mod_shift_inj:
  fixes a :: nat
  assumes "(a + i) mod m = (a + j) mod m" "i < m" "j < m"
  shows "i = j"
proof (rule ccontr)
  assume "i \<noteq> j"
  have le: "i' = j'" if "(a + i') mod m = (a + j') mod m" "j' < m" "i' \<le> j'" for i' j'
  proof -
    have "m dvd (a + j') - (a + i')" using that by (metis add_le_mono le_refl mod_eq_dvd_iff_nat)
    then have "m dvd j' - i'" by simp
    with that show ?thesis by (metis diff_is_0_eq diff_le_self dvd_imp_le le_antisym less_le_trans not_le gr0I)
  qed
  with assms \<open>i \<noteq> j\<close> show False by (metis le_cases)
qed

interpretation session_names: serial_space next_session_serial "\<lambda>s. ''Session'' @ dec (unat s)" session_serial_ok "2 ^ 31 - 1"
proof
  show "session_serial_ok (next_session_serial s)" if "session_serial_ok s" for s
    using session_serial_iter [OF that, of 1] by simp
  show "i = j" if "session_serial_ok s" "i < 2 ^ 31 - 1" "j < 2 ^ 31 - 1"
    "''Session'' @ dec (unat ((next_session_serial ^^ i) s)) = ''Session'' @ dec (unat ((next_session_serial ^^ j) s))" for s i j
    using that session_serial_iter [OF that(1)] by (intro mod_shift_inj [of "unat s - 1" i "2 ^ 31 - 1" j]) auto
qed

interpretation seat_names: serial_space next_seat_serial "\<lambda>s. ''seat'' @ dec (unat s)" seat_serial_ok "2 ^ 31"
proof
  show "seat_serial_ok (next_seat_serial s)" if "seat_serial_ok s" for s
    using seat_serial_iter [OF that, of 1] by simp
  show "i = j" if "seat_serial_ok s" "i < 2 ^ 31" "j < 2 ^ 31"
    "''seat'' @ dec (unat ((next_seat_serial ^^ i) s)) = ''seat'' @ dec (unat ((next_seat_serial ^^ j) s))" for s i j
    using that seat_serial_iter [OF that(1)] by (intro mod_shift_inj [of "unat s" i "2 ^ 31" j]) auto
qed

lemma lookup_keys: "{i. g_hash_table_lookup t i \<noteq> None} = fst ` set t"
  by (auto simp: g_hash_table_lookup_def map_of_eq_None_iff)

lemma card_keys: "card {i. g_hash_table_lookup t i \<noteq> None} \<le> length t" "finite {i. g_hash_table_lookup t i \<noteq> None}"
  unfolding lookup_keys using card_length [of "map fst t"] by simp_all

lemma generate_session_id_returns:
  assumes "session_serial_ok (session_serial w)" "length (mg_sessions w) < 2 ^ 31 - 1"
  shows "\<exists>t. generate_session_id w = Some (''Session'' @ dec (unat t), w\<lparr>session_serial := next_session_serial t\<rparr>) \<and>
    session_serial_ok t \<and> g_hash_table_lookup (mg_sessions w) (''Session'' @ dec (unat t)) = None"
proof -
  let ?loop = "\<lambda>s. generate_session_id (w\<lparr>session_serial := s\<rparr>)"
    and ?T = "{i. g_hash_table_lookup (mg_sessions w) i \<noteq> None}"
  have "?loop s = (if ''Session'' @ dec (unat s) \<in> ?T then ?loop (next_session_serial s)
      else Some (''Session'' @ dec (unat s), w\<lparr>session_serial := next_session_serial s\<rparr>))" for s
    by (subst generate_session_id.simps) (simp add: get_next_session_serial_def Let_def)
  note step = this
  have "card ?T < 2 ^ 31 - 1" using card_keys(1) [of "mg_sessions w"] assms(2) by linarith
  from session_names.loop_finds_free [OF assms(1) card_keys(2) this step] show ?thesis by simp
qed

lemma generate_seat_id_returns:
  assumes "seat_serial_ok (seat_serial w)" "length (mg_seats w) < 2 ^ 31"
  shows "\<exists>t. generate_seat_id w = Some (''seat'' @ dec (unat t), w\<lparr>seat_serial := next_seat_serial t\<rparr>) \<and>
    seat_serial_ok t \<and> g_hash_table_lookup (mg_seats w) (''seat'' @ dec (unat t)) = None"
proof -
  let ?loop = "\<lambda>s. generate_seat_id (w\<lparr>seat_serial := s\<rparr>)"
    and ?T = "{i. g_hash_table_lookup (mg_seats w) i \<noteq> None}"
  have "?loop s = (if ''seat'' @ dec (unat s) \<in> ?T then ?loop (next_seat_serial s)
      else Some (''seat'' @ dec (unat s), w\<lparr>seat_serial := next_seat_serial s\<rparr>))" for s
    by (subst generate_seat_id.simps) (simp add: get_next_seat_serial_def Let_def)
  note step = this
  have "card ?T < 2 ^ 31" using card_keys(1) [of "mg_seats w"] assms(2) by linarith
  from seat_names.loop_finds_free [OF assms(1) card_keys(2) this step] show ?thesis by simp
qed

lemma generate_session_cookie_returns:
  assumes "g_hash_table_lookup (mg_leaders w) (cookie_text (mv_host_name E) (mv_random E (k + n))) = None"
  shows "\<exists>c. generate_session_cookie E k w = Some c \<and> g_hash_table_lookup (mg_leaders w) c = None"
  using assms
proof (induction n arbitrary: k)
  case 0
  then show ?case by (subst generate_session_cookie.simps) (simp add: Let_def)
next
  case (Suc n)
  then show ?case by (subst generate_session_cookie.simps) (simp add: Let_def)
qed

section \<open>What a change of the active session logs\<close>

lemma event_log_update [simp]:
  "event_log (upd_session a f w) = event_log w" "event_log (upd_seat st g w) = event_log w"
  "event_log (send x w) = event_log w" "event_log (set_active F a act force w) = event_log w"
  "event_log (ck_manager_dump E w) = event_log w" "event_log (run_seat_programs E st p q action w) = event_log w"
  by (auto simp: upd_session_def upd_seat_def send_def set_active_def ck_manager_dump_def unlink_database_def
      run_seat_programs_def out_def Let_def split: option.splits)

lemma change_active_log:
  "if st_active_session (seats w st) = a \<or> st \<notin> set (seat_handlers w)
   then event_log (change_active_session (mv_seat E) (on_seat_signal E) st a w) = event_log w
   else \<exists>e. event_log (change_active_session (mv_seat E) (on_seat_signal E) st a w) = event_log w @ [e] \<and>
     le_event e = Ev_Seat_Active_Session_Changed (st_id (seats w st)) (case a of None \<Rightarrow> None | Some x \<Rightarrow> s_id (sess w x))"
proof (cases "st_active_session (seats w st) = a")
  case True
  then show ?thesis by (auto simp: change_active_session_def split: option.splits)
next
  case False
  have h: "seat_handlers (upd_seat st g v) = seat_handlers v" "seat_handlers (set_active F b act force v) = seat_handlers v"
    for g F b act force and v :: manager_world
    by (rule booksD [OF books_update(2)], rule booksD [OF mgr.F_set_active])
  show ?thesis using False
    by (auto simp: change_active_session_def on_seat_active_session_changed_full_def log_seat_active_session_changed_event_def
        log_event_def ck_seat_get_id_def ck_session_get_id_def h Let_def split: option.splits)
qed

section \<open>The initial state\<close>

text \<open>Nothing is allocated yet; the contents of unused addresses do not matter.\<close>

definition ck_manager_init :: "session_env \<Rightarrow> CkVtMonitor \<Rightarrow> manager_world" where
  "ck_manager_init E vt =
     \<lparr>sess = (\<lambda>_. ck_session_init E), seats = (\<lambda>_. ck_seat_init), vtm = vt, pending = [],
      activate_handlers = [], seat_log = [], mg_seats = [], mg_sessions = [], mg_leaders = [],
      leader_heap = (\<lambda>_. ck_session_leader_init), next_address = 0, session_serial = 1, seat_serial = 0,
      system_idle_hint = True, system_idle_since_hint = (0, 0), system_action_idle_id = 0,
      system_action_data = None, action_timer = None, auth_pending = [], inhibit_manager = ck_inhibit_manager_init,
      seat_handlers = [], idle_handlers = [], jobs = [], event_log = [], database = None, database_tmp = None,
      mg_out = [], faults = []\<rparr>"

section \<open>Properties\<close>

text \<open>
  C15: Naming a new session or a new seat always ends, as long as not all of the 2^31 serial
  numbers are in use, wrapping round the sign bit included; the name is not in use, nothing
  but the counter changes, and the counter stays in its range.
\<close>

theorem generated_names_are_fresh:
  assumes "session_serial_ok (session_serial w)" and "length (mg_sessions w) < 2 ^ 31 - 1"
    and "seat_serial_ok (seat_serial w)" and "length (mg_seats w) < 2 ^ 31"
  shows "(\<exists>i s. generate_session_id w = Some (i, w\<lparr>session_serial := s\<rparr>) \<and>
      g_hash_table_lookup (mg_sessions w) i = None \<and> session_serial_ok s) \<and>
    (\<exists>i s. generate_seat_id w = Some (i, w\<lparr>seat_serial := s\<rparr>) \<and>
      g_hash_table_lookup (mg_seats w) i = None \<and> seat_serial_ok s)"
  using generate_session_id_returns [OF assms(1,2)] generate_seat_id_returns [OF assms(3,4)]
    session_names.valid_nxt seat_names.valid_nxt by blast

text \<open>The counters at their largest value, with the names they wrap to in use.\<close>

definition sample_serials :: manager_world where
  "sample_serials = (ck_manager_init sample_senv (ck_vt_monitor_init (\<lambda>_. False) 4 (Some 2)))
     \<lparr>session_serial := 0x7FFFFFFF, seat_serial := 0x7FFFFFFF,
      mg_sessions := [(''Session2147483647'', 0), (''Session1'', 1)], mg_seats := [(''seat0'', 2)]\<rparr>"

theorem generated_names_are_fresh_witness:
  "\<exists>i s j t. generate_session_id sample_serials = Some (i, sample_serials\<lparr>session_serial := s\<rparr>) \<and>
     i \<notin> {''Session2147483647'', ''Session1''} \<and> session_serial_ok s \<and>
     generate_seat_id sample_serials = Some (j, sample_serials\<lparr>seat_serial := t\<rparr>) \<and> j \<noteq> ''seat0'' \<and> seat_serial_ok t"
proof -
  have a: "session_serial_ok (session_serial sample_serials)" "seat_serial_ok (seat_serial sample_serials)"
      "length (mg_sessions sample_serials) < 2 ^ 31 - 1" "length (mg_seats sample_serials) < 2 ^ 31"
      "mg_sessions sample_serials = [(''Session2147483647'', 0), (''Session1'', 1)]" "mg_seats sample_serials = [(''seat0'', 2)]"
    by (simp_all add: session_serial_ok_def seat_serial_ok_def sample_serials_def ck_manager_init_def)
  obtain i s j t where i: "generate_session_id sample_serials = Some (i, sample_serials\<lparr>session_serial := s\<rparr>)"
      "g_hash_table_lookup (mg_sessions sample_serials) i = None" "session_serial_ok s"
    and j: "generate_seat_id sample_serials = Some (j, sample_serials\<lparr>seat_serial := t\<rparr>)"
      "g_hash_table_lookup (mg_seats sample_serials) j = None" "seat_serial_ok t"
    using generated_names_are_fresh [OF a(1) a(3) a(2) a(4)] by blast
  have "i \<notin> {''Session2147483647'', ''Session1''}" "j \<noteq> ''seat0''"
    using i(2) j(2) unfolding a(5,6) g_hash_table_lookup_def by (auto split: if_splits)
  with i j show ?thesis by blast
qed

text \<open>
  C25: When no temporary file is left over and dumping the seats does not crash, the database after a dump is
  determined by the system calls: with all of them successful it is the text of the current state (empty
  when the text cannot be made), complete, and the temporary file is gone; when opening, writing, closing or renaming
  fails, the database is removed. The old text stays only when the directory cannot be made, or when
  the removal fails too. So readers never see a half-written file.
\<close>

theorem database_current_or_absent:
  assumes "database_tmp w = None" and "manager_key_file E w = Some kf"
  shows "let current = NONULL_STRING (dm_text (mv_dump E) kf); w' = ck_manager_dump E w in
    database w' =
      (if \<not> dm_mkdir (mv_dump E) then database w
       else if dm_open (mv_dump E) \<and> (case dm_write (mv_dump E) of None \<Rightarrow> True | Some k \<Rightarrow> length current \<le> k) \<and>
           dm_close (mv_dump E) \<and> dm_rename (mv_dump E)
         then Some current
       else if dm_unlink (mv_dump E) then None
       else database w) \<and>
    (database w' \<noteq> Some current \<or> database w = Some current \<or> database_tmp w' = None)"
  using assms
  by (auto simp: ck_manager_dump_def do_dump_def overlay_def unlink_database_def Let_def split: option.splits)

definition sample_menv :: manager_env where
  "sample_menv =
     \<lparr>mv_seat = sample_seat_env,
      mv_dump = \<lparr>dm_mkdir = True, dm_open = True,
        dm_text = (\<lambda>kf. Some (concat (map (\<lambda>((g, k), v). g @ ''.'' @ k @ ''='' @ v @ '';'') kf))),
        dm_write = None, dm_close = True, dm_rename = True, dm_unlink = True, dm_uid_address = (\<lambda>i. 140000), dm_uid_stale = (\<lambda>a. 0)\<rparr>,
      mv_now = (100, 0), mv_host_name = ''host'', mv_random = (\<lambda>k. (k + 1, (100, k))),
      mv_caller_uid = (\<lambda>_. Some 1000), mv_caller_pid = (\<lambda>_. Some 42), mv_user_name = (\<lambda>u. Some ''user''),
      mv_transform = (\<lambda>t v. Some v), mv_runtime_dir = (\<lambda>u. Some ''/run/user''), mv_process_ssid = (\<lambda>_. None),
      mv_process_cookie = (\<lambda>_. None), mv_process_stat = (\<lambda>_. True), mv_job = Some 1, mv_spawn_ok = True,
      mv_timeout_id = 9, mv_can_suspend = True, mv_can_hibernate = True, mv_can_hybrid_sleep = True,
      mv_sysconfdir = ''/etc'', mv_libdir = ''/usr/lib''\<rparr>"

definition empty_manager :: manager_world where
  "empty_manager = ck_manager_init sample_senv (ck_vt_monitor_init (\<lambda>_. False) 4 (Some 2))"

lemma empty_key_file: "manager_key_file sample_menv empty_manager = Some [((''Seats'', ''seats''), '''')]"
  by (simp add: manager_key_file_def dump_user_section_def empty_manager_def ck_manager_init_def sample_menv_def kf_set_def g_hash_table_insert_def)

theorem database_current_or_absent_witness:
  "database (ck_manager_dump sample_menv empty_manager) = Some ''Seats.seats=;''"
proof -
  have "database_tmp empty_manager = None" by (simp add: empty_manager_def ck_manager_init_def)
  note d = database_current_or_absent [OF this empty_key_file]
  have "dm_mkdir (mv_dump sample_menv)" "dm_open (mv_dump sample_menv)" "dm_write (mv_dump sample_menv) = None"
    "dm_close (mv_dump sample_menv)" "dm_rename (mv_dump sample_menv)"
    "NONULL_STRING (dm_text (mv_dump sample_menv) [((''Seats'', ''seats''), '''')]) = ''Seats.seats=;''"
    by (simp_all add: sample_menv_def)
  with d show ?thesis by (simp add: Let_def)
qed

text \<open>
  A dump that fails while writing spoils the next one: the temporary file is opened
  without being truncated, so the rest of the longer, older text ends up in the database.
\<close>

theorem failed_dump_spoils_next:
  assumes "manager_key_file E w = Some kf" and "dm_text (mv_dump E) kf = Some str" and "database_tmp w = None"
    and "dm_mkdir (mv_dump E)" and "dm_open (mv_dump E)" and "dm_write (mv_dump E) = Some k" and "k < length str"
    and "w' = ck_manager_dump E w" and "manager_key_file E' w' = Some kf'" and "dm_text (mv_dump E') kf' = Some str'"
    and "dm_mkdir (mv_dump E')" and "dm_open (mv_dump E')" and "dm_write (mv_dump E') = None"
    and "dm_close (mv_dump E')" and "dm_rename (mv_dump E')"
  shows "database (ck_manager_dump E' w') = Some (str' @ drop (length str') (take k str))"
proof -
  have "database_tmp w' = Some (take k str)"
    using assms(1-8) by (simp add: ck_manager_dump_def do_dump_def overlay_def unlink_database_def Let_def)
  then show ?thesis
    using assms(9-) by (simp add: ck_manager_dump_def do_dump_def overlay_def Let_def)
qed

definition full_disk :: manager_env where
  "full_disk = sample_menv\<lparr>mv_dump := (mv_dump sample_menv)\<lparr>dm_write := Some 16,
     dm_text := (\<lambda>kf. Some ''[Seats] seats=seat0;'')\<rparr>\<rparr>"

theorem failed_dump_spoils_next_witness:
  "database (ck_manager_dump sample_menv (ck_manager_dump full_disk empty_manager)) = Some (''Seats.seats=;'' @ ''=se'')"
proof -
  have core: "core (ck_manager_dump full_disk empty_manager) = core empty_manager" by simp
  have kf: "manager_key_file full_disk empty_manager = Some [((''Seats'', ''seats''), '''')]"
    by (simp add: full_disk_def manager_key_file_def dump_user_section_def empty_manager_def ck_manager_init_def sample_menv_def kf_set_def
        g_hash_table_insert_def)
  have kf': "manager_key_file sample_menv (ck_manager_dump full_disk empty_manager) = Some [((''Seats'', ''seats''), '''')]"
    by (simp add: manager_key_file_def dump_user_section_def coreD [OF core] empty_manager_def ck_manager_init_def sample_menv_def kf_set_def
        g_hash_table_insert_def)
  have "database_tmp empty_manager = None" by (simp add: empty_manager_def ck_manager_init_def)
  note spoil = failed_dump_spoils_next [OF kf _ this _ _ _ _ refl kf',
      where str = "''[Seats] seats=seat0;''" and k = 16 and str' = "''Seats.seats=;''"]
  show ?thesis by (subst spoil) (simp_all add: full_disk_def sample_menv_def)
qed

text \<open>The sessions of real users, in the order of the table.\<close>

definition user_sessions :: "manager_env \<Rightarrow> manager_world \<Rightarrow> (string \<times> nat) list \<Rightarrow> (string \<times> nat) list" where
  "user_sessions E w kvs = filter (\<lambda>(ssid, a). session_is_real_user E (sess w a) \<notin> {None, Some None}) kvs"

lemma collected_users:
  assumes "\<And>i. dm_uid_address (mv_dump E) i = p" "[] \<notin> fst ` set kvs"
  shows "fold (collect_user_data_dump E w) (enumerate 0 kvs) [] =
    (if user_sessions E w kvs = [] then []
     else [(p, \<lparr>ud_sessions = join_with '';'' (map fst (user_sessions E w kvs)),
                ud_is_local = list_ex (\<lambda>(ssid, a). s_is_local (sess w a)) (user_sessions E w kvs)\<rparr>)])"
  using assms(2)
proof (induction kvs rule: rev_induct)
  case (snoc kv kvs)
  obtain ssid a where kv: "kv = (ssid, a)" by fastforce
  let ?us = "user_sessions E w kvs"
  have ne: "join_with '';'' (map fst ?us) \<noteq> []" if us: "?us \<noteq> []"
  proof -
    obtain x xs where x: "?us = x # xs" using us by (cases ?us) auto
    then have "x \<in> set ?us" by simp
    then have "x \<in> set kvs" by (simp add: user_sessions_def)
    then have "fst x \<noteq> []" using snoc.prems by force
    then show ?thesis using x by (cases xs) auto
  qed
  show ?case
  proof (cases "session_is_real_user E (sess w a) \<in> {None, Some None}")
    case True
    then show ?thesis using snoc by (auto simp: kv user_sessions_def enumerate_append_eq collect_user_data_dump_def)
  next
    case False
    then obtain n where n: "session_is_real_user E (sess w a) = Some (Some n)" by auto
    have us: "user_sessions E w (kvs @ [(ssid, a)]) = ?us @ [(ssid, a)]" by (simp add: user_sessions_def n)
    show ?thesis
      using snoc ne n assms(1) by (simp add: us kv enumerate_append_eq collect_user_data_dump_def Let_def g_hash_table_insert_def
          g_hash_table_lookup_def join_with_snoc)
  qed
qed (simp add: user_sessions_def)

text \<open>
  C39: The database does not tell users apart. When the calls for the sessions, made one after
  another from the same loop, find their variable at the same address, the sessions of all users
  go into one section, which says local if any of them is, under a user id that is read
  from the dead variable.
\<close>

theorem user_sections_are_merged:
  assumes "\<And>i. dm_uid_address (mv_dump E) i = p" and "[] \<notin> fst ` set (mg_sessions w)"
    and "user_sessions E w (mg_sessions w) \<noteq> []"
    and "user_group = ''User '' @ dec (dm_uid_stale (mv_dump E) p)"
  shows "dump_user_section E w kf =
    kf_set user_group ''sessions'' (join_with '';'' (map fst (user_sessions E w (mg_sessions w))))
      (kf_set user_group ''is_local'' (bool_string (list_ex (\<lambda>(ssid, a). s_is_local (sess w a)) (user_sessions E w (mg_sessions w)))) kf)"
  using assms(3,4) collected_users [OF assms(1,2)] by (simp add: dump_user_section_def dump_user_iter_def Let_def)

definition two_user_manager :: manager_world where
  "two_user_manager = empty_manager
     \<lparr>mg_sessions := [(''Session1'', 1), (''Session2'', 2)],
      sess := (\<lambda>a. (ck_session_init sample_senv)\<lparr>s_unix_user := 1000 + a, s_is_local := (a = 2)\<rparr>)\<rparr>"

theorem user_sections_are_merged_witness:
  "dump_user_section sample_menv two_user_manager [] =
     [((''User 0'', ''is_local''), ''true''), ((''User 0'', ''sessions''), ''Session1;Session2'')]"
proof -
  have us: "user_sessions sample_menv two_user_manager (mg_sessions two_user_manager) = [(''Session1'', 1), (''Session2'', 2)]"
    by (simp add: user_sessions_def two_user_manager_def session_is_real_user_def get_user_name_def sample_menv_def)
  have d: "dec 0 = ''0''" by code_simp
  show ?thesis
    by (subst user_sections_are_merged [where p = 140000 and user_group = "''User 0''"])
      (simp_all add: us d kf_set_def g_hash_table_insert_def bool_string_def, simp_all add: sample_menv_def two_user_manager_def d)
qed

text \<open>
  C5: When the console changes, the seat's active session becomes the oldest session of the new
  console, or none if it has none. This session is active, the one before it is not, and every other session is as
  active as it was, so a seat with no active session but its own keeps this. A change
  of the session of a connected seat adds its event to the history and nothing else does; the tables of the
  manager and the console monitor stay as they are.
\<close>

theorem console_switch_activates_its_session:
  assumes "w' = active_vt_changed (mv_seat E) (on_seat_signal E) st num w"
    and "a = st_active_session (seats w' st)"
  shows "(case a of
      None \<Rightarrow> console_sessions st (ck_get_console_device_for_num num) w = {}
    | Some x \<Rightarrow> x \<in> console_sessions st (ck_get_console_device_for_num num) w \<and>
        (\<forall>b \<in> console_sessions st (ck_get_console_device_for_num num) w. sort_sessions_by_age (mv_seat E) w x b)) \<and>
    (\<forall>b. s_active (sess w' b) = (a = Some b \<or> st_active_session (seats w st) \<noteq> Some b \<and> s_active (sess w b))) \<and>
    (only_active st w \<longrightarrow> only_active st w') \<and>
    books w' = books w \<and> vtm w' = vtm w \<and>
    (if st_active_session (seats w st) = a \<or> st \<notin> set (seat_handlers w) then event_log w' = event_log w
     else \<exists>e. event_log w' = event_log w @ [e] \<and>
       le_event e = Ev_Seat_Active_Session_Changed (st_id (seats w st)) (case a of None \<Rightarrow> None | Some x \<Rightarrow> s_id (sess w x)))"
proof -
  let ?f = "find_session_for_display_device (mv_seat E) st (ck_get_console_device_for_num num) w"
  have w': "w' = change_active_session (mv_seat E) (on_seat_signal E) st ?f w"
    by (simp add: assms(1) active_vt_changed_def update_active_vt_def)
  have a: "a = ?f" by (simp add: assms(2) w' mgr.change_active_frame)
  have "only_active st w \<longrightarrow> only_active st w'" unfolding w' using mgr.change_active_consistent(1) by blast
  moreover have "s_active (sess w' b) = (a = Some b \<or> st_active_session (seats w st) \<noteq> Some b \<and> s_active (sess w b))" for b
    by (simp add: w' a mgr.change_active_activity)
  ultimately show ?thesis
    using find_session_oldest [where E = "mv_seat E" and st = st and dev = "ck_get_console_device_for_num num" and w = w]
      change_active_log [where E = E and st = st and a = a and w = w]
    by (simp add: w' mgr.change_active_frame flip: a)
qed

text \<open>The three sessions of \<open>sample_world\<close> on one seat of the manager.\<close>

definition sample_manager :: manager_world where
  "sample_manager = empty_manager\<lparr>sess := sess sample_world, seats := seats sample_world,
     activate_handlers := activate_handlers sample_world, mg_seats := [(''seat0'', 0)],
     mg_sessions := [(''Session1'', 0), (''Session2'', 1), (''Session3'', 2)], seat_handlers := [0], next_address := 3\<rparr>"

lemma sample_manager_fields:
  "st_active_session (seats sample_manager 0) = Some 0" "st_kind (seats sample_manager 0) = CK_SEAT_KIND_STATIC"
  "st_sessions (seats sample_manager 0) = [(''Session2'', 1), (''Session1'', 0), (''Session3'', 2)]"
  "s_active (sess sample_manager b) = (b = 0)" "seat_handlers sample_manager = [0]"
  "vt_active_num (vtm sample_manager) = 2" "vfd (vtm sample_manager) = 4" "event_log sample_manager = []"
  by (simp_all add: sample_manager_def sample_world_def empty_manager_def ck_manager_init_def ck_vt_monitor_init_def
      tty_session_def ck_session_init_def ck_seat_new_def ck_seat_constructor_def ck_seat_set_kind_def Let_def)

lemma sample_manager_find:
  "find_session_for_display_device sample_seat_env 0 ''/dev/tty3'' sample_manager = Some 2"
  by (simp add: find_session_for_display_device_def find_sessions_for_x11_display_device_def
      find_sessions_for_display_device_def hash_table_find_all_def find_all_func_def sample_manager_def sample_world_def
      match_session_x11_display_device_def match_session_display_device_def tty_session_def ck_session_init_def)

theorem console_switch_activates_its_session_witness:
  "st_active_session (seats (active_vt_changed sample_seat_env (on_seat_signal sample_menv) 0 3 sample_manager) 0) = Some 2 \<and>
   s_active (sess (active_vt_changed sample_seat_env (on_seat_signal sample_menv) 0 3 sample_manager) 2) \<and>
   \<not> s_active (sess (active_vt_changed sample_seat_env (on_seat_signal sample_menv) 0 3 sample_manager) 0) \<and>
   length (event_log (active_vt_changed sample_seat_env (on_seat_signal sample_menv) 0 3 sample_manager)) = 1"
proof -
  let ?w = "active_vt_changed (mv_seat sample_menv) (on_seat_signal sample_menv) 0 3 sample_manager"
  have E: "mv_seat sample_menv = sample_seat_env" by (simp add: sample_menv_def)
  have d: "ck_get_console_device_for_num 3 = ''/dev/tty3''" by code_simp
  have f: "Some 2 = find_session_for_display_device (mv_seat sample_menv) 0 (ck_get_console_device_for_num 3) sample_manager"
    by (simp add: E d sample_manager_find)
  have a: "Some 2 = st_active_session (seats ?w 0)"
    by (simp add: active_vt_changed_def update_active_vt_def mgr.change_active_frame f)
  have "\<exists>e. event_log ?w = [e]" "s_active (sess ?w 2)" "\<not> s_active (sess ?w 0)"
    using console_switch_activates_its_session [OF refl a] by (auto simp: sample_manager_fields)
  then show ?thesis using a by (auto simp: E)
qed

text \<open>
  Two sessions of one seat can be active at once. Activating a second session of the
  current console makes it active and its predecessor inactive, but the seat keeps the
  predecessor as its active session; the next console switch deactivates the predecessor
  again and leaves the second session active in the background.
\<close>

theorem second_session_stays_active:
  assumes "st_kind (seats w st) = CK_SEAT_KIND_STATIC" and "st_active_session (seats w st) = Some old" and "old \<noteq> a"
    and "ck_get_console_num_from_device (activation_device (sess w a)) = Some (vt_active_num (vtm w))"
    and "(r, w1) = ck_seat_activate_session (mv_seat E) (Some st) (Some a) c w"
    and "find_session_for_display_device (mv_seat E) st (ck_get_console_device_for_num num) w1 = Some b"
    and "b \<notin> {a, old}" and "w2 = active_vt_changed (mv_seat E) (on_seat_signal E) st num w1"
  shows "r = None \<and> s_active (sess w2 a) \<and> s_active (sess w2 b) \<and> st_active_session (seats w2 st) = Some b"
proof -
  have r: "r = None" "w1 = set_active (mv_seat E) a True True (set_active (mv_seat E) old False True w)
      \<lparr>pending := butlast (pending w @ [(st, vt_active_num (vtm w), c)])\<rparr>"
    using assms(1-5) by (simp_all add: ck_seat_activate_session_def ck_vt_monitor_set_active_def Let_def set_active_def
        upd_session_def)
  have w2: "w2 = change_active_session (mv_seat E) (on_seat_signal E) st (Some b) w1"
    using assms(6,8) by (simp add: active_vt_changed_def update_active_vt_def)
  have "s_active (sess w1 a)" "seats w1 = seats w" by (simp_all add: r(2))
  with assms(2,3,7) r(1) show ?thesis by (simp add: w2 mgr.change_active_activity mgr.change_active_frame)
qed

theorem second_session_stays_active_witness:
  "\<exists>w1 w2. (None, w1) = ck_seat_activate_session sample_seat_env (Some 0) (Some 1) (Some 5) sample_manager \<and>
     w2 = active_vt_changed sample_seat_env (on_seat_signal sample_menv) 0 3 w1 \<and>
     s_active (sess w2 1) \<and> s_active (sess w2 2) \<and> st_active_session (seats w2 0) = Some 2"
proof -
  have E: "mv_seat sample_menv = sample_seat_env" by (simp add: sample_menv_def)
  have d: "ck_get_console_device_for_num 3 = ''/dev/tty3''" by code_simp
  have c: "ck_get_console_num_from_device (activation_device (sess sample_manager 1)) = Some (vt_active_num (vtm sample_manager))"
    using sample_world_console(1) by (simp add: sample_manager_fields) (simp add: sample_manager_def)
  obtain r w1 where w1: "(r, w1) = ck_seat_activate_session (mv_seat sample_menv) (Some 0) (Some 1) (Some 5) sample_manager"
    by (metis surj_pair)
  have "find_session_for_display_device (mv_seat sample_menv) 0 (ck_get_console_device_for_num 3) w1 = Some 2"
    using w1 c by (simp add: ck_seat_activate_session_def ck_vt_monitor_set_active_def sample_manager_fields
        find_session_for_display_device_def find_sessions_for_x11_display_device_def d Let_def
        find_sessions_for_display_device_def hash_table_find_all_def find_all_func_def
        match_session_x11_display_device_def match_session_display_device_def)
      (simp add: sample_manager_def sample_world_def tty_session_def ck_session_init_def)
  from second_session_stays_active [OF sample_manager_fields(2,1) _ c w1 this _ refl] show ?thesis
    using w1 by (auto simp: E)
qed

end
