(* ===== verification/CK_SystemAction.thy ===== *)
theory CK_SystemAction
  imports CK_Manager
begin

text \<open>
  The manager, second part: restart, stop, suspend, hibernate and hybrid sleep, the
  questions to the authority, and the inhibitors that block or delay them
  (src/src/ck-manager.c, built with PolicyKit).

  An authorization is asked for and answered later, by an event; in between, other events
  may come. A started action waits in \<open>action_timer\<close>, with its delay in milliseconds, until
  the timer fires or the lock that delays it is released. The answer of the authority, the
  timer ids and the result of running the command are inputs.
\<close>

section \<open>Callers and users\<close>

definition manager_get_caller_info :: "manager_env \<Rightarrow> cstring \<Rightarrow> (nat \<times> nat) option" where
  "manager_get_caller_info E sender =
     (case sender of
        None \<Rightarrow> None
      | Some n \<Rightarrow>
          (case mv_caller_uid E n of
             None \<Rightarrow> None
           | Some u \<Rightarrow> map_option (Pair u) (mv_caller_pid E n)))"

definition collect_users :: "manager_env \<Rightarrow> manager_world \<Rightarrow> string \<times> nat \<Rightarrow> (string, unit) ghash \<Rightarrow> (string, unit) ghash" where
  "collect_users E w kv hash =
     (case session_is_real_user E (sess w (snd kv)) of
        Some (Some username) \<Rightarrow> g_hash_table_insert hash username ()
      | _ \<Rightarrow> hash)"

definition get_system_num_users :: "manager_env \<Rightarrow> manager_world \<Rightarrow> nat" where
  "get_system_num_users E w = length (fold (collect_users E w) (mg_sessions w) [])"

section \<open>Questions to the authority\<close>

datatype auth_result = Auth_Error | Authorized | Challenge | Not_Authorized

definition check_polkit_permissions ::
  "nat \<Rightarrow> string \<Rightarrow> bool \<Rightarrow> auth_callback \<Rightarrow> manager_world \<Rightarrow> manager_world" where
  "check_polkit_permissions context action interactivity callback w =
     w\<lparr>auth_pending := auth_pending w @
       [\<lparr>ar_context = context, ar_action = action, ar_interactive = interactivity, ar_callback = callback\<rparr>]\<rparr>"

definition check_system_action ::
  "bool \<Rightarrow> nat \<Rightarrow> string \<Rightarrow> auth_callback \<Rightarrow> manager_world \<Rightarrow> manager_world" where
  "check_system_action interactivity context action callback w =
     check_polkit_permissions context action interactivity callback w"

definition get_polkit_logind_permissions :: "string \<Rightarrow> nat \<Rightarrow> manager_world \<Rightarrow> manager_world" where
  "get_polkit_logind_permissions action context w = check_polkit_permissions context action False Logind_Ready_Cb w"

definition get_polkit_permissions :: "string \<Rightarrow> nat \<Rightarrow> manager_world \<Rightarrow> manager_world" where
  "get_polkit_permissions action context w = check_polkit_permissions context action False Ready_Cb w"

definition check_can_action :: "nat \<Rightarrow> string \<Rightarrow> manager_world \<Rightarrow> manager_world" where
  "check_can_action context action w = get_polkit_logind_permissions action context w"

definition ready_cb :: "auth_result \<Rightarrow> nat \<Rightarrow> manager_world \<Rightarrow> manager_world" where
  "ready_cb r context w =
     (case r of
        Auth_Error \<Rightarrow> throw_error context CK_MANAGER_ERROR_FAILED w
      | Authorized \<Rightarrow> out (Answer context (Reply_bool True)) w
      | Challenge \<Rightarrow> out (Answer context (Reply_bool True)) w
      | Not_Authorized \<Rightarrow> out (Answer context (Reply_bool False)) w)"

definition logind_ready_cb :: "auth_result \<Rightarrow> nat \<Rightarrow> manager_world \<Rightarrow> manager_world" where
  "logind_ready_cb r context w =
     (case r of
        Auth_Error \<Rightarrow> throw_error context CK_MANAGER_ERROR_FAILED w
      | Authorized \<Rightarrow> out (Answer context (Reply_string (Some ''yes''))) w
      | Challenge \<Rightarrow> out (Answer context (Reply_string (Some ''challenge''))) w
      | Not_Authorized \<Rightarrow> out (Answer context (Reply_string (Some ''no''))) w)"

section \<open>Performing an action\<close>

definition do_system_action ::
  "manager_env \<Rightarrow> nat \<Rightarrow> string \<Rightarrow> log_data \<Rightarrow> manager_world \<Rightarrow> manager_world" where
  "do_system_action E context command ev w =
     (let w = log_system_action_event E ev w;
          w = out (Command_Run command) w
      in if mv_spawn_ok E then out (Answer context Complete) w else throw_error context CK_MANAGER_ERROR_GENERAL w)"

definition prepare_signal :: "SIGNALS \<Rightarrow> bool \<Rightarrow> manager_out" where
  "prepare_signal s b = (case s of PREPARE_FOR_SHUTDOWN \<Rightarrow> Prepare_For_Shutdown b | PREPARE_FOR_SLEEP \<Rightarrow> Prepare_For_Sleep b)"

definition system_action_idle_cb :: "manager_env \<Rightarrow> SystemActionData \<Rightarrow> manager_world \<Rightarrow> manager_world" where
  "system_action_idle_cb E d w =
     (let w = do_system_action E (sa_context d) (sa_command d) (sa_event_type d) w;
          w = out (prepare_signal (sa_signal d) False) w
      in w\<lparr>system_action_idle_id := 0, system_action_data := None, action_timer := None\<rparr>)"

definition system_action_idle_delay :: nat where
  "system_action_idle_delay = 2 * 1000"

definition system_action_idle_inhibited_delay :: nat where
  "system_action_idle_inhibited_delay = 8 * 1000"

text \<open>What the five functions below have in common; \<open>g_new0\<close> does not return NULL.\<close>

definition begin_action ::
  "manager_env \<Rightarrow> (CkInhibitManager \<Rightarrow> bool) \<Rightarrow> SystemActionData \<Rightarrow> manager_world \<Rightarrow> manager_world" where
  "begin_action E delayed d w =
     (if system_action_idle_id w \<noteq> 0 then throw_error (sa_context d) CK_MANAGER_ERROR_BUSY w
      else
        let w = out (prepare_signal (sa_signal d) True) w;
            (delay_time, w) =
              (if delayed (inhibit_manager w)
               then (system_action_idle_inhibited_delay, w\<lparr>system_action_data := Some d\<rparr>)
               else (system_action_idle_delay, w))
        in w\<lparr>system_action_idle_id := mv_timeout_id E, action_timer := Some (d, delay_time)\<rparr>)"

definition do_restart :: "manager_env \<Rightarrow> nat \<Rightarrow> manager_world \<Rightarrow> manager_world" where
  "do_restart E context =
     begin_action E ck_inhibit_manager_is_shutdown_delayed
       \<lparr>sa_context = context, sa_command = mv_libdir E @ ''/ConsoleKit/scripts/ck-system-restart'',
        sa_event_type = Ev_System_Restart, sa_description = ''Restart'', sa_signal = PREPARE_FOR_SHUTDOWN\<rparr>"

definition do_stop :: "manager_env \<Rightarrow> nat \<Rightarrow> manager_world \<Rightarrow> manager_world" where
  "do_stop E context =
     begin_action E ck_inhibit_manager_is_shutdown_delayed
       \<lparr>sa_context = context, sa_command = mv_libdir E @ ''/ConsoleKit/scripts/ck-system-stop'',
        sa_event_type = Ev_System_Stop, sa_description = ''Stop'', sa_signal = PREPARE_FOR_SHUTDOWN\<rparr>"

definition do_suspend :: "manager_env \<Rightarrow> nat \<Rightarrow> manager_world \<Rightarrow> manager_world" where
  "do_suspend E context =
     begin_action E ck_inhibit_manager_is_suspend_delayed
       \<lparr>sa_context = context, sa_command = mv_libdir E @ ''/ConsoleKit/scripts/ck-system-suspend'',
        sa_event_type = Ev_System_Suspend, sa_description = ''Suspend'', sa_signal = PREPARE_FOR_SLEEP\<rparr>"

definition do_hibernate :: "manager_env \<Rightarrow> nat \<Rightarrow> manager_world \<Rightarrow> manager_world" where
  "do_hibernate E context =
     begin_action E ck_inhibit_manager_is_suspend_delayed
       \<lparr>sa_context = context, sa_command = mv_libdir E @ ''/ConsoleKit/scripts/ck-system-hibernate'',
        sa_event_type = Ev_System_Hibernate, sa_description = ''Hibernate'', sa_signal = PREPARE_FOR_SLEEP\<rparr>"

definition do_hybrid_sleep :: "manager_env \<Rightarrow> nat \<Rightarrow> manager_world \<Rightarrow> manager_world" where
  "do_hybrid_sleep E context =
     begin_action E ck_inhibit_manager_is_suspend_delayed
       \<lparr>sa_context = context, sa_command = mv_libdir E @ ''/ConsoleKit/scripts/ck-system-hybridsleep'',
        sa_event_type = Ev_System_Hibernate, sa_description = ''Hybrid Sleep'', sa_signal = PREPARE_FOR_SLEEP\<rparr>"

definition auth_ready_callback :: "manager_env \<Rightarrow> auth_result \<Rightarrow> auth_request \<Rightarrow> manager_world \<Rightarrow> manager_world" where
  "auth_ready_callback E r q w =
     (case r of
        Auth_Error \<Rightarrow> throw_error (ar_context q) CK_MANAGER_ERROR_INSUFFICIENT_PERMISSION w
      | Authorized \<Rightarrow>
          (case ar_callback q of
             Do_Restart \<Rightarrow> do_restart E (ar_context q) w
           | Do_Stop \<Rightarrow> do_stop E (ar_context q) w
           | Do_Suspend \<Rightarrow> do_suspend E (ar_context q) w
           | Do_Hibernate \<Rightarrow> do_hibernate E (ar_context q) w
           | Do_Hybrid_Sleep \<Rightarrow> do_hybrid_sleep E (ar_context q) w
           | _ \<Rightarrow> w)
      | Challenge \<Rightarrow> throw_error (ar_context q) CK_MANAGER_ERROR_AUTHORIZATION_REQUIRED w
      | Not_Authorized \<Rightarrow> throw_error (ar_context q) CK_MANAGER_ERROR_INSUFFICIENT_PERMISSION w)"

text \<open>The answer to the question number \<open>k\<close> of those that are open.\<close>

definition authority_answers :: "manager_env \<Rightarrow> nat \<Rightarrow> auth_result \<Rightarrow> manager_world \<Rightarrow> manager_world" where
  "authority_answers E k r w =
     (if k < length (auth_pending w) then
        let q = auth_pending w ! k;
            w = w\<lparr>auth_pending := take k (auth_pending w) @ drop (Suc k) (auth_pending w)\<rparr>
        in (case ar_callback q of
              Ready_Cb \<Rightarrow> ready_cb r (ar_context q) w
            | Logind_Ready_Cb \<Rightarrow> logind_ready_cb r (ar_context q) w
            | _ \<Rightarrow> auth_ready_callback E r q w)
      else w)"

section \<open>Methods\<close>

definition action_name :: "manager_env \<Rightarrow> string \<Rightarrow> manager_world \<Rightarrow> string" where
  "action_name E verb w =
     ''org.freedesktop.consolekit.system.'' @ verb @
     (if get_system_num_users E w > 1 then ''-multiple-users'' else '''')"

definition dbus_restart :: "manager_env \<Rightarrow> nat \<Rightarrow> manager_world \<Rightarrow> manager_world" where
  "dbus_restart E context w =
     (if ck_inhibit_manager_is_shutdown_blocked (inhibit_manager w)
      then throw_error context CK_MANAGER_ERROR_INHIBITED w
      else check_system_action True context (action_name E ''restart'' w) Do_Restart w)"

definition dbus_can_restart :: "nat \<Rightarrow> manager_world \<Rightarrow> manager_world" where
  "dbus_can_restart context w = get_polkit_permissions ''org.freedesktop.consolekit.system.restart'' context w"

definition dbus_stop :: "manager_env \<Rightarrow> nat \<Rightarrow> manager_world \<Rightarrow> manager_world" where
  "dbus_stop E context w =
     (if ck_inhibit_manager_is_shutdown_blocked (inhibit_manager w)
      then throw_error context CK_MANAGER_ERROR_INHIBITED w
      else check_system_action True context (action_name E ''stop'' w) Do_Stop w)"

definition dbus_can_stop :: "nat \<Rightarrow> manager_world \<Rightarrow> manager_world" where
  "dbus_can_stop context w = get_polkit_permissions ''org.freedesktop.consolekit.system.stop'' context w"

definition dbus_power_off :: "manager_env \<Rightarrow> nat \<Rightarrow> bool \<Rightarrow> manager_world \<Rightarrow> manager_world" where
  "dbus_power_off E context interactivity w =
     (if ck_inhibit_manager_is_shutdown_blocked (inhibit_manager w)
      then throw_error context CK_MANAGER_ERROR_INHIBITED w
      else check_system_action interactivity context (action_name E ''stop'' w) Do_Stop w)"

definition dbus_can_power_off :: "manager_env \<Rightarrow> nat \<Rightarrow> manager_world \<Rightarrow> manager_world" where
  "dbus_can_power_off E context w = check_can_action context (action_name E ''stop'' w) w"

definition dbus_reboot :: "manager_env \<Rightarrow> nat \<Rightarrow> bool \<Rightarrow> manager_world \<Rightarrow> manager_world" where
  "dbus_reboot E context interactivity w =
     (if ck_inhibit_manager_is_shutdown_blocked (inhibit_manager w)
      then throw_error context CK_MANAGER_ERROR_INHIBITED w
      else check_system_action interactivity context (action_name E ''restart'' w) Do_Restart w)"

definition dbus_can_reboot :: "manager_env \<Rightarrow> nat \<Rightarrow> manager_world \<Rightarrow> manager_world" where
  "dbus_can_reboot E context w = check_can_action context (action_name E ''restart'' w) w"

definition dbus_suspend :: "manager_env \<Rightarrow> nat \<Rightarrow> bool \<Rightarrow> manager_world \<Rightarrow> manager_world" where
  "dbus_suspend E context interactivity w =
     (if ck_inhibit_manager_is_suspend_blocked (inhibit_manager w)
      then throw_error context CK_MANAGER_ERROR_INHIBITED w
      else check_system_action interactivity context (action_name E ''suspend'' w) Do_Suspend w)"

definition dbus_can_suspend :: "manager_env \<Rightarrow> nat \<Rightarrow> manager_world \<Rightarrow> manager_world" where
  "dbus_can_suspend E context w =
     (if mv_can_suspend E then check_can_action context (action_name E ''suspend'' w) w
      else out (Answer context (Reply_string (Some ''na''))) w)"

definition dbus_hibernate :: "manager_env \<Rightarrow> nat \<Rightarrow> bool \<Rightarrow> manager_world \<Rightarrow> manager_world" where
  "dbus_hibernate E context interactivity w =
     (if ck_inhibit_manager_is_suspend_blocked (inhibit_manager w)
      then throw_error context CK_MANAGER_ERROR_INHIBITED w
      else check_system_action interactivity context (action_name E ''hibernate'' w) Do_Hibernate w)"

definition dbus_can_hibernate :: "manager_env \<Rightarrow> nat \<Rightarrow> manager_world \<Rightarrow> manager_world" where
  "dbus_can_hibernate E context w =
     (if mv_can_hibernate E then check_can_action context (action_name E ''hibernate'' w) w
      else out (Answer context (Reply_string (Some ''na''))) w)"

definition dbus_hybrid_sleep :: "manager_env \<Rightarrow> nat \<Rightarrow> bool \<Rightarrow> manager_world \<Rightarrow> manager_world" where
  "dbus_hybrid_sleep E context interactivity w =
     (if ck_inhibit_manager_is_suspend_blocked (inhibit_manager w)
      then throw_error context CK_MANAGER_ERROR_INHIBITED w
      else check_system_action interactivity context (action_name E ''hybridsleep'' w) Do_Hybrid_Sleep w)"

definition dbus_can_hybrid_sleep :: "manager_env \<Rightarrow> nat \<Rightarrow> manager_world \<Rightarrow> manager_world" where
  "dbus_can_hybrid_sleep E context w =
     (if mv_can_hybrid_sleep E then check_can_action context (action_name E ''hybridsleep'' w) w
      else out (Answer context (Reply_string (Some ''na''))) w)"

section \<open>Inhibitors\<close>

text \<open>The condition does not ask whether the released lock is of the kind that delays the action.\<close>

definition on_inhibit_manager_changed_event ::
  "manager_env \<Rightarrow> CkInhibitMode \<times> CkInhibitEvent \<times> bool \<Rightarrow> manager_world \<Rightarrow> manager_world" where
  "on_inhibit_manager_changed_event E n w =
     (case n of (inhibit_mode, event, enabled) \<Rightarrow>
        if system_action_idle_id w = 0 then w
        else case system_action_data w of
          None \<Rightarrow> w
        | Some d \<Rightarrow>
            if sa_signal d \<noteq> PREPARE_FOR_SLEEP \<and> sa_signal d \<noteq> PREPARE_FOR_SHUTDOWN then w
            else if event \<noteq> CK_INHIBIT_EVENT_SUSPEND \<and> event \<noteq> CK_INHIBIT_EVENT_SHUTDOWN then w
            else if inhibit_mode \<noteq> CK_INHIBIT_MODE_DELAY then w
            else if enabled then w
            else system_action_idle_cb E d (w\<lparr>action_timer := None, system_action_idle_id := 0\<rparr>))"

text \<open>The notifications an operation of the inhibit manager sent, oldest first.\<close>

definition new_notifications :: "CkInhibitManager \<Rightarrow> CkInhibitManager \<Rightarrow> (CkInhibitMode \<times> CkInhibitEvent \<times> bool) list" where
  "new_notifications old new = rev (take (length (notified new) - length (notified old)) (notified new))"

definition with_inhibit_manager :: "manager_env \<Rightarrow> CkInhibitManager \<Rightarrow> manager_world \<Rightarrow> manager_world" where
  "with_inhibit_manager E im w =
     fold (on_inhibit_manager_changed_event E) (new_notifications (inhibit_manager w) im) (w\<lparr>inhibit_manager := im\<rparr>)"

definition dbus_inhibit ::
  "manager_env \<Rightarrow> pipe_env \<Rightarrow> cstring \<Rightarrow> nat \<Rightarrow> string \<Rightarrow> string \<Rightarrow> string \<Rightarrow> string \<Rightarrow> manager_world \<Rightarrow>
   manager_world option" where
  "dbus_inhibit E P sender context awhat awho awhy amode w =
     (case manager_get_caller_info E sender of
        None \<Rightarrow> Some (throw_error context CK_MANAGER_ERROR_GENERAL w)
      | Some (u, p) \<Rightarrow>
          map_option (\<lambda>(fd, im).
            let w = with_inhibit_manager E im w in
            if fd < 0 then
              if fd = CK_INHIBIT_ERROR_INVALID_INPUT then throw_error context CK_MANAGER_ERROR_INVALID_INPUT w
              else if fd = CK_INHIBIT_ERROR_OOM then throw_error context CK_MANAGER_ERROR_OOM w
              else throw_error context CK_MANAGER_ERROR_GENERAL w
            else out (Answer_Fd context fd) w)
            (ck_inhibit_manager_create_lock P (Some awho) (Some awhat) (Some awhy) (Some amode) u p (inhibit_manager w)))"

definition lock_released :: "manager_env \<Rightarrow> nat \<Rightarrow> manager_world \<Rightarrow> manager_world option" where
  "lock_released E a w =
     map_option (\<lambda>im. with_inhibit_manager E im w) (lock_hangup a (inhibit_manager w))"

definition dbus_list_inhibitors :: "nat \<Rightarrow> manager_world \<Rightarrow> manager_world" where
  "dbus_list_inhibitors context w =
     (let im = inhibit_manager w in
      if ck_inhibit_manager_get_inhibit_list im = [] then throw_error context CK_MANAGER_ERROR_NOTHING_INHIBITED w
      else out (Answer_Inhibitors context
             (map (\<lambda>a. let l = objs im a in
                (ck_inhibit_get_what l, ck_inhibit_get_who l, ck_inhibit_get_why l, ck_inhibit_get_mode l,
                 ck_inhibit_get_uid l, ck_inhibit_get_pid l)) (ck_inhibit_manager_get_inhibit_list im))) w)"

section \<open>Runs\<close>

text \<open>The timer of a started action; it is not repeated.\<close>

definition timer_fires :: "manager_env \<Rightarrow> manager_world \<Rightarrow> manager_world" where
  "timer_fires E w = (case action_timer w of None \<Rightarrow> w | Some (d, t) \<Rightarrow> system_action_idle_cb E d w)"

datatype action_event =
    Restart manager_env nat
  | Stop manager_env nat
  | Power_Off manager_env nat bool
  | Reboot manager_env nat bool
  | Suspend manager_env nat bool
  | Hibernate manager_env nat bool
  | Hybrid_Sleep manager_env nat bool
  | Authority_Answers manager_env nat auth_result
  | Timer_Fires manager_env
  | Inhibit manager_env pipe_env cstring nat string string string string
  | Client_Gone manager_env nat

fun action_step :: "action_event \<Rightarrow> manager_world \<Rightarrow> manager_world option" where
  "action_step (Restart E context) w = Some (dbus_restart E context w)"
| "action_step (Stop E context) w = Some (dbus_stop E context w)"
| "action_step (Power_Off E context b) w = Some (dbus_power_off E context b w)"
| "action_step (Reboot E context b) w = Some (dbus_reboot E context b w)"
| "action_step (Suspend E context b) w = Some (dbus_suspend E context b w)"
| "action_step (Hibernate E context b) w = Some (dbus_hibernate E context b w)"
| "action_step (Hybrid_Sleep E context b) w = Some (dbus_hybrid_sleep E context b w)"
| "action_step (Authority_Answers E k r) w = Some (authority_answers E k r w)"
| "action_step (Timer_Fires E) w = Some (timer_fires E w)"
| "action_step (Inhibit E P sender context awhat awho awhy amode) w =
     dbus_inhibit E P sender context awhat awho awhy amode w"
| "action_step (Client_Gone E a) w = lock_released E a w"

text \<open>What GLib documents: a source id is not 0. Descriptors are what the kernel returns.\<close>

fun action_event_ok :: "action_event \<Rightarrow> bool" where
  "action_event_ok (Authority_Answers E k r) = (mv_timeout_id E \<noteq> 0)"
| "action_event_ok (Inhibit E P sender context awhat awho awhy amode) = pipe_env_ok P"
| "action_event_ok e = True"

section \<open>Specification\<close>

text \<open>
  What the applications may rely on: an action is announced, performed once, and its end is
  announced with the same signal, before another one begins.
\<close>

datatype action_phase = Quiet | Announced SIGNALS | Performed SIGNALS

fun phase_step :: "manager_out \<Rightarrow> action_phase \<Rightarrow> action_phase option" where
  "phase_step (Prepare_For_Shutdown True) p = (if p = Quiet then Some (Announced PREPARE_FOR_SHUTDOWN) else None)"
| "phase_step (Prepare_For_Sleep True) p = (if p = Quiet then Some (Announced PREPARE_FOR_SLEEP) else None)"
| "phase_step (Command_Run c) p = (case p of Announced s \<Rightarrow> Some (Performed s) | _ \<Rightarrow> None)"
| "phase_step (Prepare_For_Shutdown False) p = (if p = Performed PREPARE_FOR_SHUTDOWN then Some Quiet else None)"
| "phase_step (Prepare_For_Sleep False) p = (if p = Performed PREPARE_FOR_SLEEP then Some Quiet else None)"
| "phase_step x p = Some p"

definition action_phase_of :: "manager_world \<Rightarrow> action_phase" where
  "action_phase_of w = (case action_timer w of None \<Rightarrow> Quiet | Some (d, t) \<Rightarrow> Announced (sa_signal d))"

definition action_inv :: "manager_world \<Rightarrow> bool" where
  "action_inv w =
     (im_inv (inhibit_manager w) \<and>
      (system_action_idle_id w = 0 \<longleftrightarrow> action_timer w = None) \<and>
      (case action_timer w of
         None \<Rightarrow> system_action_data w = None
       | Some (d, t) \<Rightarrow>
           system_action_data w = (if t = system_action_idle_inhibited_delay then Some d else None) \<and>
           t \<in> {system_action_idle_delay, system_action_idle_inhibited_delay}) \<and>
      run phase_step (mg_out w) Quiet = Some (action_phase_of w))"

section \<open>Lemmas\<close>

lemma run_append: "run step (xs @ ys) s = (case run step xs s of None \<Rightarrow> None | Some s' \<Rightarrow> run step ys s')"
  by (induction xs arbitrary: s) (auto split: option.splits)

lemma out_fields [simp]:
  "inhibit_manager (out x w) = inhibit_manager w" "action_timer (out x w) = action_timer w"
  "system_action_data (out x w) = system_action_data w" "system_action_idle_id (out x w) = system_action_idle_id w"
  "auth_pending (out x w) = auth_pending w" "mg_out (out x w) = mg_out w @ [x]"
  by (simp_all add: out_def)

lemma log_event_fields [simp]:
  "inhibit_manager (log_event E d w) = inhibit_manager w" "action_timer (log_event E d w) = action_timer w"
  "system_action_data (log_event E d w) = system_action_data w" "mg_out (log_event E d w) = mg_out w"
  "system_action_idle_id (log_event E d w) = system_action_idle_id w" "auth_pending (log_event E d w) = auth_pending w"
  by (simp_all add: log_event_def)

text \<open>Updates that the invariant does not see.\<close>

lemma action_inv_silent:
  "(\<And>p. phase_step x p = Some p) \<Longrightarrow> action_inv (out x w) = action_inv w"
  by (simp add: action_inv_def action_phase_of_def run_append split: option.splits)

lemma action_inv_answer [simp]:
  "action_inv (out (Answer context r) w) = action_inv w" "action_inv (out (Answer_Fd context fd) w) = action_inv w"
  "action_inv (throw_error context e w) = action_inv w" "action_inv (w\<lparr>auth_pending := qs\<rparr>) = action_inv w"
  by (simp_all add: action_inv_silent throw_error_def)
    (simp add: action_inv_def action_phase_of_def split: option.split prod.split)

lemma action_inv_check [simp]: "action_inv (check_system_action b context a cb w) = action_inv w"
  by (simp add: check_system_action_def check_polkit_permissions_def)

lemma phase_begin: "phase_step (prepare_signal s True) p = (if p = Quiet then Some (Announced s) else None)"
  by (cases s) (auto simp: prepare_signal_def)

lemma phase_end: "phase_step (prepare_signal s False) p = (if p = Performed s then Some Quiet else None)"
  by (cases s) (auto simp: prepare_signal_def)

lemma do_system_action_fields [simp]:
  "inhibit_manager (do_system_action E context c ev w) = inhibit_manager w"
  "mg_out (do_system_action E context c ev w) =
     mg_out w @ [Command_Run c, Answer context (if mv_spawn_ok E then Complete else Throw CK_MANAGER_ERROR_GENERAL)]"
  by (simp_all add: do_system_action_def log_system_action_event_def throw_error_def Let_def)

lemma action_invD:
  assumes "action_inv w"
  shows "im_inv (inhibit_manager w)" "system_action_idle_id w = 0 \<longleftrightarrow> action_timer w = None"
    "action_timer w = Some (d, t) \<Longrightarrow> run phase_step (mg_out w) Quiet = Some (Announced (sa_signal d))"
    "action_timer w = None \<Longrightarrow> run phase_step (mg_out w) Quiet = Some Quiet"
    "system_action_data w = Some d \<Longrightarrow> action_timer w = Some (d, system_action_idle_inhibited_delay)"
  using assms by (auto simp: action_inv_def action_phase_of_def split: option.splits prod.splits if_splits)

lemma action_inv_replace_im: "action_inv w \<Longrightarrow> im_inv im \<Longrightarrow> action_inv (w\<lparr>inhibit_manager := im\<rparr>)"
  by (auto simp: action_inv_def action_phase_of_def split: option.splits prod.splits)

text \<open>Performing the action that waits, with its timer or without.\<close>

lemma system_action_idle_cb_out:
  "mg_out (system_action_idle_cb E d w) = mg_out w @
     [Command_Run (sa_command d), Answer (sa_context d) (if mv_spawn_ok E then Complete else Throw CK_MANAGER_ERROR_GENERAL),
      prepare_signal (sa_signal d) False]"
  by (simp add: system_action_idle_cb_def)

lemma system_action_idle_cb_inv:
  assumes "im_inv (inhibit_manager w)" and "run phase_step (mg_out w) Quiet = Some (Announced (sa_signal d))"
  shows "action_inv (system_action_idle_cb E d w)"
  using assms
  by (simp add: action_inv_def action_phase_of_def system_action_idle_cb_out run_append phase_end)
    (simp add: system_action_idle_cb_def)

lemma begin_action_inv:
  assumes "action_inv w" and "mv_timeout_id E \<noteq> 0"
  shows "action_inv (begin_action E delayed d w)"
proof (cases "system_action_idle_id w = 0")
  case True
  then have "action_phase_of w = Quiet" using assms(1) by (simp add: action_inv_def action_phase_of_def)
  with True assms show ?thesis
    by (auto simp: begin_action_def action_inv_def action_phase_of_def run_append phase_begin Let_def
        system_action_idle_delay_def system_action_idle_inhibited_delay_def split: option.splits)
next
  case False
  with assms show ?thesis by (simp add: begin_action_def)
qed

lemmas starters = do_restart_def do_stop_def do_suspend_def do_hibernate_def do_hybrid_sleep_def

lemma authority_answers_inv:
  assumes "action_inv w" and "mv_timeout_id E \<noteq> 0"
  shows "action_inv (authority_answers E k r w)"
  using assms
  by (auto simp: authority_answers_def ready_cb_def logind_ready_cb_def auth_ready_callback_def starters Let_def
      begin_action_inv split: auth_result.split auth_callback.split)

lemma timer_fires_inv: "action_inv w \<Longrightarrow> action_inv (timer_fires E w)"
  by (auto simp: timer_fires_def intro!: system_action_idle_cb_inv intro: action_invD split: option.splits)

text \<open>A notification either changes nothing or performs the action that waits.\<close>

lemma changed_event_cases:
  assumes "action_inv w"
  obtains "on_inhibit_manager_changed_event E n w = w"
  | d t where "action_timer w = Some (d, t)" "system_action_data w = Some d"
      "on_inhibit_manager_changed_event E n w =
        system_action_idle_cb E d (w\<lparr>action_timer := None, system_action_idle_id := 0\<rparr>)"
proof (cases "on_inhibit_manager_changed_event E n w = w")
  case False
  obtain d where d: "system_action_data w = Some d"
    using False by (auto simp: on_inhibit_manager_changed_event_def split: prod.splits if_splits option.splits)
  note t = action_invD(5) [OF assms d]
  have "on_inhibit_manager_changed_event E n w =
      system_action_idle_cb E d (w\<lparr>action_timer := None, system_action_idle_id := 0\<rparr>)"
    using False d by (auto simp: on_inhibit_manager_changed_event_def split: prod.splits if_splits)
  with d t that show ?thesis by blast
qed (use that in blast)

lemma changed_event_inv:
  assumes "action_inv w"
  shows "action_inv (on_inhibit_manager_changed_event E n w)"
  using assms
proof (cases rule: changed_event_cases [where E = E and n = n])
  case (2 d t)
  then show ?thesis
    using action_invD [OF assms] by (auto intro!: system_action_idle_cb_inv)
qed (use assms in simp)

lemma with_inhibit_manager_inv:
  assumes "action_inv w" and "im_inv im"
  shows "action_inv (with_inhibit_manager E im w)"
proof -
  have "action_inv (fold (on_inhibit_manager_changed_event E) ns v)" if "action_inv v" for ns v
    using that by (induction ns arbitrary: v) (auto intro: changed_event_inv)
  with action_inv_replace_im [OF assms] show ?thesis unfolding with_inhibit_manager_def by blast
qed

lemma with_same_inhibit_manager [simp]: "with_inhibit_manager E (inhibit_manager w) w = w"
  by (simp add: with_inhibit_manager_def new_notifications_def)

text \<open>Every outcome of \<open>Inhibit\<close>: a state of the inhibit manager and one answer.\<close>

lemma dbus_inhibit_result:
  assumes "im_inv (inhibit_manager w)" and "pipe_env_ok P"
  shows "\<exists>im x. dbus_inhibit E P sender ctx awhat awho awhy amode w = Some (out x (with_inhibit_manager E im w)) \<and>
    im_inv im \<and> ((\<exists>r. x = Answer ctx r) \<or> (\<exists>fd. x = Answer_Fd ctx fd))"
proof (cases "manager_get_caller_info E sender")
  case None
  then show ?thesis
    using assms by (intro exI [of _ "inhibit_manager w"]) (auto simp: dbus_inhibit_def throw_error_def)
next
  case (Some up)
  obtain u p where up: "up = (u, p)" by (cases up)
  obtain fd im where im: "ck_inhibit_manager_create_lock P (Some awho) (Some awhat) (Some awhy) (Some amode) u p
      (inhibit_manager w) = Some (fd, im)" "im_inv im"
    using im_inv_create [OF assms] by blast
  show ?thesis
    by (rule exI [of _ im], simp add: dbus_inhibit_def throw_error_def Some up im Let_def) blast
qed

lemma action_step_inv:
  assumes "action_inv w" and "action_event_ok e"
  shows "\<exists>w'. action_step e w = Some w' \<and> action_inv w'"
proof (cases e)
  case (Inhibit E P sender ctx awhat awho awhy amode)
  with dbus_inhibit_result [OF action_invD(1) [OF assms(1)], of P E sender ctx awhat awho awhy amode] assms
  obtain im x where "action_step e w = Some (out x (with_inhibit_manager E im w))" "im_inv im"
    "(\<exists>r. x = Answer ctx r) \<or> (\<exists>fd. x = Answer_Fd ctx fd)" by auto
  then show ?thesis using with_inhibit_manager_inv [OF assms(1)] by auto
next
  case (Client_Gone E a)
  with assms im_inv_hangup [of "inhibit_manager w" a] show ?thesis
    by (auto simp: lock_released_def with_inhibit_manager_inv action_inv_def [of w])
qed (use assms in \<open>simp_all add: dbus_restart_def dbus_stop_def dbus_power_off_def dbus_reboot_def dbus_suspend_def
    dbus_hibernate_def dbus_hybrid_sleep_def authority_answers_inv timer_fires_inv\<close>)

interpretation act: machine action_step action_event_ok "\<lambda>w. \<exists>E vt. w = ck_manager_init E vt" action_inv
proof unfold_locales
  show "action_inv w" if "\<exists>E vt. w = ck_manager_init E vt" for w
    using that by (auto simp: action_inv_def action_phase_of_def ck_manager_init_def)
qed (rule action_step_inv)

text \<open>
  \<open>carries w w'\<close>: the output only grew, and the action that waited in \<open>w\<close> still waits in \<open>w'\<close>
  or was performed.
\<close>

definition carries :: "manager_world \<Rightarrow> manager_world \<Rightarrow> bool" where
  "carries w w' =
     (\<exists>ys. mg_out w' = mg_out w @ ys \<and>
       (\<forall>d t. action_timer w = Some (d, t) \<longrightarrow>
          action_timer w' = Some (d, t) \<or> Command_Run (sa_command d) \<in> set ys))"

lemma carriesI:
  "mg_out w' = mg_out w @ ys \<Longrightarrow>
   (\<And>d t. action_timer w = Some (d, t) \<Longrightarrow> action_timer w' \<noteq> Some (d, t) \<Longrightarrow> Command_Run (sa_command d) \<in> set ys) \<Longrightarrow>
   carries w w'"
  unfolding carries_def by blast

lemma carries_refl [simp]: "carries w w"
  by (simp add: carries_def)

lemma carries_trans: "carries w w' \<Longrightarrow> carries w' w'' \<Longrightarrow> carries w w''"
  unfolding carries_def by fastforce

lemma carries_out [simp]:
  "carries w (out x w)" "carries w (throw_error context e w)" "carries w (check_system_action b context a cb w)"
  by (auto simp: carries_def throw_error_def check_system_action_def check_polkit_permissions_def)

lemma carries_begin_action:
  assumes "action_inv w"
  shows "carries w (begin_action E delayed d w)"
  using assms
  by (auto simp: begin_action_def carries_def throw_error_def action_inv_def Let_def)

lemma carries_auth_pending [simp]: "carries (w\<lparr>auth_pending := qs\<rparr>) w' = carries w w'"
  by (simp add: carries_def)

lemma carries_authority_answers:
  assumes "action_inv w"
  shows "carries w (authority_answers E k r w)"
proof -
  have "carries w (begin_action E delayed d (w\<lparr>auth_pending := qs\<rparr>))" for delayed d qs
    using carries_begin_action [of "w\<lparr>auth_pending := qs\<rparr>"] assms by simp
  moreover have "carries w (out x (w\<lparr>auth_pending := qs\<rparr>))" "carries w (w\<lparr>auth_pending := qs\<rparr>)" for x qs
    by (simp_all add: carries_def)
  ultimately show ?thesis
    by (auto simp: authority_answers_def ready_cb_def logind_ready_cb_def auth_ready_callback_def starters Let_def
        throw_error_def split: auth_result.split auth_callback.split)
qed

lemma timer_fires_performs:
  assumes "action_timer w = Some (d, t)"
  shows "mg_out (timer_fires E w) = mg_out w @
     [Command_Run (sa_command d), Answer (sa_context d) (if mv_spawn_ok E then Complete else Throw CK_MANAGER_ERROR_GENERAL),
      prepare_signal (sa_signal d) False]"
  using assms by (simp add: timer_fires_def system_action_idle_cb_out)

lemma carries_timer_fires: "carries w (timer_fires E w)"
proof (cases "action_timer w")
  case (Some p)
  obtain d t where "p = (d, t)" by (cases p)
  with Some show ?thesis by (intro carriesI [OF timer_fires_performs]) auto
qed (simp add: timer_fires_def)

lemma carries_changed_event:
  assumes "action_inv w"
  shows "carries w (on_inhibit_manager_changed_event E n w)"
  using assms
proof (cases rule: changed_event_cases [where E = E and n = n])
  case (2 d t)
  then show ?thesis by (auto simp: carries_def system_action_idle_cb_out)
qed simp

lemma carries_changed_events: "action_inv w \<Longrightarrow> carries w (fold (on_inhibit_manager_changed_event E) ns w)"
  by (induction ns arbitrary: w) (auto intro: changed_event_inv carries_changed_event carries_trans)

lemma carries_with_inhibit_manager:
  assumes "action_inv w" and "im_inv im"
  shows "carries w (with_inhibit_manager E im w)"
proof -
  note carries_changed_events [OF action_inv_replace_im [OF assms]]
  moreover have "carries w (w\<lparr>inhibit_manager := im\<rparr>)" by (simp add: carries_def)
  ultimately show ?thesis unfolding with_inhibit_manager_def by (blast intro: carries_trans)
qed

lemma carries_step:
  assumes "action_inv w" and "action_event_ok e" and "action_step e w = Some w'"
  shows "carries w w'"
proof (cases e)
  case (Inhibit E P sender ctx awhat awho awhy amode)
  with dbus_inhibit_result [OF action_invD(1) [OF assms(1)], of P E sender ctx awhat awho awhy amode] assms
  obtain im x where "w' = out x (with_inhibit_manager E im w)" "im_inv im" by auto
  with carries_with_inhibit_manager [OF assms(1)] carries_out(1) show ?thesis by (blast intro: carries_trans)
next
  case (Client_Gone E a)
  with assms im_inv_hangup [of "inhibit_manager w" a] show ?thesis
    by (auto simp: lock_released_def carries_with_inhibit_manager action_inv_def [of w])
qed (use assms in \<open>auto simp: dbus_restart_def dbus_stop_def dbus_power_off_def dbus_reboot_def dbus_suspend_def
    dbus_hibernate_def dbus_hybrid_sleep_def carries_authority_answers carries_timer_fires\<close>)

lemma carries_run:
  assumes "action_inv w" and "list_all action_event_ok es" and "run action_step es w = Some w'"
  shows "carries w w'"
  using assms
proof (induction es arbitrary: w)
  case (Cons e es)
  obtain v where v: "action_step e w = Some v" "action_inv v" using action_step_inv [of w e] Cons.prems by auto
  with Cons have "carries v w'" by simp
  with carries_step [OF Cons.prems(1) _ v(1)] Cons.prems show ?case by (auto intro: carries_trans)
qed simp

text \<open>Notifications are only added; a status that changes was notified.\<close>

definition extends :: "CkInhibitManager \<Rightarrow> CkInhibitManager \<Rightarrow> bool" where
  "extends s s' = (\<exists>ns. notified s' = ns @ notified s)"

lemma extends_refl [simp]: "extends s s"
  by (simp add: extends_def)

lemma extends_trans: "extends s s' \<Longrightarrow> extends s' s'' \<Longrightarrow> extends s s''"
  by (auto simp: extends_def)

lemma extends_closing_step: "extends s (closing_step a ev s)"
  by (auto simp: extends_def closing_step_def signal_down_def count_down_def drop_unnamed_def clear_event_def
      add_count_def emit_changed_event_def Let_def split: option.split)

lemma extends_closing: "extends s (fold (closing_step a) evs s)"
  by (induction evs arbitrary: s) (auto intro: extends_trans extends_closing_step)

lemma extends_shut: "extends s (fold (closing_step a) evs (shut a s))"
  using extends_closing [of "shut a s"] by (simp add: extends_def)

lemma new_notification:
  assumes "extends s s'" and "last_notified s m ev" and "\<not> last_notified s' m ev"
  shows "(m, ev, False) \<in> set (new_notifications s s')"
proof -
  obtain ns where ns: "notified s' = ns @ notified s" using assms(1) by (auto simp: extends_def)
  have "(m, ev, False) \<in> set ns"
  proof (rule ccontr)
    assume "(m, ev, False) \<notin> set ns"
    then have "last_notified s' m ev"
      unfolding last_notified_def ns
      using assms(2) by (induction ns) (auto simp: last_notified_def)
    with assms(3) show False by simp
  qed
  with ns show ?thesis by (simp add: new_notifications_def)
qed

text \<open>A waiting action is performed by the release of any delay lock on sleep or shutdown.\<close>

lemma release_performs:
  assumes "action_inv w" and "system_action_data w = Some d" and "(CK_INHIBIT_MODE_DELAY, ev, False) \<in> set ns"
    and "ev \<in> {CK_INHIBIT_EVENT_SUSPEND, CK_INHIBIT_EVENT_SHUTDOWN}"
  shows "\<exists>ys. mg_out (fold (on_inhibit_manager_changed_event E) ns w) = mg_out w @ ys \<and> Command_Run (sa_command d) \<in> set ys"
  using assms(1-3)
proof (induction ns arbitrary: w)
  case (Cons n ns)
  let ?v = "on_inhibit_manager_changed_event E n w"
  note rest = carries_changed_events [OF changed_event_inv [OF Cons.prems(1)]]
  show ?case
  proof (cases "?v = w")
    case True
    have "on_inhibit_manager_changed_event E (CK_INHIBIT_MODE_DELAY, ev, False) w \<noteq> w"
    proof -
      have "system_action_idle_id w \<noteq> 0" using Cons.prems(1,2) action_invD by fastforce
      moreover have "mg_out (system_action_idle_cb E d v) \<noteq> mg_out v" for v by (simp add: system_action_idle_cb_out)
      ultimately have "mg_out (on_inhibit_manager_changed_event E (CK_INHIBIT_MODE_DELAY, ev, False) w) \<noteq> mg_out w"
        using Cons.prems(2) assms(4) by (cases "sa_signal d") (auto simp: on_inhibit_manager_changed_event_def system_action_idle_cb_out)
      then show ?thesis by metis
    qed
    with True Cons show ?thesis by auto
  next
    case False
    obtain d' t where "action_timer w = Some (d', t)" "system_action_data w = Some d'"
      "?v = system_action_idle_cb E d' (w\<lparr>action_timer := None, system_action_idle_id := 0\<rparr>)"
      using changed_event_cases [OF Cons.prems(1), of E n] False by metis
    then have "\<exists>zs. mg_out ?v = mg_out w @ Command_Run (sa_command d) # zs"
      using Cons.prems(2) by (simp add: system_action_idle_cb_out)
    with rest [of E n E ns] show ?thesis by (auto simp: carries_def)
  qed
qed simp

lemma release_notified_performs:
  assumes "action_inv w" and "im_inv im" and "ev \<in> {CK_INHIBIT_EVENT_SUSPEND, CK_INHIBIT_EVENT_SHUTDOWN}"
    and "(CK_INHIBIT_MODE_DELAY, ev, False) \<in> set (new_notifications (inhibit_manager w) im)"
  shows "\<exists>ys. mg_out (with_inhibit_manager E im w) = mg_out w @ ys \<and>
    (system_action_data w = Some d \<longrightarrow> Command_Run (sa_command d) \<in> set ys)"
proof (cases "system_action_data w = Some d")
  case True
  then show ?thesis
    using release_performs [OF action_inv_replace_im [OF assms(1,2)] _ assms(4,3), of d E]
    by (simp add: with_inhibit_manager_def)
next
  case False
  then show ?thesis using carries_with_inhibit_manager [OF assms(1,2), of E] by (auto simp: carries_def)
qed

lemma with_inhibit_manager_im [simp]: "inhibit_manager (with_inhibit_manager E im w) = im"
proof -
  have "inhibit_manager (on_inhibit_manager_changed_event E n v) = inhibit_manager v" for n v
    by (auto simp: on_inhibit_manager_changed_event_def system_action_idle_cb_def split: option.split prod.split)
  then have "inhibit_manager (fold (on_inhibit_manager_changed_event E) ns v) = inhibit_manager v" for ns v
    by (induction ns arbitrary: v) auto
  then show ?thesis by (simp add: with_inhibit_manager_def)
qed

section \<open>Properties\<close>

text \<open>
  C1: The manager refines the specification of a system action: whatever is requested, however
  the authority answers, whenever timers fire and locks come and go, each action is announced,
  performed exactly once and its end announced with the same signal before another begins, and
  the specification is in an announced phase just while an action waits.
\<close>

theorem system_actions_refine_phases:
  assumes "list_all action_event_ok es"
  shows "\<exists>w. run action_step es (ck_manager_init SE vt) = Some w \<and>
    run phase_step (mg_out w) Quiet = Some (action_phase_of w)"
  using act.run_returns [of "ck_manager_init SE vt" es] assms by (auto simp: action_inv_def)

definition restart_run :: "action_event list" where
  "restart_run =
     [Inhibit sample_menv (sample_env 4) (Some '':1.7'') 1 ''shutdown'' ''app'' ''saving'' ''delay'',
      Restart sample_menv 2, Authority_Answers sample_menv 0 Authorized]"

lemma restart_run_ok: "list_all action_event_ok restart_run" "list_all action_event_ok [Timer_Fires sample_menv]"
  by (simp_all add: restart_run_def) (simp add: sample_menv_def)

lemmas action_eval = empty_manager_def ck_manager_init_def restart_run_def dbus_inhibit_def manager_get_caller_info_def
  with_inhibit_manager_def new_notifications_def on_inhibit_manager_changed_event_def dbus_restart_def
  check_system_action_def check_polkit_permissions_def authority_answers_def auth_ready_callback_def do_restart_def
  begin_action_def timer_fires_def system_action_idle_cb_def do_system_action_def prepare_signal_def
  log_system_action_event_def log_event_def throw_error_def out_def action_phase_of_def
  ck_inhibit_manager_is_shutdown_blocked_def ck_inhibit_manager_is_shutdown_delayed_def Let_def
  system_action_idle_delay_def system_action_idle_inhibited_delay_def

lemma sample_callers [simp]:
  "mv_caller_uid sample_menv n = Some 1000" "mv_caller_pid sample_menv n = Some 42" "mv_timeout_id sample_menv = 9"
  "mv_libdir sample_menv = ''/usr/lib''" "mv_spawn_ok sample_menv"
  by (simp_all add: sample_menv_def)

lemma restart_run_state:
  "\<exists>w d. run action_step restart_run empty_manager = Some w \<and> action_timer w = Some (d, 8000) \<and>
     sa_command d = ''/usr/lib/ConsoleKit/scripts/ck-system-restart'' \<and> system_action_data w = Some d \<and>
     length (mg_out w) = 2 \<and> sa_signal d = PREPARE_FOR_SHUTDOWN \<and>
     ck_inhibit_manager_is_shutdown_delayed (inhibit_manager w) \<and>
     \<not> ck_inhibit_manager_is_suspend_delayed (inhibit_manager w) \<and> all_named (inhibit_manager w) \<and>
     next_obj (inhibit_manager w) = 1"
  by (simp add: action_eval sample_eval ck_inhibit_manager_is_suspend_delayed_def all_named_def)

theorem system_actions_refine_phases_witness:
  "\<exists>w. run action_step restart_run empty_manager = Some w \<and>
    run phase_step (mg_out w) Quiet = Some (Announced PREPARE_FOR_SHUTDOWN)"
proof -
  obtain w where "run action_step restart_run empty_manager = Some w" "run phase_step (mg_out w) Quiet = Some (action_phase_of w)"
    using system_actions_refine_phases [OF restart_run_ok(1)] unfolding empty_manager_def by blast
  with restart_run_state show ?thesis by (auto simp: action_phase_of_def)
qed

text \<open>
  C7: An announced action is performed at the latest when its timer fires, whatever requests,
  answers, locks and releases come in between: nothing cancels it.
\<close>

theorem announced_action_is_performed:
  assumes "list_all action_event_ok es" and "run action_step es (ck_manager_init SE vt) = Some w"
    and "action_timer w = Some (d, t)" and "list_all action_event_ok later"
  shows "\<exists>w'. run action_step (later @ [Timer_Fires E]) w = Some w' \<and>
    Command_Run (sa_command d) \<in> set (drop (length (mg_out w)) (mg_out w'))"
proof -
  have "action_inv w" using act.run_returns [of "ck_manager_init SE vt" es] assms(1,2) by auto
  moreover from act.inv_run [OF this assms(4)]
  obtain v where v: "run action_step later w = Some v" "action_inv v" by blast
  ultimately have "carries w v" using carries_run assms(4) by blast
  then obtain ys where ys: "mg_out v = mg_out w @ ys"
    "action_timer v = Some (d, t) \<or> Command_Run (sa_command d) \<in> set ys"
    using assms(3) by (auto simp: carries_def)
  have "\<exists>zs. mg_out (timer_fires E v) = mg_out v @ zs" using carries_timer_fires [of v E] by (auto simp: carries_def)
  with ys have "Command_Run (sa_command d) \<in> set (drop (length (mg_out w)) (mg_out (timer_fires E v)))"
    using timer_fires_performs [of v d t E] by auto
  with v show ?thesis by (simp add: run_append)
qed

theorem announced_action_is_performed_witness:
  "\<exists>w w'. run action_step restart_run empty_manager = Some w \<and>
     run action_step ([Restart sample_menv 3] @ [Timer_Fires sample_menv]) w = Some w' \<and>
     Command_Run ''/usr/lib/ConsoleKit/scripts/ck-system-restart'' \<in> set (drop 2 (mg_out w'))"
proof -
  obtain w d where w: "run action_step restart_run empty_manager = Some w" "action_timer w = Some (d, 8000)"
    "sa_command d = ''/usr/lib/ConsoleKit/scripts/ck-system-restart''" "length (mg_out w) = 2"
    using restart_run_state by blast
  from announced_action_is_performed [OF restart_run_ok(1) w(1) [unfolded empty_manager_def] w(2),
      of "[Restart sample_menv 3]" sample_menv] w show ?thesis by auto
qed

text \<open>
  C12: An open block lock is respected at the time of the request: in every reachable state, while
  some client holds a block lock on shutdown, restart, stop, power off and reboot are refused with
  the error INHIBITED and nothing else happens; likewise for sleep and the three ways to sleep.
\<close>

theorem block_locks_refuse_requests:
  assumes "list_all action_event_ok es" and "run action_step es (ck_manager_init SE vt) = Some w"
    and "lock_held (inhibit_manager w) CK_INHIBIT_MODE_BLOCK ev a"
  shows "(ev = CK_INHIBIT_EVENT_SHUTDOWN \<longrightarrow>
       (\<forall>f \<in> {dbus_restart E c, dbus_stop E c, dbus_power_off E c i, dbus_reboot E c i}.
          f w = throw_error c CK_MANAGER_ERROR_INHIBITED w)) \<and>
     (ev = CK_INHIBIT_EVENT_SUSPEND \<longrightarrow>
       (\<forall>f \<in> {dbus_suspend E c i, dbus_hibernate E c i, dbus_hybrid_sleep E c i}.
          f w = throw_error c CK_MANAGER_ERROR_INHIBITED w))"
proof -
  have "im_inv (inhibit_manager w)"
    using act.run_returns [of "ck_manager_init SE vt" es] assms(1,2) action_invD(1) by auto
  then have "get_inhibit_status (inhibit_manager w) ev CK_INHIBIT_MODE_BLOCK" using assms(3) by (rule held_status)
  then show ?thesis
    by (auto simp: dbus_restart_def dbus_stop_def dbus_power_off_def dbus_reboot_def dbus_suspend_def dbus_hibernate_def
        dbus_hybrid_sleep_def ck_inhibit_manager_is_shutdown_blocked_def ck_inhibit_manager_is_suspend_blocked_def)
qed

theorem block_locks_refuse_requests_witness:
  "\<exists>w. run action_step [Inhibit sample_menv (sample_env 4) (Some '':1.7'') 1 ''shutdown'' ''app'' ''saving'' ''block'']
      empty_manager = Some w \<and> dbus_reboot sample_menv 2 True w = throw_error 2 CK_MANAGER_ERROR_INHIBITED w"
proof -
  let ?es = "[Inhibit sample_menv (sample_env 4) (Some '':1.7'') 1 ''shutdown'' ''app'' ''saving'' ''block'']"
  obtain w where w: "run action_step ?es empty_manager = Some w"
    "lock_held (inhibit_manager w) CK_INHIBIT_MODE_BLOCK CK_INHIBIT_EVENT_SHUTDOWN 0"
    by (simp add: action_eval sample_eval)
  have "list_all action_event_ok ?es" by simp
  from block_locks_refuse_requests [OF this w(1) [unfolded empty_manager_def] w(2), of sample_menv 2 True] w(1)
  show ?thesis by blast
qed

text \<open>
  The number of users that decides whether an action needs the authorization for multiple
  users is the number of distinct names of users who own a session, display managers and users
  without a name left out.
\<close>

theorem num_users_counts_real_users:
  "get_system_num_users E w =
     card {n. \<exists>ssid a. (ssid, a) \<in> set (mg_sessions w) \<and> session_is_real_user E (sess w a) = Some (Some n)}"
proof -
  let ?names = "\<lambda>kvs. {n. \<exists>ssid a. (ssid, a) \<in> set kvs \<and> session_is_real_user E (sess w a) = Some (Some n)}"
  have step: "ht_wf (collect_users E w kv h) \<and> fst ` set (collect_users E w kv h) = fst ` set h \<union> ?names [kv]"
    if "ht_wf h" for kv h
    using that by (cases kv) (auto simp: collect_users_def set_ht_insert image_iff split: option.split)
  have "ht_wf (fold (collect_users E w) kvs h) \<and>
      fst ` set (fold (collect_users E w) kvs h) = fst ` set h \<union> ?names kvs" if "ht_wf h" for kvs h
    using that
  proof (induction kvs arbitrary: h)
    case (Cons kv kvs)
    with step [of h kv] show ?case by (cases kv) auto
  qed simp
  from this [of "[]" "mg_sessions w"]
  show ?thesis
    by (simp add: get_system_num_users_def ht_wf_def) (metis distinct_card length_map list.set_map)
qed

text \<open>
  C40: The delay of a restart or stop is cut short by the wrong lock. While the action waits for
  clients that delay shutdown, a client that takes and drops a delay lock on sleep only makes
  the manager perform the action at once, although shutdown is still delayed.
\<close>

theorem sleep_lock_release_ends_shutdown_delay:
  assumes "action_inv w" and "all_named (inhibit_manager w)" and "system_action_data w = Some d"
    and "sa_signal d = PREPARE_FOR_SHUTDOWN" and "ck_inhibit_manager_is_shutdown_delayed (inhibit_manager w)"
    and "\<not> ck_inhibit_manager_is_suspend_delayed (inhibit_manager w)"
    and "pipe_env_ok P" and "lock_granted P awhat ''delay''" and "what_events awhat = {CK_INHIBIT_EVENT_SUSPEND}"
    and "manager_get_caller_info E sender = Some (u, p)"
  shows "\<exists>w1 w2. dbus_inhibit E P sender c awhat awho awhy ''delay'' w = Some w1 \<and>
    lock_released E (next_obj (inhibit_manager w)) w1 = Some w2 \<and>
    Command_Run (sa_command d) \<in> set (drop (length (mg_out w)) (mg_out w2)) \<and>
    ck_inhibit_manager_is_shutdown_delayed (inhibit_manager w2)"
proof -
  let ?s = "inhibit_manager w" and ?a = "next_obj (inhibit_manager w)"
  note inv = action_invD(1) [OF assms(1)]
  obtain s1 where c: "ck_inhibit_manager_create_lock P (Some awho) (Some awhat) (Some awhy) (Some ''delay'') u p ?s
      = Some (client_fd P, s1)"
    using create_lock_granted [OF assms(8,7)] by blast
  have fd: "\<not> client_fd P < 0" using assms(7,8) by (auto simp: pipe_env_ok_def lock_granted_def)
  have s1: "im_inv s1" using im_inv_create [OF inv assms(7), of awho awhat awhy "''delay''" u p] c by auto
  note g = granted_state [OF assms(8,7) inv c]
  let ?t = "fold (closing_step ?a) event_order (shut ?a s1)"
  let ?w1 = "out (Answer_Fd c (client_fd P)) (with_inhibit_manager E s1 w)"
  have w1: "dbus_inhibit E P sender c awhat awho awhy ''delay'' w = Some ?w1"
    using assms(10) c fd by (simp add: dbus_inhibit_def)
  have inv1: "action_inv ?w1" using with_inhibit_manager_inv [OF assms(1) s1] by simp
  have "carries w ?w1" by (rule carries_trans [OF carries_with_inhibit_manager [OF assms(1) s1] carries_out(1)])
  then obtain ys where ys: "mg_out ?w1 = mg_out w @ ys"
    "system_action_data ?w1 = Some d \<or> Command_Run (sa_command d) \<in> set ys"
    using action_invD(5) [OF assms(1,3)] inv1 by (auto simp: carries_def action_inv_def split: if_splits)
  have hang: "lock_hangup ?a s1 = Some ?t" using lock_hangup_eq [OF g(11), of ?a] g(4,5) by simp
  have t: "im_inv ?t" using im_inv_hangup [OF s1, of ?a] hang by simp
  have counts: "lock_counts ?t = lock_counts ?s"
    using release_counts [OF assms(8,7) inv assms(2) c refl] assms(9) by (auto simp: fun_eq_iff)
  have "last_notified s1 CK_INHIBIT_MODE_DELAY CK_INHIBIT_EVENT_SUSPEND"
    using im_coreD(5) [OF im_invD(1) [OF s1]] g(10) im_coreD(4) [OF im_invD(1) [OF inv]] assms(9)
    by (fastforce simp: get_inhibit_status_def lock_mode_def)
  moreover have "\<not> last_notified ?t CK_INHIBIT_MODE_DELAY CK_INHIBIT_EVENT_SUSPEND"
    using im_coreD(5) [OF im_invD(1) [OF t]] counts assms(6)
    by (simp add: get_inhibit_status_def ck_inhibit_manager_is_suspend_delayed_def)
  ultimately have "(CK_INHIBIT_MODE_DELAY, CK_INHIBIT_EVENT_SUSPEND, False) \<in> set (new_notifications s1 ?t)"
    by (rule new_notification [OF extends_shut])
  with release_notified_performs [OF inv1 t, of CK_INHIBIT_EVENT_SUSPEND E d]
  obtain zs where "mg_out (with_inhibit_manager E ?t ?w1) = mg_out ?w1 @ zs"
      "system_action_data ?w1 = Some d \<longrightarrow> Command_Run (sa_command d) \<in> set zs" by auto
  with ys have "Command_Run (sa_command d) \<in> set (drop (length (mg_out w)) (mg_out (with_inhibit_manager E ?t ?w1)))"
    by auto
  moreover have "lock_released E ?a ?w1 = Some (with_inhibit_manager E ?t ?w1)" by (simp add: lock_released_def hang)
  moreover have "ck_inhibit_manager_is_shutdown_delayed (inhibit_manager (with_inhibit_manager E ?t ?w1))"
    using counts assms(5) by (simp add: ck_inhibit_manager_is_shutdown_delayed_def get_inhibit_status_def)
  ultimately show ?thesis using w1 by blast
qed

theorem sleep_lock_release_ends_shutdown_delay_witness:
  "\<exists>w w1 w2. run action_step restart_run empty_manager = Some w \<and>
    dbus_inhibit sample_menv (sample_env 6) (Some '':1.8'') 3 ''sleep'' ''other'' ''play'' ''delay'' w = Some w1 \<and>
    lock_released sample_menv 1 w1 = Some w2 \<and>
    Command_Run ''/usr/lib/ConsoleKit/scripts/ck-system-restart'' \<in> set (drop 2 (mg_out w2)) \<and>
    ck_inhibit_manager_is_shutdown_delayed (inhibit_manager w2)"
proof -
  obtain w d where w: "run action_step restart_run empty_manager = Some w" "system_action_data w = Some d"
    "sa_command d = ''/usr/lib/ConsoleKit/scripts/ck-system-restart''" "length (mg_out w) = 2"
    "sa_signal d = PREPARE_FOR_SHUTDOWN" "ck_inhibit_manager_is_shutdown_delayed (inhibit_manager w)"
    "\<not> ck_inhibit_manager_is_suspend_delayed (inhibit_manager w)" "all_named (inhibit_manager w)"
    "next_obj (inhibit_manager w) = 1"
    using restart_run_state by blast
  have inv: "action_inv w"
    using act.run_returns [of empty_manager, OF _ restart_run_ok(1)] w(1) by (auto simp: empty_manager_def)
  have "what_events ''sleep'' = {CK_INHIBIT_EVENT_SUSPEND}"
    by (auto simp: what_events_def what_tokens_def g_strsplit_def inhibitor_of_token_def)
  moreover from this have "lock_granted (sample_env 6) ''sleep'' ''delay''"
    by (simp add: lock_granted_def sample_env_def get_named_pipe_path_def)
  moreover have "manager_get_caller_info sample_menv (Some '':1.8'') = Some (1000, 42)" by (simp add: manager_get_caller_info_def)
  ultimately show ?thesis
    using sleep_lock_release_ends_shutdown_delay [OF inv w(8,2,5,6,7) sample_env_ok,
        of 6 "''sleep''" sample_menv "Some '':1.8''" 1000 42 3 "''other''" "''play''"] w by auto
qed

text \<open>
  A block lock taken between a request and the answer of the authority has no effect. The
  lock is granted and reported, yet the authorized restart is announced and performed while the
  lock is held: the starting functions do not look at block locks.
\<close>

theorem late_block_lock_is_ignored:
  assumes "action_inv w" and "auth_pending w = []" and "action_timer w = None"
    and "\<not> ck_inhibit_manager_is_shutdown_blocked (inhibit_manager w)"
    and "pipe_env_ok P" and "lock_granted P ''shutdown'' ''block''"
    and "manager_get_caller_info E sender = Some (u, p)" and "mv_timeout_id E \<noteq> 0"
  shows "\<exists>w'. run action_step [Restart E c, Inhibit E P sender c' ''shutdown'' awho awhy ''block'',
      Authority_Answers E 0 Authorized, Timer_Fires E] w = Some w' \<and>
    Command_Run (mv_libdir E @ ''/ConsoleKit/scripts/ck-system-restart'') \<in> set (drop (length (mg_out w)) (mg_out w')) \<and>
    lock_held (inhibit_manager w') CK_INHIBIT_MODE_BLOCK CK_INHIBIT_EVENT_SHUTDOWN (next_obj (inhibit_manager w))"
proof -
  let ?s = "inhibit_manager w"
  note inv = action_invD(1) [OF assms(1)]
  obtain s1 where c: "ck_inhibit_manager_create_lock P (Some awho) (Some ''shutdown'') (Some awhy) (Some ''block'') u p ?s
      = Some (client_fd P, s1)"
    using create_lock_granted [OF assms(6,5)] by blast
  have fd: "\<not> client_fd P < 0" using assms(5,6) by (auto simp: pipe_env_ok_def lock_granted_def)
  note g = granted_state [OF assms(6,5) inv c]
  define w1 where "w1 = dbus_restart E c w"
  have w1: "auth_pending w1 = [\<lparr>ar_context = c, ar_action = action_name E ''restart'' w, ar_interactive = True,
      ar_callback = Do_Restart\<rparr>]" "system_action_idle_id w1 = 0" "mg_out w1 = mg_out w" "inhibit_manager w1 = ?s"
    using assms(1-4) action_invD(2) [OF assms(1)]
    by (auto simp: w1_def dbus_restart_def check_system_action_def check_polkit_permissions_def)
  define w2 where "w2 = out (Answer_Fd c' (client_fd P)) (w1\<lparr>inhibit_manager := s1\<rparr>)"
  have quiet: "fold (on_inhibit_manager_changed_event E) ns v = v" if "system_action_idle_id v = 0" for ns v
    using that by (induction ns) (auto simp: on_inhibit_manager_changed_event_def)
  have w2: "dbus_inhibit E P sender c' ''shutdown'' awho awhy ''block'' w1 = Some w2"
    using assms(7) c fd w1(2,4) by (simp add: dbus_inhibit_def w2_def with_inhibit_manager_def quiet)
  define w3 where "w3 = authority_answers E 0 Authorized w2"
  have w3: "\<exists>d t zs. action_timer w3 = Some (d, t) \<and> mg_out w3 = mg_out w @ zs \<and>
      sa_command d = mv_libdir E @ ''/ConsoleKit/scripts/ck-system-restart''" "inhibit_manager w3 = s1"
    using w1 assms(8)
    by (auto simp: w3_def w2_def authority_answers_def auth_ready_callback_def do_restart_def begin_action_def Let_def)
  have "lock_held (inhibit_manager (timer_fires E w3)) CK_INHIBIT_MODE_BLOCK CK_INHIBIT_EVENT_SHUTDOWN (next_obj ?s)"
    using w3 g(5,7,8)
    by (auto simp: timer_fires_def system_action_idle_cb_def lock_held_def lock_mode_def what_events_def what_tokens_def
        g_strsplit_def inhibitor_of_token_def)
  with w3(1) timer_fires_performs [of w3 _ _ E] show ?thesis
    by (auto simp: w1_def [symmetric] w2 w3_def [symmetric])
qed

theorem late_block_lock_is_ignored_witness:
  "\<exists>w'. run action_step [Restart sample_menv 1, Inhibit sample_menv (sample_env 4) (Some '':1.7'') 2 ''shutdown'' ''app''
      ''saving'' ''block'', Authority_Answers sample_menv 0 Authorized, Timer_Fires sample_menv] empty_manager = Some w' \<and>
    Command_Run ''/usr/lib/ConsoleKit/scripts/ck-system-restart'' \<in> set (mg_out w') \<and>
    lock_held (inhibit_manager w') CK_INHIBIT_MODE_BLOCK CK_INHIBIT_EVENT_SHUTDOWN 0"
proof -
  have inv: "action_inv empty_manager" by (rule act.inv_start) (auto simp: empty_manager_def)
  have e: "auth_pending empty_manager = []" "action_timer empty_manager = None" "mg_out empty_manager = []"
    "inhibit_manager empty_manager = ck_inhibit_manager_init" by (simp_all add: empty_manager_def ck_manager_init_def)
  have "CK_INHIBIT_EVENT_SHUTDOWN \<in> what_events ''shutdown''"
    by (auto simp: what_events_def what_tokens_def g_strsplit_def inhibitor_of_token_def)
  then have "lock_granted (sample_env 4) ''shutdown'' ''block''"
    by (auto simp: lock_granted_def sample_env_def get_named_pipe_path_def)
  then show ?thesis
    using late_block_lock_is_ignored [OF inv e(1,2) _ sample_env_ok, of 4 sample_menv "Some '':1.7''" 1000 42 1 2 "''app''" "''saving''"]
    by (simp add: e manager_get_caller_info_def) (simp add: ck_inhibit_manager_init_def ck_inhibit_manager_is_shutdown_blocked_def get_inhibit_status_def)
qed

end
