(* ===== verification/CK_ManagerSessions.thy ===== *)
theory CK_ManagerSessions
  imports CK_SystemAction
begin

text \<open>
  The manager, third part: opening and closing sessions, the system idle hint, and the
  methods that look sessions and seats up (src/src/ck-manager.c).

  A session is opened in two events: the request stores the leader and starts the job that
  collects the parameters; the end of the job creates the session. Closing it, or losing the
  connection of its leader, takes it out of the tables. An operation is \<open>None\<close> when a loop of
  it does not end or the code crashes on the output of the helper.
\<close>

section \<open>The system idle hint\<close>

definition manager_set_system_idle_hint :: "manager_env \<Rightarrow> bool \<Rightarrow> manager_world \<Rightarrow> manager_world" where
  "manager_set_system_idle_hint E idle_hint w =
     (let idle_hint = (if ck_inhibit_manager_is_idle_blocked (inhibit_manager w) then False else idle_hint) in
      if system_idle_hint w \<noteq> idle_hint
      then out (System_Idle_Hint_Changed idle_hint)
             (w\<lparr>system_idle_hint := idle_hint, system_idle_since_hint := mv_now E\<rparr>)
      else w)"

definition is_session_busy :: "manager_world \<Rightarrow> string \<times> nat \<Rightarrow> bool" where
  "is_session_busy w kv = (\<not> s_idle_hint (sess w (snd kv)))"

definition manager_update_system_idle_hint :: "manager_env \<Rightarrow> manager_world \<Rightarrow> manager_world" where
  "manager_update_system_idle_hint E w =
     manager_set_system_idle_hint E (List.find (is_session_busy w) (mg_sessions w) = None) w"

definition session_idle_hint_changed :: "manager_env \<Rightarrow> manager_world \<Rightarrow> manager_world" where
  "session_idle_hint_changed E w = manager_update_system_idle_hint E w"

text \<open>A client sets the idle hint of a session; the manager hears of a change.\<close>

definition set_idle_hint :: "manager_env \<Rightarrow> cstring \<Rightarrow> nat \<Rightarrow> bool \<Rightarrow> manager_world \<Rightarrow> manager_world" where
  "set_idle_hint E sender a hint w =
     (let old = s_idle_hint (sess w a);
          w = upd_session a (\<lambda>s. fst (dbus_set_idle_hint (sv_session (mv_seat E)) sender hint s)) w
      in if s_idle_hint (sess w a) \<noteq> old \<and> a \<in> set (idle_handlers w) then session_idle_hint_changed E w else w)"

definition dbus_get_system_idle_hint :: "nat \<Rightarrow> manager_world \<Rightarrow> manager_world" where
  "dbus_get_system_idle_hint ctx w = out (Answer ctx (Reply_bool (system_idle_hint w))) w"

definition dbus_get_system_idle_since_hint :: "manager_env \<Rightarrow> nat \<Rightarrow> manager_world \<Rightarrow> manager_world" where
  "dbus_get_system_idle_since_hint E ctx w =
     out (Answer ctx (Reply_string (Some
       (if system_idle_hint w then sv_iso8601 (mv_seat E) (system_idle_since_hint w) else [])))) w"

section \<open>Opening a session\<close>

definition session_has_user :: "manager_world \<Rightarrow> nat \<Rightarrow> string \<times> nat \<Rightarrow> bool" where
  "session_has_user w unix_user kv = (s_unix_user (sess w (snd kv)) = unix_user)"

definition get_runtime_dir_for_user :: "manager_world \<Rightarrow> nat \<Rightarrow> cstring" where
  "get_runtime_dir_for_user w unix_user =
     (case List.find (session_has_user w unix_user) (mg_sessions w) of
        None \<Rightarrow> None
      | Some kv \<Rightarrow> ck_session_get_runtime_dir (sess w (snd kv)))"

text \<open>
  The three parts of \<open>open_session_for_leader\<close> after the session object exists: it gets a
  runtime directory, a process group and its place in the table; it is put on a seat; its
  locality is set and it is announced.
\<close>

definition enter_session :: "manager_env \<Rightarrow> nat \<Rightarrow> string \<Rightarrow> CkSession \<Rightarrow> manager_world \<Rightarrow> manager_world" where
  "enter_session E la ssid s w =
     (let a = next_address w;
          w = w\<lparr>next_address := Suc a, sess := (sess w)(a := s)\<rparr>;
          unix_user = s_unix_user s;
          runtime_dir = get_runtime_dir_for_user w unix_user;
          runtime_dir = (if runtime_dir = None then mv_runtime_dir E unix_user else runtime_dir);
          w = upd_session a (ck_session_set_runtime_dir runtime_dir) w;
          w = out (Process_Group_Created (ck_session_leader_get_pid (leader_heap w la)) (Some ssid) unix_user) w
      in w\<lparr>mg_sessions := g_hash_table_insert (mg_sessions w) ssid a\<rparr>)"

definition place_session :: "manager_env \<Rightarrow> nat \<Rightarrow> manager_world \<Rightarrow> manager_world option" where
  "place_session E a w =
     (case (case find_seat_for_session a w of
              Some st \<Rightarrow> Some (Some st, w)
            | None \<Rightarrow> add_new_seat E CK_SEAT_KIND_DYNAMIC w) of
        None \<Rightarrow> None
      | Some (None, w) \<Rightarrow> Some w
      | Some (Some st, w) \<Rightarrow> Some (ck_seat_add_session (mv_seat E) (on_seat_signal E) st a w))"

definition announce_session :: "manager_env \<Rightarrow> nat \<Rightarrow> string \<Rightarrow> bool \<Rightarrow> manager_world \<Rightarrow> manager_world" where
  "announce_session E a ssid is_local w =
     (let w = upd_session a (ck_session_set_is_local is_local) w;
          w = manager_update_system_idle_hint E w;
          w = w\<lparr>idle_handlers := idle_handlers w @ [a]\<rparr>
      in out (Session_New (Some ssid) (ck_session_get_path (sess w a))) w)"

definition open_session_for_leader ::
  "manager_env \<Rightarrow> nat \<Rightarrow> (string \<times> gvariant) list \<Rightarrow> bool \<Rightarrow> nat \<Rightarrow> manager_world \<Rightarrow> manager_world option" where
  "open_session_for_leader E la parameters is_local ctx w =
     (let ssid = NONULL_STRING (ck_session_leader_peek_session_id (leader_heap w la));
          cookie = NONULL_STRING (ck_session_leader_peek_cookie (leader_heap w la));
          a = next_address w
      in case ck_session_new_with_parameters (sv_session (mv_seat E)) (mv_transform E) ssid cookie parameters True of
           None \<Rightarrow> Some (throw_error ctx CK_MANAGER_ERROR_GENERAL w)
         | Some s \<Rightarrow>
             map_option (\<lambda>w. out (Answer ctx (Reply_string (Some cookie))) (announce_session E a ssid is_local w))
               (place_session E a (enter_session E la ssid s w)))"

definition verify_login_session_id_is_local :: "manager_world \<Rightarrow> cstring \<Rightarrow> bool" where
  "verify_login_session_id_is_local w login_session_id =
     list_ex (\<lambda>(ssid, a). s_login_session_id (sess w a) = login_session_id \<and> s_is_local (sess w a)) (mg_sessions w)"

text \<open>The value of the parameter \<open>is-local\<close> is not read; \<open>g_variant_get_string\<close> of another type is NULL.\<close>

fun verified_local :: "manager_world \<Rightarrow> (string \<times> gvariant) list \<Rightarrow> bool" where
  "verified_local w [] = False"
| "verified_local w ((prop_name, v) # ps) =
     (let is_local = (prop_name = ''is-local'');
          is_local = (if prop_name = ''login-session-id''
                      then verify_login_session_id_is_local w (case v of V_string s \<Rightarrow> Some s | _ \<Rightarrow> None)
                      else is_local)
      in is_local \<or> verified_local w ps)"

definition verify_and_open_session_for_leader ::
  "manager_env \<Rightarrow> nat \<Rightarrow> (string \<times> gvariant) list \<Rightarrow> nat \<Rightarrow> manager_world \<Rightarrow> manager_world option" where
  "verify_and_open_session_for_leader E la parameters ctx w =
     open_session_for_leader E la parameters (verified_local w parameters) ctx w"

definition collect_parameters_cb ::
  "manager_env \<Rightarrow> nat \<Rightarrow> (string \<times> gvariant) list option \<Rightarrow> nat \<Rightarrow> manager_world \<Rightarrow> manager_world option" where
  "collect_parameters_cb E la parameters ctx w =
     (case parameters of
        None \<Rightarrow> Some (throw_error ctx CK_MANAGER_ERROR_GENERAL w)
      | Some ps \<Rightarrow> verify_and_open_session_for_leader E la ps ctx w)"

definition generate_session_for_leader :: "manager_env \<Rightarrow> nat \<Rightarrow> nat \<Rightarrow> manager_world \<Rightarrow> manager_world" where
  "generate_session_for_leader E la ctx w =
     (let (res, l) = ck_session_leader_collect_parameters (mv_job E) (leader_heap w la);
          w = w\<lparr>leader_heap := (leader_heap w)(la := l)\<rparr>
      in case mv_job E of
           Some j \<Rightarrow> if res then w\<lparr>jobs := jobs w @ [\<lparr>cj_id = j, cj_leader = la, cj_context = ctx\<rparr>]\<rparr>
                     else throw_error ctx CK_MANAGER_ERROR_GENERAL w
         | None \<Rightarrow> throw_error ctx CK_MANAGER_ERROR_GENERAL w)"

definition create_session_for_sender ::
  "manager_env \<Rightarrow> cstring \<Rightarrow> (string \<times> gvariant) list option \<Rightarrow> nat \<Rightarrow> manager_world \<Rightarrow> manager_world option" where
  "create_session_for_sender E sender parameters ctx w =
     (case manager_get_caller_info E sender of
        None \<Rightarrow> Some (throw_error ctx CK_MANAGER_ERROR_GENERAL w)
      | Some (u, p) \<Rightarrow>
          (case generate_session_cookie E 0 w of
             None \<Rightarrow> None
           | Some cookie \<Rightarrow>
               (case generate_session_id w of
                  None \<Rightarrow> None
                | Some (ssid, w) \<Rightarrow>
                    let la = next_address w;
                        l = ck_session_leader_new;
                        l = ck_session_leader_set_uid u l;
                        l = ck_session_leader_set_pid p l;
                        l = ck_session_leader_set_service_name sender l;
                        l = ck_session_leader_set_session_id (Some ssid) l;
                        l = ck_session_leader_set_cookie (Some cookie) l;
                        l = ck_session_leader_set_override_parameters parameters l;
                        w = w\<lparr>next_address := Suc la, leader_heap := (leader_heap w)(la := l),
                              mg_leaders := g_hash_table_insert (mg_leaders w) cookie la\<rparr>
                    in Some (generate_session_for_leader E la ctx w))))"

definition dbus_open_session :: "manager_env \<Rightarrow> cstring \<Rightarrow> nat \<Rightarrow> manager_world \<Rightarrow> manager_world option" where
  "dbus_open_session E sender ctx w = create_session_for_sender E sender None ctx w"

definition dbus_open_session_with_parameters ::
  "manager_env \<Rightarrow> cstring \<Rightarrow> nat \<Rightarrow> (string \<times> gvariant) list \<Rightarrow> manager_world \<Rightarrow> manager_world option" where
  "dbus_open_session_with_parameters E sender ctx parameters w =
     create_session_for_sender E sender (Some parameters) ctx w"

text \<open>
  The end of the job of a leader (\<open>job_completed\<close> of src/src/ck-session-leader.c) with the
  exit status and the output of the helper. A job that was cancelled does not report.
\<close>

definition job_completed ::
  "manager_env \<Rightarrow> (nat \<Rightarrow> nat) \<Rightarrow> nat \<Rightarrow> int \<Rightarrow> string \<Rightarrow> manager_world \<Rightarrow> manager_world option" where
  "job_completed E stale j status output w =
     (case List.find (\<lambda>c. cj_id c = j) (jobs w) of
        None \<Rightarrow> Some w
      | Some c \<Rightarrow>
          let la = cj_leader c;
              done_w = (if status = 0
                        then (case parse_output (leader_heap w la) stale output of
                                None \<Rightarrow> None
                              | Some ps \<Rightarrow> collect_parameters_cb E la (Some ps) (cj_context c) w)
                        else collect_parameters_cb E la None (cj_context c) w)
          in map_option (\<lambda>w. w\<lparr>jobs := removeAll c (jobs w),
               leader_heap := (leader_heap w)(la := (leader_heap w la)\<lparr>sl_pending_jobs :=
                 removeAll j (sl_pending_jobs (leader_heap w la))\<rparr>)\<rparr>) done_w)"

section \<open>Closing a session\<close>

text \<open>A dynamic seat is removed without a look at its other sessions.\<close>

definition remove_session_from_seat :: "manager_env \<Rightarrow> nat \<Rightarrow> manager_world \<Rightarrow> manager_world" where
  "remove_session_from_seat E a w =
     (case ck_session_get_seat_id (sess w a) of
        None \<Rightarrow> w
      | Some sid \<Rightarrow>
          (case g_hash_table_lookup (mg_seats w) sid of
             None \<Rightarrow> w
           | Some st \<Rightarrow>
               let w = snd (ck_seat_remove_session (mv_seat E) (on_seat_signal E) st a w)
               in if ck_seat_get_kind (seats w st) = CK_SEAT_KIND_DYNAMIC then remove_seat E st w else w))"

definition remove_session_for_cookie ::
  "manager_env \<Rightarrow> string \<Rightarrow> nat option \<Rightarrow> manager_world \<Rightarrow> bool \<times> manager_world" where
  "remove_session_for_cookie E cookie leader w =
     (case (case leader of None \<Rightarrow> g_hash_table_lookup (mg_leaders w) cookie | Some la \<Rightarrow> Some la) of
        None \<Rightarrow> (False, w)
      | Some la \<Rightarrow>
          let ssid = NONULL_STRING (ck_session_leader_peek_session_id (leader_heap w la)) in
          (case g_hash_table_lookup (mg_sessions w) ssid of
             None \<Rightarrow> (False, w)
           | Some a \<Rightarrow>
               let unix_user = s_unix_user (sess w a);
                   w = remove_session_from_seat E a w;
                   w = w\<lparr>mg_sessions := g_hash_table_remove (mg_sessions w) ssid\<rparr>;
                   w = ck_manager_dump E w;
                   w = manager_update_system_idle_hint E w;
                   w = out (Session_Removed (Some ssid) (ck_session_get_path (sess w a))) w
               in (True, if get_runtime_dir_for_user w unix_user = None
                         then out (Runtime_Dir_Removed unix_user) w else w)))"

definition paranoia_check_is_cookie_owner :: "manager_world \<Rightarrow> cstring \<Rightarrow> nat \<Rightarrow> nat \<Rightarrow> bool" where
  "paranoia_check_is_cookie_owner w cookie calling_uid calling_pid =
     (case cookie of
        None \<Rightarrow> False
      | Some c \<Rightarrow>
          (case g_hash_table_lookup (mg_leaders w) c of
             None \<Rightarrow> False
           | Some la \<Rightarrow>
               if ck_session_leader_get_uid (leader_heap w la) \<noteq> calling_uid then False
               else if ck_session_leader_get_pid (leader_heap w la) \<noteq> calling_pid then False
               else True))"

definition dbus_close_session :: "manager_env \<Rightarrow> cstring \<Rightarrow> nat \<Rightarrow> string \<Rightarrow> manager_world \<Rightarrow> manager_world" where
  "dbus_close_session E sender ctx cookie w =
     (case manager_get_caller_info E sender of
        None \<Rightarrow> throw_error ctx CK_MANAGER_ERROR_FAILED w
      | Some (u, p) \<Rightarrow>
          if \<not> paranoia_check_is_cookie_owner w (Some cookie) u p then throw_error ctx CK_MANAGER_ERROR_FAILED w
          else case remove_session_for_cookie E cookie None w of
            (False, w) \<Rightarrow> throw_error ctx CK_MANAGER_ERROR_FAILED w
          | (True, w) \<Rightarrow>
              out (Answer ctx (Reply_bool True)) (w\<lparr>mg_leaders := g_hash_table_remove (mg_leaders w) cookie\<rparr>))"

section \<open>Losing a connection\<close>

definition remove_leader_for_connection :: "manager_world \<Rightarrow> string \<Rightarrow> string \<times> nat \<Rightarrow> bool" where
  "remove_leader_for_connection w service_name kv =
     (ck_session_leader_peek_service_name (leader_heap w (snd kv)) = Some service_name)"

definition destroy_entity :: "manager_env \<Rightarrow> string \<times> nat \<Rightarrow> manager_world \<Rightarrow> manager_world" where
  "destroy_entity E kv w =
     (let w = snd (remove_session_for_cookie E (fst kv) (Some (snd kv)) w)
      in w\<lparr>leader_heap := (leader_heap w)(snd kv := ck_session_leader_cancel (leader_heap w (snd kv))),
            jobs := filter (\<lambda>c. cj_leader c \<noteq> snd kv) (jobs w)\<rparr>)"

text \<open>\<open>g_ptr_array_remove_index_fast\<close> fills the hole with the last element.\<close>

definition removal_order :: "'a list \<Rightarrow> 'a list" where
  "removal_order xs = (case xs of [] \<Rightarrow> [] | x # rest \<Rightarrow> x # rev rest)"

definition remove_sessions_for_connection :: "manager_env \<Rightarrow> string \<Rightarrow> manager_world \<Rightarrow> manager_world" where
  "remove_sessions_for_connection E service_name w =
     (let entities = filter (remove_leader_for_connection w service_name) (mg_leaders w);
          w = w\<lparr>mg_leaders := filter (\<lambda>kv. \<not> remove_leader_for_connection w service_name kv) (mg_leaders w)\<rparr>
      in fold (destroy_entity E) (removal_order entities) w)"

definition on_name_owner_notify :: "manager_env \<Rightarrow> string \<times> string \<times> string \<Rightarrow> manager_world \<Rightarrow> manager_world" where
  "on_name_owner_notify E ps w =
     (case ps of (service_name, old_service_name, new_service_name) \<Rightarrow>
        if length new_service_name = 0 then remove_sessions_for_connection E old_service_name w else w)"

text \<open>The bus proxy and the subscription are inputs; the result is NULL when the daemon cannot start.\<close>

definition register_manager ::
  "manager_env \<Rightarrow> bool \<Rightarrow> bool \<Rightarrow> (string \<times> seat_file option) list option \<Rightarrow> manager_world \<Rightarrow>
   (bool \<times> manager_world) option" where
  "register_manager E exported proxy dir w =
     (if \<not> exported then Some (False, w)
      else if \<not> proxy then Some (False, w)
      else map_option (Pair True) (create_seats E dir w))"

section \<open>Looking up sessions\<close>

definition get_session_from_id :: "manager_world \<Rightarrow> cstring \<Rightarrow> nat option" where
  "get_session_from_id w i = (case i of None \<Rightarrow> None | Some ssid \<Rightarrow> g_hash_table_lookup (mg_sessions w) ssid)"

definition dbus_get_session :: "nat \<Rightarrow> string \<Rightarrow> manager_world \<Rightarrow> manager_world" where
  "dbus_get_session ctx ssid w =
     (case get_session_from_id w (Some ssid) of
        None \<Rightarrow> throw_error ctx CK_MANAGER_ERROR_GENERAL w
      | Some a \<Rightarrow> out (Answer ctx (Reply_string (ck_session_get_path (sess w a)))) w)"

definition get_cookie_for_pid :: "manager_env \<Rightarrow> nat \<Rightarrow> manager_world \<Rightarrow> cstring" where
  "get_cookie_for_pid E p w =
     (let cookie = (case mv_process_ssid E p of
                      None \<Rightarrow> None
                    | Some ssid \<Rightarrow>
                        (case g_hash_table_lookup (mg_sessions w) ssid of
                           None \<Rightarrow> None
                         | Some a \<Rightarrow> s_cookie (sess w a)))
      in if cookie = None then mv_process_cookie E p else cookie)"

definition dbus_get_session_for_cookie :: "manager_env \<Rightarrow> cstring \<Rightarrow> nat \<Rightarrow> string \<Rightarrow> manager_world \<Rightarrow> manager_world" where
  "dbus_get_session_for_cookie E sender ctx cookie w =
     (case manager_get_caller_info E sender of
        None \<Rightarrow> throw_error ctx CK_MANAGER_ERROR_GENERAL w
      | Some (u, p) \<Rightarrow>
          if \<not> mv_process_stat E p then throw_error ctx CK_MANAGER_ERROR_GENERAL w
          else case g_hash_table_lookup (mg_leaders w) cookie of
            None \<Rightarrow> throw_error ctx CK_MANAGER_ERROR_GENERAL w
          | Some la \<Rightarrow>
              (case g_hash_table_lookup (mg_sessions w)
                      (NONULL_STRING (ck_session_leader_peek_session_id (leader_heap w la))) of
                 None \<Rightarrow> throw_error ctx CK_MANAGER_ERROR_GENERAL w
               | Some a \<Rightarrow> out (Answer ctx (Reply_string (ck_session_get_path (sess w a)))) w))"

text \<open>\<open>guint\<close> arguments are below 2^32.\<close>

definition dbus_get_session_for_unix_process ::
  "manager_env \<Rightarrow> cstring \<Rightarrow> nat \<Rightarrow> nat \<Rightarrow> manager_world \<Rightarrow> manager_world" where
  "dbus_get_session_for_unix_process E sender ctx p w =
     (if p \<le> 1 \<or> p \<ge> 2 ^ 32 - 1 then throw_error ctx CK_MANAGER_ERROR_INVALID_INPUT w
      else case manager_get_caller_info E sender of
        None \<Rightarrow> throw_error ctx CK_MANAGER_ERROR_GENERAL w
      | Some _ \<Rightarrow>
          (case get_cookie_for_pid E p w of
             None \<Rightarrow> throw_error ctx CK_MANAGER_ERROR_GENERAL w
           | Some cookie \<Rightarrow> dbus_get_session_for_cookie E sender ctx cookie w))"

definition dbus_get_session_by_pid :: "manager_env \<Rightarrow> cstring \<Rightarrow> nat \<Rightarrow> nat \<Rightarrow> manager_world \<Rightarrow> manager_world" where
  "dbus_get_session_by_pid E sender ctx p w = dbus_get_session_for_unix_process E sender ctx p w"

definition dbus_get_current_session :: "manager_env \<Rightarrow> cstring \<Rightarrow> nat \<Rightarrow> manager_world \<Rightarrow> manager_world" where
  "dbus_get_current_session E sender ctx w =
     (case manager_get_caller_info E sender of
        None \<Rightarrow> throw_error ctx CK_MANAGER_ERROR_GENERAL w
      | Some (u, p) \<Rightarrow> dbus_get_session_for_unix_process E sender ctx p w)"

text \<open>\<open>g_hash_table_get_keys_as_array\<close> never returns NULL: a user without sessions gets an empty array.\<close>

definition collect_sessions_for_user ::
  "manager_world \<Rightarrow> nat \<Rightarrow> string \<times> nat \<Rightarrow> (string, unit) ghash \<Rightarrow> (string, unit) ghash" where
  "collect_sessions_for_user w u kv hash =
     (if s_unix_user (sess w (snd kv)) = u
      then g_hash_table_insert hash (NONULL_STRING (ck_session_get_path (sess w (snd kv)))) () else hash)"

definition dbus_get_sessions_for_unix_user :: "nat \<Rightarrow> nat \<Rightarrow> manager_world \<Rightarrow> manager_world" where
  "dbus_get_sessions_for_unix_user ctx u w =
     out (Answer_Paths ctx (map (Some \<circ> fst) (fold (collect_sessions_for_user w u) (mg_sessions w) []))) w"

definition dbus_get_sessions_for_user :: "nat \<Rightarrow> nat \<Rightarrow> manager_world \<Rightarrow> manager_world" where
  "dbus_get_sessions_for_user ctx u w = dbus_get_sessions_for_unix_user ctx u w"

definition dbus_activate_session_on_seat ::
  "manager_env \<Rightarrow> nat \<Rightarrow> cstring \<Rightarrow> cstring \<Rightarrow> manager_world \<Rightarrow> manager_world" where
  "dbus_activate_session_on_seat E ctx session_id seat_id w =
     (case get_session_from_id w session_id of
        None \<Rightarrow> throw_error ctx CK_MANAGER_ERROR_INVALID_INPUT w
      | Some a \<Rightarrow>
          (case (case seat_id of None \<Rightarrow> None | Some sid \<Rightarrow> g_hash_table_lookup (mg_seats w) sid) of
             None \<Rightarrow> throw_error ctx CK_MANAGER_ERROR_INVALID_INPUT w
           | Some st \<Rightarrow>
               (case ck_seat_activate_session (mv_seat E) (Some st) (Some a) None w of
                  (Some err, w) \<Rightarrow> throw_error ctx CK_MANAGER_ERROR_FAILED w
                | (None, w) \<Rightarrow> out (Answer ctx Complete) w)))"

definition manager_activate_session :: "manager_env \<Rightarrow> nat \<Rightarrow> string \<Rightarrow> manager_world \<Rightarrow> manager_world" where
  "manager_activate_session E ctx session_id w =
     (case get_session_from_id w (Some session_id) of
        None \<Rightarrow> throw_error ctx CK_MANAGER_ERROR_INVALID_INPUT w
      | Some a \<Rightarrow>
          (case ck_session_get_seat_id (sess w a) of
             None \<Rightarrow> throw_error ctx CK_MANAGER_ERROR_NO_SEATS w
           | Some seat_id \<Rightarrow> dbus_activate_session_on_seat E ctx (Some session_id) (Some seat_id) w))"

definition dbus_lock_session :: "nat \<Rightarrow> string \<Rightarrow> manager_world \<Rightarrow> manager_world" where
  "dbus_lock_session ctx session_id w =
     (case get_session_from_id w (Some session_id) of
        None \<Rightarrow> throw_error ctx CK_MANAGER_ERROR_INVALID_INPUT w
      | Some a \<Rightarrow> out (Answer ctx Complete) (upd_session a ck_session_lock w))"

definition dbus_unlock_session :: "nat \<Rightarrow> string \<Rightarrow> manager_world \<Rightarrow> manager_world" where
  "dbus_unlock_session ctx session_id w =
     (case get_session_from_id w (Some session_id) of
        None \<Rightarrow> throw_error ctx CK_MANAGER_ERROR_INVALID_INPUT w
      | Some a \<Rightarrow> out (Answer ctx Complete) (upd_session a ck_session_unlock w))"

definition dbus_list_sessions :: "manager_env \<Rightarrow> nat \<Rightarrow> manager_world \<Rightarrow> manager_world" where
  "dbus_list_sessions E ctx w =
     (if mg_sessions w = [] then throw_error ctx CK_MANAGER_ERROR_NO_SESSIONS w
      else out (Answer_Sessions ctx (map (\<lambda>(key, a).
             let s = sess w a in
             (key, s_unix_user s, NONULL_STRING (mv_user_name E (s_unix_user s)), ck_session_get_seat_id s,
              ck_session_get_path s)) (mg_sessions w))) w)"

definition dbus_list_seats :: "nat \<Rightarrow> manager_world \<Rightarrow> manager_world" where
  "dbus_list_seats ctx w =
     (if mg_seats w = [] then throw_error ctx CK_MANAGER_ERROR_NO_SEATS w
      else out (Answer_Seats ctx (map (\<lambda>(key, st). (st_name (seats w st), ck_seat_get_path (seats w st))) (mg_seats w))) w)"

definition dbus_get_seats :: "nat \<Rightarrow> manager_world \<Rightarrow> manager_world" where
  "dbus_get_seats ctx w =
     (if mg_seats w = [] then throw_error ctx CK_MANAGER_ERROR_NO_SEATS w
      else out (Answer_Paths ctx (map (\<lambda>(key, st). ck_seat_get_path (seats w st)) (mg_seats w))) w)"

definition manager_get_sessions :: "nat \<Rightarrow> manager_world \<Rightarrow> manager_world" where
  "manager_get_sessions ctx w =
     (if mg_sessions w = [] then throw_error ctx CK_MANAGER_ERROR_NO_SESSIONS w
      else out (Answer_Paths ctx (map (\<lambda>(key, a). ck_session_get_path (sess w a)) (mg_sessions w))) w)"

section \<open>Lemmas\<close>

subsection \<open>Frames\<close>

lemma update_idle_fields [simp]:
  "sess (manager_update_system_idle_hint E w) = sess w" "seats (manager_update_system_idle_hint E w) = seats w"
  "mg_seats (manager_update_system_idle_hint E w) = mg_seats w"
  "mg_sessions (manager_update_system_idle_hint E w) = mg_sessions w"
  "mg_leaders (manager_update_system_idle_hint E w) = mg_leaders w"
  "leader_heap (manager_update_system_idle_hint E w) = leader_heap w"
  "jobs (manager_update_system_idle_hint E w) = jobs w"
  "idle_handlers (manager_update_system_idle_hint E w) = idle_handlers w"
  "inhibit_manager (manager_update_system_idle_hint E w) = inhibit_manager w"
  "next_address (manager_update_system_idle_hint E w) = next_address w"
  by (auto simp: manager_update_system_idle_hint_def manager_set_system_idle_hint_def Let_def)

lemma remove_seat_fields [simp]:
  "sess (remove_seat E st w) = sess w" "seats (remove_seat E st w) = seats w"
  "mg_sessions (remove_seat E st w) = mg_sessions w" "mg_leaders (remove_seat E st w) = mg_leaders w"
  "leader_heap (remove_seat E st w) = leader_heap w" "jobs (remove_seat E st w) = jobs w"
  "idle_handlers (remove_seat E st w) = idle_handlers w" "inhibit_manager (remove_seat E st w) = inhibit_manager w"
  "next_address (remove_seat E st w) = next_address w" "session_serial (remove_seat E st w) = session_serial w"
  by (auto simp: remove_seat_def disconnect_seat_signals_def log_defs Let_def split: option.split)

lemmas seat_call_books [simp] = booksD [OF books_update(1)] booksD [OF mgr.F_add_session] booksD [OF mgr.F_remove_session]

lemma remove_from_seat_fields [simp]:
  "mg_sessions (remove_session_from_seat E a w) = mg_sessions w"
  "mg_leaders (remove_session_from_seat E a w) = mg_leaders w"
  "leader_heap (remove_session_from_seat E a w) = leader_heap w" "jobs (remove_session_from_seat E a w) = jobs w"
  "idle_handlers (remove_session_from_seat E a w) = idle_handlers w"
  "inhibit_manager (remove_session_from_seat E a w) = inhibit_manager w"
  "next_address (remove_session_from_seat E a w) = next_address w"
  by (auto simp: remove_session_from_seat_def Let_def split: option.split)

subsection \<open>Identity\<close>

text \<open>What switching consoles leaves of a session, and of a seat.\<close>

definition ident :: "CkSession \<Rightarrow> cstring \<times> cstring \<times> cstring \<times> cstring \<times> cstring \<times> cstring \<times> nat \<times> bool \<times> bool" where
  "ident s = (s_id s, s_path s, s_cookie s, s_seat_id s, s_login_session_id s, s_runtime_dir s, s_unix_user s,
     s_is_local s, s_idle_hint s)"

lemma ident_set_active [simp]: "ident (ck_session_set_active E act force s) = ident s"
  by (auto simp: ident_def ck_session_set_active_def ck_session_pause_all_devices_def ck_session_resume_all_devices_def
      mark_active_def mark_inactive_def cancel_pause_timer_def emit_def Let_def)

definition seat_ident :: "CkSeat \<Rightarrow> cstring \<times> cstring \<times> CkSeatKind \<times> (string, nat) ghash" where
  "seat_ident s = (st_id s, st_path s, st_kind s, st_sessions s)"

context seat_observer
begin

lemma change_active_ident [simp]: "ident (sess (change_active_session E h st session w) b) = ident (sess w b)"
  by (auto simp: change_active_session_def Let_def split: option.split)

lemma maybe_update_ident [simp]:
  "ident (sess (maybe_update_active_session E h st w) b) = ident (sess w b)"
  "seat_ident (seats (maybe_update_active_session E h st w) st') = seat_ident (seats w st')"
  by (auto simp: maybe_update_active_session_def update_active_vt_def change_active_frame seat_ident_def split: sum.splits)

lemma add_session_ident:
  "ident (sess (ck_seat_add_session E h st a w) b) =
     ident (if b = a then (sess w a)\<lparr>s_seat_id := st_id (seats w st)\<rparr> else sess w b)"
  "seat_ident (seats (ck_seat_add_session E h st a w) st') =
     seat_ident (if st' = st
       then (seats w st)\<lparr>st_sessions := g_hash_table_insert (st_sessions (seats w st)) (NONULL_STRING (s_id (sess w a))) a\<rparr>
       else seats w st')"
  by (auto simp: ck_seat_add_session_def Let_def ck_session_get_id_def)
    (auto simp: ident_def ck_session_set_seat_id_def Let_def split: option.split)

lemma remove_session_ident:
  "ident (sess (snd (ck_seat_remove_session E h st a w)) b) = ident (sess w b)"
  "st_id (seats (snd (ck_seat_remove_session E h st a w)) st') = st_id (seats w st')"
  "st_kind (seats (snd (ck_seat_remove_session E h st a w)) st') = st_kind (seats w st')"
proof -
  have id: "st_id (seats (maybe_update_active_session E h st v) st') = st_id (seats v st')"
    "st_kind (seats (maybe_update_active_session E h st v) st') = st_kind (seats v st')" for v
    using maybe_update_ident(2) [of E st v st'] by (simp_all add: seat_ident_def)
  show "ident (sess (snd (ck_seat_remove_session E h st a w)) b) = ident (sess w b)"
    "st_id (seats (snd (ck_seat_remove_session E h st a w)) st') = st_id (seats w st')"
    "st_kind (seats (snd (ck_seat_remove_session E h st a w)) st') = st_kind (seats w st')"
    by (auto simp: ck_seat_remove_session_def Let_def id split: option.split)
qed

end

lemma ident_fields:
  assumes "ident s = ident t"
  shows "s_id s = s_id t" "s_path s = s_path t" "s_cookie s = s_cookie t" "s_seat_id s = s_seat_id t"
    "s_login_session_id s = s_login_session_id t" "s_runtime_dir s = s_runtime_dir t" "s_unix_user s = s_unix_user t"
    "s_is_local s = s_is_local t" "s_idle_hint s = s_idle_hint t"
  using assms by (simp_all add: ident_def)

subsection \<open>The idle hint\<close>

definition idle_exact :: "manager_world \<Rightarrow> bool" where
  "idle_exact w =
     (system_idle_hint w \<longleftrightarrow>
        \<not> ck_inhibit_manager_is_idle_blocked (inhibit_manager w) \<and>
        list_all (\<lambda>(ssid, a). s_idle_hint (sess w a)) (mg_sessions w))"

lemma idle_exact_update [simp]: "idle_exact (manager_update_system_idle_hint E w)"
proof -
  have "(List.find (is_session_busy w) (mg_sessions w) = None) = list_all (\<lambda>(ssid, a). s_idle_hint (sess w a)) (mg_sessions w)"
    by (auto simp: find_None_iff is_session_busy_def list_all_iff)
  then show ?thesis
    by (auto simp: idle_exact_def manager_update_system_idle_hint_def manager_set_system_idle_hint_def Let_def)
qed

lemma idle_exact_out [simp]: "idle_exact (out x w) = idle_exact w"
  by (simp add: idle_exact_def)

subsection \<open>Closing\<close>

definition leader_ssid :: "manager_world \<Rightarrow> nat \<Rightarrow> string" where
  "leader_ssid w la = NONULL_STRING (ck_session_leader_peek_session_id (leader_heap w la))"

lemma remove_session_lookup:
  "g_hash_table_lookup (mg_sessions (snd (remove_session_for_cookie E c (Some la) w))) k =
     (if k = leader_ssid w la then None else g_hash_table_lookup (mg_sessions w) k)"
  by (auto simp: remove_session_for_cookie_def leader_ssid_def Let_def split: option.split)

lemma remove_session_fields [simp]:
  "mg_leaders (snd (remove_session_for_cookie E c l w)) = mg_leaders w"
  "leader_heap (snd (remove_session_for_cookie E c l w)) = leader_heap w"
  "jobs (snd (remove_session_for_cookie E c l w)) = jobs w"
  "idle_handlers (snd (remove_session_for_cookie E c l w)) = idle_handlers w"
  "next_address (snd (remove_session_for_cookie E c l w)) = next_address w"
  by (auto simp: remove_session_for_cookie_def Let_def split: option.split)

lemma destroy_entity_fields [simp]:
  "mg_leaders (destroy_entity E kv w) = mg_leaders w"
  "sl_session_id (leader_heap (destroy_entity E kv w) la) = sl_session_id (leader_heap w la)"
  "jobs (destroy_entity E kv w) = filter (\<lambda>c. cj_leader c \<noteq> snd kv) (jobs w)"
  by (auto simp: destroy_entity_def Let_def ck_session_leader_cancel_def)

lemma destroy_entity_lookup:
  "g_hash_table_lookup (mg_sessions (destroy_entity E kv w)) k =
     (if k = leader_ssid w (snd kv) then None else g_hash_table_lookup (mg_sessions w) k)"
  by (simp add: destroy_entity_def Let_def remove_session_lookup)

lemma leader_ssid_destroy [simp]: "leader_ssid (destroy_entity E kv w) = leader_ssid w"
  by (simp add: leader_ssid_def ck_session_leader_peek_session_id_def fun_eq_iff)

lemma destroy_entities:
  "mg_leaders (fold (destroy_entity E) kvs w) = mg_leaders w"
  "jobs (fold (destroy_entity E) kvs w) = filter (\<lambda>c. cj_leader c \<notin> snd ` set kvs) (jobs w)"
  "g_hash_table_lookup (mg_sessions (fold (destroy_entity E) kvs w)) k =
     (if k \<in> leader_ssid w ` snd ` set kvs then None else g_hash_table_lookup (mg_sessions w) k)"
proof (induction kvs arbitrary: w)
  case (Cons kv kvs)
  { case 1 show ?case using Cons(1) by simp }
  { case 2 show ?case using Cons(2) by (auto intro: filter_cong) }
  { case 3 show ?case using Cons(3) by (auto simp: destroy_entity_lookup) }
qed simp_all

lemma set_removal_order [simp]: "set (removal_order xs) = set xs"
  by (cases xs) (auto simp: removal_order_def)

subsection \<open>Opening\<close>

text \<open>A new seat, when it can be exported and not all serial numbers are taken.\<close>

lemma add_new_seat_result:
  assumes "seat_serial_ok (seat_serial w)" and "length (mg_seats w) < 2 ^ 31" and "sv_export_ok (mv_seat E)"
  shows "\<exists>sid w1. add_new_seat E kind w = Some (Some (next_address w), w1) \<and>
    g_hash_table_lookup (mg_seats w) sid = None \<and>
    mg_seats w1 = g_hash_table_insert (mg_seats w) sid (next_address w) \<and>
    st_id (seats w1 (next_address w)) = Some sid \<and> st_kind (seats w1 (next_address w)) = kind \<and>
    (\<forall>st. st \<noteq> next_address w \<longrightarrow> seats w1 st = seats w st) \<and> sess w1 = sess w \<and> mg_sessions w1 = mg_sessions w \<and>
    mg_leaders w1 = mg_leaders w \<and> leader_heap w1 = leader_heap w \<and> idle_handlers w1 = idle_handlers w \<and> jobs w1 = jobs w"
proof -
  obtain t where t: "generate_seat_id w = Some (''seat'' @ dec (unat t), w\<lparr>seat_serial := next_seat_serial t\<rparr>)"
    "g_hash_table_lookup (mg_seats w) (''seat'' @ dec (unat t)) = None"
    using generate_seat_id_returns [OF assms(1,2)] by blast
  let ?sid = "''seat'' @ dec (unat t)" and ?a = "next_address w"
  define v where "v = upd_seat ?a (\<lambda>_. ck_seat_new ?sid kind True)
      (w\<lparr>seat_serial := next_seat_serial t, next_address := Suc ?a\<rparr>)"
  have add: "add_new_seat E kind w = Some (announce_seat E ?sid ?a v)" by (simp add: add_new_seat_def t(1) v_def Let_def)
  have new: "st_connection (seats v ?a)" "st_id (seats v ?a) = Some ?sid" "st_kind (seats v ?a) = kind"
    by (simp_all add: v_def ck_seat_new_def ck_seat_constructor_def ck_seat_set_kind_def ck_seat_set_id_def Let_def)
  note v = v_def [THEN arg_cong [where f = books]]
  have books: "mg_seats v = mg_seats w" "mg_sessions v = mg_sessions w" "mg_leaders v = mg_leaders w"
    "leader_heap v = leader_heap w" "idle_handlers v = idle_handlers w" "jobs v = jobs w" "sess v = sess w"
    "\<And>st. st \<noteq> ?a \<Longrightarrow> seats v st = seats w st"
    by (simp_all add: v_def) (simp_all add: upd_seat_def)
  let ?r = "snd (announce_seat E ?sid ?a v)"
  have "fst (announce_seat E ?sid ?a v) = Some ?a"
    "mg_seats ?r = g_hash_table_insert (mg_seats v) ?sid ?a" "seats ?r ?a = (seats v ?a)\<lparr>st_can_graphical := ck_seat_can_graphical\<rparr>"
    "\<And>st. st \<noteq> ?a \<Longrightarrow> seats ?r st = seats v st" "sess ?r = sess v" "mg_sessions ?r = mg_sessions v"
    "mg_leaders ?r = mg_leaders v" "leader_heap ?r = leader_heap v" "idle_handlers ?r = idle_handlers v" "jobs ?r = jobs v"
    using new(1) assms(3)
    by (simp_all add: announce_seat_def Let_def connect_seat_signals_def ck_seat_register_def log_defs)
      (simp_all add: upd_seat_def)
  with new books t(2) add show ?thesis
    by (intro exI [of _ ?sid] exI [of _ ?r]) (simp add: prod_eq_iff)
qed

text \<open>The seats the manager knows are at old addresses under their own names.\<close>

definition seats_ok :: "manager_world \<Rightarrow> bool" where
  "seats_ok w =
     (seat_serial_ok (seat_serial w) \<and> length (mg_seats w) < 2 ^ 31 \<and>
      list_all (\<lambda>(sid, st). st < next_address w \<and> st_id (seats w st) = Some sid) (mg_seats w))"

lemma lookup_in_set: "g_hash_table_lookup t k = Some v \<Longrightarrow> (k, v) \<in> set t"
  by (simp add: g_hash_table_lookup_def map_of_SomeD)

lemma enter_session_fields [simp]:
  "mg_seats (enter_session E la ssid s w) = mg_seats w" "seats (enter_session E la ssid s w) = seats w"
  "mg_sessions (enter_session E la ssid s w) = g_hash_table_insert (mg_sessions w) ssid (next_address w)"
  "mg_leaders (enter_session E la ssid s w) = mg_leaders w" "leader_heap (enter_session E la ssid s w) = leader_heap w"
  "next_address (enter_session E la ssid s w) = Suc (next_address w)"
  "seat_serial (enter_session E la ssid s w) = seat_serial w" "jobs (enter_session E la ssid s w) = jobs w"
  by (simp_all add: enter_session_def Let_def)

lemma announce_session_fields [simp]:
  "mg_seats (announce_session E a ssid l w) = mg_seats w" "seats (announce_session E a ssid l w) = seats w"
  "mg_sessions (announce_session E a ssid l w) = mg_sessions w" "mg_leaders (announce_session E a ssid l w) = mg_leaders w"
  "leader_heap (announce_session E a ssid l w) = leader_heap w" "jobs (announce_session E a ssid l w) = jobs w"
  "sess (announce_session E a ssid l w) b = (if b = a then ck_session_set_is_local l (sess w a) else sess w b)"
  by (simp_all add: announce_session_def Let_def)

lemma announce_session_next [simp]: "next_address (announce_session E a ssid l w) = next_address w"
  by (simp add: announce_session_def Let_def)

text \<open>
  The session is put on the first seat if there is one, or on a new dynamic one, under the name
  of that seat.
\<close>

lemma place_session_result:
  assumes "seats_ok w" and "sv_export_ok (mv_seat E)"
  shows "\<exists>w1 st sid. place_session E a w = Some w1 \<and>
    g_hash_table_lookup (mg_seats w1) sid = Some st \<and> st_id (seats w1 st) = Some sid \<and>
    s_seat_id (sess w1 a) = Some sid \<and> s_id (sess w1 a) = s_id (sess w a) \<and>
    g_hash_table_lookup (st_sessions (seats w1 st)) (NONULL_STRING (s_id (sess w a))) = Some a \<and>
    (mg_seats w1 = mg_seats w \<and> g_hash_table_lookup (mg_seats w) sid = Some st \<and> st_kind (seats w1 st) = st_kind (seats w st) \<or>
     mg_seats w1 = g_hash_table_insert (mg_seats w) sid st \<and> g_hash_table_lookup (mg_seats w) sid = None \<and>
       st_kind (seats w1 st) = CK_SEAT_KIND_DYNAMIC) \<and>
    mg_sessions w1 = mg_sessions w \<and> mg_leaders w1 = mg_leaders w \<and> leader_heap w1 = leader_heap w"
proof (cases "find_seat_for_session a w")
  case (Some st)
  then have st: "g_hash_table_lookup (mg_seats w) ''seat0'' = Some st"
    by (auto simp: find_seat_for_session_def Let_def split: if_splits)
  then have ok: "st_id (seats w st) = Some ''seat0''"
    using assms(1) lookup_in_set [OF st] by (auto simp: seats_ok_def list_all_iff)
  let ?w1 = "ck_seat_add_session (mv_seat E) (on_seat_signal E) st a w"
  note add = mgr.add_session_ident [of "mv_seat E" E st a w]
  have "place_session E a w = Some ?w1" using Some by (simp add: place_session_def)
  moreover have "s_seat_id (sess ?w1 a) = Some ''seat0''" "s_id (sess ?w1 a) = s_id (sess w a)"
    using add(1) [of a] ok by (simp_all add: ident_def)
  moreover have "st_id (seats ?w1 st) = Some ''seat0''" "st_kind (seats ?w1 st) = st_kind (seats w st)"
    "g_hash_table_lookup (st_sessions (seats ?w1 st)) (NONULL_STRING (s_id (sess w a))) = Some a"
    using add(2) [of st] ok by (simp_all add: seat_ident_def)
  ultimately show ?thesis using st by (intro exI [of _ ?w1] exI [of _ st] exI [of _ "''seat0''"]) simp
next
  case None
  obtain sid v where v: "add_new_seat E CK_SEAT_KIND_DYNAMIC w = Some (Some (next_address w), v)"
    "g_hash_table_lookup (mg_seats w) sid = None" "mg_seats v = g_hash_table_insert (mg_seats w) sid (next_address w)"
    "st_id (seats v (next_address w)) = Some sid" "st_kind (seats v (next_address w)) = CK_SEAT_KIND_DYNAMIC"
    "sess v = sess w" "mg_sessions v = mg_sessions w" "mg_leaders v = mg_leaders w" "leader_heap v = leader_heap w"
    using add_new_seat_result [of w E CK_SEAT_KIND_DYNAMIC] assms by (auto simp: seats_ok_def)
  let ?st = "next_address w"
  let ?w1 = "ck_seat_add_session (mv_seat E) (on_seat_signal E) ?st a v"
  note add = mgr.add_session_ident [of "mv_seat E" E ?st a v]
  have "place_session E a w = Some ?w1" using None v(1) by (simp add: place_session_def)
  moreover have "s_seat_id (sess ?w1 a) = Some sid" "s_id (sess ?w1 a) = s_id (sess w a)"
    using add(1) [of a] v by (simp_all add: ident_def)
  moreover have "st_id (seats ?w1 ?st) = Some sid" "st_kind (seats ?w1 ?st) = CK_SEAT_KIND_DYNAMIC"
    "g_hash_table_lookup (st_sessions (seats ?w1 ?st)) (NONULL_STRING (s_id (sess w a))) = Some a"
    using add(2) [of ?st] v by (simp_all add: seat_ident_def)
  ultimately show ?thesis using v by (intro exI [of _ ?w1] exI [of _ ?st] exI [of _ sid]) simp
qed

lemma seats_ok_enter: "seats_ok w \<Longrightarrow> seats_ok (enter_session E la ssid s w)"
  by (auto simp: seats_ok_def list_all_iff split: option.splits)

lemma open_session_opens:
  assumes "seats_ok w" and "sv_export_ok (mv_seat E)" and "se_export_ok (sv_session (mv_seat E))"
  obtains v st sid where
    "open_session_for_leader E la parameters is_local ctx w =
       Some (out (Answer ctx (Reply_string (Some (NONULL_STRING (ck_session_leader_peek_cookie (leader_heap w la))))))
         (announce_session E (next_address w) (leader_ssid w la) is_local v))"
    "g_hash_table_lookup (mg_seats v) sid = Some st" "st_id (seats v st) = Some sid"
    "s_seat_id (sess v (next_address w)) = Some sid"
    "mg_seats v = mg_seats w \<and> g_hash_table_lookup (mg_seats w) sid = Some st \<and> st_kind (seats v st) = st_kind (seats w st) \<or>
     mg_seats v = g_hash_table_insert (mg_seats w) sid st \<and> g_hash_table_lookup (mg_seats w) sid = None \<and>
       st_kind (seats v st) = CK_SEAT_KIND_DYNAMIC"
    "mg_sessions v = g_hash_table_insert (mg_sessions w) (leader_ssid w la) (next_address w)"
    "mg_leaders v = mg_leaders w" "leader_heap v = leader_heap w"
proof -
  let ?ssid = "leader_ssid w la" and ?a = "next_address w"
  obtain s where s: "ck_session_new_with_parameters (sv_session (mv_seat E)) (mv_transform E) ?ssid
      (NONULL_STRING (ck_session_leader_peek_cookie (leader_heap w la))) parameters True = Some s"
    using assms(3) by (auto simp: ck_session_new_with_parameters_def register_session_def Let_def)
  obtain v st sid where v: "place_session E ?a (enter_session E la ?ssid s w) = Some v"
    "g_hash_table_lookup (mg_seats v) sid = Some st" "st_id (seats v st) = Some sid" "s_seat_id (sess v ?a) = Some sid"
    "mg_seats v = mg_seats w \<and> g_hash_table_lookup (mg_seats w) sid = Some st \<and> st_kind (seats v st) = st_kind (seats w st) \<or>
     mg_seats v = g_hash_table_insert (mg_seats w) sid st \<and> g_hash_table_lookup (mg_seats w) sid = None \<and>
       st_kind (seats v st) = CK_SEAT_KIND_DYNAMIC"
    "mg_sessions v = g_hash_table_insert (mg_sessions w) ?ssid ?a" "mg_leaders v = mg_leaders w" "leader_heap v = leader_heap w"
    using place_session_result [OF seats_ok_enter [OF assms(1), of E la ?ssid s] assms(2), of ?a] by auto
  show ?thesis
    by (rule that [OF _ v(2-)]) (use s v(1) in \<open>simp add: open_session_for_leader_def leader_ssid_def\<close>)
qed

lemma remove_from_seat_seats:
  assumes "s_seat_id (sess w a) = Some sid" and "g_hash_table_lookup (mg_seats w) sid = Some st"
    and "st_id (seats w st) = Some sid"
  shows "mg_seats (remove_session_from_seat E a w) =
    (if st_kind (seats w st) = CK_SEAT_KIND_DYNAMIC then g_hash_table_remove (mg_seats w) sid else mg_seats w)"
proof -
  let ?v = "snd (ck_seat_remove_session (mv_seat E) (on_seat_signal E) st a w)"
  have "st_id (seats ?v st) = Some sid" "st_kind (seats ?v st) = st_kind (seats w st)"
    using assms(3) by (simp_all add: mgr.remove_session_ident)
  then show ?thesis
    using assms(1,2)
    by (simp add: remove_session_from_seat_def ck_session_get_seat_id_def ck_seat_get_kind_def remove_seat_def
        ck_seat_get_id_def disconnect_seat_signals_def log_defs Let_def)
qed

lemma remove_session_seats:
  assumes "g_hash_table_lookup (mg_sessions w) (leader_ssid w la) = Some a"
  shows "fst (remove_session_for_cookie E c (Some la) w)"
    "mg_seats (snd (remove_session_for_cookie E c (Some la) w)) = mg_seats (remove_session_from_seat E a w)"
    "idle_exact (snd (remove_session_for_cookie E c (Some la) w))"
  using assms by (simp_all add: remove_session_for_cookie_def leader_ssid_def Let_def)

lemma remove_session_by_cookie:
  "g_hash_table_lookup (mg_leaders w) c = Some la \<Longrightarrow>
   remove_session_for_cookie E c None w = remove_session_for_cookie E c (Some la) w"
  by (simp add: remove_session_for_cookie_def)

subsection \<open>Runs without a trusted party\<close>

datatype session_event =
    Open_Session manager_env cstring nat
  | Open_Session_With_Parameters manager_env cstring nat "(string \<times> gvariant) list"
  | Job_Completed manager_env "nat \<Rightarrow> nat" nat int string
  | Close_Session manager_env cstring nat string
  | Name_Owner_Changed manager_env "string \<times> string \<times> string"
  | Set_Idle manager_env cstring nat bool

fun manager_step :: "session_event \<Rightarrow> manager_world \<Rightarrow> manager_world option" where
  "manager_step (Open_Session E sender ctx) w = dbus_open_session E sender ctx w"
| "manager_step (Open_Session_With_Parameters E sender ctx ps) w = dbus_open_session_with_parameters E sender ctx ps w"
| "manager_step (Job_Completed E stale j status output) w = job_completed E stale j status output w"
| "manager_step (Close_Session E sender ctx cookie) w = Some (dbus_close_session E sender ctx cookie w)"
| "manager_step (Name_Owner_Changed E ps) w = Some (on_name_owner_notify E ps w)"
| "manager_step (Set_Idle E sender a hint) w = Some (set_idle_hint E sender a hint w)"

text \<open>Nobody vouches for a login: no parameter and no line of the helper is \<open>is-local\<close>.\<close>

fun vouchless :: "session_event \<Rightarrow> bool" where
  "vouchless (Open_Session_With_Parameters E sender ctx ps) = (''is-local'' \<notin> fst ` set ps)"
| "vouchless (Job_Completed E stale j status output) =
     (''is-local'' \<notin> (fst \<circ> split_assign) ` set (g_strsplit output CHR 0x0A))"
| "vouchless e = True"

definition no_local :: "manager_world \<Rightarrow> bool" where
  "no_local w = (\<forall>a \<in> snd ` set (mg_sessions w). a < next_address w \<and> \<not> s_is_local (sess w a))"

definition jobs_vouchless :: "manager_world \<Rightarrow> bool" where
  "jobs_vouchless w = (\<forall>la \<in> cj_leader ` set (jobs w). la < next_address w \<and>
     ''is-local'' \<notin> fst ` set (sl_override_parameters (leader_heap w la)))"

text \<open>What a change of the world must keep for both.\<close>

lemma no_local_mono:
  assumes "no_local w" and "next_address w \<le> next_address w'" and "snd ` set (mg_sessions w') \<subseteq> snd ` set (mg_sessions w)"
    and "\<And>b. s_is_local (sess w' b) = s_is_local (sess w b)"
  shows "no_local w'"
  using assms unfolding no_local_def by (meson less_le_trans subsetD)

lemma jobs_vouchless_mono:
  assumes "jobs_vouchless w" and "next_address w \<le> next_address w'" and "set (jobs w') \<subseteq> set (jobs w)"
    and "\<And>la. la < next_address w \<Longrightarrow> sl_override_parameters (leader_heap w' la) = sl_override_parameters (leader_heap w la)"
  shows "jobs_vouchless w'"
proof -
  have "cj_leader c < next_address w' \<and> ''is-local'' \<notin> fst ` set (sl_override_parameters (leader_heap w' (cj_leader c)))"
    if "c \<in> set (jobs w')" for c
  proof -
    have c: "cj_leader c < next_address w" "''is-local'' \<notin> fst ` set (sl_override_parameters (leader_heap w (cj_leader c)))"
      using that assms(1,3) by (auto simp: jobs_vouchless_def)
    then show ?thesis using assms(2,4) by simp
  qed
  then show ?thesis by (simp add: jobs_vouchless_def)
qed

lemma generate_seat_id_frame: "generate_seat_id w = Some (i, w') \<Longrightarrow> \<exists>s. w' = w\<lparr>seat_serial := s\<rparr>"
proof -
  have "case y of (i, w') \<Rightarrow> \<exists>s. w' = w\<lparr>seat_serial := s\<rparr>" if "generate_seat_id w = Some y" for w y
    using that
    by (rule generate_seat_id.raw_induct [rotated])
      (fastforce simp: get_next_seat_serial_def Let_def split: if_splits prod.splits)
  then show "generate_seat_id w = Some (i, w') \<Longrightarrow> \<exists>s. w' = w\<lparr>seat_serial := s\<rparr>" by fastforce
qed

lemma generate_session_id_frame: "generate_session_id w = Some (i, w') \<Longrightarrow> \<exists>s. w' = w\<lparr>session_serial := s\<rparr>"
proof -
  have "case y of (i, w') \<Rightarrow> \<exists>s. w' = w\<lparr>session_serial := s\<rparr>" if "generate_session_id w = Some y" for w y
    using that
    by (rule generate_session_id.raw_induct [rotated])
      (fastforce simp: get_next_session_serial_def Let_def split: if_splits prod.splits)
  then show "generate_session_id w = Some (i, w') \<Longrightarrow> \<exists>s. w' = w\<lparr>session_serial := s\<rparr>" by fastforce
qed

lemma add_new_seat_frame:
  assumes "add_new_seat E kind w = Some (r, w1)"
  shows "sess w1 = sess w" "mg_sessions w1 = mg_sessions w" "jobs w1 = jobs w" "leader_heap w1 = leader_heap w"
    "next_address w \<le> next_address w1"
proof -
  obtain sid t where "generate_seat_id w = Some (sid, w\<lparr>seat_serial := t\<rparr>)"
    using assms generate_seat_id_frame by (fastforce simp: add_new_seat_def split: option.splits)
  then have w1: "w1 = snd (announce_seat E sid (next_address w) (upd_seat (next_address w) (\<lambda>_. ck_seat_new sid kind True)
      (w\<lparr>seat_serial := t, next_address := Suc (next_address w)\<rparr>)))"
    using assms by (auto simp: add_new_seat_def Let_def)
  show "sess w1 = sess w" "mg_sessions w1 = mg_sessions w" "jobs w1 = jobs w" "leader_heap w1 = leader_heap w"
    "next_address w \<le> next_address w1"
    unfolding w1 announce_seat_def Let_def connect_seat_signals_def disconnect_seat_signals_def log_defs
    by (auto split: option.split) (auto simp: upd_seat_def)
qed

lemma place_session_frame:
  assumes "place_session E a w = Some w1"
  shows "b \<noteq> a \<Longrightarrow> s_is_local (sess w1 b) = s_is_local (sess w b)" "mg_sessions w1 = mg_sessions w" "jobs w1 = jobs w"
    "leader_heap w1 = leader_heap w" "next_address w \<le> next_address w1"
proof -
  have "\<exists>v. (w1 = v \<or> (\<exists>st. w1 = ck_seat_add_session (mv_seat E) (on_seat_signal E) st a v)) \<and>
      (v = w \<or> (\<exists>r. add_new_seat E CK_SEAT_KIND_DYNAMIC w = Some (r, v)))"
    using assms by (auto simp: place_session_def split: option.splits) blast+
  then obtain v where v: "w1 = v \<or> (\<exists>st. w1 = ck_seat_add_session (mv_seat E) (on_seat_signal E) st a v)"
    "sess v = sess w" "mg_sessions v = mg_sessions w" "jobs v = jobs w" "leader_heap v = leader_heap w"
    "next_address w \<le> next_address v"
    using add_new_seat_frame [of E CK_SEAT_KIND_DYNAMIC w] by (metis order_refl)
  show "b \<noteq> a \<Longrightarrow> s_is_local (sess w1 b) = s_is_local (sess w b)"
    using v(1,2) ident_fields(8) [OF mgr.add_session_ident(1), of "mv_seat E" E _ a v b] by auto
  show "mg_sessions w1 = mg_sessions w" "jobs w1 = jobs w" "leader_heap w1 = leader_heap w" "next_address w \<le> next_address w1"
    using v by auto
qed

lemma snd_ht_insert: "snd ` set (g_hash_table_insert t k v) \<subseteq> insert v (snd ` set t)"
  using set_ht_insert_subset [of t k v] by force

lemma open_session_no_local:
  assumes "open_session_for_leader E la ps False ctx w = Some w'" and "no_local w"
  shows "no_local w' \<and> next_address w \<le> next_address w' \<and> jobs w' = jobs w \<and> leader_heap w' = leader_heap w"
proof -
  let ?a = "next_address w"
  have unchanged: "no_local (throw_error ctx CK_MANAGER_ERROR_GENERAL w)" using assms(2) by (simp add: no_local_def)
  from assms(1) consider "w' = throw_error ctx CK_MANAGER_ERROR_GENERAL w"
    | s v x where "place_session E ?a (enter_session E la (leader_ssid w la) s w) = Some v"
        "w' = out x (announce_session E ?a (leader_ssid w la) False v)"
    by (auto simp: open_session_for_leader_def leader_ssid_def Let_def split: option.splits)
  then show ?thesis
  proof cases
    case 2
    note v = place_session_frame [OF 2(1)]
    have "?a < next_address v" using v(5) by simp
    moreover have "s_is_local (sess v b) = s_is_local (sess w b)" if "b \<noteq> ?a" for b
      using v(1) that by (simp add: enter_session_def Let_def)
    ultimately have "no_local w'"
      using assms(2) snd_ht_insert [of "mg_sessions w" "leader_ssid w la" ?a] v(2)
      by (force simp: no_local_def 2(2) ck_session_set_is_local_def)
    with v 2(2) show ?thesis by simp
  qed (use unchanged in simp)
qed

text \<open>Closing keeps the locality of every session and never adds one.\<close>

lemma remove_from_seat_local [simp]: "s_is_local (sess (remove_session_from_seat E a w) b) = s_is_local (sess w b)"
  using ident_fields(8) [OF mgr.remove_session_ident(1)]
  by (auto simp: remove_session_from_seat_def Let_def split: option.split)

lemma remove_session_local:
  "s_is_local (sess (snd (remove_session_for_cookie E c l w)) b) = s_is_local (sess w b)"
  "snd ` set (mg_sessions (snd (remove_session_for_cookie E c l w))) \<subseteq> snd ` set (mg_sessions w)"
proof -
  have "snd ` set (g_hash_table_remove t k) \<subseteq> snd ` set t" for k and t :: "(string, nat) ghash"
    by (auto simp: g_hash_table_remove_def AList.delete_eq)
  then show "snd ` set (mg_sessions (snd (remove_session_for_cookie E c l w))) \<subseteq> snd ` set (mg_sessions w)"
    by (auto simp: remove_session_for_cookie_def Let_def split: option.split)
qed (auto simp: remove_session_for_cookie_def Let_def split: option.split)

definition untrusted :: "manager_world \<Rightarrow> bool" where
  "untrusted w = (no_local w \<and> jobs_vouchless w)"

lemma untrustedI:
  assumes "untrusted w" and "next_address w \<le> next_address w'" and "snd ` set (mg_sessions w') \<subseteq> snd ` set (mg_sessions w)"
    and "\<And>b. s_is_local (sess w' b) = s_is_local (sess w b)" and "set (jobs w') \<subseteq> set (jobs w)"
    and "\<And>la. la < next_address w \<Longrightarrow> sl_override_parameters (leader_heap w' la) = sl_override_parameters (leader_heap w la)"
  shows "untrusted w'"
  using assms no_local_mono [of w w'] jobs_vouchless_mono [of w w'] by (simp add: untrusted_def)

lemma untrusted_out [simp]: "untrusted (out x w) = untrusted w" "untrusted (throw_error c e w) = untrusted w"
  by (simp_all add: untrusted_def no_local_def jobs_vouchless_def)

lemma untrusted_close: "untrusted w \<Longrightarrow> untrusted (dbus_close_session E sender ctx cookie w)"
proof -
  assume w: "untrusted w"
  have "untrusted (snd (remove_session_for_cookie E cookie None w))"
    by (rule untrustedI [OF w]) (simp_all add: remove_session_local)
  moreover have "untrusted (v\<lparr>mg_leaders := l\<rparr>) = untrusted v" for v l
    by (simp add: untrusted_def no_local_def jobs_vouchless_def)
  ultimately show ?thesis
    using w by (auto simp: dbus_close_session_def split: option.split bool.split prod.split)
qed

lemma untrusted_destroy: "untrusted w \<Longrightarrow> untrusted (destroy_entity E kv w)"
  by (erule untrustedI) (auto simp: remove_session_local destroy_entity_def Let_def ck_session_leader_cancel_def
      dest: subsetD [OF remove_session_local(2)])

lemma untrusted_notify:
  assumes "untrusted w"
  shows "untrusted (on_name_owner_notify E ps w)"
proof -
  have "untrusted (fold (destroy_entity E) kvs v)" if "untrusted v" for kvs v
    using that by (induction kvs arbitrary: v) (auto intro: untrusted_destroy)
  moreover have "untrusted (w\<lparr>mg_leaders := l\<rparr>)" for l
    using assms by (simp add: untrusted_def no_local_def jobs_vouchless_def)
  ultimately show ?thesis
    using assms by (auto simp: on_name_owner_notify_def remove_sessions_for_connection_def Let_def split: prod.split)
qed

lemma untrusted_idle: "untrusted w \<Longrightarrow> untrusted (set_idle_hint E sender a hint w)"
proof -
  assume w: "untrusted w"
  let ?v = "upd_session a (\<lambda>s. fst (dbus_set_idle_hint (sv_session (mv_seat E)) sender hint s)) w"
  have "s_is_local (fst (dbus_set_idle_hint (sv_session (mv_seat E)) sender hint s)) = s_is_local s" for s
    by (auto simp: dbus_set_idle_hint_def session_set_idle_hint_internal_def emit_def split: option.split)
  then have "untrusted ?v" by (intro untrustedI [OF w]) simp_all
  moreover from this have "untrusted (manager_update_system_idle_hint E ?v)" by (rule untrustedI) simp_all
  ultimately show ?thesis by (auto simp: set_idle_hint_def session_idle_hint_changed_def Let_def)
qed

lemma fst_ht_insert: "fst ` set (g_hash_table_insert t k v) \<subseteq> insert k (fst ` set t)"
  using image_mono [OF set_ht_insert_subset [of t k v], of fst] by simp

text \<open>A parameter \<open>x\<close> that nobody passes is not there.\<close>

lemma save_parameters_lacks:
  assumes "x \<noteq> ''unix-user''" and "x \<notin> fst ` set ps" and "x \<notin> fst ` set (sl_override_parameters l)"
  shows "x \<notin> fst ` set (sl_override_parameters (save_parameters ps l))"
  using assms(2,3)
proof (induction ps arbitrary: l)
  case (Cons p ps)
  obtain n v where p: "p = (n, v)" by (cases p)
  define k where "k = (if n = ''user'' then ''unix-user'' else n)"
  have "x \<noteq> n" "x \<noteq> k" using Cons.prems(1) assms(1) by (auto simp: p k_def)
  then have "x \<notin> fst ` set (g_hash_table_insert (sl_override_parameters l) k v)"
    using fst_ht_insert [of "sl_override_parameters l" k v] Cons.prems(2) by blast
  moreover have "save_parameters (p # ps) l = save_parameters ps l \<or>
      save_parameters (p # ps) l = save_parameters ps (l\<lparr>sl_override_parameters := g_hash_table_insert (sl_override_parameters l) k v\<rparr>)"
    by (simp add: p k_def)
  moreover have "x \<notin> fst ` set ps" using Cons.prems(1) by simp
  ultimately show ?case
    using Cons.IH [of l] Cons.IH [of "l\<lparr>sl_override_parameters := g_hash_table_insert (sl_override_parameters l) k v\<rparr>"]
      Cons.prems(2) by (elim disjE) (simp_all del: save_parameters.simps)
qed simp

lemma untrusted_open:
  assumes "untrusted w" and "create_session_for_sender E sender ps ctx w = Some w'"
    and "case ps of None \<Rightarrow> True | Some ps \<Rightarrow> ''is-local'' \<notin> fst ` set ps"
  shows "untrusted w'"
proof (cases "manager_get_caller_info E sender")
  case None
  with assms show ?thesis by (auto simp: create_session_for_sender_def)
next
  case (Some up)
  obtain cookie ssid t where gen: "generate_session_cookie E 0 w = Some cookie"
    "generate_session_id w = Some (ssid, w\<lparr>session_serial := t\<rparr>)"
    using assms(2) Some generate_session_id_frame [of w]
    by (auto simp: create_session_for_sender_def split: option.splits prod.splits)
  define l where "l = ck_session_leader_set_override_parameters ps (ck_session_leader_set_cookie (Some cookie)
     (ck_session_leader_set_session_id (Some ssid) (ck_session_leader_set_service_name sender
       (ck_session_leader_set_pid (snd up) (ck_session_leader_set_uid (fst up) ck_session_leader_new)))))"
  let ?a = "next_address w"
  let ?v = "w\<lparr>session_serial := t, next_address := Suc ?a, leader_heap := (leader_heap w)(?a := l),
     mg_leaders := g_hash_table_insert (mg_leaders w) cookie ?a\<rparr>"
  have w': "w' = generate_session_for_leader E ?a ctx ?v"
    using assms(2) Some gen by (auto simp: create_session_for_sender_def l_def Let_def split: prod.splits)
  have names: "''is-local'' \<notin> fst ` set (sl_override_parameters l)"
    using assms(3) save_parameters_lacks [of "''is-local''"]
    by (cases ps) (simp_all add: l_def ck_session_leader_set_override_parameters_def)
  have same: "sl_override_parameters (snd (ck_session_leader_collect_parameters j x)) = sl_override_parameters x" for j x
    by (simp add: ck_session_leader_collect_parameters_def split: option.split)
  have "no_local w'"
    using assms(1) by (auto simp: w' generate_session_for_leader_def untrusted_def no_local_def Let_def
        split: option.split prod.split)
  moreover have "jobs_vouchless w'"
  proof -
    have old: "la < Suc ?a \<and> ''is-local'' \<notin> fst ` set (sl_override_parameters (leader_heap w' la))"
      if "la \<in> insert ?a (cj_leader ` set (jobs w))" for la
      using that assms(1) names same [of "mv_job E"]
      by (auto simp: w' generate_session_for_leader_def untrusted_def jobs_vouchless_def Let_def split_beta
          split: option.split dest: less_SucI)
    have "cj_leader ` set (jobs w') \<subseteq> insert ?a (cj_leader ` set (jobs w))" "next_address w' = Suc ?a"
      by (auto simp: w' generate_session_for_leader_def Let_def split_beta split: option.split)
    with old show ?thesis
      unfolding jobs_vouchless_def by (intro ballI) (simp only: old [OF subsetD] simp_thms)
  qed
  ultimately show ?thesis by (simp add: untrusted_def)
qed

lemma parse_lines_names:
  "parse_lines l stale i lines = Some ps \<Longrightarrow> fst ` set ps \<subseteq> (fst \<circ> split_assign) ` set lines"
proof (induction lines arbitrary: i ps)
  case (Cons line lines)
  obtain x qs where x: "parse_line l (stale i) line = Some x" "parse_lines l stale (Suc i) lines = Some qs"
    "ps = (case x of None \<Rightarrow> qs | Some p \<Rightarrow> p # qs)"
    using Cons.prems by (auto split: option.splits)
  have "fst p = fst (split_assign line)" if "x = Some p" for p
    using x(1) that by (auto simp: parse_line_def Let_def split_beta split: if_splits option.splits param_type.splits)
  with x(3) Cons.IH [OF x(2)] show ?case by (auto split: option.splits)
qed simp

lemma parse_output_lacks:
  assumes "parse_output l stale output = Some ps" and "x \<notin> (fst \<circ> split_assign) ` set (g_strsplit output CHR 0x0A)"
    and "x \<notin> fst ` set (sl_override_parameters l)"
  shows "x \<notin> fst ` set ps"
proof -
  obtain qs where "parse_lines l stale 0 (g_strsplit output CHR 0x0A) = Some qs" "ps = qs @ sl_override_parameters l"
    using assms(1) by (auto simp: parse_output_def)
  moreover from parse_lines_names [OF this(1)] assms(2) have "x \<notin> fst ` set qs" by (rule contra_subsetD)
  ultimately show ?thesis using assms(3) by (simp only: set_append image_Un Un_iff simp_thms)
qed

lemma verified_local_untrusted: "no_local w \<Longrightarrow> ''is-local'' \<notin> fst ` set ps \<Longrightarrow> \<not> verified_local w ps"
proof (induction ps)
  case (Cons p ps)
  have "\<not> verify_login_session_id_is_local w x" for x
    using Cons.prems(1) by (auto simp: no_local_def verify_login_session_id_is_local_def list_ex_iff)
  with Cons show ?case by (cases p) auto
qed simp

lemma untrusted_job:
  assumes "untrusted w" and "job_completed E stale j status output w = Some w'"
    and "''is-local'' \<notin> (fst \<circ> split_assign) ` set (g_strsplit output CHR 0x0A)"
  shows "untrusted w'"
proof (cases "List.find (\<lambda>c. cj_id c = j) (jobs w)")
  case None
  with assms show ?thesis by (simp add: job_completed_def)
next
  case (Some c)
  then have c: "c \<in> set (jobs w)" by (auto simp: find_Some_iff)
  let ?la = "cj_leader c" and ?ctx = "cj_context c"
  have end_job: "untrusted (v\<lparr>jobs := removeAll c (jobs v), leader_heap := (leader_heap v)(?la := (leader_heap v ?la)\<lparr>sl_pending_jobs := xs\<rparr>)\<rparr>)"
    if "untrusted v" for v xs
    by (rule untrustedI [OF that]) auto
  have "untrusted v" if cb: "collect_parameters_cb E ?la (Some ps) ?ctx w = Some v"
    and parsed: "parse_output (leader_heap w ?la) stale output = Some ps" for v ps
  proof -
    have "''is-local'' \<notin> fst ` set (sl_override_parameters (leader_heap w ?la))"
      using assms(1) c by (simp add: untrusted_def jobs_vouchless_def)
    then have "''is-local'' \<notin> fst ` set ps" by (rule parse_output_lacks [OF parsed assms(3)])
    then have "\<not> verified_local w ps" using verified_local_untrusted assms(1) by (simp add: untrusted_def)
    with cb have "open_session_for_leader E ?la ps False ?ctx w = Some v"
      by (simp add: collect_parameters_cb_def verify_and_open_session_for_leader_def)
    from open_session_no_local [OF this] assms(1) show ?thesis
      by (auto simp: untrusted_def intro!: jobs_vouchless_mono [of w])
  qed
  moreover have "untrusted v" if "collect_parameters_cb E ?la None ?ctx w = Some v" for v
    using that assms(1) by (auto simp: collect_parameters_cb_def)
  ultimately show ?thesis
    using assms(2) Some end_job by (auto simp: job_completed_def Let_def split: if_splits option.splits)
qed

lemma untrusted_step:
  assumes "untrusted w" and "vouchless e" and "manager_step e w = Some w'"
  shows "untrusted w'"
  using assms
  by (cases e) (auto simp: dbus_open_session_def dbus_open_session_with_parameters_def untrusted_close untrusted_notify
      untrusted_idle intro: untrusted_open untrusted_job)

section \<open>Properties\<close>

text \<open>
  C6: When a client leaves the bus, the manager forgets all its leaders, cancels their pending
  requests and takes exactly their sessions out of the table; leaders, requests and sessions
  of other clients stay, in whatever order the entities are destroyed.
\<close>

theorem lost_connection_removes_its_sessions:
  assumes "w' = on_name_owner_notify E (service, old, []) w"
    and "gone = {la. \<exists>cookie. (cookie, la) \<in> set (mg_leaders w) \<and>
       ck_session_leader_peek_service_name (leader_heap w la) = Some old}"
  shows "mg_leaders w' = filter (\<lambda>(cookie, la). la \<notin> gone) (mg_leaders w) \<and>
     jobs w' = filter (\<lambda>c. cj_leader c \<notin> gone) (jobs w) \<and>
     g_hash_table_lookup (mg_sessions w') k =
       (if k \<in> leader_ssid w ` gone then None else g_hash_table_lookup (mg_sessions w) k)"
proof -
  let ?mine = "filter (remove_leader_for_connection w old) (mg_leaders w)"
  have gone: "snd ` set ?mine = gone" by (force simp: assms(2) remove_leader_for_connection_def)
  have "w' = fold (destroy_entity E) (removal_order ?mine)
      (w\<lparr>mg_leaders := filter (\<lambda>kv. \<not> remove_leader_for_connection w old kv) (mg_leaders w)\<rparr>)"
    by (simp add: assms(1) on_name_owner_notify_def remove_sessions_for_connection_def)
  moreover have "leader_ssid (w\<lparr>mg_leaders := l\<rparr>) = leader_ssid w" for l by (simp add: leader_ssid_def fun_eq_iff)
  moreover have "filter (\<lambda>kv. \<not> remove_leader_for_connection w old kv) (mg_leaders w) =
      filter (\<lambda>(cookie, la). la \<notin> gone) (mg_leaders w)"
    by (auto simp: assms(2) remove_leader_for_connection_def intro!: filter_cong)
  ultimately show ?thesis by (simp add: destroy_entities gone [simplified])
qed

definition sample_client :: CkSessionLeader where
  "sample_client = ck_session_leader_init\<lparr>sl_uid := 1000, sl_pid := 42, sl_service_name := Some '':1.7'',
     sl_session_id := Some ''Session1'', sl_cookie := Some ''c''\<rparr>"

definition waiting_manager :: manager_world where
  "waiting_manager = empty_manager\<lparr>mg_leaders := [(''c'', 0), (''d'', 1)], next_address := 2,
     leader_heap := (\<lambda>la. if la = 0 then sample_client else sample_client\<lparr>sl_service_name := Some '':1.8'', sl_session_id := Some ''Session2''\<rparr>),
     jobs := [\<lparr>cj_id = 5, cj_leader = 0, cj_context = 3\<rparr>]\<rparr>"

lemma waiting_fields [simp]:
  "mg_leaders waiting_manager = [(''c'', 0), (''d'', 1)]" "mg_sessions waiting_manager = []" "mg_seats waiting_manager = []"
  "jobs waiting_manager = [\<lparr>cj_id = 5, cj_leader = 0, cj_context = 3\<rparr>]" "leader_heap waiting_manager 0 = sample_client"
  "leader_heap waiting_manager (Suc 0) = sample_client\<lparr>sl_service_name := Some '':1.8'', sl_session_id := Some ''Session2''\<rparr>"
  "sl_uid sample_client = 1000" "sl_pid sample_client = 42" "sl_service_name sample_client = Some '':1.7''"
  "sl_override_parameters sample_client = []" "sl_session_id sample_client = Some ''Session1''"
  by (simp_all add: waiting_manager_def empty_manager_def ck_manager_init_def sample_client_def ck_session_leader_init_def)

lemma waiting_ok: "seats_ok waiting_manager" "leader_ssid waiting_manager 0 = ''Session1''"
  "sv_export_ok (mv_seat sample_menv)" "se_export_ok (sv_session (mv_seat sample_menv))"
  by (simp_all add: seats_ok_def leader_ssid_def ck_session_leader_peek_session_id_def)
    (simp_all add: waiting_manager_def empty_manager_def ck_manager_init_def seat_serial_ok_def sample_menv_def
      sample_seat_env_def sample_senv_def)

theorem lost_connection_removes_its_sessions_witness:
  "mg_leaders (on_name_owner_notify sample_menv ('':1.7'', '':1.7'', []) waiting_manager) = [(''d'', 1)] \<and>
   jobs (on_name_owner_notify sample_menv ('':1.7'', '':1.7'', []) waiting_manager) = []"
proof -
  have "{la. \<exists>cookie. (cookie, la) \<in> set (mg_leaders waiting_manager) \<and>
      ck_session_leader_peek_service_name (leader_heap waiting_manager la) = Some '':1.7''} = {0}"
    by (auto simp: ck_session_leader_peek_service_name_def)
  then show ?thesis
    using lost_connection_removes_its_sessions [OF refl refl, of sample_menv "'':1.7''" "'':1.7''" waiting_manager] by simp
qed

text \<open>
  C2: Opening a session and closing it again by its leader. When the new session can be exported and its
  id is not taken, it is opened under this id on a seat the manager knows; the close is answered TRUE and the cookie is
  forgotten, the table of sessions is what it was, and so is the table of seats: a seat that was made for the session is
  gone again. The exception is a dynamic seat that was there before under the name of the
  first seat: it goes with the session, whatever other sessions are on it.
\<close>

theorem open_close_roundtrip:
  assumes "seats_ok w" and "sv_export_ok (mv_seat E)" and "se_export_ok (sv_session (mv_seat E))"
    and "g_hash_table_lookup (mg_sessions w) (leader_ssid w la) = None"
    and "g_hash_table_lookup (mg_leaders w) cookie = Some la"
    and "manager_get_caller_info E' sender = Some (sl_uid (leader_heap w la), sl_pid (leader_heap w la))"
  shows "\<exists>w1 w2 a sid st. open_session_for_leader E la parameters is_local ctx w = Some w1 \<and>
    g_hash_table_lookup (mg_sessions w1) (leader_ssid w la) = Some a \<and> s_is_local (sess w1 a) = is_local \<and>
    s_seat_id (sess w1 a) = Some sid \<and> g_hash_table_lookup (mg_seats w1) sid = Some st \<and>
    dbus_close_session E' sender ctx' cookie w1 = out (Answer ctx' (Reply_bool True)) w2 \<and>
    g_hash_table_lookup (mg_sessions w2) = g_hash_table_lookup (mg_sessions w) \<and>
    g_hash_table_lookup (mg_seats w2) =
      (if g_hash_table_lookup (mg_seats w) sid \<noteq> None \<and> st_kind (seats w st) = CK_SEAT_KIND_DYNAMIC
       then (g_hash_table_lookup (mg_seats w))(sid := None) else g_hash_table_lookup (mg_seats w)) \<and>
    mg_leaders w2 = g_hash_table_remove (mg_leaders w) cookie"
proof -
  let ?ssid = "leader_ssid w la" and ?a = "next_address w"
  let ?cookie = "NONULL_STRING (ck_session_leader_peek_cookie (leader_heap w la))"
  obtain v st sid where w1: "open_session_for_leader E la parameters is_local ctx w =
      Some (out (Answer ctx (Reply_string (Some ?cookie))) (announce_session E ?a ?ssid is_local v))"
    and v: "g_hash_table_lookup (mg_seats v) sid = Some st" "st_id (seats v st) = Some sid" "s_seat_id (sess v ?a) = Some sid"
    "mg_seats v = mg_seats w \<and> g_hash_table_lookup (mg_seats w) sid = Some st \<and> st_kind (seats v st) = st_kind (seats w st) \<or>
     mg_seats v = g_hash_table_insert (mg_seats w) sid st \<and> g_hash_table_lookup (mg_seats w) sid = None \<and>
       st_kind (seats v st) = CK_SEAT_KIND_DYNAMIC"
    "mg_sessions v = g_hash_table_insert (mg_sessions w) ?ssid ?a" "mg_leaders v = mg_leaders w" "leader_heap v = leader_heap w"
    by (rule open_session_opens [OF assms(1-3)])
  let ?w1 = "out (Answer ctx (Reply_string (Some ?cookie))) (announce_session E ?a ?ssid is_local v)"
  have seat1: "s_seat_id (sess ?w1 ?a) = Some sid" "s_is_local (sess ?w1 ?a) = is_local"
    using v(3) by (simp_all add: ck_session_set_is_local_def)
  let ?r = "remove_session_for_cookie E' cookie (Some la) ?w1"
  have ssid1: "leader_ssid ?w1 la = ?ssid" by (simp add: leader_ssid_def v(7))
  then have found: "g_hash_table_lookup (mg_sessions ?w1) (leader_ssid ?w1 la) = Some ?a" by (simp add: v(5))
  note gone = remove_session_seats [OF found, of E' cookie]
  have "mg_seats (snd ?r) = (if st_kind (seats v st) = CK_SEAT_KIND_DYNAMIC then g_hash_table_remove (mg_seats v) sid else mg_seats v)"
    using gone(2) remove_from_seat_seats [OF seat1(1), of st E'] v(1,2) by simp
  then have seats2: "g_hash_table_lookup (mg_seats (snd ?r)) =
      (if g_hash_table_lookup (mg_seats w) sid \<noteq> None \<and> st_kind (seats w st) = CK_SEAT_KIND_DYNAMIC
       then (g_hash_table_lookup (mg_seats w))(sid := None) else g_hash_table_lookup (mg_seats w))"
    using v(4) ht.insert_then_remove [of "mg_seats w" sid st] by (auto simp: fun_eq_iff)
  have sessions2: "g_hash_table_lookup (mg_sessions (snd ?r)) = g_hash_table_lookup (mg_sessions w)"
    using assms(4) by (auto simp: fun_eq_iff remove_session_lookup ssid1 v(5))
  have "paranoia_check_is_cookie_owner ?w1 (Some cookie) (sl_uid (leader_heap w la)) (sl_pid (leader_heap w la))"
    using assms(5) by (simp add: paranoia_check_is_cookie_owner_def v(6,7) ck_session_leader_get_uid_def ck_session_leader_get_pid_def)
  moreover have "remove_session_for_cookie E' cookie None ?w1 = (True, snd ?r)"
    using gone(1) remove_session_by_cookie [of ?w1 cookie la E'] assms(5) by (simp add: v(6) prod_eq_iff)
  ultimately have "dbus_close_session E' sender ctx' cookie ?w1 =
      out (Answer ctx' (Reply_bool True)) ((snd ?r)\<lparr>mg_leaders := g_hash_table_remove (mg_leaders (snd ?r)) cookie\<rparr>)"
    using assms(6) by (simp add: dbus_close_session_def)
  with w1 seat1 v(1,5,6) sessions2 seats2 show ?thesis
    by (intro exI [of _ ?w1] exI [of _ ?a] exI [of _ sid] exI [of _ st]
        exI [of _ "(snd ?r)\<lparr>mg_leaders := g_hash_table_remove (mg_leaders (snd ?r)) cookie\<rparr>"]) simp
qed

theorem open_close_roundtrip_witness:
  "\<exists>w1 w2. open_session_for_leader sample_menv 0 [] False 3 waiting_manager = Some w1 \<and>
    g_hash_table_lookup (mg_sessions w1) ''Session1'' \<noteq> None \<and>
    dbus_close_session sample_menv (Some '':1.7'') 4 ''c'' w1 = out (Answer 4 (Reply_bool True)) w2 \<and>
    g_hash_table_lookup (mg_seats w2) = g_hash_table_lookup [] \<and> mg_leaders w2 = [(''d'', 1)]"
proof -
  have "g_hash_table_lookup (mg_sessions waiting_manager) (leader_ssid waiting_manager 0) = None"
    "g_hash_table_lookup (mg_leaders waiting_manager) ''c'' = Some 0"
    "manager_get_caller_info sample_menv (Some '':1.7'') = Some (sl_uid (leader_heap waiting_manager 0), sl_pid (leader_heap waiting_manager 0))"
    by (simp_all add: g_hash_table_lookup_def manager_get_caller_info_def)
  from open_close_roundtrip [OF waiting_ok(1,3,4) this, of "[]" False 3 4] show ?thesis
    by (auto simp: waiting_ok(2) g_hash_table_remove_def)
qed

text \<open>
  C8: Only the process that opened a session can close it: if CloseSession changes any of the
  manager's tables, the caller has the user id and the process id of the leader that owns the
  cookie; every other call is answered with the error FAILED.
\<close>

theorem only_the_leader_closes:
  assumes "books (dbus_close_session E sender ctx cookie w) \<noteq> books w"
  shows "\<exists>la. g_hash_table_lookup (mg_leaders w) cookie = Some la \<and>
    manager_get_caller_info E sender =
      Some (ck_session_leader_get_uid (leader_heap w la), ck_session_leader_get_pid (leader_heap w la))"
proof -
  obtain u p where c: "manager_get_caller_info E sender = Some (u, p)"
    using assms by (cases "manager_get_caller_info E sender") (auto simp: dbus_close_session_def)
  then have "paranoia_check_is_cookie_owner w (Some cookie) u p"
    using assms by (auto simp: dbus_close_session_def split: if_splits)
  with c show ?thesis by (auto simp: paranoia_check_is_cookie_owner_def split: option.splits if_splits)
qed

theorem only_the_leader_closes_witness:
  "\<exists>w1 la. open_session_for_leader sample_menv 0 [] False 3 waiting_manager = Some w1 \<and>
    books (dbus_close_session sample_menv (Some '':1.7'') 4 ''c'' w1) \<noteq> books w1 \<and>
    g_hash_table_lookup (mg_leaders w1) ''c'' = Some la \<and> ck_session_leader_get_pid (leader_heap w1 la) = 42"
proof -
  obtain v where v: "open_session_for_leader sample_menv 0 [] False 3 waiting_manager =
      Some (out (Answer 3 (Reply_string (Some (NONULL_STRING (ck_session_leader_peek_cookie (leader_heap waiting_manager 0))))))
        (announce_session sample_menv (next_address waiting_manager) (leader_ssid waiting_manager 0) False v))"
    "mg_sessions v = g_hash_table_insert [] ''Session1'' (next_address waiting_manager)"
    "mg_leaders v = mg_leaders waiting_manager" "leader_heap v = leader_heap waiting_manager"
    by (rule open_session_opens [OF waiting_ok(1,3,4), of 0 "[]" False 3]) (simp add: waiting_ok(2))
  let ?w = "out (Answer 3 (Reply_string (Some (NONULL_STRING (ck_session_leader_peek_cookie (leader_heap waiting_manager 0))))))
        (announce_session sample_menv (next_address waiting_manager) (leader_ssid waiting_manager 0) False v)"
  have "leader_ssid ?w 0 = ''Session1''" by (simp add: leader_ssid_def v(4) ck_session_leader_peek_session_id_def)
  then have "fst (remove_session_for_cookie sample_menv ''c'' None ?w)"
    using remove_session_seats(1) [of ?w 0] remove_session_by_cookie [of ?w "''c''" 0 sample_menv]
    by (simp add: v(2,3)) (simp add: g_hash_table_lookup_def)
  then have "mg_leaders (dbus_close_session sample_menv (Some '':1.7'') 4 ''c'' ?w) = [(''d'', 1)]"
    by (simp add: dbus_close_session_def manager_get_caller_info_def paranoia_check_is_cookie_owner_def v(3,4) split_beta
        ck_session_leader_get_uid_def ck_session_leader_get_pid_def g_hash_table_lookup_def g_hash_table_remove_def split: bool.split)
  then have "books (dbus_close_session sample_menv (Some '':1.7'') 4 ''c'' ?w) \<noteq> books ?w"
    using booksD(3) [of "dbus_close_session sample_menv (Some '':1.7'') 4 ''c'' ?w" ?w] by (auto simp: v(3))
  with only_the_leader_closes [OF this] v(1) show ?thesis by (auto simp: manager_get_caller_info_def)
qed

text \<open>
  The parameter \<open>is-local\<close> makes a session local whatever its value. A request that passes
  it with the value FALSE, as the PAM module does for remote logins, opens a local session.
\<close>

theorem is_local_false_opens_local_session:
  assumes "(''is-local'', V_bool False) \<in> set parameters" and "seats_ok w" and "sv_export_ok (mv_seat E)"
    and "se_export_ok (sv_session (mv_seat E))"
  shows "\<exists>w1 a. collect_parameters_cb E la (Some parameters) ctx w = Some w1 \<and>
    g_hash_table_lookup (mg_sessions w1) (leader_ssid w la) = Some a \<and> s_is_local (sess w1 a)"
proof -
  have local: "verified_local w parameters" using assms(1) by (induction parameters) auto
  obtain v where "open_session_for_leader E la parameters True ctx w =
      Some (out (Answer ctx (Reply_string (Some (NONULL_STRING (ck_session_leader_peek_cookie (leader_heap w la))))))
        (announce_session E (next_address w) (leader_ssid w la) True v))"
    "mg_sessions v = g_hash_table_insert (mg_sessions w) (leader_ssid w la) (next_address w)"
    by (rule open_session_opens [OF assms(2-4)])
  with local show ?thesis
    by (simp add: collect_parameters_cb_def verify_and_open_session_for_leader_def ck_session_set_is_local_def)
qed

theorem is_local_false_opens_local_session_witness:
  "\<exists>w1 a. collect_parameters_cb sample_menv 0 (Some [(''remote-host-name'', V_string ''far''), (''is-local'', V_bool False)]) 3
      waiting_manager = Some w1 \<and>
    g_hash_table_lookup (mg_sessions w1) ''Session1'' = Some a \<and> s_is_local (sess w1 a)"
  using is_local_false_opens_local_session [OF _ waiting_ok(1,3,4), of "[(''remote-host-name'', V_string ''far''), (''is-local'', V_bool False)]" 0 3]
  by (simp add: waiting_ok(2))

text \<open>
  C9: As long as nobody vouches for a login, no session becomes local: whatever sessions are
  opened and closed, if no request and no helper names the parameter \<open>is-local\<close>, every session
  in the table is remote, whichever login session ids are claimed.
\<close>

theorem no_local_session_without_trust:
  assumes "mg_sessions w = []" and "jobs w = []" and "list_all vouchless es" and "run manager_step es w = Some w'"
    and "(ssid, a) \<in> set (mg_sessions w')"
  shows "\<not> s_is_local (sess w' a)"
proof -
  have "untrusted w'" if "untrusted v" "run manager_step es v = Some w'" for v
    using that assms(3)
  proof (induction es arbitrary: v)
    case (Cons e es)
    then show ?case using untrusted_step [of v e] by (auto split: option.splits)
  qed simp
  moreover have "untrusted w" using assms(1,2) by (simp add: untrusted_def no_local_def jobs_vouchless_def)
  ultimately have "no_local w'" using assms(4) by (simp add: untrusted_def)
  with assms(5) show ?thesis by (auto simp: no_local_def)
qed

lemma sample_request:
  "\<exists>w1. manager_step (Open_Session sample_menv (Some '':1.7'') 3) empty_manager = Some w1 \<and> seats_ok w1 \<and>
     jobs w1 = [\<lparr>cj_id = 1, cj_leader = 0, cj_context = 3\<rparr>] \<and> leader_ssid w1 0 = ''Session1'' \<and> mg_sessions w1 = [] \<and>
     parse_output (leader_heap w1 0) (\<lambda>_. 0) ''unix-user = 7'' = Some [(''unix-user'', V_int 7)]"
proof -
  have id: "generate_session_id empty_manager = Some (''Session1'', empty_manager\<lparr>session_serial := 2\<rparr>)"
    by (subst generate_session_id.simps)
      (simp add: get_next_session_serial_def next_session_serial_def empty_manager_def ck_manager_init_def dec.simps [of "Suc 0"] digit_def char_of_def bit_0)
  have cookie: "generate_session_cookie sample_menv 0 empty_manager = Some (cookie_text ''host'' (1, (100, 0)))"
    by (subst generate_session_cookie.simps) (simp add: sample_menv_def empty_manager_def ck_manager_init_def)
  have "mv_job sample_menv = Some 1" by (simp add: sample_menv_def)
  then show ?thesis
    by (simp add: dbus_open_session_def create_session_for_sender_def manager_get_caller_info_def id cookie generate_session_for_leader_def
        ck_session_leader_collect_parameters_def seats_ok_def leader_ssid_def Let_def)
      (simp add: empty_manager_def ck_manager_init_def seat_serial_ok_def ck_session_leader_set_override_parameters_def
        ck_session_leader_set_cookie_def ck_session_leader_set_session_id_def ck_session_leader_set_service_name_def
        ck_session_leader_set_pid_def ck_session_leader_set_uid_def ck_session_leader_new_def ck_session_leader_init_def
        ck_session_leader_peek_session_id_def parse_output_def parse_line_def have_override_parameter_def
        lookup_parameter_type_def parameter_lookup_def untrusted_int_def strtol_def g_strsplit_def is_digit_def digit_val_def dec_val_def of_char_def ERANGE_def)
qed

theorem no_local_session_without_trust_witness:
  "\<exists>w' a. run manager_step [Open_Session sample_menv (Some '':1.7'') 3, Job_Completed sample_menv (\<lambda>_. 0) 1 0 ''unix-user = 7'']
      empty_manager = Some w' \<and>
    (''Session1'', a) \<in> set (mg_sessions w') \<and> \<not> s_is_local (sess w' a)"
proof -
  let ?es = "[Open_Session sample_menv (Some '':1.7'') 3, Job_Completed sample_menv (\<lambda>_. 0) 1 0 ''unix-user = 7'']"
  obtain w1 where w1: "manager_step (Open_Session sample_menv (Some '':1.7'') 3) empty_manager = Some w1" "seats_ok w1"
    "jobs w1 = [\<lparr>cj_id = 1, cj_leader = 0, cj_context = 3\<rparr>]" "leader_ssid w1 0 = ''Session1''" "mg_sessions w1 = []"
    "parse_output (leader_heap w1 0) (\<lambda>_. 0) ''unix-user = 7'' = Some [(''unix-user'', V_int 7)]"
    using sample_request by blast
  obtain v x where v: "open_session_for_leader sample_menv 0 [(''unix-user'', V_int 7)] False 3 w1 =
      Some (out x (announce_session sample_menv (next_address w1) (leader_ssid w1 0) False v))"
    "mg_sessions v = g_hash_table_insert (mg_sessions w1) (leader_ssid w1 0) (next_address w1)"
    by (rule open_session_opens [OF w1(2) waiting_ok(3,4)]) blast
  have "\<exists>w'. run manager_step ?es empty_manager = Some w' \<and> (''Session1'', next_address w1) \<in> set (mg_sessions w')"
    using w1(1,3,4,5,6) v
    by (simp add: job_completed_def collect_parameters_cb_def verify_and_open_session_for_leader_def
        g_hash_table_insert_def del: manager_step.simps(1))
  then obtain w' where w': "run manager_step ?es empty_manager = Some w'" "(''Session1'', next_address w1) \<in> set (mg_sessions w')"
    by blast
  have "list_all vouchless ?es" by (simp add: g_strsplit_def)
  from no_local_session_without_trust [OF _ _ this w'] w' show ?thesis by (auto simp: empty_manager_def ck_manager_init_def)
qed

text \<open>
  C24: The system idle hint is exact after every event that can change it: once a session was
  opened, closed or changed its own hint, the hint is TRUE just if no lock blocks idleness and
  every session is idle.
\<close>

theorem system_idle_hint_is_exact:
  assumes "se_export_ok (sv_session (mv_seat E))"
  shows "(open_session_for_leader E la ps is_local ctx w = Some w1 \<longrightarrow> idle_exact w1) \<and>
    (remove_session_for_cookie E c l w = (True, w2) \<longrightarrow> idle_exact w2) \<and>
    (a \<in> set (idle_handlers w) \<and> s_idle_hint (sess (set_idle_hint E sender a hint w) a) \<noteq> s_idle_hint (sess w a) \<longrightarrow>
       idle_exact (set_idle_hint E sender a hint w))"
proof (intro conjI impI)
  have ann: "idle_exact (announce_session E b ssid loc v)" for b ssid loc v
    using idle_exact_update [of E "upd_session b (ck_session_set_is_local loc) v"]
    by (simp add: announce_session_def Let_def idle_exact_def)
  assume open_w1: "open_session_for_leader E la ps is_local ctx w = Some w1"
  have "\<exists>s. ck_session_new_with_parameters (sv_session (mv_seat E)) (mv_transform E) i k ps True = Some s" for i k
    using assms by (simp add: ck_session_new_with_parameters_def register_session_def Let_def)
  then obtain s where "ck_session_new_with_parameters (sv_session (mv_seat E)) (mv_transform E)
      (NONULL_STRING (ck_session_leader_peek_session_id (leader_heap w la)))
      (NONULL_STRING (ck_session_leader_peek_cookie (leader_heap w la))) ps True = Some s" by blast
  with open_w1 ann show "idle_exact w1" by (auto simp: open_session_for_leader_def Let_def)
next
  assume "remove_session_for_cookie E c l w = (True, w2)"
  then show "idle_exact w2" by (auto simp: remove_session_for_cookie_def Let_def split: option.splits if_splits)
next
  assume "a \<in> set (idle_handlers w) \<and> s_idle_hint (sess (set_idle_hint E sender a hint w) a) \<noteq> s_idle_hint (sess w a)"
  then show "idle_exact (set_idle_hint E sender a hint w)"
    by (auto simp: set_idle_hint_def session_idle_hint_changed_def Let_def split: if_splits)
qed

theorem system_idle_hint_is_exact_witness:
  "\<exists>w1. open_session_for_leader sample_menv 0 [] False 3 waiting_manager = Some w1 \<and> mg_sessions w1 \<noteq> [] \<and> idle_exact w1"
proof -
  obtain v x where "open_session_for_leader sample_menv 0 [] False 3 waiting_manager =
      Some (out x (announce_session sample_menv (next_address waiting_manager) (leader_ssid waiting_manager 0) False v))"
    "mg_sessions v = g_hash_table_insert (mg_sessions waiting_manager) (leader_ssid waiting_manager 0) (next_address waiting_manager)"
    by (rule open_session_opens [OF waiting_ok(1,3,4)]) blast
  with system_idle_hint_is_exact [OF waiting_ok(4), of 0 "[]" False 3 waiting_manager
      "out x (announce_session sample_menv (next_address waiting_manager) (leader_ssid waiting_manager 0) False v)"]
  show ?thesis by (simp add: g_hash_table_insert_def)
qed

end
