(* ===== verification/CK_Job.thy ===== *)
theory CK_Job
  imports CK_SessionLeader
begin

text \<open>
  A helper process and its output: src/src/ck-job.c.

  The record is \<open>CkJobPrivate\<close> with the \<open>completed\<close> signals the job emitted. What a pipe
  delivers, what \<open>waitpid\<close> returns and whether the process can be started are inputs; a wait
  that does not return is \<open>None\<close>. Freeing strings and closing descriptors has no counterpart.
\<close>

section \<open>Types\<close>

record CkJob =
  err_watch_id :: nat
  out_watch_id :: nat
  jb_command :: cstring
  std_out :: string
  std_err :: string
  child_pid :: nat
  jb_completed :: "int list"
  jb_killed :: "nat list"

text \<open>The results of one \<open>waitpid\<close> and of one \<open>g_io_channel_read_line\<close>.\<close>

datatype wait_result = Wait_Status int | Wait_EINTR | Wait_ECHILD | Wait_Other

datatype io_status = IO_NORMAL string | IO_EOF | IO_ERROR | IO_AGAIN

section \<open>Operations\<close>

definition ck_job_init :: CkJob where
  "ck_job_init = \<lparr>err_watch_id = 0, out_watch_id = 0, jb_command = None, std_out = [], std_err = [], child_pid = 0,
     jb_completed = [], jb_killed = []\<rparr>"

definition ck_job_new :: CkJob where
  "ck_job_new = ck_job_init"

text \<open>\<open>garbage\<close> is the value of the variable \<open>status\<close>, which is not initialized.\<close>

fun wait_on_child :: "int \<Rightarrow> wait_result list \<Rightarrow> int option" where
  "wait_on_child garbage [] = None"
| "wait_on_child garbage (Wait_EINTR # rs) = wait_on_child garbage rs"
| "wait_on_child garbage (Wait_ECHILD # rs) = Some garbage"
| "wait_on_child garbage (Wait_Other # rs) = Some garbage"
| "wait_on_child garbage (Wait_Status s # rs) = Some s"

definition WEXITSTATUS :: "int \<Rightarrow> int" where
  "WEXITSTATUS status = status div 256 mod 256"

definition wait_on_job :: "int \<Rightarrow> wait_result list \<Rightarrow> CkJob \<Rightarrow> (int \<times> CkJob) option" where
  "wait_on_job garbage rs j =
     (case wait_on_child garbage rs of
        None \<Rightarrow> None
      | Some status \<Rightarrow> Some (WEXITSTATUS status, j\<lparr>child_pid := 0\<rparr>))"

definition maybe_complete_job :: "int \<Rightarrow> wait_result list \<Rightarrow> CkJob \<Rightarrow> CkJob option" where
  "maybe_complete_job garbage rs j =
     (if out_watch_id j = 0 \<and> err_watch_id j = 0
      then map_option (\<lambda>(status, j). j\<lparr>jb_completed := jb_completed j @ [status]\<rparr>) (wait_on_job garbage rs j)
      else Some j)"

text \<open>
  The watches run with the condition of the pipe, here the bits \<open>G_IO_IN\<close> and \<open>G_IO_HUP\<close>;
  the result says whether the watch stays.
\<close>

definition error_watch :: "int \<Rightarrow> wait_result list \<Rightarrow> bool \<Rightarrow> bool \<Rightarrow> io_status \<Rightarrow> CkJob \<Rightarrow> (bool \<times> CkJob) option" where
  "error_watch garbage rs io_in io_hup st j =
     (let (finished, j) =
        (if io_in then
           (case st of
              IO_NORMAL line \<Rightarrow> (False, j\<lparr>std_err := std_err j @ line\<rparr>)
            | IO_EOF \<Rightarrow> (True, j)
            | IO_ERROR \<Rightarrow> (True, j)
            | IO_AGAIN \<Rightarrow> (False, j))
         else (io_hup, j))
      in if finished then map_option (Pair False) (maybe_complete_job garbage rs (j\<lparr>err_watch_id := 0\<rparr>))
         else Some (True, j))"

definition out_watch :: "int \<Rightarrow> wait_result list \<Rightarrow> bool \<Rightarrow> bool \<Rightarrow> io_status \<Rightarrow> CkJob \<Rightarrow> (bool \<times> CkJob) option" where
  "out_watch garbage rs io_in io_hup st j =
     (let (finished, j) =
        (if io_in then
           (case st of
              IO_NORMAL line \<Rightarrow> (False, j\<lparr>std_out := std_out j @ line\<rparr>)
            | IO_EOF \<Rightarrow> (True, j)
            | IO_ERROR \<Rightarrow> (True, j)
            | IO_AGAIN \<Rightarrow> (False, j))
         else (io_hup, j))
      in if finished then map_option (Pair False) (maybe_complete_job garbage rs (j\<lparr>out_watch_id := 0\<rparr>))
         else Some (True, j))"

text \<open>
  \<open>parse\<close> says whether the command can be split into words, \<open>spawn\<close> is the process id or
  \<open>None\<close>, \<open>ids\<close> are the ids of the two watches.
\<close>

definition ck_job_execute :: "(string \<Rightarrow> bool) \<Rightarrow> nat option \<Rightarrow> nat \<times> nat \<Rightarrow> CkJob \<Rightarrow> bool \<times> CkJob" where
  "ck_job_execute parse spawn ids j =
     (if \<not> parse (NONULL_STRING (jb_command j)) then (False, j)
      else case spawn of
        None \<Rightarrow> (False, j)
      | Some p \<Rightarrow> (True, j\<lparr>child_pid := p, out_watch_id := fst ids, err_watch_id := snd ids\<rparr>))"

definition ck_job_get_stdout :: "CkJob \<Rightarrow> string" where
  "ck_job_get_stdout j = std_out j"

definition ck_job_set_command :: "cstring \<Rightarrow> CkJob \<Rightarrow> CkJob" where
  "ck_job_set_command c j = j\<lparr>jb_command := c\<rparr>"

definition ck_job_get_command :: "CkJob \<Rightarrow> cstring" where
  "ck_job_get_command j = jb_command j"

definition ck_job_cancel :: "int \<Rightarrow> wait_result list \<Rightarrow> CkJob \<Rightarrow> (bool \<times> CkJob) option" where
  "ck_job_cancel garbage rs j =
     (if child_pid j > 0
      then map_option (\<lambda>(_, j). (True, j)) (wait_on_job garbage rs (j\<lparr>jb_killed := child_pid j # jb_killed j\<rparr>))
      else Some (False, j))"

definition ck_job_finalize :: "int \<Rightarrow> wait_result list \<Rightarrow> CkJob \<Rightarrow> CkJob option" where
  "ck_job_finalize garbage rs j =
     map_option (\<lambda>(_, j). j\<lparr>out_watch_id := 0, err_watch_id := 0\<rparr>) (ck_job_cancel garbage rs j)"

section \<open>Runs\<close>

text \<open>The main loop runs a watch that exists; each event brings what \<open>waitpid\<close> would return.\<close>

datatype job_event =
    Out_Ready int "wait_result list" bool bool io_status
  | Err_Ready int "wait_result list" bool bool io_status

fun job_step :: "job_event \<Rightarrow> CkJob \<Rightarrow> CkJob option" where
  "job_step (Out_Ready garbage rs io_in io_hup st) j =
     (if out_watch_id j = 0 then Some j else map_option snd (out_watch garbage rs io_in io_hup st j))"
| "job_step (Err_Ready garbage rs io_in io_hup st) j =
     (if err_watch_id j = 0 then Some j else map_option snd (error_watch garbage rs io_in io_hup st j))"

text \<open>The wait ends: some result is not an interruption.\<close>

fun job_event_ok :: "job_event \<Rightarrow> bool" where
  "job_event_ok (Out_Ready garbage rs io_in io_hup st) = (\<exists>r \<in> set rs. r \<noteq> Wait_EINTR)"
| "job_event_ok (Err_Ready garbage rs io_in io_hup st) = (\<exists>r \<in> set rs. r \<noteq> Wait_EINTR)"

text \<open>What an event ends: the pipe of the output or of the errors.\<close>

fun ends :: "bool \<Rightarrow> job_event \<Rightarrow> bool" where
  "ends is_out (Out_Ready garbage rs io_in io_hup st) = (is_out \<and> (if io_in then st = IO_EOF \<or> st = IO_ERROR else io_hup))"
| "ends is_out (Err_Ready garbage rs io_in io_hup st) = (\<not> is_out \<and> (if io_in then st = IO_EOF \<or> st = IO_ERROR else io_hup))"

definition line_of :: "job_event \<Rightarrow> string" where
  "line_of e = (case e of Out_Ready _ _ True _ (IO_NORMAL line) \<Rightarrow> line | _ \<Rightarrow> [])"

text \<open>The lines the output pipe delivers before it ends.\<close>

fun delivered :: "job_event list \<Rightarrow> string" where
  "delivered [] = []"
| "delivered (e # es) =
     (if ends True e then []
      else line_of e @ delivered es)"

definition job_inv :: "CkJob \<Rightarrow> bool" where
  "job_inv j = (length (jb_completed j) = (if out_watch_id j = 0 \<and> err_watch_id j = 0 then 1 else 0))"

section \<open>Lemmas\<close>

lemma wait_on_child_returns: "\<exists>r \<in> set rs. r \<noteq> Wait_EINTR \<Longrightarrow> \<exists>s. wait_on_child garbage rs = Some s"
  by (induction garbage rs rule: wait_on_child.induct) auto

lemma maybe_complete_returns:
  assumes "\<exists>r \<in> set rs. r \<noteq> Wait_EINTR"
  shows "\<exists>s. maybe_complete_job garbage rs j =
    Some (if out_watch_id j = 0 \<and> err_watch_id j = 0 then j\<lparr>child_pid := 0, jb_completed := jb_completed j @ [s]\<rparr> else j)"
  using wait_on_child_returns [OF assms, of garbage] by (auto simp: maybe_complete_job_def wait_on_job_def)

text \<open>A watch either appends a line or ends its pipe, and with the last pipe the job completes.\<close>

lemma out_watch_cases:
  "map_option snd (out_watch garbage rs io_in io_hup st j) =
     (if ends True (Out_Ready garbage rs io_in io_hup st) then maybe_complete_job garbage rs (j\<lparr>out_watch_id := 0\<rparr>)
      else Some (if io_in then (case st of IO_NORMAL line \<Rightarrow> j\<lparr>std_out := std_out j @ line\<rparr> | _ \<Rightarrow> j) else j))"
  by (cases st) (auto simp: out_watch_def option.map_comp comp_def option.map_ident)

lemma error_watch_cases:
  "map_option snd (error_watch garbage rs io_in io_hup st j) =
     (if ends False (Err_Ready garbage rs io_in io_hup st) then maybe_complete_job garbage rs (j\<lparr>err_watch_id := 0\<rparr>)
      else Some (if io_in then (case st of IO_NORMAL line \<Rightarrow> j\<lparr>std_err := std_err j @ line\<rparr> | _ \<Rightarrow> j) else j))"
  by (cases st) (auto simp: error_watch_def option.map_comp comp_def option.map_ident)

lemma line_of_simps [simp]:
  "line_of (Out_Ready g rs i h st) = (if i then (case st of IO_NORMAL line \<Rightarrow> line | _ \<Rightarrow> []) else [])"
  "line_of (Err_Ready g rs i h st) = []"
  by (auto simp: line_of_def split: io_status.split bool.split)

lemma job_step_result:
  assumes "job_inv j" and "job_event_ok e"
  shows "\<exists>j'. job_step e j = Some j' \<and> job_inv j' \<and>
    out_watch_id j' = (if ends True e then 0 else out_watch_id j) \<and>
    err_watch_id j' = (if ends False e then 0 else err_watch_id j) \<and>
    std_out j' = (if out_watch_id j = 0 \<or> ends True e then std_out j else std_out j @ line_of e)"
proof (cases e)
  case (Out_Ready garbage rs io_in io_hup st)
  show ?thesis
  proof (cases "ends True e \<and> out_watch_id j \<noteq> 0")
    case True
    let ?j = "j\<lparr>out_watch_id := 0\<rparr>"
    obtain s where "maybe_complete_job garbage rs ?j = Some (if out_watch_id ?j = 0 \<and> err_watch_id ?j = 0
        then ?j\<lparr>child_pid := 0, jb_completed := jb_completed ?j @ [s]\<rparr> else ?j)"
      using maybe_complete_returns [of rs garbage ?j] assms(2) Out_Ready by auto
    with True Out_Ready assms(1) show ?thesis
      by (simp add: out_watch_cases job_inv_def del: ends.simps) (auto simp: Out_Ready)
  next
    case False
    then show ?thesis
      using assms(1) Out_Ready
      by (cases st) (auto simp: out_watch_cases job_inv_def split: if_splits)
  qed
next
  case (Err_Ready garbage rs io_in io_hup st)
  show ?thesis
  proof (cases "ends False e \<and> err_watch_id j \<noteq> 0")
    case True
    let ?j = "j\<lparr>err_watch_id := 0\<rparr>"
    obtain s where "maybe_complete_job garbage rs ?j = Some (if out_watch_id ?j = 0 \<and> err_watch_id ?j = 0
        then ?j\<lparr>child_pid := 0, jb_completed := jb_completed ?j @ [s]\<rparr> else ?j)"
      using maybe_complete_returns [of rs garbage ?j] assms(2) Err_Ready by auto
    with True Err_Ready assms(1) show ?thesis
      by (simp add: error_watch_cases job_inv_def del: ends.simps) (auto simp: Err_Ready)
  next
    case False
    then show ?thesis
      using assms(1) Err_Ready
      by (cases st) (auto simp: error_watch_cases job_inv_def split: if_splits)
  qed
qed

interpretation job: machine job_step job_event_ok
  "\<lambda>j. \<exists>c p o_id e_id. o_id \<noteq> 0 \<and> e_id \<noteq> 0 \<and> (\<exists>parse. parse c \<and>
     (True, j) = ck_job_execute parse (Some p) (o_id, e_id) (ck_job_set_command (Some c) ck_job_new))" job_inv
proof unfold_locales
  show "\<exists>j'. job_step e j = Some j' \<and> job_inv j'" if "job_inv j" "job_event_ok e" for e j
    using job_step_result [OF that] by blast
qed (auto simp: ck_job_execute_def ck_job_set_command_def ck_job_new_def ck_job_init_def job_inv_def)

lemma job_run_result:
  assumes "job_inv j" and "list_all job_event_ok es"
  shows "\<exists>j'. run job_step es j = Some j' \<and> job_inv j' \<and>
    (out_watch_id j' = 0 \<longleftrightarrow> out_watch_id j = 0 \<or> list_ex (ends True) es) \<and>
    (err_watch_id j' = 0 \<longleftrightarrow> err_watch_id j = 0 \<or> list_ex (ends False) es) \<and>
    std_out j' = (if out_watch_id j = 0 then std_out j else std_out j @ delivered es)"
  using assms
proof (induction es arbitrary: j)
  case (Cons e es)
  obtain v where v: "job_step e j = Some v" "job_inv v" "out_watch_id v = (if ends True e then 0 else out_watch_id j)"
    "err_watch_id v = (if ends False e then 0 else err_watch_id j)"
    "std_out v = (if out_watch_id j = 0 \<or> ends True e then std_out j else std_out j @ line_of e)"
    using job_step_result [of j e] Cons.prems by auto
  with Cons.IH [of v] Cons.prems show ?case by (auto split: if_splits)
qed simp

section \<open>Properties\<close>


definition sample_job_events :: "job_event list" where
  "sample_job_events =
     [Out_Ready 0 [Wait_Status 0] True False (IO_NORMAL ''vtnr = 2''), Err_Ready 0 [Wait_Status 0] False True IO_AGAIN,
      Out_Ready 0 [Wait_EINTR, Wait_Status 0] True True IO_EOF]"


text \<open>
  A helper that is killed by a signal counts as successful. Its wait status is below 256,
  the exit status read from it without a test whether it exited is 0, and the job reports 0
  with the output cut off wherever the process died.
\<close>

theorem killed_helper_counts_as_success:
  assumes "0 < sig" and "sig < 128" and "status = sig + (if core then 128 else 0)"
    and "out_watch_id j \<noteq> 0" and "err_watch_id j = 0"
  shows "\<exists>j'. out_watch garbage [Wait_Status status] False True IO_AGAIN j = Some (False, j') \<and>
    jb_completed j' = jb_completed j @ [0] \<and> ck_job_get_stdout j' = ck_job_get_stdout j"
  using assms by (auto simp: out_watch_def maybe_complete_job_def wait_on_job_def WEXITSTATUS_def ck_job_get_stdout_def)

theorem killed_helper_counts_as_success_witness:
  "\<exists>j'. out_watch 77 [Wait_Status 139] False True IO_AGAIN (ck_job_init\<lparr>out_watch_id := 3, std_out := ''vtnr''\<rparr>) =
      Some (False, j') \<and> jb_completed j' = [0] \<and> ck_job_get_stdout j' = ''vtnr''"
  using killed_helper_counts_as_success [of 11 139 True "ck_job_init\<lparr>out_watch_id := 3, std_out := ''vtnr''\<rparr>" 77]
  by (simp add: ck_job_init_def ck_job_get_stdout_def)

end
