(* ===== verification/CK_EventLogger.thy ===== *)
theory CK_EventLogger
  imports CK_LogEvent "HOL-Library.Sublist"
begin

text \<open>
  The writer of the history: src/src/ck-event-logger.c.

  Events are pushed on a queue by the daemon and written by a thread. The disk maps an
  inode to the lines of that file, \<open>log_path\<close> is the inode the log file name leads to; other
  programs may rename or replace the file at any time. The stream of the logger is an open
  file or one that was closed and whose pointer was kept. A fault is recorded when a closed
  stream is used. Which system calls fail is an input.
\<close>

section \<open>State\<close>

datatype log_stream = No_File | Open_File nat | Closed_File

datatype logger_fault = Closed_Twice | Written_When_Closed | Joined_No_Thread

text \<open>
  An element of the queue: an event, or the one of type \<open>CK_LOG_EVENT_NONE\<close> that ends the thread. \<open>lg_event\<close> is the
  event the thread has taken and not printed yet.
\<close>

record CkEventLogger =
  lg_file :: log_stream
  writer_thread :: bool
  event_queue :: "CkLogEvent option list"
  lg_event :: "CkLogEvent option"
  log_disk :: "nat \<Rightarrow> string list"
  log_path :: "nat option"
  log_inodes :: nat
  logger_faults :: "logger_fault list"

text \<open>The outcome of one \<open>g_open\<close> of the file for writing, and of the other calls.\<close>

datatype open_fault = Open_ENFILE | Open_Fails | Open_Works

record logger_env =
  lo_mkdir :: bool
  lo_open :: "open_fault list"
  lo_create :: bool
  lo_open_again :: bool
  lo_cloexec :: bool
  lo_fchown :: bool
  lo_fdopen :: bool
  lo_fstat :: bool
  lo_check :: bool
  lo_print :: bool
  lo_thread :: bool

section \<open>Operations\<close>

definition ck_event_logger_queue_event :: "CkLogEvent \<Rightarrow> CkEventLogger \<Rightarrow> CkEventLogger option" where
  "ck_event_logger_queue_event e l =
     map_option (\<lambda>event_copy. l\<lparr>event_queue := event_queue l @ [Some event_copy]\<rparr>) (ck_log_event_copy e)"

text \<open>
  Opening for writing, with the retry when all descriptors are used: \<open>None\<close> when the loop does
  not end, otherwise the inode that was opened, if any.
\<close>

fun open_for_writing :: "logger_env \<Rightarrow> open_fault list \<Rightarrow> CkEventLogger \<Rightarrow> (nat option \<times> CkEventLogger) option" where
  "open_for_writing E [] l = None"
| "open_for_writing E (Open_ENFILE # fs) l = open_for_writing E fs l"
| "open_for_writing E (Open_Fails # fs) l = Some (None, l)"
| "open_for_writing E (Open_Works # fs) l =
     (case log_path l of
        Some ino \<Rightarrow> Some (Some ino, l)
      | None \<Rightarrow>
          if \<not> lo_create E then Some (None, l)
          else
            let ino = log_inodes l;
                l = l\<lparr>log_path := Some ino, log_inodes := Suc ino, log_disk := (log_disk l)(ino := [])\<rparr>
            in Some (if lo_open_again E then Some ino else None, l))"

definition open_log_file :: "logger_env \<Rightarrow> CkEventLogger \<Rightarrow> (bool \<times> CkEventLogger) option" where
  "open_log_file E l =
     (if \<not> lo_mkdir E then Some (False, l)
      else case open_for_writing E (lo_open E) l of
        None \<Rightarrow> None
      | Some (None, l) \<Rightarrow> Some (False, l)
      | Some (Some ino, l) \<Rightarrow>
          if \<not> lo_cloexec E then Some (False, l)
          else if \<not> lo_fchown E then Some (False, l)
          else if \<not> lo_fdopen E then Some (False, l)
          else Some (True, l\<lparr>lg_file := Open_File ino\<rparr>))"

text \<open>The pointer is not reset after \<open>fclose\<close>.\<close>

definition close_stream :: "CkEventLogger \<Rightarrow> CkEventLogger" where
  "close_stream l =
     (case lg_file l of
        No_File \<Rightarrow> l
      | Open_File ino \<Rightarrow> l\<lparr>lg_file := Closed_File\<rparr>
      | Closed_File \<Rightarrow> l\<lparr>logger_faults := Closed_Twice # logger_faults l\<rparr>)"

definition reopen_file_stream :: "logger_env \<Rightarrow> CkEventLogger \<Rightarrow> CkEventLogger option" where
  "reopen_file_stream E l = map_option snd (open_log_file E (close_stream l))"

definition check_file_stream :: "logger_env \<Rightarrow> CkEventLogger \<Rightarrow> CkEventLogger option" where
  "check_file_stream E l =
     (case lg_file l of
        Open_File old \<Rightarrow>
          if \<not> lo_fstat E then reopen_file_stream E l
          else (case log_path l of
                  None \<Rightarrow> reopen_file_stream E l
                | Some new \<Rightarrow>
                    if \<not> lo_check E then reopen_file_stream E l
                    else if old \<noteq> new then reopen_file_stream E l
                    else Some l)
      | _ \<Rightarrow> reopen_file_stream E l)"

definition print_line :: "logger_env \<Rightarrow> string \<Rightarrow> CkEventLogger \<Rightarrow> CkEventLogger" where
  "print_line E line l =
     (case lg_file l of
        No_File \<Rightarrow> l
      | Open_File ino \<Rightarrow> if lo_print E then l\<lparr>log_disk := (log_disk l)(ino := log_disk l ino @ [line])\<rparr> else l
      | Closed_File \<Rightarrow> l\<lparr>logger_faults := Written_When_Closed # logger_faults l\<rparr>)"

definition event_line :: "CkLogEvent \<Rightarrow> string" where
  "event_line e = (case ck_log_event_to_string e of None \<Rightarrow> [] | Some s \<Rightarrow> s)"

text \<open>
  The thread writes an event in two steps: it takes it, checks the stream, and prints. Other programs may rename or replace the
  file in between. A change during the check is as good as one before it, since
  the check looks at the file name once; where it is not, because a file appears or goes away
  between the calls of \<open>open_log_file\<close>, the creation or the second opening fails (\<open>lo_create\<close>, \<open>lo_open_again\<close>).
\<close>

definition write_log_check :: "logger_env \<Rightarrow> CkLogEvent \<Rightarrow> CkEventLogger \<Rightarrow> CkEventLogger option" where
  "write_log_check E e l = check_file_stream E (l\<lparr>lg_event := Some e\<rparr>)"

definition write_log_print :: "logger_env \<Rightarrow> CkEventLogger \<Rightarrow> CkEventLogger" where
  "write_log_print E l =
     (case lg_event l of None \<Rightarrow> l | Some e \<Rightarrow> (print_line E (event_line e) l)\<lparr>lg_event := None\<rparr>)"

definition write_log_for_event :: "logger_env \<Rightarrow> CkLogEvent \<Rightarrow> CkEventLogger \<Rightarrow> CkEventLogger option" where
  "write_log_for_event E e l = map_option (write_log_print E) (write_log_check E e l)"

text \<open>One turn of \<open>writer_thread_start\<close> up to the printing; it blocks on an empty queue.\<close>

definition writer_thread_start :: "logger_env \<Rightarrow> CkEventLogger \<Rightarrow> CkEventLogger option" where
  "writer_thread_start E l =
     (if \<not> writer_thread l \<or> lg_event l \<noteq> None then Some l
      else case event_queue l of
        [] \<Rightarrow> Some l
      | None # q \<Rightarrow> Some (l\<lparr>event_queue := q, writer_thread := False\<rparr>)
      | Some e # q \<Rightarrow> write_log_check E e (l\<lparr>event_queue := q\<rparr>))"

definition create_writer_thread :: "logger_env \<Rightarrow> CkEventLogger \<Rightarrow> CkEventLogger" where
  "create_writer_thread E l = (if lo_thread E then l\<lparr>writer_thread := True\<rparr> else l)"

definition destroy_writer_thread :: "CkEventLogger \<Rightarrow> CkEventLogger" where
  "destroy_writer_thread l =
     (let l = l\<lparr>event_queue := event_queue l @ [None]\<rparr>
      in if writer_thread l then l else l\<lparr>logger_faults := Joined_No_Thread # logger_faults l\<rparr>)"

text \<open>The disk as it is when the daemon starts.\<close>

definition ck_event_logger_init :: "(nat \<Rightarrow> string list) \<Rightarrow> nat option \<Rightarrow> nat \<Rightarrow> CkEventLogger" where
  "ck_event_logger_init disk path inodes =
     \<lparr>lg_file = No_File, writer_thread = False, event_queue = [], lg_event = None, log_disk = disk, log_path = path, log_inodes = inodes,
      logger_faults = []\<rparr>"

definition ck_event_logger_constructor :: "logger_env \<Rightarrow> CkEventLogger \<Rightarrow> CkEventLogger option" where
  "ck_event_logger_constructor E l =
     map_option (\<lambda>(ok, l). if ok then create_writer_thread E l else l) (open_log_file E l)"

definition ck_event_logger_new ::
  "logger_env \<Rightarrow> (nat \<Rightarrow> string list) \<Rightarrow> nat option \<Rightarrow> nat \<Rightarrow> CkEventLogger option" where
  "ck_event_logger_new E disk path inodes = ck_event_logger_constructor E (ck_event_logger_init disk path inodes)"

definition ck_event_logger_finalize :: "CkEventLogger \<Rightarrow> CkEventLogger" where
  "ck_event_logger_finalize l = close_stream (destroy_writer_thread l)"

section \<open>Runs\<close>

text \<open>The daemon queues, the thread checks and prints, another program renames the file away or replaces it by an empty one.\<close>

datatype logger_event =
    Queue_Event CkLogEvent
  | Check_Next logger_env
  | Print_Next logger_env
  | Rename_Away
  | Replace_By_Empty

fun logger_step :: "logger_event \<Rightarrow> CkEventLogger \<Rightarrow> CkEventLogger option" where
  "logger_step (Queue_Event e) l = ck_event_logger_queue_event e l"
| "logger_step (Check_Next E) l = writer_thread_start E l"
| "logger_step (Print_Next E) l = Some (write_log_print E l)"
| "logger_step Rename_Away l = Some (l\<lparr>log_path := None\<rparr>)"
| "logger_step Replace_By_Empty l =
     Some (l\<lparr>log_path := Some (log_inodes l), log_inodes := Suc (log_inodes l), log_disk := (log_disk l)(log_inodes l := [])\<rparr>)"

text \<open>No call fails but for want of descriptors, which are free again some time.\<close>

definition logger_env_ok :: "logger_env \<Rightarrow> bool" where
  "logger_env_ok E =
     (lo_mkdir E \<and> (\<exists>n fs. lo_open E = replicate n Open_ENFILE @ Open_Works # fs) \<and> lo_create E \<and> lo_open_again E \<and>
      lo_cloexec E \<and> lo_fchown E \<and> lo_fdopen E \<and> lo_fstat E \<and> lo_check E \<and> lo_print E \<and> lo_thread E)"

fun logger_event_ok :: "logger_event \<Rightarrow> bool" where
  "logger_event_ok (Check_Next E) = logger_env_ok E"
| "logger_event_ok (Print_Next E) = logger_env_ok E"
| "logger_event_ok (Queue_Event e) = (ck_log_event_to_string e \<noteq> None)"
| "logger_event_ok e = True"

fun queued :: "logger_event list \<Rightarrow> string list" where
  "queued [] = []"
| "queued (Queue_Event e # es) = event_line e # queued es"
| "queued (_ # es) = queued es"

text \<open>All lines of all files, oldest file first.\<close>

definition history :: "CkEventLogger \<Rightarrow> string list" where
  "history l = concat (map (log_disk l) [0..<log_inodes l])"

definition pending_lines :: "CkEventLogger \<Rightarrow> string list" where
  "pending_lines l = (case lg_event l of None \<Rightarrow> [] | Some e \<Rightarrow> [event_line e]) @ map (event_line \<circ> the) (event_queue l)"

text \<open>The file name leads to the newest file, or nowhere.\<close>

definition path_newest :: "nat option \<Rightarrow> nat \<Rightarrow> bool" where
  "path_newest path inodes = (case path of None \<Rightarrow> True | Some ino \<Rightarrow> Suc ino = inodes)"

text \<open>What holds even if calls fail: behind the file of the stream there are only empty ones.\<close>

definition logger_wf :: "CkEventLogger \<Rightarrow> bool" where
  "logger_wf l =
     (path_newest (log_path l) (log_inodes l) \<and> None \<notin> set (event_queue l) \<and>
      (\<forall>ino. lg_file l = Open_File ino \<longrightarrow> ino < log_inodes l \<and> (\<forall>k. ino < k \<and> k < log_inodes l \<longrightarrow> log_disk l k = [])))"

definition logger_inv :: "CkEventLogger \<Rightarrow> bool" where
  "logger_inv l = (logger_wf l \<and> writer_thread l \<and> logger_faults l = [] \<and> (\<exists>ino. lg_file l = Open_File ino))"

text \<open>Only events that have a line are queued.\<close>

fun queues_lines :: "logger_event \<Rightarrow> bool" where
  "queues_lines (Queue_Event e) = (ck_log_event_to_string e \<noteq> None)"
| "queues_lines e = True"

section \<open>Lemmas\<close>

lemma open_for_writing_retries:
  "open_for_writing E (replicate n Open_ENFILE @ fs) l = open_for_writing E fs l"
  by (induction n) auto

lemma history_new [simp]:
  "history (l\<lparr>log_path := p, log_inodes := Suc (log_inodes l), log_disk := (log_disk l)(log_inodes l := [])\<rparr>) = history l"
  by (auto simp: history_def intro!: arg_cong [where f = concat])

text \<open>Opening, if it succeeds, is opening the newest file or a new empty one; it touches nothing else.\<close>

definition same_logger :: "CkEventLogger \<Rightarrow> CkEventLogger \<Rightarrow> bool" where
  "same_logger l l' =
     (history l' = history l \<and> event_queue l' = event_queue l \<and> lg_event l' = lg_event l \<and>
      writer_thread l' = writer_thread l)"

lemma open_for_writing_result:
  assumes "open_for_writing E fs l = Some (r, l')" "path_newest (log_path l) (log_inodes l)"
  shows "path_newest (log_path l') (log_inodes l') \<and> same_logger l l' \<and> logger_faults l' = logger_faults l \<and> lg_file l' = lg_file l \<and>
    (\<forall>ino. r = Some ino \<longrightarrow> Suc ino = log_inodes l')"
  using assms
  by (induction E fs l rule: open_for_writing.induct)
    (auto simp: path_newest_def same_logger_def Let_def split: option.splits if_splits)

lemma open_log_file_result:
  assumes "open_log_file E l = Some (ok, l')" "path_newest (log_path l) (log_inodes l)"
  shows "path_newest (log_path l') (log_inodes l') \<and> same_logger l l' \<and> logger_faults l' = logger_faults l \<and>
    (if ok then log_inodes l' > 0 \<and> lg_file l' = Open_File (log_inodes l' - 1) else lg_file l' = lg_file l)"
proof (cases "lo_mkdir E")
  case False
  then show ?thesis using assms by (simp add: open_log_file_def same_logger_def)
next
  case True
  then obtain r l1 where o: "open_for_writing E (lo_open E) l = Some (r, l1)"
    using assms(1) by (auto simp: open_log_file_def split: option.splits)
  have f: "same_logger l l1 \<Longrightarrow> same_logger l (l1\<lparr>lg_file := x\<rparr>)" for x by (simp add: same_logger_def history_def)
  from open_for_writing_result [OF o assms(2)] show ?thesis
    using assms(1) True o f by (cases r) (auto simp: open_log_file_def split: if_splits)
qed

lemma open_log_file_works:
  assumes "logger_env_ok E"
  shows "\<exists>l'. open_log_file E l = Some (True, l')"
proof -
  obtain n fs where "lo_open E = replicate n Open_ENFILE @ Open_Works # fs"
    using assms by (auto simp: logger_env_ok_def)
  then show ?thesis
    using assms by (auto simp: open_log_file_def open_for_writing_retries logger_env_ok_def Let_def split: option.split)
qed

lemma close_stream_fields [simp]:
  "same_logger l (close_stream l)" "log_path (close_stream l) = log_path l" "log_inodes (close_stream l) = log_inodes l"
  "lg_file (close_stream l) \<noteq> Open_File ino" "log_disk (close_stream l) = log_disk l"
  by (auto simp: close_stream_def same_logger_def history_def split: log_stream.split)

lemma same_logger_trans: "same_logger l l' \<Longrightarrow> same_logger l' l'' \<Longrightarrow> same_logger l l''"
  by (simp add: same_logger_def)

lemma reopen_result:
  assumes "reopen_file_stream E l = Some l'" "logger_wf l"
  shows "logger_wf l' \<and> same_logger l l'"
proof -
  obtain ok where ok: "open_log_file E (close_stream l) = Some (ok, l')" using assms(1) by (auto simp: reopen_file_stream_def)
  have p: "path_newest (log_path (close_stream l)) (log_inodes (close_stream l))" using assms(2) by (simp add: logger_wf_def)
  from open_log_file_result [OF ok p] have r: "path_newest (log_path l') (log_inodes l')" "same_logger (close_stream l) l'"
    "if ok then log_inodes l' > 0 \<and> lg_file l' = Open_File (log_inodes l' - 1) else lg_file l' = lg_file (close_stream l)" by auto
  have s: "same_logger l l'" by (rule same_logger_trans [OF close_stream_fields(1) r(2)])
  then have "None \<notin> set (event_queue l')" using assms(2) by (simp add: same_logger_def logger_wf_def)
  with r(1,3) s show ?thesis by (auto simp: logger_wf_def split: if_splits)
qed

lemma check_file_stream_result:
  assumes "check_file_stream E l = Some l'" "logger_wf l"
  shows "logger_wf l' \<and> same_logger l l'"
proof (cases "check_file_stream E l = reopen_file_stream E l")
  case True
  then show ?thesis using assms reopen_result by simp
next
  case False
  then have "l' = l" using assms(1) by (auto simp: check_file_stream_def split: log_stream.splits if_splits option.splits)
  then show ?thesis using assms(2) by (simp add: same_logger_def)
qed

lemma check_file_stream_works:
  assumes "logger_env_ok E" and "logger_inv l"
  shows "\<exists>l'. check_file_stream E l = Some l' \<and> logger_inv l' \<and> same_logger l l'"
proof -
  have wf: "logger_wf l" using assms(2) by (simp add: logger_inv_def)
  obtain old where old: "lg_file l = Open_File old" using assms(2) by (auto simp: logger_inv_def)
  obtain l' where l': "open_log_file E (close_stream l) = Some (True, l')" using open_log_file_works [OF assms(1)] by blast
  have "path_newest (log_path (close_stream l)) (log_inodes (close_stream l))" using wf by (simp add: logger_wf_def)
  from open_log_file_result [OF l' this] have r: "logger_faults l' = []" "\<exists>ino. lg_file l' = Open_File ino"
    using assms(2) by (auto simp: close_stream_def old logger_inv_def)
  have reopen: ?thesis if "check_file_stream E l = reopen_file_stream E l"
  proof -
    have c: "check_file_stream E l = Some l'" using that l' by (simp add: reopen_file_stream_def)
    from check_file_stream_result [OF c wf] r c show ?thesis using assms(2) by (simp add: logger_inv_def same_logger_def)
  qed
  show ?thesis
  proof (cases "log_path l = Some old")
    case True
    then show ?thesis using assms by (simp add: check_file_stream_def old logger_env_ok_def same_logger_def)
  next
    case False
    then show ?thesis
      using assms(1) by (intro reopen) (auto simp: check_file_stream_def old logger_env_ok_def split: option.split)
  qed
qed

lemma concat_append_file:
  assumes "ino < n" "\<forall>k. ino < k \<and> k < n \<longrightarrow> d k = []"
  shows "concat (map (d(ino := d ino @ [line])) [0..<n]) = concat (map d [0..<n]) @ [line]"
proof -
  have n: "[0..<n] = [0..<ino] @ ino # [Suc ino..<n]"
    using assms(1) by (metis le_add1 le_eq_less_or_eq upt_add_eq_append upt_conv_Cons add_0 le_add_diff_inverse)
  have "concat (map d [Suc ino..<n]) = []" "concat (map (d(ino := d ino @ [line])) [Suc ino..<n]) = []"
    using assms(2) by (auto simp: concat_eq_Nil_conv)
  moreover have "map (d(ino := d ino @ [line])) [0..<ino] = map d [0..<ino]" by simp
  ultimately show ?thesis unfolding n by (simp del: concat_eq_Nil_conv)
qed

text \<open>Printing keeps the shape; the line is at the end of the history, unless it was not printed.\<close>

lemma print_line_result:
  assumes "logger_wf l"
  shows "logger_wf (print_line E line l)"
    "history (print_line E line l) = history l @ (if (\<exists>ino. lg_file l = Open_File ino) \<and> lo_print E then [line] else [])"
    "event_queue (print_line E line l) = event_queue l" "writer_thread (print_line E line l) = writer_thread l"
    "lg_file (print_line E line l) = lg_file l"
    "(\<exists>ino. lg_file l = Open_File ino) \<Longrightarrow> logger_faults (print_line E line l) = logger_faults l"
  using assms
  by (auto simp: print_line_def logger_wf_def history_def concat_append_file split: log_stream.split)

lemma logger_wf_cong:
  assumes "logger_wf l" "log_path l' = log_path l" "log_inodes l' = log_inodes l" "lg_file l' = lg_file l" "log_disk l' = log_disk l"
    and "None \<notin> set (event_queue l')"
  shows "logger_wf l'"
  using assms by (simp add: logger_wf_def)

text \<open>Each step moves lines from the queue to the end of the history, and puts none anywhere else.\<close>

lemma write_log_print_result:
  assumes "logger_wf l"
  shows "logger_wf (write_log_print E l)" "subseq (history (write_log_print E l) @ pending_lines (write_log_print E l)) (history l @ pending_lines l)"
    "logger_env_ok E \<Longrightarrow> logger_inv l \<Longrightarrow> logger_inv (write_log_print E l) \<and>
       history (write_log_print E l) @ pending_lines (write_log_print E l) = history l @ pending_lines l"
proof -
  have "logger_wf (write_log_print E l) \<and>
      subseq (history (write_log_print E l) @ pending_lines (write_log_print E l)) (history l @ pending_lines l) \<and>
      (logger_env_ok E \<and> logger_inv l \<longrightarrow> logger_inv (write_log_print E l) \<and>
        history (write_log_print E l) @ pending_lines (write_log_print E l) = history l @ pending_lines l)"
  proof (cases "lg_event l")
    case None
    then show ?thesis using assms by (simp add: write_log_print_def)
  next
    case (Some e)
    let ?p = "print_line E (event_line e) l" and ?q = "(print_line E (event_line e) l)\<lparr>lg_event := None\<rparr>"
    note p = print_line_result [OF assms, of E "event_line e"]
    have q: "write_log_print E l = ?q" by (simp add: write_log_print_def Some)
    have wf: "logger_wf ?q" using p(1,3) assms by (intro logger_wf_cong [OF p(1)]) (simp_all add: logger_wf_def)
    have h: "history ?q = history ?p" by (simp add: history_def)
    have l: "pending_lines l = event_line e # pending_lines ?q" "pending_lines ?q = map (event_line \<circ> the) (event_queue l)"
      using p(3) by (simp_all add: pending_lines_def Some)
    have s: "subseq (history ?q @ pending_lines ?q) (history l @ pending_lines l)"
      unfolding h l(1) p(2) by (auto intro: list_emb_append_mono)
    have "logger_inv ?q \<and> history ?q @ pending_lines ?q = history l @ pending_lines l" if "logger_env_ok E" "logger_inv l"
      using that wf p(4,5,6) unfolding h l(1) p(2) by (auto simp: logger_inv_def logger_env_ok_def)
    with wf s show ?thesis by (simp only: q) blast
  qed
  then show "logger_wf (write_log_print E l)" "subseq (history (write_log_print E l) @ pending_lines (write_log_print E l)) (history l @ pending_lines l)"
    "logger_env_ok E \<Longrightarrow> logger_inv l \<Longrightarrow> logger_inv (write_log_print E l) \<and>
       history (write_log_print E l) @ pending_lines (write_log_print E l) = history l @ pending_lines l"
    by blast+
qed

lemma taken_event:
  assumes "logger_wf l" "event_queue l = Some e # q" "lg_event l = None"
  shows "logger_wf (l\<lparr>event_queue := q, lg_event := Some e\<rparr>)"
    "history (l\<lparr>event_queue := q, lg_event := Some e\<rparr>) @ pending_lines (l\<lparr>event_queue := q, lg_event := Some e\<rparr>) = history l @ pending_lines l"
  using assms by (simp_all add: logger_wf_def history_def pending_lines_def)

lemma logger_step_keeps:
  assumes "logger_wf l" "queues_lines e" "logger_step e l = Some l'"
  shows "logger_wf l' \<and> subseq (history l' @ pending_lines l') (history l @ pending_lines l @ queued [e])"
proof (cases e)
  case (Queue_Event ev)
  then have "ck_log_event_copy ev = Some ev" using assms(2) by (intro writable_copied) simp
  with Queue_Event assms show ?thesis
    by (auto simp: logger_wf_def pending_lines_def history_def ck_event_logger_queue_event_def)
next
  case (Check_Next E)
  show ?thesis
  proof (cases "\<exists>ev q. writer_thread l \<and> lg_event l = None \<and> event_queue l = Some ev # q")
    case True
    then obtain ev q where q: "writer_thread l" "lg_event l = None" "event_queue l = Some ev # q" by blast
    then have "check_file_stream E (l\<lparr>event_queue := q, lg_event := Some ev\<rparr>) = Some l'"
      using assms(3) Check_Next by (simp add: writer_thread_start_def write_log_check_def)
    from check_file_stream_result [OF this taken_event(1) [OF assms(1) q(3,2)]] taken_event(2) [OF assms(1) q(3,2)] show ?thesis
      using Check_Next by (simp add: same_logger_def pending_lines_def)
  next
    case False
    then have "l' = l"
      using assms(1,3) Check_Next by (auto simp: writer_thread_start_def logger_wf_def split: list.splits option.splits if_splits)
    then show ?thesis using assms(1) Check_Next by simp
  qed
next
  case (Print_Next E)
  then show ?thesis using assms(3) write_log_print_result(1,2) [OF assms(1)] by auto
next
  case Rename_Away
  then show ?thesis using assms by (auto simp: logger_wf_def path_newest_def pending_lines_def history_def)
next
  case Replace_By_Empty
  then show ?thesis using assms history_new [of l "Some (log_inodes l)"]
    by (auto simp: logger_wf_def path_newest_def pending_lines_def)
qed

lemma logger_step_result:
  assumes "logger_inv l" and "logger_event_ok e"
  shows "\<exists>l'. logger_step e l = Some l' \<and> logger_inv l' \<and>
    history l' @ pending_lines l' = history l @ pending_lines l @ queued [e]"
proof (cases e)
  case (Check_Next E)
  have wf: "logger_wf l" using assms(1) by (simp add: logger_inv_def)
  show ?thesis
  proof (cases "\<exists>ev q. lg_event l = None \<and> event_queue l = Some ev # q")
    case True
    then obtain ev q where q: "lg_event l = None" "event_queue l = Some ev # q" by blast
    let ?t = "l\<lparr>event_queue := q, lg_event := Some ev\<rparr>"
    have "logger_inv ?t" using taken_event(1) [OF wf q(2,1)] assms(1) by (simp add: logger_inv_def)
    then obtain l' where l': "check_file_stream E ?t = Some l'" "logger_inv l'" "same_logger ?t l'"
      using check_file_stream_works Check_Next assms(2) by fastforce
    then have "logger_step e l = Some l'"
      using Check_Next q assms(1) by (simp add: writer_thread_start_def write_log_check_def logger_inv_def)
    with l' taken_event(2) [OF wf q(2,1)] Check_Next show ?thesis by (simp add: same_logger_def pending_lines_def)
  next
    case False
    then have "logger_step e l = Some l"
      using wf Check_Next by (auto simp: writer_thread_start_def logger_wf_def split: list.splits option.splits)
    then show ?thesis using assms(1) Check_Next by simp
  qed
next
  case (Print_Next E)
  then show ?thesis using write_log_print_result(3) assms by (simp add: logger_inv_def)
next
  case Replace_By_Empty
  then show ?thesis using assms(1) history_new [of l "Some (log_inodes l)"]
    by (auto simp: logger_inv_def logger_wf_def path_newest_def pending_lines_def)
next
  case (Queue_Event ev)
  then have "ck_log_event_copy ev = Some ev" using assms(2) by (intro writable_copied) simp
  with Queue_Event assms show ?thesis
    by (simp add: logger_inv_def logger_wf_def pending_lines_def history_def ck_event_logger_queue_event_def)
qed (use assms in \<open>auto simp: logger_inv_def logger_wf_def path_newest_def pending_lines_def history_def\<close>)

lemma init_fields [simp]:
  "log_path (ck_event_logger_init disk path inodes) = path" "log_inodes (ck_event_logger_init disk path inodes) = inodes"
  "event_queue (ck_event_logger_init disk path inodes) = []" "logger_faults (ck_event_logger_init disk path inodes) = []"
  "lg_event (ck_event_logger_init disk path inodes) = None" "lg_file (ck_event_logger_init disk path inodes) = No_File"
  "history (ck_event_logger_init disk path inodes) = concat (map disk [0..<inodes])"
  by (simp_all add: ck_event_logger_init_def history_def)

lemma logger_new_result:
  assumes "ck_event_logger_new E disk path inodes = Some l" "path_newest path inodes"
  shows "logger_wf l" "pending_lines l = []" "history l = concat (map disk [0..<inodes])"
proof -
  obtain ok l' where o: "open_log_file E (ck_event_logger_init disk path inodes) = Some (ok, l')"
    "l = (if ok then create_writer_thread E l' else l')"
    using assms(1) by (auto simp: ck_event_logger_new_def ck_event_logger_constructor_def)
  have "path_newest (log_path (ck_event_logger_init disk path inodes)) (log_inodes (ck_event_logger_init disk path inodes))"
    using assms(2) by simp
  note r = open_log_file_result [OF o(1) this]
  have "logger_wf l'" using r by (auto simp: logger_wf_def same_logger_def split: if_splits)
  then show "logger_wf l" using o(2) by (auto simp: create_writer_thread_def logger_wf_def)
  have h: "history l' = concat (map disk [0..<inodes])" "pending_lines l' = []"
    using r by (simp_all add: same_logger_def pending_lines_def)
  have "history (create_writer_thread E l') = history l'" "pending_lines (create_writer_thread E l') = pending_lines l'"
    by (simp_all add: create_writer_thread_def history_def pending_lines_def)
  then show "pending_lines l = []" "history l = concat (map disk [0..<inodes])" using o(2) h by simp_all
qed

lemma logger_starts:
  assumes "logger_env_ok E" and "path_newest path inodes"
  shows "\<exists>l. ck_event_logger_new E disk path inodes = Some l \<and> logger_inv l \<and> pending_lines l = [] \<and>
    history l = concat (map disk [0..<inodes])"
proof -
  obtain l' where o: "open_log_file E (ck_event_logger_init disk path inodes) = Some (True, l')"
    using open_log_file_works [OF assms(1)] by blast
  let ?l = "l'\<lparr>writer_thread := True\<rparr>"
  have new: "ck_event_logger_new E disk path inodes = Some ?l"
    using o assms(1) by (simp add: ck_event_logger_new_def ck_event_logger_constructor_def create_writer_thread_def logger_env_ok_def)
  have "path_newest (log_path (ck_event_logger_init disk path inodes)) (log_inodes (ck_event_logger_init disk path inodes))"
    using assms(2) by simp
  from open_log_file_result [OF o this] logger_new_result [OF new assms(2)] new show ?thesis
    by (simp add: logger_inv_def)
qed

interpretation logger: machine logger_step logger_event_ok
  "\<lambda>l. \<exists>E disk path inodes. logger_env_ok E \<and> path_newest path inodes \<and> ck_event_logger_new E disk path inodes = Some l"
  logger_inv
proof unfold_locales
  show "logger_inv l"
    if "\<exists>E disk path inodes. logger_env_ok E \<and> path_newest path inodes \<and> ck_event_logger_new E disk path inodes = Some l" for l
  proof -
    from that obtain E disk path inodes where "logger_env_ok E" "path_newest path inodes"
      "ck_event_logger_new E disk path inodes = Some l" by blast
    then show ?thesis using logger_starts [of E path inodes disk] by auto
  qed
  show "\<exists>l'. logger_step e l = Some l' \<and> logger_inv l'" if "logger_inv l" "logger_event_ok e" for e l
    using logger_step_result [OF that] by blast
qed

section \<open>Properties\<close>

lemma logger_run_result:
  assumes "logger_inv l" "list_all logger_event_ok es"
  shows "\<exists>l'. run logger_step es l = Some l' \<and> logger_inv l' \<and>
    history l' @ pending_lines l' = history l @ pending_lines l @ queued es"
  using assms
proof (induction es arbitrary: l)
  case (Cons e es)
  obtain v where v: "logger_step e l = Some v" "logger_inv v" "history v @ pending_lines v = history l @ pending_lines l @ queued [e]"
    using logger_step_result [of l e] Cons.prems by auto
  obtain l' where l': "run logger_step es v = Some l'" "logger_inv l'" "history l' @ pending_lines l' = history v @ pending_lines v @ queued es"
    using Cons.IH [OF v(2)] Cons.prems(2) by auto
  have "queued (e # es) = queued [e] @ queued es" by (cases e) auto
  with v l' show ?case by simp
qed simp

lemma logger_run_keeps:
  assumes "logger_wf l" "list_all queues_lines es" "run logger_step es l = Some l'"
  shows "subseq (history l' @ pending_lines l') (history l @ pending_lines l @ queued es)"
  using assms
proof (induction es arbitrary: l)
  case (Cons e es)
  then obtain v where v: "logger_step e l = Some v" "run logger_step es v = Some l'" by (auto split: option.splits)
  from logger_step_keeps [OF Cons.prems(1) _ v(1)] Cons.prems(2) have
    "logger_wf v" "subseq (history v @ pending_lines v) (history l @ pending_lines l @ queued [e])" by auto
  moreover from Cons.IH [OF this(1) _ v(2)] Cons.prems(2) have
    "subseq (history l' @ pending_lines l') ((history v @ pending_lines v) @ queued es)" by simp
  moreover have "subseq ((history v @ pending_lines v) @ queued es) ((history l @ pending_lines l @ queued [e]) @ queued es)"
    using calculation(2) by (simp only: subseq_append)
  ultimately have "subseq (history l' @ pending_lines l') ((history l @ pending_lines l @ queued [e]) @ queued es)"
    using subseq_order.order_trans by blast
  moreover have "queued (e # es) = queued [e] @ queued es" by (cases e) auto
  ultimately show ?case by simp
qed simp

text \<open>
  C26: The history is complete when no call of the logger fails but for want of descriptors: whenever other programs rename the log
  file away or replace it by an empty one while the daemon runs, also between the check of the stream and the printing, the lines in all
  files, oldest first, followed by the events still to be written, are the old lines followed
  by one line per event in the order of queueing, and the thread never uses a closed stream. Whichever calls
  fail, events may be lost but never come twice, out of order or from nowhere: the lines are a subsequence of
  those.
\<close>

theorem history_is_complete:
  assumes "path_newest path inodes" and "list_all queues_lines es"
  shows "(logger_env_ok E \<and> list_all logger_event_ok es \<longrightarrow>
      (\<exists>l0 l. ck_event_logger_new E disk path inodes = Some l0 \<and> run logger_step es l0 = Some l \<and>
        history l @ pending_lines l = concat (map disk [0..<inodes]) @ queued es \<and> logger_faults l = [])) \<and>
    (\<forall>l0 l. ck_event_logger_new E disk path inodes = Some l0 \<longrightarrow> run logger_step es l0 = Some l \<longrightarrow>
      subseq (history l @ pending_lines l) (concat (map disk [0..<inodes]) @ queued es))"
proof (intro conjI impI allI)
  assume ok: "logger_env_ok E \<and> list_all logger_event_ok es"
  then obtain l0 where l0: "ck_event_logger_new E disk path inodes = Some l0" "logger_inv l0" "pending_lines l0 = []"
    "history l0 = concat (map disk [0..<inodes])"
    using logger_starts [OF _ assms(1)] by blast
  from logger_run_result [OF l0(2)] ok obtain l where "run logger_step es l0 = Some l" "logger_inv l"
    "history l @ pending_lines l = concat (map disk [0..<inodes]) @ queued es"
    using l0 by auto
  with l0(1) show "\<exists>l0 l. ck_event_logger_new E disk path inodes = Some l0 \<and> run logger_step es l0 = Some l \<and>
      history l @ pending_lines l = concat (map disk [0..<inodes]) @ queued es \<and> logger_faults l = []"
    by (auto simp: logger_inv_def)
next
  fix l0 l
  assume "ck_event_logger_new E disk path inodes = Some l0" "run logger_step es l0 = Some l"
  with logger_new_result [OF this(1) assms(1)] logger_run_keeps [OF _ assms(2)]
  show "subseq (history l @ pending_lines l) (concat (map disk [0..<inodes]) @ queued es)" by fastforce
qed

definition sample_lenv :: logger_env where
  "sample_lenv = \<lparr>lo_mkdir = True, lo_open = [Open_ENFILE, Open_Works], lo_create = True, lo_open_again = True, lo_cloexec = True,
     lo_fchown = True, lo_fdopen = True, lo_fstat = True, lo_check = True, lo_print = True, lo_thread = True\<rparr>"

lemma sample_lenv_ok: "logger_env_ok sample_lenv"
proof -
  have "lo_open sample_lenv = replicate 1 Open_ENFILE @ Open_Works # []" by (simp add: sample_lenv_def)
  then have "\<exists>n fs. lo_open sample_lenv = replicate n Open_ENFILE @ Open_Works # fs" by blast
  then show ?thesis by (simp add: logger_env_ok_def) (simp add: sample_lenv_def)
qed

definition stop_event :: CkLogEvent where
  "stop_event = \<lparr>le_timestamp = (7, 0), le_event = Ev_System_Stop\<rparr>"

text \<open>An event is checked against the old file, printed after the file was replaced, and so in the old file.\<close>

theorem history_is_complete_witness:
  "\<exists>l0 l. ck_event_logger_new sample_lenv (\<lambda>_. [''old'']) (Some 0) 1 = Some l0 \<and>
    run logger_step [Queue_Event stop_event, Check_Next sample_lenv, Replace_By_Empty, Print_Next sample_lenv] l0 = Some l \<and>
    history l @ pending_lines l = [''old'', event_line stop_event] \<and> logger_faults l = []"
proof -
  let ?es = "[Queue_Event stop_event, Check_Next sample_lenv, Replace_By_Empty, Print_Next sample_lenv]"
  have es: "list_all queues_lines ?es" "list_all logger_event_ok ?es" "queued ?es = [event_line stop_event]"
    by (simp_all add: sample_lenv_ok stop_event_def ck_log_event_to_string_def)
  have p: "path_newest (Some 0) 1" by (simp add: path_newest_def)
  have "\<exists>l0 l. ck_event_logger_new sample_lenv (\<lambda>_. [''old'']) (Some 0) 1 = Some l0 \<and> run logger_step ?es l0 = Some l \<and>
      history l @ pending_lines l = concat (map (\<lambda>_. [''old'']) [0..<1]) @ queued ?es \<and> logger_faults l = []"
    using history_is_complete [OF p es(1)] sample_lenv_ok es(2) by blast
  then show ?thesis using es(3) by simp
qed

text \<open>
  A reopening that fails leaves the closed stream behind. When the log file was renamed away
  and cannot be created again, the event is printed to the stream that was just closed, and
  the next event closes it a second time.
\<close>

theorem failed_reopen_uses_closed_stream:
  assumes "lg_file l = Open_File ino" and "log_path l = None" and "lo_mkdir E" and "lo_fstat E"
    and "lo_open E = Open_Works # fs" and "\<not> lo_create E"
  shows "\<exists>l1 l2. write_log_for_event E e l = Some l1 \<and> logger_faults l1 = Written_When_Closed # logger_faults l \<and>
    write_log_for_event E e' l1 = Some l2 \<and>
    logger_faults l2 = [Written_When_Closed, Closed_Twice, Written_When_Closed] @ logger_faults l"
  using assms
  by (simp add: write_log_for_event_def write_log_check_def write_log_print_def check_file_stream_def reopen_file_stream_def close_stream_def open_log_file_def print_line_def)

theorem failed_reopen_uses_closed_stream_witness:
  "\<exists>l1 l2. write_log_for_event (sample_lenv\<lparr>lo_open := [Open_Works], lo_create := False\<rparr>) stop_event
      ((ck_event_logger_init (\<lambda>_. []) None 1)\<lparr>lg_file := Open_File 0\<rparr>) = Some l1 \<and> logger_faults l1 = [Written_When_Closed] \<and>
    write_log_for_event (sample_lenv\<lparr>lo_open := [Open_Works], lo_create := False\<rparr>) stop_event l1 = Some l2 \<and>
    logger_faults l2 = [Written_When_Closed, Closed_Twice, Written_When_Closed]"
  using failed_reopen_uses_closed_stream [of "(ck_event_logger_init (\<lambda>_. []) None 1)\<lparr>lg_file := Open_File 0\<rparr>" 0
      "sample_lenv\<lparr>lo_open := [Open_Works], lo_create := False\<rparr>" "[]" stop_event stop_event]
  by (simp add: ck_event_logger_init_def sample_lenv_def)

end
