(* ===== verification/CK_Sysdeps.thy ===== *)
theory CK_Sysdeps
  imports CK_SessionLeader CK_VtMonitor
begin

unbundle bit_operations_syntax

text \<open>
  What the daemon and its helper learn from the Linux kernel: src/src/ck-sysdeps-linux.c.

  The files of /proc and /sys and the results of \<open>stat\<close>, \<open>readlink\<close>, \<open>poll\<close> and \<open>read\<close> are
  inputs. \<open>None\<close> stands for a crash (a null or wild pointer, \<open>g_error\<close>). The part of
  \<open>sscanf\<close> the code uses is \<open>scan_convs\<close>. SELinux is the build without it.
\<close>

section \<open>C strings and \<open>sscanf\<close>\<close>

text \<open>The string that starts at the head of a buffer.\<close>

definition c_string :: "string \<Rightarrow> string" where
  "c_string b = takeWhile (\<lambda>c. c \<noteq> CHR 0x00) b"

text \<open>\<open>strchr\<close>: the text from the first occurrence on; \<open>strrchr\<close>: the text before and from the last one on.\<close>

fun strchr :: "char \<Rightarrow> string \<Rightarrow> string option" where
  "strchr c [] = None"
| "strchr c (x # s) = (if x = c then Some (x # s) else strchr c s)"

definition strrchr :: "char \<Rightarrow> string \<Rightarrow> (string \<times> string) option" where
  "strrchr c s =
     (if c \<in> set s
      then Some (take (length s - Suc (length (takeWhile (\<lambda>x. x \<noteq> c) (rev s)))) s,
                 drop (length s - Suc (length (takeWhile (\<lambda>x. x \<noteq> c) (rev s)))) s)
      else None)"

text \<open>A 64-bit value stored in a signed integer of \<open>bits\<close> bits.\<close>

definition as_signed :: "nat \<Rightarrow> int \<Rightarrow> int" where
  "as_signed bits v = (v + 2 ^ (bits - 1)) mod 2 ^ bits - 2 ^ (bits - 1)"

definition scan_signed :: "nat \<Rightarrow> string \<Rightarrow> (int \<times> string) option" where
  "scan_signed bits s =
     (let t = dropWhile is_space s;
          t = (if t \<noteq> [] \<and> (hd t = CHR ''-'' \<or> hd t = CHR ''+'') then tl t else t)
      in if takeWhile is_digit t = [] then None
         else Some (as_signed bits (fst (strtol s)), dropWhile is_digit t))"

definition atoi :: "string \<Rightarrow> int" where
  "atoi s = as_signed 32 (fst (strtol s))"

datatype conv = C_char | C_signed nat | C_unsigned nat | C_skip_word | C_skip_unsigned

text \<open>
  The values of the conversions up to the first one that fails. White space in the format
  is in front of conversions that skip white space themselves.
\<close>

fun scan_convs :: "conv list \<Rightarrow> string \<Rightarrow> int list" where
  "scan_convs [] s = []"
| "scan_convs (C_char # cs) s = (case s of [] \<Rightarrow> [] | c # s \<Rightarrow> of_char c # scan_convs cs s)"
| "scan_convs (C_signed b # cs) s =
     (case scan_signed b s of None \<Rightarrow> [] | Some (v, s) \<Rightarrow> v # scan_convs cs s)"
| "scan_convs (C_unsigned b # cs) s =
     (case scan_unsigned b s of None \<Rightarrow> [] | Some (v, s) \<Rightarrow> int v # scan_convs cs s)"
| "scan_convs (C_skip_word # cs) s =
     (let s = dropWhile is_space s in if s = [] then [] else scan_convs cs (dropWhile (\<lambda>c. \<not> is_space c) s))"
| "scan_convs (C_skip_unsigned # cs) s =
     (case scan_unsigned 32 s of None \<Rightarrow> [] | Some (v, s) \<Rightarrow> scan_convs cs s)"

section \<open>The state of a process\<close>

record CkProcessStat =
  st_pid :: int
  st_ppid :: int
  st_state :: int
  st_cmd :: string
  st_utime :: int
  st_stime :: int
  st_cutime :: int
  st_cstime :: int
  st_start_time :: int
  st_start_code :: int
  st_end_code :: int
  st_start_stack :: int
  st_kstk_esp :: int
  st_kstk_eip :: int
  st_wchan :: int
  st_priority :: int
  st_nice :: int
  st_rss :: int
  st_alarm :: int
  st_rtprio :: int
  st_sched :: int
  st_vsize :: int
  st_rss_rlim :: int
  st_flags :: int
  st_min_flt :: int
  st_maj_flt :: int
  st_cmin_flt :: int
  st_cmaj_flt :: int
  st_pgrp :: int
  st_session :: int
  st_nlwp :: int
  st_tty :: int
  st_tpgid :: int
  st_exit_signal :: int
  st_processor :: int

definition MAJOR_OF :: "32 word \<Rightarrow> 32 word" where
  "MAJOR_OF d = drop_bit 8 d AND 0xFFF"

definition MINOR_OF :: "32 word \<Rightarrow> 32 word" where
  "MINOR_OF d = (d AND 0xFF) OR drop_bit 12 (d AND 0xFFF00000)"

record tty_map_node =
  major_number :: nat
  minor_first :: nat
  minor_last :: nat
  tn_name :: string
  devfs_type :: bool

text \<open>
  The kernel as seen by one process: the contents of /proc files by process, the drivers of
  terminals, symbolic links, and the device number \<open>stat\<close> reports for a path.
\<close>

record kernel_view =
  proc_stat :: "int \<Rightarrow> cstring"
  proc_environ :: "int \<Rightarrow> cstring"
  proc_sessionid :: "int \<Rightarrow> cstring"
  proc_uid :: "int \<Rightarrow> nat option"
  tty_drivers :: cstring
  read_link :: "string \<Rightarrow> cstring"
  stat_rdev :: "string \<Rightarrow> 32 word option"

section \<open>Names of terminals\<close>

text \<open>The count \<open>sscanf (p, "%u-%u", ...)\<close> returns, with the numbers.\<close>

definition scan_range :: "string \<Rightarrow> (nat \<times> nat) option" where
  "scan_range p =
     (case scan_unsigned 32 p of
        None \<Rightarrow> None
      | Some (a, []) \<Rightarrow> Some (a, a)
      | Some (a, c # r) \<Rightarrow>
          if c = CHR ''-'' then (case scan_unsigned 32 r of None \<Rightarrow> Some (a, a) | Some (b, _) \<Rightarrow> Some (a, b))
          else Some (a, a))"

text \<open>
  One line of the drivers file: \<open>p\<close> starts with the device name and \<open>e\<close> is the text from
  the blank behind it. A name that does not fit into its 32 bytes is a fault.
\<close>

definition driver_node :: "string \<Rightarrow> string \<Rightarrow> (tty_map_node option \<times> string) option" where
  "driver_node p e =
     (let name = take (length p - length e) p;
          devfs = (length name \<ge> 3 \<and> drop (length name - 2) name = ''%d'');
          name = (if devfs then take (length name - 2) name else name);
          q = dropWhile (\<lambda>c. c = CHR '' '') e;
          major = nat (atoi q mod 2 ^ 32);
          q = dropWhile (\<lambda>c. c = CHR '' '') (dropWhile is_digit q)
      in if length name \<ge> 32 then None
         else Some (map_option (\<lambda>(a, b). \<lparr>major_number = major, minor_first = a, minor_last = b, tn_name = name, devfs_type = devfs\<rparr>)
                      (scan_range q), q))"

lemma g_strstr_length: "g_strstr n s = Some r \<Longrightarrow> length n \<le> length r \<and> length r \<le> length s"
proof (induction n s rule: g_strstr.induct)
  case (2 n c s)
  then show ?case by (cases "take (length n) (c # s) = n") (auto dest: arg_cong [of _ n length])
qed (auto split: if_splits)

lemma strchr_length: "strchr c s = Some r \<Longrightarrow> length r \<le> length s"
  by (induction c s rule: strchr.induct) (auto split: if_splits)

lemma driver_node_length: "driver_node p e = Some (n, q) \<Longrightarrow> length q \<le> length e"
  by (auto simp: driver_node_def Let_def split: if_splits intro: order_trans [OF length_dropWhile_le] )

function scan_drivers :: "string \<Rightarrow> tty_map_node list \<Rightarrow> tty_map_node list option" where
  "scan_drivers p acc =
     (case g_strstr '' /dev/'' p of
        None \<Rightarrow> Some acc
      | Some r \<Rightarrow>
          (case strchr CHR '' '' (drop 6 r) of
             None \<Rightarrow> scan_drivers (drop 6 r) acc
           | Some e \<Rightarrow>
               (case driver_node (drop 6 r) e of
                  None \<Rightarrow> None
                | Some (n, q) \<Rightarrow> scan_drivers q (case n of None \<Rightarrow> acc | Some n \<Rightarrow> n # acc))))"
  by pat_completeness auto
termination
proof (relation "measure (length \<circ> fst)", goal_cases)
  case (2 p acc r)
  then show ?case using g_strstr_length [OF 2(1)] by auto
next
  case (3 p acc r e nq n q)
  then have "length q \<le> length (drop 6 r)" using strchr_length [OF 3(2)] driver_node_length [of "drop 6 r" e n q] by simp
  then show ?case using g_strstr_length [OF 3(1)] by auto
qed simp

declare scan_drivers.simps [simp del]

text \<open>An empty list stands for the pointer -1 the code stores when nothing was found.\<close>

definition load_drivers :: "cstring \<Rightarrow> tty_map_node list option" where
  "load_drivers drivers =
     (case drivers of None \<Rightarrow> Some [] | Some b \<Rightarrow> scan_drivers (c_string (take 9999 b)) [])"

definition PATH_DEV :: string where
  "PATH_DEV = ''/dev/''"

definition right_device :: "32 word \<Rightarrow> 32 word \<Rightarrow> 32 word option \<Rightarrow> bool" where
  "right_device maj mnr rdev = (case rdev of None \<Rightarrow> False | Some d \<Rightarrow> mnr = MINOR_OF d \<and> maj = MAJOR_OF d)"

definition driver_name :: "kernel_view \<Rightarrow> 32 word \<Rightarrow> 32 word \<Rightarrow> cstring option" where
  "driver_name K maj mnr =
     (case load_drivers (tty_drivers K) of
        None \<Rightarrow> None
      | Some tty_map \<Rightarrow>
          Some (case List.find (\<lambda>n. major_number n = unat maj \<and> minor_first n \<le> unat mnr \<and> minor_last n \<ge> unat mnr) tty_map of
                  None \<Rightarrow> None
                | Some n \<Rightarrow>
                    let tty = PATH_DEV @ tn_name n @ dec_int (sint mnr) in
                    (case stat_rdev K tty of
                       Some d \<Rightarrow> if right_device maj mnr (Some d) then Some tty else None
                     | None \<Rightarrow>
                         if devfs_type n then None
                         else let tty = PATH_DEV @ tn_name n
                              in if right_device maj mnr (stat_rdev K tty) then Some tty else None)))"

definition link_name :: "kernel_view \<Rightarrow> 32 word \<Rightarrow> 32 word \<Rightarrow> int \<Rightarrow> string \<Rightarrow> cstring" where
  "link_name K maj mnr pid name =
     (case read_link K (''/proc/'' @ dec_int pid @ ''/'' @ name) of
        None \<Rightarrow> None
      | Some tty \<Rightarrow> if right_device maj mnr (stat_rdev K tty) then Some tty else None)"

definition ck_process_stat_get_ppid :: "CkProcessStat \<Rightarrow> int" where
  "ck_process_stat_get_ppid st = st_ppid st"

definition ck_process_stat_get_cmd :: "CkProcessStat \<Rightarrow> string" where
  "ck_process_stat_get_cmd st = st_cmd st"

definition ck_process_stat_get_tty :: "kernel_view \<Rightarrow> CkProcessStat \<Rightarrow> cstring option" where
  "ck_process_stat_get_tty K st =
     (let dev = (word_of_int (st_tty st) :: 32 word); maj = MAJOR_OF dev; mnr = MINOR_OF dev in
      if dev = 0 then Some None
      else case link_name K maj mnr (st_pid st) ''tty'' of
        Some tty \<Rightarrow> Some (Some tty)
      | None \<Rightarrow>
          (case driver_name K maj mnr of
             None \<Rightarrow> None
           | Some (Some tty) \<Rightarrow> Some (Some tty)
           | Some None \<Rightarrow>
               (case link_name K maj mnr (st_pid st) ''fd/2'' of
                  Some tty \<Rightarrow> Some (Some tty)
                | None \<Rightarrow> Some (link_name K maj mnr (st_pid st) ''fd/255''))))"

section \<open>Reading the state of a process\<close>

definition stat_convs :: "conv list" where
  "stat_convs =
     [C_char] @ replicate 5 (C_signed 32) @ replicate 5 (C_unsigned 64) @ replicate 4 (C_unsigned 64) @
     replicate 2 (C_signed 64) @ [C_signed 32, C_signed 64, C_unsigned 64, C_unsigned 64, C_signed 64] @
     replicate 6 (C_unsigned 64) @ replicate 4 C_skip_word @ [C_unsigned 64, C_skip_unsigned, C_skip_unsigned] @
     replicate 2 (C_signed 32) @ replicate 2 (C_unsigned 64)"

definition nth_default :: "int list \<Rightarrow> nat \<Rightarrow> int \<Rightarrow> int" where
  "nth_default vs i d = (if i < length vs then vs ! i else d)"

text \<open>The name in parentheses may itself hold blanks and parentheses, so the last one counts.\<close>

definition stat2proc :: "int \<Rightarrow> string \<Rightarrow> CkProcessStat option" where
  "stat2proc pid S =
     (case strchr CHR ''('' S of
        None \<Rightarrow> None
      | Some S1 \<Rightarrow>
          (case strrchr CHR '')'' (tl S1) of
             None \<Rightarrow> None
           | Some (cmd, rest) \<Rightarrow>
               if length rest < 2 then None
               else
                 let vs = scan_convs stat_convs (drop 2 rest); v = nth_default vs in
                 Some \<lparr>st_pid = pid, st_ppid = v 1 0, st_state = v 0 0, st_cmd = c_string (take 15 cmd),
                   st_utime = v 11 0, st_stime = v 12 0, st_cutime = v 13 0, st_cstime = v 14 0, st_start_time = v 19 0,
                   st_start_code = v 23 0, st_end_code = v 24 0, st_start_stack = v 25 0, st_kstk_esp = v 26 0, st_kstk_eip = v 27 0,
                   st_wchan = v 28 0, st_priority = v 15 0, st_nice = v 16 0, st_rss = v 21 0, st_alarm = v 18 0,
                   st_rtprio = v 31 (2 ^ 64 - 1), st_sched = v 32 (2 ^ 64 - 1), st_vsize = v 20 0, st_rss_rlim = v 22 0,
                   st_flags = v 6 0, st_min_flt = v 7 0, st_maj_flt = v 9 0, st_cmin_flt = v 8 0, st_cmaj_flt = v 10 0,
                   st_pgrp = v 2 0, st_session = v 3 0, st_nlwp = (if v 17 0 = 0 then 1 else v 17 0), st_tty = v 4 0, st_tpgid = v 5 0,
                   st_exit_signal = v 29 0, st_processor = v 30 0\<rparr>))"

text \<open>The inner option is an unreadable file.\<close>

definition ck_process_stat_new_for_unix_pid :: "kernel_view \<Rightarrow> int \<Rightarrow> CkProcessStat option option" where
  "ck_process_stat_new_for_unix_pid K pid =
     (if pid \<le> 1 then Some None
      else case proc_stat K pid of None \<Rightarrow> Some None | Some contents \<Rightarrow> map_option Some (stat2proc pid (c_string contents)))"

section \<open>The environment of a process\<close>

fun env_entries :: "bool \<Rightarrow> string \<Rightarrow> string list" where
  "env_entries last_was_null [] = []"
| "env_entries last_was_null (c # s) =
     (if c = CHR 0x00 then env_entries True s
      else if last_was_null then c_string (c # s) # env_entries False s
      else env_entries False s)"

definition split_env :: "string \<Rightarrow> string \<times> cstring" where
  "split_env e =
     (case strchr CHR ''='' e of
        None \<Rightarrow> (e, None)
      | Some r \<Rightarrow> (take (length e - length r) e, Some (tl r)))"

definition ck_unix_pid_get_env_hash :: "kernel_view \<Rightarrow> int \<Rightarrow> (string, cstring) ghash option" where
  "ck_unix_pid_get_env_hash K pid =
     (if pid \<le> 1 then None
      else map_option (\<lambda>contents. fold (\<lambda>e h. let (n, v) = split_env e in g_hash_table_insert h n v) (env_entries True contents) [])
             (proc_environ K pid))"

definition has_prefix :: "string \<Rightarrow> string \<Rightarrow> bool" where
  "has_prefix p s = (take (length p) s = p)"

definition ck_unix_pid_get_env :: "kernel_view \<Rightarrow> int \<Rightarrow> string \<Rightarrow> cstring" where
  "ck_unix_pid_get_env K pid var =
     (if pid \<le> 1 then None
      else case proc_environ K pid of
        None \<Rightarrow> None
      | Some contents \<Rightarrow>
          map_option (drop (Suc (length var))) (List.find (has_prefix (var @ ''='')) (env_entries True contents)))"

definition ck_unix_pid_get_uid :: "kernel_view \<Rightarrow> int \<Rightarrow> nat" where
  "ck_unix_pid_get_uid K pid =
     (if pid \<le> 1 then 0 else case proc_uid K pid of None \<Rightarrow> 2 ^ 32 - 1 | Some u \<Rightarrow> u)"

definition ck_unix_pid_get_ppid :: "kernel_view \<Rightarrow> int \<Rightarrow> int option" where
  "ck_unix_pid_get_ppid K pid =
     (if pid \<le> 1 then Some 0
      else map_option (\<lambda>st. case st of None \<Rightarrow> - 1 | Some st \<Rightarrow> ck_process_stat_get_ppid st)
             (ck_process_stat_new_for_unix_pid K pid))"

definition ck_unix_pid_get_login_session_id :: "kernel_view \<Rightarrow> int \<Rightarrow> cstring" where
  "ck_unix_pid_get_login_session_id K pid =
     (if pid \<le> 1 then None
      else case map_option c_string (proc_sessionid K pid) of
        None \<Rightarrow> None
      | Some [] \<Rightarrow> None
      | Some contents \<Rightarrow>
          let t = dropWhile is_space contents;
              t = (if t \<noteq> [] \<and> (hd t = CHR ''-'' \<or> hd t = CHR ''+'') then tl t else t)
          in (case scan_unsigned 64 contents of
                None \<Rightarrow> None
              | Some (v, r) \<Rightarrow>
                  if r \<noteq> [] then None
                  else if dec_val (takeWhile is_digit t) \<ge> 2 ^ 64 then None
                  else if v = 2 ^ 32 - 1 then None
                  else Some (dec v)))"

section \<open>Sleeping\<close>

text \<open>\<open>g_strsplit_set (s, ": ", -1)\<close>.\<close>

fun split_set :: "(char \<Rightarrow> bool) \<Rightarrow> string \<Rightarrow> string \<Rightarrow> string list" where
  "split_set d acc [] = [rev acc]"
| "split_set d acc (c # s) = (if d c then rev acc # split_set d [] s else split_set d (c # acc) s)"

definition g_strsplit_set :: "string \<Rightarrow> string list" where
  "g_strsplit_set s = (if s = [] then [] else split_set (\<lambda>c. c = CHR '':'' \<or> c = CHR '' '') [] s)"

record swap_info =
  sw_active :: nat
  sw_free :: nat
  sw_total :: nat

definition swap_line :: "string \<Rightarrow> swap_info \<Rightarrow> swap_info" where
  "swap_line line i =
     (let tokens = g_strsplit_set line; len = length tokens in
      if len > 3
      then
        let v = nat (atoi (tokens ! (len - 2)) mod 2 ^ 32);
            i = (if tokens ! 0 = ''SwapFree'' then i\<lparr>sw_free := v\<rparr> else i)
        in if tokens ! 0 = ''SwapTotal'' then i\<lparr>sw_total := v\<rparr>
           else if tokens ! 0 = ''Active(anon)'' then i\<lparr>sw_active := v\<rparr>
           else i
      else i)"

text \<open>
  The percentage is a quotient of 32-bit integers, a natural number here; \<open>None\<close> is a read
  past the empty vector of an empty file.
\<close>

definition swap_percentage :: "swap_info \<Rightarrow> nat" where
  "swap_percentage i =
     (if sw_total i = 0 then 100
      else if sw_free i > 0 \<and> sw_active i > 0 then (sw_active i * 100) mod 2 ^ 32 div sw_free i
      else 0)"

definition linux_get_used_swap :: "cstring \<Rightarrow> nat option" where
  "linux_get_used_swap meminfo =
     (case meminfo of
        None \<Rightarrow> Some 0
      | Some contents \<Rightarrow>
          let lines = g_strsplit contents CHR 0x0A in
          if lines = [] then None
          else Some (swap_percentage (fold swap_line (tl lines) \<lparr>sw_active = 0, sw_free = 0, sw_total = 0\<rparr>)))"

definition linux_check_enough_swap :: "cstring \<Rightarrow> bool option" where
  "linux_check_enough_swap meminfo = map_option (\<lambda>used. used < 98) (linux_get_used_swap meminfo)"

text \<open>\<open>sh\<close> is the status of the command, or \<open>None\<close> if it cannot be run.\<close>

definition linux_supports_sleep_state :: "(string \<Rightarrow> int option) \<Rightarrow> string \<Rightarrow> bool" where
  "linux_supports_sleep_state sh state =
     (case sh (''grep -q '' @ state @ '' /sys/power/state'') of
        None \<Rightarrow> False
      | Some status \<Rightarrow> status mod 128 = 0 \<and> status div 256 mod 256 = 0)"

definition ck_system_can_suspend :: "(string \<Rightarrow> int option) \<Rightarrow> bool" where
  "ck_system_can_suspend sh = linux_supports_sleep_state sh ''mem''"

definition ck_system_can_hibernate :: "(string \<Rightarrow> int option) \<Rightarrow> cstring \<Rightarrow> bool option" where
  "ck_system_can_hibernate sh meminfo =
     (if linux_supports_sleep_state sh ''disk'' then linux_check_enough_swap meminfo else Some False)"

definition ck_system_can_hybrid_sleep :: "(string \<Rightarrow> int option) \<Rightarrow> bool" where
  "ck_system_can_hybrid_sleep sh = (linux_supports_sleep_state sh ''disk'' \<and> linux_supports_sleep_state sh ''mem'')"

section \<open>Waiting for a console switch\<close>

datatype poll_result = Poll_Again | Poll_Other | Poll_Priority | Poll_Error

fun poll_vt_fd :: "poll_result list \<Rightarrow> bool option" where
  "poll_vt_fd [] = None"
| "poll_vt_fd (Poll_Again # rs) = poll_vt_fd rs"
| "poll_vt_fd (Poll_Other # rs) = poll_vt_fd rs"
| "poll_vt_fd (Poll_Priority # rs) = Some True"
| "poll_vt_fd (Poll_Error # rs) = None"

text \<open>\<open>sscanf (new_vt, "%31[a-z-A-Z]%d", ...)\<close> when it converts both.\<close>

definition is_name_char :: "char \<Rightarrow> bool" where
  "is_name_char c = (let n = (of_char c :: nat) in (97 \<le> n \<and> n \<le> 122) \<or> (65 \<le> n \<and> n \<le> 90) \<or> c = CHR ''-'')"

definition scan_vt :: "string \<Rightarrow> int option" where
  "scan_vt s =
     (let n = take 31 (takeWhile is_name_char s)
      in if n = [] then None else map_option fst (scan_signed 32 (drop (length n) s)))"

text \<open>
  One \<open>read\<close> with the bytes behind it in the buffer, which are not initialized, and
  whether seeking back works.
\<close>

datatype read_result = Read_Again | Read_Bytes string string bool | Read_Error

fun read_from_vt_fd :: "int \<Rightarrow> read_result list \<Rightarrow> int option" where
  "read_from_vt_fd ret [] = None"
| "read_from_vt_fd ret (Read_Again # rs) = read_from_vt_fd ret rs"
| "read_from_vt_fd ret (Read_Error # rs) = None"
| "read_from_vt_fd ret (Read_Bytes b garbage seek # rs) =
     (let ret = (case scan_vt (c_string (b @ garbage)) of None \<Rightarrow> ret | Some v \<Rightarrow> v);
          ret = (if seek then ret else - 1)
      in if b = [] then read_from_vt_fd ret rs else Some ret)"

definition ck_wait_for_console_switch :: "poll_result list \<Rightarrow> read_result list \<Rightarrow> int option option" where
  "ck_wait_for_console_switch polls reads =
     (case poll_vt_fd polls of
        None \<Rightarrow> None
      | Some False \<Rightarrow> Some None
      | Some True \<Rightarrow> map_option (\<lambda>v. if v \<ge> 0 then Some v else None) (read_from_vt_fd (- 1) reads))"

section \<open>Lemmas\<close>

lemma bit_MAJOR_OF: "bit (MAJOR_OF d) n \<longleftrightarrow> n < 12 \<and> bit d (n + 8)"
proof -
  have m: "(0xFFF :: 32 word) = mask 12" by (simp add: mask_eq_exp_minus_1)
  have "bit (0xFFF :: 32 word) n \<longleftrightarrow> n < 12" unfolding m by (auto simp: bit_mask_iff possible_bit_word)
  then show ?thesis by (auto simp: MAJOR_OF_def bit_and_iff bit_drop_bit_eq add.commute)
qed

lemma bit_MINOR_OF: "bit (MINOR_OF d) n \<longleftrightarrow> n < 8 \<and> bit d n \<or> 8 \<le> n \<and> bit d (n + 12)"
proof -
  have m: "(0xFF :: 32 word) = mask 8" "(0xFFF00000 :: 32 word) = push_bit 20 (mask 12)"
    by (simp_all add: mask_eq_exp_minus_1 push_bit_eq_mult)
  have b: "bit (0xFF :: 32 word) n \<longleftrightarrow> n < 8"
    unfolding m(1) by (auto simp: bit_mask_iff possible_bit_word)
  have c: "bit (0xFFF00000 :: 32 word) (n + 12) \<longleftrightarrow> 8 \<le> n \<and> n < 20"
    unfolding m(2) bit_push_bit_iff bit_mask_iff possible_bit_word by simp linarith
  have l: "bit d (n + 12) \<Longrightarrow> n < 20" using bit_imp_le_length [of d "n + 12"] by simp
  have "bit (MINOR_OF d) n \<longleftrightarrow> bit d n \<and> n < 8 \<or> bit d (n + 12) \<and> 8 \<le> n \<and> n < 20"
    unfolding MINOR_OF_def bit_or_iff bit_and_iff bit_drop_bit_eq comp_def b add.commute [of 12 n] c by (rule refl)
  with l show ?thesis by blast
qed

text \<open>The two numbers together are the device number.\<close>

lemma device_of_numbers:
  assumes "MAJOR_OF d = MAJOR_OF e" "MINOR_OF d = MINOR_OF e"
  shows "d = e"
proof (rule bit_eqI)
  fix n :: nat
  have maj: "n < 12 \<Longrightarrow> bit d (n + 8) = bit e (n + 8)" for n
    using assms(1) bit_MAJOR_OF by metis
  have mnr: "n < 8 \<Longrightarrow> bit d n = bit e n" "8 \<le> n \<Longrightarrow> bit d (n + 12) = bit e (n + 12)" for n
    using assms(2) bit_MINOR_OF by (metis leD)+
  consider "n < 8" | "8 \<le> n" "n < 20" | "20 \<le> n" by linarith
  then show "bit d n = bit e n"
    using mnr(1) [of n] maj [of "n - 8"] mnr(2) [of "n - 12"] by cases auto
qed

lemma right_device_eq: "right_device (MAJOR_OF d) (MINOR_OF d) r \<longleftrightarrow> r = Some d"
  by (auto simp: right_device_def split: option.splits intro: device_of_numbers)

lemma link_name_device: "link_name K (MAJOR_OF d) (MINOR_OF d) pid name = Some tty \<Longrightarrow> stat_rdev K tty = Some d"
  by (auto simp: link_name_def right_device_eq split: option.splits if_splits)

lemma driver_name_device: "driver_name K (MAJOR_OF d) (MINOR_OF d) = Some (Some tty) \<Longrightarrow> stat_rdev K tty = Some d"
  by (auto simp: driver_name_def right_device_eq Let_def split: option.splits if_splits)

text \<open>Reading numbers back.\<close>

lemma as_signed_id: "- (2 ^ (b - 1)) \<le> v \<Longrightarrow> v < 2 ^ (b - 1) \<Longrightarrow> b > 0 \<Longrightarrow> as_signed b v = v"
  by (cases b) (auto simp: as_signed_def)

lemma strtol_digits:
  assumes "ds \<noteq> []" "list_all is_digit ds" "r = [] \<or> \<not> is_digit (hd r)" "int (dec_val ds) < 2 ^ 63"
  shows "strtol (ds @ r) = (int (dec_val ds), False)" "strtol (CHR ''-'' # ds @ r) = (- int (dec_val ds), False)"
proof -
  have hd: "is_digit (hd ds)" using assms(1,2) by (cases ds) auto
  then have h: "hd ds \<noteq> CHR ''-''" "hd ds \<noteq> CHR ''+''" "\<not> is_space (hd ds)" by (auto simp: is_digit_def is_space_def)
  have sp: "dropWhile is_space (ds @ r) = ds @ r"
    using h assms(1) by (intro dropWhile_hd) (auto simp: hd_append)
  have t: "takeWhile is_digit (ds @ r) = ds"
    using assms(2,3) by (cases r; simp add: takeWhile_append list_all_iff)
  show "strtol (ds @ r) = (int (dec_val ds), False)"
    unfolding strtol_def Let_def sp using assms(1,4) h by (simp add: hd_append t)
  have "\<not> is_space CHR ''-''" by (simp add: is_space_def)
  then show "strtol (CHR ''-'' # ds @ r) = (- int (dec_val ds), False)"
    unfolding strtol_def Let_def using assms(4) t by simp
qed

lemma strtol_minus:
  assumes "ds \<noteq> []" "list_all is_digit ds" "r = [] \<or> \<not> is_digit (hd r)" "int (dec_val ds) \<le> 2 ^ 63"
  shows "fst (strtol (CHR ''-'' # ds @ r)) = - int (dec_val ds)"
proof -
  have t: "takeWhile is_digit (ds @ r) = ds"
    using assms(2,3) by (cases r; simp add: takeWhile_append list_all_iff)
  have "\<not> is_space CHR ''-''" by (simp add: is_space_def)
  then show ?thesis unfolding strtol_def Let_def using assms(4) t by simp
qed

lemma scan_signed_dec_int:
  assumes "- (2 ^ (b - 1)) \<le> v" "v < 2 ^ (b - 1)" "r = [] \<or> \<not> is_digit (hd r)" "b \<in> {32, 64}"
  shows "scan_signed b (CHR '' '' # dec_int v @ r) = Some (v, r)"
proof -
  define ds where "ds = dec (nat \<bar>v\<bar>)"
  have ds: "ds \<noteq> []" "list_all is_digit ds" "int (dec_val ds) = \<bar>v\<bar>" by (simp_all add: ds_def)
  have hd: "is_digit (hd ds)" using ds by (cases ds) auto
  then have h: "hd ds \<noteq> CHR ''-''" "hd ds \<noteq> CHR ''+''" "\<not> is_space (hd ds)" by (auto simp: is_digit_def is_space_def)
  have d: "dec_int v = (if v < 0 then CHR ''-'' # ds else ds)" by (simp add: dec_int_def ds_def)
  have sp: "is_space CHR '' ''" "\<not> is_space CHR ''-''" by (simp_all add: is_space_def)
  have t: "takeWhile is_digit (ds @ r) = ds" "dropWhile is_digit (ds @ r) = r"
    using ds(2) assms(3) by (cases r; simp add: takeWhile_append dropWhile_append list_all_iff dropWhile_eq_Nil_conv)+
  have dw: "dropWhile is_space (ds @ r) = ds @ r" using h ds(1) by (intro dropWhile_hd) (auto simp: hd_append)
  have "strtol (CHR '' '' # s) = strtol s" for s by (simp add: strtol_def sp)
  then have v: "fst (strtol (CHR '' '' # dec_int v @ r)) = v"
    using strtol_digits(1) [OF ds(1,2) assms(3)] strtol_minus [OF ds(1,2) assms(3)] ds(3) assms(1,2,4) by (auto simp: d)
  have a: "as_signed b v = v" using assms(1,2,4) by (intro as_signed_id) auto
  have "dropWhile is_space (CHR '' '' # dec_int v @ r) = dec_int v @ r" using sp dw by (simp add: d)
  then show ?thesis
    unfolding scan_signed_def Let_def v a using ds(1) h sp by (simp add: d t hd_append)
qed

text \<open>The last closing parenthesis of a text that has none behind it.\<close>

lemma strrchr_last:
  assumes "c \<notin> set r"
  shows "strrchr c (s @ c # r) = Some (s, c # r)"
proof -
  have "takeWhile (\<lambda>x. x \<noteq> c) (rev r @ c # rev s) = rev r" using assms by (simp add: takeWhile_append)
  then show ?thesis by (simp add: strrchr_def)
qed

lemma strchr_first: "c \<notin> set s \<Longrightarrow> strchr c (s @ c # r) = Some (c # r)"
  by (induction s) auto

text \<open>Entries of an environment.\<close>

lemma split_env_assign: "CHR ''='' \<notin> set n \<Longrightarrow> split_env (n @ CHR ''='' # v) = (n, Some v)"
  by (simp add: split_env_def strchr_first)

lemma strchr_NoneI: "c \<notin> set s \<Longrightarrow> strchr c s = None"
  by (induction s) auto

lemma split_env_prefix:
  assumes "CHR ''='' \<notin> set n"
  shows "has_prefix (n @ ''='') e \<longleftrightarrow> split_env e = (n, Some (drop (Suc (length n)) e))"
proof (cases "CHR ''='' \<in> set e")
  case True
  then obtain m v where e: "e = m @ CHR ''='' # v" "CHR ''='' \<notin> set m" by (metis split_list_first)
  show ?thesis
  proof (cases "m = n")
    case False
    have "take (Suc (length n)) e \<noteq> n @ ''=''"
    proof
      assume "take (Suc (length n)) e = n @ ''=''"
      then have "e = n @ CHR ''='' # drop (Suc (length n)) e" by (metis append.assoc append_Cons append_Nil append_take_drop_id)
      with e assms have "m = n" by (metis split_env_assign prod.inject)
      with False show False ..
    qed
    with False e show ?thesis by (simp add: has_prefix_def split_env_assign)
  qed (use e in \<open>simp add: has_prefix_def split_env_assign\<close>)
next
  case False
  then have "take (Suc (length n)) e \<noteq> n @ ''=''" by (metis in_set_takeD in_set_conv_decomp)
  with False show ?thesis by (simp add: has_prefix_def split_env_def strchr_NoneI)
qed

definition env_table :: "string list \<Rightarrow> (string, cstring) ghash" where
  "env_table es = fold (\<lambda>e h. let (n, v) = split_env e in g_hash_table_insert h n v) es []"

lemma env_table_lookup:
  "g_hash_table_lookup (env_table es) n = map_option snd (List.find (\<lambda>x. fst x = n) (map split_env (rev es)))"
  unfolding env_table_def
proof (induction es rule: rev_induct)
  case (snoc e es)
  then show ?case by (cases "split_env e") simp
qed simp

lemma find_env_eq:
  assumes "CHR ''='' \<notin> set n" "distinct (map (fst \<circ> split_env) es)"
  shows "map_option (drop (Suc (length n))) (List.find (has_prefix (n @ ''='')) es) =
    (case g_hash_table_lookup (env_table es) n of None \<Rightarrow> None | Some v \<Rightarrow> v)"
proof (cases "\<exists>e \<in> set es. fst (split_env e) = n")
  case True
  then obtain e where e: "e \<in> set es" "fst (split_env e) = n" by blast
  have only: "x = e" if "x \<in> set es" "fst (split_env x) = n" for x
    using that e assms(2) by (auto simp: distinct_map dest: inj_onD [of _ _ x e])
  have "List.find (\<lambda>x. fst x = n) (map split_env (rev es)) = Some (split_env e)"
  proof (cases "List.find (\<lambda>x. fst x = n) (map split_env (rev es))")
    case (Some y)
    then have "y \<in> set (map split_env (rev es)) \<and> fst y = n" by (blast dest: find_SomeD)
    with Some only show ?thesis by auto
  qed (use e in \<open>auto simp: find_None_iff\<close>)
  then have h: "g_hash_table_lookup (env_table es) n = Some (snd (split_env e))" by (simp add: env_table_lookup)
  show ?thesis
  proof (cases "List.find (has_prefix (n @ ''='')) es")
    case None
    then have "\<not> has_prefix (n @ ''='') e" using e by (auto simp: find_None_iff)
    moreover have "has_prefix (n @ ''='') e" if eq: "CHR ''='' \<in> set e"
    proof -
      from eq obtain m v where e': "e = m @ CHR ''='' # v" "CHR ''='' \<notin> set m" by (metis split_list_first)
      with e(2) have "m = n" by (simp add: split_env_assign)
      with e' show ?thesis by (simp add: has_prefix_def)
    qed
    ultimately have "CHR ''='' \<notin> set e" by blast
    then show ?thesis using None h by (simp add: split_env_def strchr_NoneI)
  next
    case (Some x)
    then have x: "x \<in> set es" "split_env x = (n, Some (drop (Suc (length n)) x))"
      using split_env_prefix [OF assms(1)] by (auto dest: find_SomeD)
    with only have "x = e" by simp
    with x Some h show ?thesis by simp
  qed
next
  case False
  then have "List.find (\<lambda>x. fst x = n) (map split_env (rev es)) = None" by (auto simp: find_None_iff)
  moreover have "List.find (has_prefix (n @ ''='')) es = None"
    using False split_env_prefix [OF assms(1)] by (auto simp: find_None_iff)
  ultimately show ?thesis by (simp add: env_table_lookup)
qed

section \<open>Properties\<close>

text \<open>
  The terminal reported for a process is its controlling terminal. Whichever of the four
  ways finds a path, the device number the path has is the one in the process state, all 32 bits.
\<close>

theorem reported_terminal_is_controlling:
  assumes "ck_process_stat_get_tty K st = Some (Some tty)"
  shows "stat_rdev K tty = Some (word_of_int (st_tty st)) \<and> word_of_int (st_tty st) \<noteq> (0 :: 32 word)"
  using assms
  by (auto simp: ck_process_stat_get_tty_def Let_def split: if_splits option.splits
      dest: link_name_device driver_name_device)

definition sample_kernel :: kernel_view where
  "sample_kernel = \<lparr>proc_stat = (\<lambda>p. if p = 300 then Some ''300 (Xorg) S 1 300 300 1031 -1 4194560 0'' else None),
     proc_environ = (\<lambda>p. Some (''DISPLAY=:0'' @ [CHR 0x00] @ ''HOME=/root'' @ [CHR 0x00])), proc_sessionid = (\<lambda>p. Some ''3''),
     proc_uid = (\<lambda>p. Some 0), tty_drivers = Some ''/dev/tty /dev/tty 4 1-63 console'',
     read_link = (\<lambda>p. None), stat_rdev = (\<lambda>p. if p = ''/dev/tty7'' then Some 1031 else None)\<rparr>"

theorem reported_terminal_is_controlling_witness:
  "\<exists>st. ck_process_stat_get_tty (sample_kernel\<lparr>read_link := (\<lambda>p. Some ''/dev/tty7'')\<rparr>) st = Some (Some ''/dev/tty7'') \<and>
     stat_rdev (sample_kernel\<lparr>read_link := (\<lambda>p. Some ''/dev/tty7'')\<rparr>) ''/dev/tty7'' = Some (word_of_int (st_tty st))"
proof -
  obtain st :: CkProcessStat where "st_tty st = 1031" by (metis CkProcessStat.select_convs(32))
  then have "ck_process_stat_get_tty (sample_kernel\<lparr>read_link := (\<lambda>p. Some ''/dev/tty7'')\<rparr>) st = Some (Some ''/dev/tty7'')"
    by (simp add: ck_process_stat_get_tty_def link_name_def right_device_eq sample_kernel_def Let_def)
  from this reported_terminal_is_controlling [OF this] show ?thesis by blast
qed

text \<open>
  The line the kernel prints for a process: its number, its name in parentheses, its state and the numbers of the record, between
  which there are six the code skips (four signal masks and two counters), and a rest.
\<close>

definition stat_numbers :: "CkProcessStat \<Rightarrow> int list \<Rightarrow> int list" where
  "stat_numbers p x =
     [st_ppid p, st_pgrp p, st_session p, st_tty p, st_tpgid p, st_flags p, st_min_flt p, st_cmin_flt p, st_maj_flt p, st_cmaj_flt p,
      st_utime p, st_stime p, st_cutime p, st_cstime p, st_priority p, st_nice p, st_nlwp p, st_alarm p, st_start_time p, st_vsize p,
      st_rss p, st_rss_rlim p, st_start_code p, st_end_code p, st_start_stack p, st_kstk_esp p, st_kstk_eip p] @ take 4 x @
     [st_wchan p] @ drop 4 x @ [st_exit_signal p, st_processor p, st_rtprio p, st_sched p]"

definition stat_line :: "nat \<Rightarrow> char \<Rightarrow> CkProcessStat \<Rightarrow> int list \<Rightarrow> string \<Rightarrow> string" where
  "stat_line n state p x rest =
     dec n @ '' ('' @ st_cmd p @ '') '' @ state # concat (map (\<lambda>v. CHR '' '' # dec_int v) (stat_numbers p x)) @ rest"

text \<open>The numbers have the widths of the kernel, a process has a thread and its name at most 15 bytes.\<close>

definition stat_printable :: "char \<Rightarrow> CkProcessStat \<Rightarrow> int list \<Rightarrow> string \<Rightarrow> bool" where
  "stat_printable state p x rest =
     (length (st_cmd p) \<le> 15 \<and> CHR 0x00 \<notin> set (st_cmd p) \<and> CHR '')'' \<notin> set (state # rest) \<and> (rest = [] \<or> is_space (hd rest)) \<and>
      st_state p = of_char state \<and> 1 \<le> st_nlwp p \<and> length x = 6 \<and> list_all (\<lambda>v. 0 \<le> v \<and> v < 2 ^ 32) (drop 4 x) \<and>
      list_all (\<lambda>v. - (2 ^ 31) \<le> v \<and> v < 2 ^ 31)
        [st_ppid p, st_pgrp p, st_session p, st_tty p, st_tpgid p, st_nlwp p, st_exit_signal p, st_processor p] \<and>
      list_all (\<lambda>v. - (2 ^ 63) \<le> v \<and> v < 2 ^ 63) [st_priority p, st_nice p, st_alarm p, st_rss p] \<and>
      list_all (\<lambda>v. 0 \<le> v \<and> v < 2 ^ 64)
        [st_flags p, st_min_flt p, st_cmin_flt p, st_maj_flt p, st_cmaj_flt p, st_utime p, st_stime p, st_cutime p, st_cstime p,
         st_start_time p, st_vsize p, st_rss_rlim p, st_start_code p, st_end_code p, st_start_stack p, st_kstk_esp p, st_kstk_eip p,
         st_wchan p, st_rtprio p, st_sched p])"

text \<open>Conversions that fit the numbers read them all but the skipped ones.\<close>

fun conv_fits :: "conv \<Rightarrow> int \<Rightarrow> bool" where
  "conv_fits (C_signed b) v = (b \<in> {32, 64} \<and> - (2 ^ (b - 1)) \<le> v \<and> v < 2 ^ (b - 1))"
| "conv_fits (C_unsigned b) v = (b = 64 \<and> 0 \<le> v \<and> v < 2 ^ b)"
| "conv_fits C_skip_word v = True"
| "conv_fits C_skip_unsigned v = (0 \<le> v \<and> v < 2 ^ 32)"
| "conv_fits C_char v = False"

fun conv_value :: "conv \<Rightarrow> int \<Rightarrow> int list" where
  "conv_value C_skip_word v = []"
| "conv_value C_skip_unsigned v = []"
| "conv_value c v = [v]"

lemma scan_unsigned_dec_int:
  assumes "0 \<le> v" "v < 2 ^ b" "r = [] \<or> \<not> is_digit (hd r)" "b \<le> 64"
  shows "scan_unsigned b (CHR '' '' # dec_int v @ r) = Some (nat v, r)"
proof -
  have "scan_unsigned b (CHR '' '' # s) = scan_unsigned b s" for s by (simp add: scan_unsigned_def is_space_def)
  moreover have "nat v < 2 ^ b" using assms(1,2) by (simp add: nat_less_iff)
  ultimately show ?thesis using scan_unsigned_digits [of "dec (nat v)" r b] assms by (simp add: dec_int_def)
qed

lemma dec_int_no_space: "c \<in> set (dec_int v) \<Longrightarrow> \<not> is_space c"
  using dec_digits [of c] by (auto simp: dec_int_def is_space_def is_digit_def split: if_splits)

lemma scan_convs_numbers:
  assumes "list_all2 conv_fits cs vs" "rest = [] \<or> is_space (hd rest)"
  shows "scan_convs cs (concat (map (\<lambda>v. CHR '' '' # dec_int v) vs) @ rest) = concat (map2 conv_value cs vs)"
  using assms(1)
proof (induction cs vs rule: list_all2_induct)
  case (Cons c cs v vs)
  let ?r = "concat (map (\<lambda>v. CHR '' '' # dec_int v) vs) @ rest"
  have sp: "?r = [] \<or> is_space (hd ?r)" using assms(2) by (cases vs) (auto simp: is_space_def)
  then have r: "?r = [] \<or> \<not> is_digit (hd ?r)" by (auto simp: is_space_def is_digit_def)
  have w: "takeWhile (\<lambda>c. \<not> is_space c) (dec_int v @ ?r) = dec_int v" "dropWhile (\<lambda>c. \<not> is_space c) (dec_int v @ ?r) = ?r"
    using sp dec_int_no_space [of _ v] by (cases ?r; simp add: takeWhile_append dropWhile_append dropWhile_eq_Nil_conv)+
  obtain h t where ht: "dec_int v = h # t" by (cases "dec_int v") (auto simp: dec_int_def split: if_splits)
  have "\<not> is_space h" using dec_int_no_space [of h v] by (simp add: ht)
  moreover have "is_space CHR '' ''" by (simp add: is_space_def)
  ultimately have d: "dropWhile is_space (CHR '' '' # dec_int v @ ?r) = dec_int v @ ?r" "dec_int v @ ?r \<noteq> []"
    unfolding ht by simp_all
  have str: "concat (map (\<lambda>v. CHR '' '' # dec_int v) (v # vs)) @ rest = CHR '' '' # dec_int v @ ?r" by simp
  have fits: "conv_fits c v" by (rule Cons(1))
  show ?case
  proof (cases c)
    case (C_signed b)
    with fits have "scan_signed b (CHR '' '' # dec_int v @ ?r) = Some (v, ?r)" using r by (intro scan_signed_dec_int) auto
    with C_signed Cons(3) show ?thesis unfolding str by simp
  next
    case (C_unsigned b)
    with fits have "scan_unsigned b (CHR '' '' # dec_int v @ ?r) = Some (nat v, ?r)" using r by (intro scan_unsigned_dec_int) auto
    with C_unsigned fits Cons(3) show ?thesis unfolding str by simp
  next
    case C_skip_word
    have "scan_convs (c # cs) (CHR '' '' # dec_int v @ ?r) = scan_convs cs ?r"
      unfolding C_skip_word scan_convs.simps Let_def d(1) w(2) using d(2) by (rule if_not_P)
    with C_skip_word Cons(3) show ?thesis unfolding str by simp
  next
    case C_skip_unsigned
    with fits have "scan_unsigned 32 (CHR '' '' # dec_int v @ ?r) = Some (nat v, ?r)" using r by (intro scan_unsigned_dec_int) auto
    with C_skip_unsigned Cons(3) show ?thesis unfolding str by simp
  qed (use fits in simp)
qed simp

text \<open>
  C29: The name of a process cannot change what is read about it. For the line the kernel
  writes, with any name of up to 15 bytes (parentheses, blanks and digits included), the name, the state and
  every number of the record are read back unchanged.
\<close>

theorem process_name_cannot_spoof:
  assumes "stat_printable state p x rest"
  shows "stat2proc pid (stat_line n state p x rest) = Some (p\<lparr>st_pid := pid\<rparr>)"
proof -
  let ?f = "state # concat (map (\<lambda>v. CHR '' '' # dec_int v) (stat_numbers p x)) @ rest"
  note p = assms [unfolded stat_printable_def]
  have line: "stat_line n state p x rest = (dec n @ '' '') @ CHR ''('' # st_cmd p @ CHR '')'' # CHR '' '' # ?f" by (simp add: stat_line_def)
  have digits: "c \<notin> set (dec m)" if "\<not> is_digit c" for c m using that by (meson dec_digits)
  have "CHR ''('' \<notin> set (dec n @ '' '')" using digits [of "CHR ''(''" n] by (simp add: is_digit_def)
  then have s1: "strchr CHR ''('' ((dec n @ '' '') @ CHR ''('' # st_cmd p @ CHR '')'' # CHR '' '' # ?f) =
      Some (CHR ''('' # st_cmd p @ CHR '')'' # CHR '' '' # ?f)" by (rule strchr_first)
  have "CHR '')'' \<notin> set (dec_int v)" for v using digits [of "CHR '')''"] by (simp add: dec_int_def is_digit_def)
  then have s2: "strrchr CHR '')'' (st_cmd p @ CHR '')'' # CHR '' '' # ?f) = Some (st_cmd p, CHR '')'' # CHR '' '' # ?f)"
    using p by (intro strrchr_last) auto
  obtain x1 x2 x3 x4 x5 x6 where x: "x = [x1, x2, x3, x4, x5, x6]"
    using p by (auto simp: length_Suc_conv numeral_eq_Suc)
  have convs: "stat_convs = C_char # tl stat_convs" by (simp add: stat_convs_def)
  have "list_all2 conv_fits (tl stat_convs) (stat_numbers p x)"
    using p by (simp add: stat_convs_def stat_numbers_def x numeral_eq_Suc)
  then have "scan_convs stat_convs ?f = of_char state # concat (map2 conv_value (tl stat_convs) (stat_numbers p x))"
    using scan_convs_numbers [of "tl stat_convs" "stat_numbers p x" rest] p by (subst convs) simp
  also have "concat (map2 conv_value (tl stat_convs) (stat_numbers p x)) = stat_numbers p []"
    by (simp add: stat_convs_def stat_numbers_def x numeral_eq_Suc)
  finally have vs: "scan_convs stat_convs ?f = st_state p # stat_numbers p []" using p by simp
  have "c_string (st_cmd p) = st_cmd p" using p by (auto simp: c_string_def takeWhile_eq_all_conv)
  then show ?thesis
    using p unfolding line stat2proc_def s1
    by (simp add: s2 vs Let_def del: append.simps) (simp add: stat_numbers_def nth_default_def)
qed

text \<open>A process that calls itself like the rest of a line.\<close>

definition sample_stat :: CkProcessStat where
  "sample_stat = \<lparr>st_pid = 300, st_ppid = 200, st_state = 83, st_cmd = '') S 1 1 1 0'', st_utime = 17, st_stime = 4, st_cutime = 0, st_cstime = 0,
     st_start_time = 99, st_start_code = 1, st_end_code = 2, st_start_stack = 3, st_kstk_esp = 0, st_kstk_eip = 0, st_wchan = 0,
     st_priority = 20, st_nice = - 5, st_rss = 12, st_alarm = 0, st_rtprio = 0, st_sched = 0, st_vsize = 4096, st_rss_rlim = 2 ^ 64 - 1,
     st_flags = 4194560, st_min_flt = 5, st_maj_flt = 6, st_cmin_flt = 7, st_cmaj_flt = 8, st_pgrp = 300, st_session = 300, st_nlwp = 2,
     st_tty = 1031, st_tpgid = - 1, st_exit_signal = 17, st_processor = 3\<rparr>"

theorem process_name_cannot_spoof_witness:
  "stat2proc 300 (stat_line 300 CHR ''S'' sample_stat [0, 0, 4096, 1, 0, 0] [CHR 0x0A]) = Some sample_stat"
proof -
  have "stat_printable CHR ''S'' sample_stat [0, 0, 4096, 1, 0, 0] [CHR 0x0A]"
    by (simp add: stat_printable_def sample_stat_def is_space_def)
  from process_name_cannot_spoof [OF this, of 300 300] show ?thesis by (simp add: sample_stat_def)
qed

text \<open>
  The two ways to look a variable up in the environment of a process agree when no name
  occurs twice: the first entry with the prefix, and the entry of the table.
\<close>

theorem environment_lookups_agree:
  assumes "pid > 1" "proc_environ K pid = Some contents" "CHR ''='' \<notin> set var"
    and "distinct (map (fst \<circ> split_env) (env_entries True contents))"
  shows "\<exists>h. ck_unix_pid_get_env_hash K pid = Some h \<and>
    ck_unix_pid_get_env K pid var = (case g_hash_table_lookup h var of None \<Rightarrow> None | Some v \<Rightarrow> v)"
  using assms(1,2) find_env_eq [OF assms(3,4)]
  by (simp add: ck_unix_pid_get_env_hash_def ck_unix_pid_get_env_def env_table_def)

theorem environment_lookups_agree_witness:
  "\<exists>h. ck_unix_pid_get_env_hash sample_kernel 300 = Some h \<and>
    ck_unix_pid_get_env sample_kernel 300 ''DISPLAY'' = (case g_hash_table_lookup h ''DISPLAY'' of None \<Rightarrow> None | Some v \<Rightarrow> v)"
proof (rule environment_lookups_agree)
  show "proc_environ sample_kernel 300 = Some (''DISPLAY=:0'' @ [CHR 0x00] @ ''HOME=/root'' @ [CHR 0x00])"
    by (simp add: sample_kernel_def)
  show "distinct (map (fst \<circ> split_env) (env_entries True (''DISPLAY=:0'' @ [CHR 0x00] @ ''HOME=/root'' @ [CHR 0x00])))"
    by code_simp
qed simp_all

text \<open>
  When a variable occurs twice the first value is reported and the last one is in the
  table, from which the environment of the X11 helpers is made.
\<close>

theorem repeated_variable_has_two_values:
  assumes "pid > 1" "proc_environ K pid = Some (var @ ''='' @ a @ [CHR 0x00] @ var @ ''='' @ b @ [CHR 0x00])"
    and "CHR ''='' \<notin> set var" "CHR 0x00 \<notin> set (var @ a @ b)"
  shows "ck_unix_pid_get_env K pid var = Some a"
    and "\<exists>h. ck_unix_pid_get_env_hash K pid = Some h \<and> g_hash_table_lookup h var = Some (Some b)"
proof -
  have run: "env_entries False (s @ CHR 0x00 # r) = env_entries True r" if "CHR 0x00 \<notin> set s" for s r
    using that by (induction s) auto
  have entry: "env_entries True (s @ CHR 0x00 # r) = s # env_entries True r" if "CHR 0x00 \<notin> set s" "s \<noteq> []" for s r
    using that run by (cases s) (auto simp: c_string_def takeWhile_append)
  have es: "env_entries True (var @ ''='' @ a @ [CHR 0x00] @ var @ ''='' @ b @ [CHR 0x00]) = [var @ CHR ''='' # a, var @ CHR ''='' # b]"
    using entry [of "var @ CHR ''='' # a" "var @ ''='' @ b @ [CHR 0x00]"] entry [of "var @ CHR ''='' # b" "[]"] assms(4) by simp
  show "ck_unix_pid_get_env K pid var = Some a"
    using assms(1,2) unfolding ck_unix_pid_get_env_def by (simp only: es option.case) (simp add: has_prefix_def)
  show "\<exists>h. ck_unix_pid_get_env_hash K pid = Some h \<and> g_hash_table_lookup h var = Some (Some b)"
    using assms(1,2) unfolding ck_unix_pid_get_env_hash_def
    by (simp only: es option.map) (simp add: split_env_assign [OF assms(3)])
qed

text \<open>
  The percentage of swap the running programs would need is computed on 32 bits and only
  when some swap is free: with no free swap at all the machine may hibernate, and 42949673 kB
  of active memory count as nothing.
\<close>

theorem full_swap_counts_as_enough:
  assumes "sw_total i > 0" "sw_free i = 0 \<or> sw_active i = 42949673 \<and> sw_free i \<ge> 1"
  shows "swap_percentage i < 98"
proof -
  have "(4294967300 :: nat) mod 4294967296 div sw_free i < 98"
    by (rule le_less_trans [OF div_le_dividend]) simp
  with assms show ?thesis by (auto simp: swap_percentage_def)
qed

end
