(* ===== verification/CK_CollectInfo.thy ===== *)
theory CK_CollectInfo
  imports CK_Sysdeps
begin

text \<open>
  The helper that looks at the process asking for a session and prints what it finds:
  src/tools/ck-collect-session-info.c, and how the daemon reads its output back
  (\<open>parse_output\<close> of \<open>CK_SessionLeader\<close>).

  The two X11 helpers it runs are functions of the environment they get: whether they could be
  run, their status and their output. \<open>have_pam\<close> is the build option HAVE_PAM. \<open>None\<close> is a
  crash while reading a process state.
\<close>

section \<open>Types\<close>

record SessionInfo =
  si_uid :: nat
  si_pid :: int
  si_login_session_id :: cstring
  si_vtnum :: nat
  si_display_device :: cstring
  si_x11_display_device :: cstring
  si_x11_display :: cstring
  si_x11_can_connect :: bool
  si_remote_host_name :: cstring
  si_is_local :: bool
  si_is_local_is_set :: bool

record x11_helpers =
  get_server_pid :: "string list \<Rightarrow> bool \<times> int \<times> cstring"
  get_display_device :: "string list \<Rightarrow> bool \<times> int \<times> cstring"

section \<open>Operations\<close>

definition allowed_env_vars :: "string list" where
  "allowed_env_vars =
     [''DISPLAY'', ''XAUTHORITY'', ''XAUTHLOCALHOSTNAME'', ''SSH_CLIENT'', ''SSH_CONNECTION'', ''SSH_TTY'', ''HOME'']"

text \<open>A table that could not be read has no entries for the lookup.\<close>

definition get_filtered_environment :: "kernel_view \<Rightarrow> int \<Rightarrow> string list" where
  "get_filtered_environment K pid =
     (let hash = (case ck_unix_pid_get_env_hash K pid of None \<Rightarrow> [] | Some h \<Rightarrow> h)
      in ''PATH=/bin:/usr/bin'' #
         concat (map (\<lambda>var. case g_hash_table_lookup hash var of
                        Some (Some val) \<Rightarrow> [var @ ''='' @ val]
                      | _ \<Rightarrow> []) allowed_env_vars))"

text \<open>\<open>sscanf (out, "%u %c", &v, &c) == 1\<close>: a number with nothing but white space behind it.\<close>

definition scan_only_uint :: "string \<Rightarrow> nat option" where
  "scan_only_uint out =
     (case scan_unsigned 32 out of
        None \<Rightarrow> None
      | Some (v, r) \<Rightarrow> if dropWhile is_space r = [] then Some v else None)"

text \<open>Whether the helper could connect, and the process of the server.\<close>

definition get_x11_server_pid :: "kernel_view \<Rightarrow> x11_helpers \<Rightarrow> SessionInfo \<Rightarrow> bool \<times> nat" where
  "get_x11_server_pid K X si =
     (let (res, status, out) = get_server_pid X (get_filtered_environment K (si_pid si))
      in if status = 0
         then (True, case out of
                       None \<Rightarrow> 0
                     | Some s \<Rightarrow> if res then (case scan_only_uint s of None \<Rightarrow> 0 | Some v \<Rightarrow> v) else 0)
         else (False, 0))"

definition g_strstrip :: "string \<Rightarrow> string" where
  "g_strstrip s = rev (dropWhile is_space (rev (dropWhile is_space s)))"

text \<open>The part behind the label \<open>gotit\<close>.\<close>

definition local_display :: "bool \<Rightarrow> SessionInfo \<Rightarrow> SessionInfo" where
  "local_display have_pam si =
     (if have_pam then si else si\<lparr>si_is_local := True, si_is_local_is_set := True\<rparr>)\<lparr>si_remote_host_name := None\<rparr>"

definition fill_x11_info :: "bool \<Rightarrow> kernel_view \<Rightarrow> x11_helpers \<Rightarrow> SessionInfo \<Rightarrow> SessionInfo option" where
  "fill_x11_info have_pam K X si =
     (let si = si\<lparr>si_x11_display := ck_unix_pid_get_env K (si_pid si) ''DISPLAY''\<rparr> in
      if si_x11_display si = None then Some (si\<lparr>si_x11_can_connect := False\<rparr>)
      else
        let (can_connect, xorg_pid) = get_x11_server_pid K X si;
            si = si\<lparr>si_x11_can_connect := can_connect\<rparr>
        in if \<not> can_connect then Some (si\<lparr>si_x11_display := None\<rparr>)
           else if xorg_pid < 2 then Some (si\<lparr>si_is_local := False, si_is_local_is_set := True\<rparr>)
           else case ck_process_stat_new_for_unix_pid K (as_gint xorg_pid) of
             None \<Rightarrow> None
           | Some None \<Rightarrow> Some si
           | Some (Some xorg_stat) \<Rightarrow>
               (case ck_process_stat_get_tty K xorg_stat of
                  None \<Rightarrow> None
                | Some tty \<Rightarrow>
                    if tty \<noteq> si_display_device si then Some (local_display have_pam (si\<lparr>si_x11_display_device := tty\<rparr>))
                    else
                      let (res, status, out) = get_display_device X (get_filtered_environment K (si_pid si))
                      in Some (local_display have_pam (si\<lparr>si_x11_display_device :=
                           (if status = 0 \<and> res \<and> out \<noteq> None then map_option g_strstrip out else tty)\<rparr>))))"

definition get_vtnr :: "SessionInfo \<Rightarrow> nat" where
  "get_vtnr si =
     (let device = (if si_x11_display_device si \<noteq> None then si_x11_display_device si else si_display_device si)
      in case ck_get_console_num_from_device device of None \<Rightarrow> 0 | Some n \<Rightarrow> n)"

definition fill_session_info :: "bool \<Rightarrow> kernel_view \<Rightarrow> x11_helpers \<Rightarrow> SessionInfo \<Rightarrow> (bool \<times> SessionInfo) option" where
  "fill_session_info have_pam K X si =
     (case ck_process_stat_new_for_unix_pid K (si_pid si) of
        None \<Rightarrow> None
      | Some None \<Rightarrow> Some (False, si)
      | Some (Some st) \<Rightarrow>
          (case ck_process_stat_get_tty K st of
             None \<Rightarrow> None
           | Some tty \<Rightarrow>
               let si = si\<lparr>si_display_device := tty\<rparr> in
               (case (if si_x11_display_device si = None then fill_x11_info have_pam K X si else Some si) of
                  None \<Rightarrow> None
                | Some si \<Rightarrow>
                    let si = (if \<not> have_pam \<and> \<not> si_is_local_is_set si then si\<lparr>si_is_local := True, si_is_local_is_set := True\<rparr> else si);
                        si = si\<lparr>si_login_session_id := ck_unix_pid_get_login_session_id K (si_pid si)\<rparr>
                    in Some (True, si\<lparr>si_vtnum := get_vtnr si\<rparr>))))"

definition info_line :: "string \<Rightarrow> string \<Rightarrow> string" where
  "info_line n v = n @ '' = '' @ v @ [CHR 0x0A]"

definition optional_line :: "string \<Rightarrow> cstring \<Rightarrow> string" where
  "optional_line n v = (case v of None \<Rightarrow> [] | Some s \<Rightarrow> info_line n s)"

definition print_session_info :: "SessionInfo \<Rightarrow> string" where
  "print_session_info si =
     info_line ''unix-user'' (dec (si_uid si)) @
     info_line ''vtnr'' (dec (si_vtnum si)) @
     optional_line ''x11-display'' (si_x11_display si) @
     optional_line ''x11-display-device'' (si_x11_display_device si) @
     optional_line ''display-device'' (si_display_device si) @
     optional_line ''remote-host-name'' (si_remote_host_name si) @
     (if si_is_local_is_set si then info_line ''is-local'' (if si_is_local si then ''true'' else ''false'') else []) @
     optional_line ''login-session-id'' (si_login_session_id si)"

definition new_info :: "nat \<Rightarrow> int \<Rightarrow> cstring \<Rightarrow> SessionInfo" where
  "new_info uid pid device = \<lparr>si_uid = uid, si_pid = pid, si_login_session_id = None, si_vtnum = 0, si_display_device = None,
     si_x11_display_device = device, si_x11_display = None, si_x11_can_connect = False, si_remote_host_name = None,
     si_is_local = False, si_is_local_is_set = False\<rparr>"

definition collect_session_info ::
  "bool \<Rightarrow> kernel_view \<Rightarrow> x11_helpers \<Rightarrow> nat \<Rightarrow> int \<Rightarrow> cstring \<Rightarrow> (bool \<times> string) option" where
  "collect_session_info have_pam K X uid pid device =
     map_option (\<lambda>(ret, si). (ret, if ret then print_session_info si else []))
       (fill_session_info have_pam K X (new_info uid pid device))"

text \<open>The program: its exit status and output. \<open>ruid\<close> is the caller, the other arguments are the parsed options.\<close>

definition collect_main ::
  "bool \<Rightarrow> kernel_view \<Rightarrow> x11_helpers \<Rightarrow> nat \<Rightarrow> int \<Rightarrow> int \<Rightarrow> cstring \<Rightarrow> (nat \<times> string) option" where
  "collect_main have_pam K X ruid user_id process_id device =
     (if ruid \<noteq> 0 then Some (1, [])
      else if user_id < 0 then Some (1, [])
      else if process_id < 2 then Some (1, [])
      else map_option (\<lambda>(ret, out). (if ret then 0 else 1, out))
             (collect_session_info have_pam K X (nat user_id) process_id device))"

section \<open>Lemmas\<close>

text \<open>What the daemon should get.\<close>

definition info_params :: "SessionInfo \<Rightarrow> (string \<times> gvariant) list" where
  "info_params si =
     [(''unix-user'', V_int (int (si_uid si))), (''vtnr'', V_uint (si_vtnum si))] @
     (case si_x11_display si of None \<Rightarrow> [] | Some s \<Rightarrow> [(''x11-display'', V_string s)]) @
     (case si_x11_display_device si of None \<Rightarrow> [] | Some s \<Rightarrow> [(''x11-display-device'', V_string s)]) @
     (case si_display_device si of None \<Rightarrow> [] | Some s \<Rightarrow> [(''display-device'', V_string s)]) @
     (case si_remote_host_name si of None \<Rightarrow> [] | Some s \<Rightarrow> [(''remote-host-name'', V_string s)]) @
     (if si_is_local_is_set si then [(''is-local'', V_bool (si_is_local si))] else []) @
     (case si_login_session_id si of None \<Rightarrow> [] | Some s \<Rightarrow> [(''login-session-id'', V_string s)])"

definition one_line :: "cstring \<Rightarrow> bool" where
  "one_line v = (case v of None \<Rightarrow> True | Some s \<Rightarrow> CHR 0x0A \<notin> set s)"

lemma split_assign_line: "CHR '' '' \<notin> set n \<Longrightarrow> split_assign (n @ '' = '' @ v) = (n, Some v)"
  by (induction n) auto

lemma untrusted_int_dec:
  assumes "k < 2 ^ 62" "limit < 2 ^ 63"
  shows "untrusted_int e limit (dec k) = (if e \<noteq> 0 \<and> k = 0 \<or> limit < int k then None else Some (int k))"
proof -
  have "int k < 2 ^ 62" using assms(1) by simp
  then show ?thesis using assms strtol_digits(1) [of "dec k" "[]"] by (simp add: untrusted_int_def ERANGE_def)
qed

text \<open>
  The parameters that survive the reading: not what the caller passed itself, no user id the
  daemon does not accept, and no number 0 while \<open>errno\<close> is still set from before.
\<close>

definition kept_param :: "CkSessionLeader \<Rightarrow> nat \<Rightarrow> string \<times> gvariant \<Rightarrow> bool" where
  "kept_param l errno p =
     (\<not> have_override_parameter l (fst p) \<and>
      (case snd p of
         V_int i \<Rightarrow> i < 2 ^ 31 \<and> \<not> (errno \<noteq> 0 \<and> i = 0)
       | V_uint k \<Rightarrow> \<not> (errno \<noteq> 0 \<and> k = 0)
       | _ \<Rightarrow> True))"

definition read_params :: "CkSessionLeader \<Rightarrow> (nat \<Rightarrow> nat) \<Rightarrow> nat \<Rightarrow> (string \<times> gvariant) list \<Rightarrow> (string \<times> gvariant) list" where
  "read_params l stale i ps = map snd (filter (\<lambda>(j, p). kept_param l (stale j) p) (enumerate i ps))"

lemma read_params_simps [simp]:
  "read_params l stale i [] = []"
  "read_params l stale i (p # ps) = (if kept_param l (stale i) p then [p] else []) @ read_params l stale (Suc i) ps"
  by (simp_all add: read_params_def)

lemma read_params_all: "\<forall>p \<in> set ps. \<forall>j. kept_param l (stale j) p \<Longrightarrow> read_params l stale i ps = ps"
  by (induction ps arbitrary: i) simp_all

text \<open>Lines that each hold a parameter.\<close>

definition gives :: "CkSessionLeader \<Rightarrow> string \<Rightarrow> string \<times> gvariant \<Rightarrow> bool" where
  "gives l line p =
     (CHR 0x0A \<notin> set line \<and> (\<forall>errno. parse_line l errno line = Some (if kept_param l errno p then Some p else None)))"

lemma gives_param:
  assumes "CHR '' '' \<notin> set n" "CHR 0x0A \<notin> set (n @ v)" "n \<noteq> []"
  shows "lookup_parameter_type n = Some P_STRING \<Longrightarrow> gives l (n @ '' = '' @ v) (n, V_string v)"
    and "lookup_parameter_type n = Some P_BOOLEAN \<Longrightarrow> gives l (n @ '' = '' @ v) (n, V_bool (is_true (Some v)))"
    and "lookup_parameter_type n = Some P_INT \<Longrightarrow> v = dec k \<Longrightarrow> k < 2 ^ 32 \<Longrightarrow> gives l (n @ '' = '' @ v) (n, V_int (int k))"
    and "lookup_parameter_type n = Some P_UINT \<Longrightarrow> v = dec k \<Longrightarrow> k < 2 ^ 32 \<Longrightarrow> gives l (n @ '' = '' @ v) (n, V_uint k)"
  using assms split_assign_line [OF assms(1), of v] untrusted_int_dec [of k "2 ^ 31 - 1"] untrusted_int_dec [of k "2 ^ 32 - 1"]
  by (auto simp: gives_def parse_line_def kept_param_def)

lemma split_lines:
  assumes "\<forall>line \<in> set lines. CHR 0x0A \<notin> set line"
  shows "split_on CHR 0x0A [] (concat (map (\<lambda>x. x @ [CHR 0x0A]) lines)) = lines @ [[]]"
  using assms by (induction lines) (simp_all add: split_on_append)

lemma parse_lines_append_empty: "parse_lines l stale i (lines @ [[]]) = parse_lines l stale i lines"
  by (induction l stale i lines rule: parse_lines.induct) (auto simp: parse_line_def split: option.splits)

lemma parse_lines_gives: "list_all2 (gives l) lines ps \<Longrightarrow> parse_lines l stale i lines = Some (read_params l stale i ps)"
  by (induction lines ps arbitrary: i rule: list_all2_induct) (simp_all add: gives_def)

lemma parse_output_gives:
  assumes "list_all2 (gives l) lines ps" "lines \<noteq> []"
  shows "parse_output l stale (concat (map (\<lambda>x. x @ [CHR 0x0A]) lines)) = Some (read_params l stale 0 ps @ sl_override_parameters l)"
proof -
  have "\<forall>line \<in> set lines. CHR 0x0A \<notin> set line"
    using assms(1) by (auto simp: list_all2_conv_all_nth gives_def in_set_conv_nth)
  from split_lines [OF this] have "parse_lines l stale 0 (split_on CHR 0x0A [] (concat (map (\<lambda>x. x @ [CHR 0x0A]) lines))) =
      Some (read_params l stale 0 ps)"
    using parse_lines_gives [OF assms(1)] by (simp add: parse_lines_append_empty)
  moreover have "concat (map (\<lambda>x. x @ [CHR 0x0A]) lines) \<noteq> []" using assms(2) by (cases lines) simp_all
  ultimately show ?thesis by (simp add: parse_output_def g_strsplit_def)
qed

definition info_lines :: "SessionInfo \<Rightarrow> string list" where
  "info_lines si =
     [''unix-user'' @ '' = '' @ dec (si_uid si), ''vtnr'' @ '' = '' @ dec (si_vtnum si)] @
     (case si_x11_display si of None \<Rightarrow> [] | Some s \<Rightarrow> [''x11-display'' @ '' = '' @ s]) @
     (case si_x11_display_device si of None \<Rightarrow> [] | Some s \<Rightarrow> [''x11-display-device'' @ '' = '' @ s]) @
     (case si_display_device si of None \<Rightarrow> [] | Some s \<Rightarrow> [''display-device'' @ '' = '' @ s]) @
     (case si_remote_host_name si of None \<Rightarrow> [] | Some s \<Rightarrow> [''remote-host-name'' @ '' = '' @ s]) @
     (if si_is_local_is_set si then [''is-local'' @ '' = '' @ (if si_is_local si then ''true'' else ''false'')] else []) @
     (case si_login_session_id si of None \<Rightarrow> [] | Some s \<Rightarrow> [''login-session-id'' @ '' = '' @ s])"

lemma print_session_info_lines: "print_session_info si = concat (map (\<lambda>x. x @ [CHR 0x0A]) (info_lines si))"
  by (simp add: print_session_info_def info_lines_def optional_line_def info_line_def split: option.splits)

lemma dec_no_newline [simp]: "CHR 0x0A \<notin> set (dec k)"
proof
  assume "CHR 0x0A \<in> set (dec k)"
  then have "is_digit CHR 0x0A" by (rule dec_digits)
  then show False by (simp add: is_digit_def)
qed

lemma info_lines_give:
  assumes "si_uid si < 2 ^ 32" "si_vtnum si < 2 ^ 32"
    and "one_line (si_x11_display si)" "one_line (si_x11_display_device si)" "one_line (si_display_device si)"
      "one_line (si_remote_host_name si)" "one_line (si_login_session_id si)"
  shows "list_all2 (gives l) (info_lines si) (info_params si)"
proof -
  have types: "lookup_parameter_type ''unix-user'' = Some P_INT" "lookup_parameter_type ''vtnr'' = Some P_UINT"
    "lookup_parameter_type ''x11-display'' = Some P_STRING" "lookup_parameter_type ''x11-display-device'' = Some P_STRING"
    "lookup_parameter_type ''display-device'' = Some P_STRING" "lookup_parameter_type ''remote-host-name'' = Some P_STRING"
    "lookup_parameter_type ''is-local'' = Some P_BOOLEAN" "lookup_parameter_type ''login-session-id'' = Some P_STRING"
    by (simp_all add: lookup_parameter_type_def parameter_lookup_def)
  have uid: "gives l (''unix-user'' @ '' = '' @ dec (si_uid si)) (''unix-user'', V_int (int (si_uid si)))"
    using assms(1) by (intro gives_param(3)) (simp_all add: types)
  have vtnr: "gives l (''vtnr'' @ '' = '' @ dec (si_vtnum si)) (''vtnr'', V_uint (si_vtnum si))"
    using assms(2) by (intro gives_param(4)) (simp_all add: types)
  have str: "list_all2 (gives l) (case v of None \<Rightarrow> [] | Some s \<Rightarrow> [n @ '' = '' @ s]) (case v of None \<Rightarrow> [] | Some s \<Rightarrow> [(n, V_string s)])"
    if "one_line v" "lookup_parameter_type n = Some P_STRING" "CHR '' '' \<notin> set n" "CHR 0x0A \<notin> set n" "n \<noteq> []" for n v
    using that gives_param(1) [of n] by (auto simp: one_line_def split: option.splits)
  have loc: "gives l (''is-local'' @ '' = '' @ (if b then ''true'' else ''false'')) (''is-local'', V_bool b)" for b
  proof -
    have "is_true (Some (if b then ''true'' else ''false'')) = b" by (cases b) (simp_all add: is_true_def lower_def)
    with gives_param(2) [of "''is-local''" "if b then ''true'' else ''false''" l] show ?thesis by (simp add: types)
  qed
  show ?thesis
    unfolding info_lines_def info_params_def
    using uid vtnr loc [of "si_is_local si"]
    by (intro list_all2_appendI str assms) (simp_all add: types del: append.simps)
qed

section \<open>Properties\<close>


definition sample_info :: SessionInfo where
  "sample_info = (new_info 1000 300 (Some ''/dev/tty7''))\<lparr>si_vtnum := 7, si_x11_display := Some '':0'', si_login_session_id := Some ''3''\<rparr>"


text \<open>
  A line break in DISPLAY adds parameters. The variable is printed as it is, so a process
  whose DISPLAY continues with "unix-user = 0" on a second line gets a second unix-user
  parameter behind the true one.
\<close>

theorem newline_in_display_adds_parameter:
  assumes "sl_override_parameters l = []" "si_uid si < 2 ^ 31" "si_vtnum si < 2 ^ 32"
    and "si_x11_display si = Some (a @ [CHR 0x0A] @ ''unix-user = 0'')" "CHR 0x0A \<notin> set a"
    and "list_all one_line [si_x11_display_device si, si_display_device si, si_remote_host_name si, si_login_session_id si]"
  shows "\<exists>post. parse_output l (\<lambda>_. 0) (print_session_info si) =
      Some ([(''unix-user'', V_int (int (si_uid si))), (''vtnr'', V_uint (si_vtnum si)), (''x11-display'', V_string a), (''unix-user'', V_int 0)] @ post) \<and>
    ''unix-user'' \<notin> fst ` set post"
proof -
  let ?t = "si\<lparr>si_x11_display := Some a\<rparr>"
  have no: "\<forall>n. \<not> have_override_parameter l n" using assms(1) by (simp add: have_override_parameter_def)
  have "list_all2 (gives l) (info_lines ?t) (info_params ?t)"
    using assms by (intro info_lines_give) (simp_all add: one_line_def)
  moreover obtain lines where lines: "info_lines ?t = take 3 (info_lines ?t) @ lines" "info_lines si =
      [''unix-user = '' @ dec (si_uid si), ''vtnr = '' @ dec (si_vtnum si), ''x11-display = '' @ a @ [CHR 0x0A] @ ''unix-user = 0''] @ lines"
    using assms(4) by (simp add: info_lines_def)
  moreover obtain post where post: "info_params ?t = take 3 (info_params ?t) @ post"
      "take 3 (info_params ?t) = [(''unix-user'', V_int (int (si_uid si))), (''vtnr'', V_uint (si_vtnum si)), (''x11-display'', V_string a)]"
      "\<forall>p \<in> set post. ''unix-user'' \<noteq> fst p"
    by (simp add: info_params_def ball_Un split: option.split)
  ultimately have split: "list_all2 (gives l) (take 3 (info_lines ?t)) (take 3 (info_params ?t))" "list_all2 (gives l) lines post"
    by (metis list_all2_takeI, metis append_take_drop_id list_all2_dropI same_append_eq)
  have zero: "gives l ''unix-user = 0'' (''unix-user'', V_int 0)"
  proof -
    have "''0'' = dec 0" by code_simp
    with gives_param(3) [of "''unix-user''" "''0''" 0 l] show ?thesis
      by (simp add: lookup_parameter_type_def parameter_lookup_def)
  qed
  let ?ls = "take 3 (info_lines ?t) @ ''unix-user = 0'' # lines"
  have g: "list_all2 (gives l) ?ls (take 3 (info_params ?t) @ (''unix-user'', V_int 0) # post)"
    using split zero by (intro list_all2_appendI) simp_all
  have "print_session_info si = concat (map (\<lambda>x. x @ [CHR 0x0A]) ?ls)"
    unfolding print_session_info_lines lines(2) by (simp add: info_lines_def)
  moreover have "read_params l (\<lambda>_. 0) 0 (take 3 (info_params ?t) @ (''unix-user'', V_int 0) # post) =
      take 3 (info_params ?t) @ (''unix-user'', V_int 0) # post"
  proof (rule read_params_all)
    have "info_params ?t = take 3 (info_params ?t) @ post" by (rule post(1))
    then have "set post \<subseteq> set (info_params ?t)" by (metis set_append sup.cobounded2)
    moreover have "kept_param l 0 p" if "p \<in> set (info_params ?t)" for p
      using that no assms(2) by (auto simp: info_params_def kept_param_def split: option.splits if_splits)
    ultimately show "\<forall>p \<in> set (take 3 (info_params ?t) @ (''unix-user'', V_int 0) # post). \<forall>j. kept_param l ((\<lambda>_. 0) j) p"
      using no by (auto dest: in_set_takeD) (simp add: kept_param_def)
  qed
  ultimately have "parse_output l (\<lambda>_. 0) (print_session_info si) =
      Some ((take 3 (info_params ?t) @ (''unix-user'', V_int 0) # post) @ sl_override_parameters l)"
    using parse_output_gives [OF g, of "\<lambda>_. 0"] by simp
  with post assms(1) show ?thesis by (simp add: image_iff)
qed

theorem newline_in_display_adds_parameter_witness:
  "\<exists>post. parse_output ck_session_leader_new (\<lambda>_. 0) (print_session_info (sample_info\<lparr>si_x11_display := Some ('':0'' @ [CHR 0x0A] @ ''unix-user = 0'')\<rparr>)) =
      Some ([(''unix-user'', V_int 1000), (''vtnr'', V_uint 7), (''x11-display'', V_string '':0''), (''unix-user'', V_int 0)] @ post) \<and>
    ''unix-user'' \<notin> fst ` set post"
  using newline_in_display_adds_parameter [of ck_session_leader_new "sample_info\<lparr>si_x11_display := Some ('':0'' @ [CHR 0x0A] @ ''unix-user = 0'')\<rparr>" "'':0''"]
  by (simp add: ck_session_leader_new_def ck_session_leader_init_def sample_info_def new_info_def one_line_def)

end
