(* ===== verification/CK_History.thy ===== *)
theory CK_History
  imports CK_LogEvent "HOL-Library.Signed_Division" "HOL-Library.Multiset"
begin

text \<open>
  The program that reports on the history of logins: src/tools/ck-history.c.

  The readable files, their text (of a compressed file what zlib expands it to), the user
  database, \<open>ctime\<close> and the clock are inputs. \<open>None\<close> stands for a crash or, for the loop over
  the rotated files, for not ending. Times are seconds that fit into a signed 64-bit integer.
\<close>

section \<open>Types\<close>

datatype ReportType =
    REPORT_TYPE_SUMMARY
  | REPORT_TYPE_LAST
  | REPORT_TYPE_LAST_COMPAT
  | REPORT_TYPE_FREQUENT
  | REPORT_TYPE_LOG

datatype RecordStatus =
    RECORD_STATUS_CRASH
  | RECORD_STATUS_DOWN
  | RECORD_STATUS_NORMAL
  | RECORD_STATUS_NOW
  | RECORD_STATUS_REBOOT
  | RECORD_STATUS_PHANTOM
  | RECORD_STATUS_TIMECHANGE

text \<open>The system the program runs on; \<open>hv_version\<close> is the name and version of the program.\<close>

record history_env =
  hv_access :: "string \<Rightarrow> bool"
  hv_file :: "string \<Rightarrow> cstring"
  hv_gzfile :: "string \<Rightarrow> cstring"
  hv_pwuid :: "nat \<Rightarrow> cstring"
  hv_pwnam :: "string \<Rightarrow> nat option"
  hv_ctime :: "int \<Rightarrow> string"
  hv_now :: int
  hv_version :: string

definition DEFAULT_LOG_FILENAME :: string where
  "DEFAULT_LOG_FILENAME = ''/var/log/ConsoleKit/history''"

definition MAX_LINE_LEN :: nat where
  "MAX_LINE_LEN = 2048"

section \<open>Reading the files\<close>

definition parse_event_line :: "string \<Rightarrow> CkLogEvent option" where
  "parse_event_line line = ck_log_event_new_from_string line"

text \<open>\<open>fgets\<close> and \<open>gzgets\<close>: up to and including a line break, at most \<open>n - 1\<close> characters.\<close>

definition gets_length :: "nat \<Rightarrow> string \<Rightarrow> nat" where
  "gets_length n s = min (n - 1) (Suc (length (takeWhile (\<lambda>c. c \<noteq> CHR 0x0A) s)))"

function gets_all :: "string \<Rightarrow> string list" where
  "gets_all s =
     (if s = [] then []
      else take (gets_length MAX_LINE_LEN s) s # gets_all (drop (gets_length MAX_LINE_LEN s) s))"
  by pat_completeness auto
termination
  by (relation "measure length") (auto simp: gets_length_def MAX_LINE_LEN_def)

declare gets_all.simps [simp del]

definition too_old :: "nat option \<Rightarrow> CkLogEvent \<Rightarrow> bool" where
  "too_old since e = (case since of None \<Rightarrow> False | Some t \<Rightarrow> fst (le_timestamp e) < t)"

text \<open>The loop over the lines: the events, newest first, and whether an older one was seen.\<close>

fun read_lines :: "nat option \<Rightarrow> string list \<Rightarrow> CkLogEvent list \<Rightarrow> bool \<Rightarrow> CkLogEvent list \<times> bool" where
  "read_lines since [] events hit_since = (events, hit_since)"
| "read_lines since (line # lines) events hit_since =
     (case parse_event_line line of
        None \<Rightarrow> read_lines since lines events hit_since
      | Some e \<Rightarrow>
          if \<not> too_old since e then read_lines since lines (e # events) hit_since
          else read_lines since lines events True)"

definition process_log_gzstream :: "nat option \<Rightarrow> string \<Rightarrow> CkLogEvent list \<Rightarrow> bool \<times> CkLogEvent list" where
  "process_log_gzstream since contents all_events =
     (let (events, hit_since) = read_lines since (gets_all contents) [] False
      in (\<not> hit_since, all_events @ events))"

definition process_log_stream :: "nat option \<Rightarrow> string \<Rightarrow> CkLogEvent list \<Rightarrow> bool \<times> CkLogEvent list" where
  "process_log_stream since contents all_events =
     (let (events, hit_since) = read_lines since (gets_all contents) [] False
      in (\<not> hit_since, all_events @ events))"

definition has_suffix :: "string \<Rightarrow> string \<Rightarrow> bool" where
  "has_suffix x s = (length x \<le> length s \<and> drop (length s - length x) s = x)"

definition process_log_file :: "history_env \<Rightarrow> nat option \<Rightarrow> string \<Rightarrow> CkLogEvent list \<Rightarrow> bool \<times> CkLogEvent list" where
  "process_log_file E since filename all_events =
     (if has_suffix ''.gz'' filename
      then (case hv_gzfile E filename of None \<Rightarrow> (False, all_events) | Some t \<Rightarrow> process_log_gzstream since t all_events)
      else (case hv_file E filename of None \<Rightarrow> (False, all_events) | Some t \<Rightarrow> process_log_stream since t all_events))"

definition log_filename :: "nat \<Rightarrow> string" where
  "log_filename num = DEFAULT_LOG_FILENAME @ ''.'' @ dec num"

text \<open>The rotated file with a number: the plain one, or the compressed one.\<close>

definition rotated_file :: "history_env \<Rightarrow> nat \<Rightarrow> string option" where
  "rotated_file E num =
     (if hv_access E (log_filename num) then Some (log_filename num)
      else if hv_access E (log_filename num @ ''.gz'') then Some (log_filename num @ ''.gz'')
      else None)"

partial_function (option) rotated_files :: "history_env \<Rightarrow> nat \<Rightarrow> string list \<Rightarrow> string list option" where
  "rotated_files E num files =
     (case rotated_file E num of
        None \<Rightarrow> Some (rev files)
      | Some f \<Rightarrow> rotated_files E (Suc num) (f # files))"

definition get_log_file_list :: "history_env \<Rightarrow> string list option" where
  "get_log_file_list E = rotated_files E 1 [DEFAULT_LOG_FILENAME]"

fun process_files :: "history_env \<Rightarrow> nat option \<Rightarrow> string list \<Rightarrow> CkLogEvent list \<Rightarrow> bool \<times> CkLogEvent list" where
  "process_files E since [] all_events = (True, all_events)"
| "process_files E since (f # files) all_events =
     (let (res, all_events) = process_log_file E since f all_events
      in if res then process_files E since files all_events else (False, all_events))"

definition process_logs :: "history_env \<Rightarrow> nat option \<Rightarrow> (bool \<times> CkLogEvent list) option" where
  "process_logs E since = map_option (\<lambda>files. process_files E since files []) (get_log_file_list E)"

section \<open>Records\<close>

text \<open>\<open>session_id\<close> of an event that ends a session.\<close>

definition ends_session :: "cstring \<Rightarrow> CkLogEvent \<Rightarrow> bool" where
  "ends_session sid e =
     (case le_event e of
        Ev_Seat_Session_Removed x \<Rightarrow> le_session_id x \<noteq> None \<and> sid \<noteq> None \<and> le_session_id x = sid
      | Ev_System_Start _ _ \<Rightarrow> True
      | Ev_System_Stop \<Rightarrow> True
      | Ev_System_Restart \<Rightarrow> True
      | _ \<Rightarrow> False)"

definition find_first_matching_remove_event :: "CkLogEvent list \<Rightarrow> CkLogSeatSessionEvent \<Rightarrow> CkLogEvent option" where
  "find_first_matching_remove_event events x = List.find (ends_session (le_session_id x)) events"

definition stops_system :: "CkLogEvent \<Rightarrow> bool" where
  "stops_system e = (event_type (le_event e) \<in> {CK_LOG_EVENT_SYSTEM_STOP, CK_LOG_EVENT_SYSTEM_RESTART})"

definition find_first_matching_system_stop_event :: "CkLogEvent list \<Rightarrow> CkLogEvent option" where
  "find_first_matching_system_stop_event events = List.find stops_system events"

definition get_user_name_for_uid :: "history_env \<Rightarrow> nat \<Rightarrow> cstring" where
  "get_user_name_for_uid E uid = hv_pwuid E uid"

definition get_uid_for_username :: "history_env \<Rightarrow> string \<Rightarrow> int" where
  "get_uid_for_username E username = (case hv_pwnam E username of None \<Rightarrow> - 1 | Some u \<Rightarrow> as_gint u)"

definition strip_dev :: "cstring \<Rightarrow> cstring" where
  "strip_dev d = map_option (\<lambda>s. if take 5 s = ''/dev/'' then drop 5 s else s) d"

text \<open>The three lookups abort for other types of events.\<close>

definition get_utline_for_event :: "CkLogEvent \<Rightarrow> cstring option" where
  "get_utline_for_event e =
     (case le_event e of
        Ev_Seat_Session_Added x \<Rightarrow>
          Some (if IS_STR_SET (le_session_x11_display_device x) then strip_dev (le_session_x11_display_device x)
                else strip_dev (le_session_display_device x))
      | Ev_System_Start _ _ \<Rightarrow> Some (Some ''system boot'')
      | _ \<Rightarrow> None)"

definition get_user_name_for_event :: "history_env \<Rightarrow> CkLogEvent \<Rightarrow> cstring option" where
  "get_user_name_for_event E e =
     (case le_event e of
        Ev_Seat_Session_Added x \<Rightarrow> Some (get_user_name_for_uid E (le_session_unix_user x))
      | Ev_System_Start _ _ \<Rightarrow> Some (Some ''reboot'')
      | _ \<Rightarrow> None)"

definition get_host_for_event :: "CkLogEvent \<Rightarrow> cstring option" where
  "get_host_for_event e =
     (case le_event e of
        Ev_Seat_Session_Added x \<Rightarrow>
          Some (if le_session_remote_host_name x = None then le_session_x11_display x else le_session_remote_host_name x)
      | Ev_System_Start r _ \<Rightarrow> Some r
      | _ \<Rightarrow> None)"

definition get_event_record_status :: "CkLogEvent option \<Rightarrow> RecordStatus" where
  "get_event_record_status remove_event =
     (case remove_event of
        None \<Rightarrow> RECORD_STATUS_NOW
      | Some e \<Rightarrow>
          (case event_type (le_event e) of
             CK_LOG_EVENT_SEAT_SESSION_REMOVED \<Rightarrow> RECORD_STATUS_NORMAL
           | CK_LOG_EVENT_SYSTEM_START \<Rightarrow> RECORD_STATUS_CRASH
           | CK_LOG_EVENT_SYSTEM_STOP \<Rightarrow> RECORD_STATUS_DOWN
           | CK_LOG_EVENT_SYSTEM_RESTART \<Rightarrow> RECORD_STATUS_DOWN
           | _ \<Rightarrow> RECORD_STATUS_NOW))"

text \<open>The \<open>%02d\<close> conversion.\<close>

definition dec2_int :: "int \<Rightarrow> string" where
  "dec2_int i =
     (let d = dec (nat \<bar>i\<bar>); n = length d + (if i < 0 then 1 else 0)
      in (if i < 0 then ''-'' else []) @ replicate (2 - n) CHR ''0'' @ d)"

text \<open>The quotients of C are truncated towards zero.\<close>

definition get_duration :: "history_env \<Rightarrow> CkLogEvent \<Rightarrow> CkLogEvent option \<Rightarrow> string" where
  "get_duration E e remove_event =
     (let t0 = int (fst (le_timestamp e));
          secs = (case remove_event of Some r \<Rightarrow> int (fst (le_timestamp r)) - t0 | None \<Rightarrow> hv_now E - t0);
          mins = (secs sdiv 60) smod 60;
          hours = (secs sdiv 3600) smod 24;
          days = secs sdiv 86400
      in if days > 0 then ''('' @ dec_int days @ ''+'' @ dec2_int hours @ '':'' @ dec2_int mins @ '')''
         else '' ('' @ dec2_int hours @ '':'' @ dec2_int mins @ '')'')"

text \<open>The conversions \<open>%-w.ps\<close> and \<open>%ws\<close>.\<close>

definition pad_right :: "nat \<Rightarrow> nat \<Rightarrow> string \<Rightarrow> string" where
  "pad_right w p s = take p s @ replicate (w - length (take p s)) CHR '' ''"

definition pad_left :: "nat \<Rightarrow> string \<Rightarrow> string" where
  "pad_left w s = replicate (w - length s) CHR '' '' @ s"

definition removed_fields :: "history_env \<Rightarrow> CkLogEvent \<Rightarrow> CkLogEvent option \<Rightarrow> RecordStatus \<Rightarrow> string \<times> string" where
  "removed_fields E e remove_event status =
     (case status of
        RECORD_STATUS_CRASH \<Rightarrow> (''- crash'', get_duration E e remove_event)
      | RECORD_STATUS_DOWN \<Rightarrow> (''- down '', get_duration E e remove_event)
      | RECORD_STATUS_NOW \<Rightarrow> (''  still'', ''logged in'')
      | RECORD_STATUS_PHANTOM \<Rightarrow> (''   gone'', ''- no logout'')
      | RECORD_STATUS_REBOOT \<Rightarrow> ('''', get_duration E e remove_event)
      | RECORD_STATUS_TIMECHANGE \<Rightarrow> ('''', '''')
      | RECORD_STATUS_NORMAL \<Rightarrow>
          (take 7 (''- '' @ drop 11 (hv_ctime E (case remove_event of None \<Rightarrow> 0 | Some r \<Rightarrow> int (fst (le_timestamp r))))),
           get_duration E e remove_event))"

text \<open>One record; \<open>list_next\<close> are the events behind it.\<close>

definition print_last_report_record ::
  "history_env \<Rightarrow> CkLogEvent list \<Rightarrow> CkLogEvent \<Rightarrow> bool \<Rightarrow> string option" where
  "print_last_report_record E list_next e legacy_compat =
     (let kind =
        (case le_event e of
           Ev_Seat_Session_Added x \<Rightarrow>
             (let r = find_first_matching_remove_event list_next x
              in Some (r, get_event_record_status r, le_session_type x, le_session_id x, le_seat_id x))
         | Ev_System_Start _ _ \<Rightarrow>
             Some (find_first_matching_system_stop_event list_next, RECORD_STATUS_REBOOT, Some '''', Some '''', Some '''')
         | _ \<Rightarrow> None)
      in case kind of
        None \<Rightarrow> Some ''''
      | Some (remove_event, status, session_type, session_id, seat_id) \<Rightarrow>
          (case (get_user_name_for_event E e, get_utline_for_event e, get_host_for_event e) of
             (Some username, Some utline, Some host) \<Rightarrow>
               let addedtime = take 16 (hv_ctime E (int (fst (le_timestamp e))));
                   str = (if legacy_compat
                          then pad_right 8 8 (printf_string username) @ '' '' @ pad_right 12 12 (NONULL_STRING utline) @ '' '' @
                               pad_right 16 16 (NONULL_STRING host) @ '' '' @ pad_right 16 16 addedtime
                          else pad_right 24 24 (printf_string username) @ '' '' @ pad_left 12 (printf_string session_type) @ '' '' @
                               pad_right 10 10 (printf_string session_id) @ '' '' @ pad_right 7 7 (printf_string seat_id) @ '' '' @
                               pad_right 12 12 (printf_string utline) @ '' '' @ pad_right 28 28 (NONULL_STRING host) @ '' '' @
                               pad_right 16 16 addedtime);
                   (removedtime, duration) = removed_fields E e remove_event status
               in Some (str @ '' '' @ pad_right 7 7 removedtime @ '' '' @ pad_right 12 12 duration @ [CHR 0x0A])
           | _ \<Rightarrow> None))"

section \<open>Reports\<close>

text \<open>The three filters of an added session.\<close>

definition selected :: "int \<Rightarrow> cstring \<Rightarrow> cstring \<Rightarrow> CkLogSeatSessionEvent \<Rightarrow> bool" where
  "selected uid seat session_type x =
     (\<not> (uid \<ge> 0 \<and> int (le_session_unix_user x) \<noteq> uid) \<and>
      \<not> (seat \<noteq> None \<and> le_seat_id x \<noteq> None \<and> le_seat_id x \<noteq> seat) \<and>
      \<not> (session_type \<noteq> None \<and> le_session_type x \<noteq> None \<and> le_session_type x \<noteq> session_type))"

definition skipped :: "int \<Rightarrow> cstring \<Rightarrow> cstring \<Rightarrow> CkLogEvent \<Rightarrow> bool" where
  "skipped uid seat session_type e =
     (case le_event e of Ev_Seat_Session_Added x \<Rightarrow> \<not> selected uid seat session_type x | _ \<Rightarrow> False)"

text \<open>The loop from the last event to the first: the events before \<open>behind\<close> are still to be printed.\<close>

fun print_records ::
  "history_env \<Rightarrow> int \<Rightarrow> cstring \<Rightarrow> cstring \<Rightarrow> bool \<Rightarrow> CkLogEvent list \<Rightarrow> CkLogEvent list \<Rightarrow> string option" where
  "print_records E uid seat session_type legacy [] behind = Some ''''"
| "print_records E uid seat session_type legacy (e # before) behind =
     (case (if skipped uid seat session_type e then Some '''' else print_last_report_record E behind e legacy) of
        None \<Rightarrow> None
      | Some line \<Rightarrow> map_option (\<lambda>t. line @ t) (print_records E uid seat session_type legacy before (e # behind)))"

definition log_begins :: "history_env \<Rightarrow> CkLogEvent list \<Rightarrow> string" where
  "log_begins E all_events =
     (case all_events of [] \<Rightarrow> '''' | e # _ \<Rightarrow> CHR 0x0A # ''Log begins '' @ hv_ctime E (int (fst (le_timestamp e))))"

definition generate_report_summary :: string where
  "generate_report_summary = ''''"

definition generate_report_last :: "history_env \<Rightarrow> int \<Rightarrow> cstring \<Rightarrow> cstring \<Rightarrow> CkLogEvent list \<Rightarrow> string option" where
  "generate_report_last E uid seat session_type all_events =
     map_option (\<lambda>t. t @ log_begins E all_events) (print_records E uid seat session_type False (rev all_events) [])"

definition generate_report_last_compat :: "history_env \<Rightarrow> int \<Rightarrow> cstring \<Rightarrow> cstring \<Rightarrow> CkLogEvent list \<Rightarrow> string option" where
  "generate_report_last_compat E uid seat session_type all_events =
     map_option (\<lambda>t. t @ log_begins E all_events) (print_records E uid seat session_type True (rev all_events) [])"

record CountData =
  cd_uid :: int
  cd_count :: nat

text \<open>\<open>g_hash_table_foreach\<close> with prepending: the reversed order of the table.\<close>

definition listify_counts :: "(nat, nat) ghash \<Rightarrow> CountData list" where
  "listify_counts counts = fold (\<lambda>(k, v) l. \<lparr>cd_uid = as_gint k, cd_count = v\<rparr> # l) counts []"

definition counts_compare :: "CountData \<Rightarrow> CountData \<Rightarrow> int" where
  "counts_compare a b = (if cd_count a < cd_count b then 1 else if cd_count a > cd_count b then - 1 else 0)"

fun count_logins :: "int \<Rightarrow> cstring \<Rightarrow> cstring \<Rightarrow> CkLogEvent list \<Rightarrow> (nat, nat) ghash \<Rightarrow> (nat, nat) ghash" where
  "count_logins uid seat session_type [] counts = counts"
| "count_logins uid seat session_type (e # es) counts =
     count_logins uid seat session_type es
       (case le_event e of
          Ev_Seat_Session_Added x \<Rightarrow>
            if selected uid seat session_type x
            then g_hash_table_insert counts (le_session_unix_user x)
                   (case g_hash_table_lookup counts (le_session_unix_user x) of None \<Rightarrow> 1 | Some c \<Rightarrow> (c + 1) mod 2 ^ 32)
            else counts
        | _ \<Rightarrow> counts)"

definition user_counts :: "int \<Rightarrow> cstring \<Rightarrow> cstring \<Rightarrow> CkLogEvent list \<Rightarrow> CountData list" where
  "user_counts uid seat session_type all_events =
     g_list_sort (\<lambda>a b. counts_compare a b \<le> 0) (listify_counts (count_logins uid seat session_type all_events []))"

definition generate_report_frequent :: "history_env \<Rightarrow> int \<Rightarrow> cstring \<Rightarrow> cstring \<Rightarrow> CkLogEvent list \<Rightarrow> string" where
  "generate_report_frequent E uid seat session_type all_events =
     concat (map (\<lambda>d. let n = printf_string (get_user_name_for_uid E (nat (cd_uid d mod 2 ^ 32)))
                       in pad_right 24 (length n) n @ '' '' @ dec (cd_count d) @ [CHR 0x0A])
       (user_counts uid seat session_type all_events))"

definition generate_report_log :: "CkLogEvent list \<Rightarrow> string option" where
  "generate_report_log all_events =
     (if list_all (\<lambda>e. ck_log_event_to_string e \<noteq> None) all_events
      then Some (concat (map (\<lambda>e. (case ck_log_event_to_string e of None \<Rightarrow> '''' | Some s \<Rightarrow> s @ [CHR 0x0A])) all_events))
      else None)"

definition generate_report :: "history_env \<Rightarrow> ReportType \<Rightarrow> int \<Rightarrow> cstring \<Rightarrow> cstring \<Rightarrow> CkLogEvent list \<Rightarrow> string option" where
  "generate_report E report_type uid seat session_type all_events =
     (let all_events = rev all_events in
      case report_type of
        REPORT_TYPE_SUMMARY \<Rightarrow> Some generate_report_summary
      | REPORT_TYPE_LAST \<Rightarrow> generate_report_last E uid seat session_type all_events
      | REPORT_TYPE_LAST_COMPAT \<Rightarrow> generate_report_last_compat E uid seat session_type all_events
      | REPORT_TYPE_FREQUENT \<Rightarrow> Some (generate_report_frequent E uid seat session_type all_events)
      | REPORT_TYPE_LOG \<Rightarrow> generate_report_log all_events)"

text \<open>The program on its parsed options; \<open>since\<close> is the outer option's ISO 8601 time, or \<open>Some None\<close> if it is invalid.\<close>

record history_options =
  ho_version :: bool
  ho_last_compat :: bool
  ho_last :: bool
  ho_frequent :: bool
  ho_log :: bool
  ho_username :: cstring
  ho_seat :: cstring
  ho_session_type :: cstring
  ho_since :: "nat option option"

definition report_type_of :: "history_options \<Rightarrow> ReportType" where
  "report_type_of opt =
     (if ho_last_compat opt then REPORT_TYPE_LAST_COMPAT
      else if ho_last opt then REPORT_TYPE_LAST
      else if ho_frequent opt then REPORT_TYPE_FREQUENT
      else if ho_log opt then REPORT_TYPE_LOG
      else REPORT_TYPE_SUMMARY)"

definition history_main :: "history_env \<Rightarrow> history_options \<Rightarrow> (nat \<times> string) option" where
  "history_main E opt =
     (if ho_version opt then Some (1, hv_version E @ [CHR 0x0A])
      else if ho_since opt = Some None then Some (1, '''')
      else
        let uid = (case ho_username opt of None \<Rightarrow> - 1 | Some n \<Rightarrow> get_uid_for_username E n) in
        if ho_username opt \<noteq> None \<and> uid = - 1 then Some (1, '''')
        else
          (case process_logs E (case ho_since opt of None \<Rightarrow> None | Some t \<Rightarrow> t) of
             None \<Rightarrow> None
           | Some (_, all_events) \<Rightarrow>
               map_option (\<lambda>t. (0, t)) (generate_report E (report_type_of opt) uid (ho_seat opt) (ho_session_type opt) all_events)))"

section \<open>Lemmas\<close>

text \<open>The text of a log file, and of all of them, newest first.\<close>

definition event_text :: "CkLogEvent \<Rightarrow> string" where
  "event_text e = (case ck_log_event_to_string e of None \<Rightarrow> [] | Some s \<Rightarrow> s)"

definition file_text :: "CkLogEvent list \<Rightarrow> string" where
  "file_text es = concat (map (\<lambda>e. event_text e @ [CHR 0x0A]) es)"

definition file_contents :: "history_env \<Rightarrow> string \<Rightarrow> cstring" where
  "file_contents E f = (if has_suffix ''.gz'' f then hv_gzfile E f else hv_file E f)"

definition holds_logs :: "history_env \<Rightarrow> CkLogEvent list list \<Rightarrow> bool" where
  "holds_logs E logs =
     (logs \<noteq> [] \<and> hv_file E DEFAULT_LOG_FILENAME = Some (file_text (logs ! 0)) \<and>
      list_all (\<lambda>k. case rotated_file E k of
          None \<Rightarrow> False
        | Some f \<Rightarrow> file_contents E f = Some (file_text (logs ! k))) [1 ..< length logs] \<and>
      rotated_file E (length logs) = None)"

text \<open>
  An event whose values fit the expressions of the reader, or one of suspending or hibernating, which the reader
  does not know, on one line the reader takes whole.
\<close>

definition unread_event :: "CkLogEvent \<Rightarrow> bool" where
  "unread_event e = (le_event e \<in> {Ev_System_Suspend, Ev_System_Hibernate})"

definition one_line_event :: "CkLogEvent \<Rightarrow> bool" where
  "one_line_event e =
     (fst (le_timestamp e) < 2 ^ 64 \<and> snd (le_timestamp e) < 1000000 \<and> (loggable (le_event e) \<or> unread_event e) \<and>
      CHR 0x0A \<notin> set (event_text e) \<and> length (event_text e) < 2047)"

lemma gets_all_lines:
  assumes "\<forall>l \<in> set ls. CHR 0x0A \<notin> set l \<and> length l < 2047"
  shows "gets_all (concat (map (\<lambda>l. l @ [CHR 0x0A]) ls)) = map (\<lambda>l. l @ [CHR 0x0A]) ls"
  using assms
proof (induction ls)
  case (Cons l ls)
  let ?r = "concat (map (\<lambda>l. l @ [CHR 0x0A]) ls)"
  have "takeWhile (\<lambda>c. c \<noteq> CHR 0x0A) (l @ CHR 0x0A # ?r) = l" using Cons.prems by (auto simp: takeWhile_append)
  then have "gets_length MAX_LINE_LEN (l @ CHR 0x0A # ?r) = Suc (length l)"
    using Cons.prems by (simp add: gets_length_def MAX_LINE_LEN_def)
  then show ?case using Cons by (subst gets_all.simps) simp
qed (simp add: gets_all.simps)

lemma too_old_read [simp]: "too_old since (read_event e) = too_old since e"
  by (simp add: too_old_def read_event_def split: option.splits)

lemma parse_written:
  assumes "one_line_event e"
  shows "parse_event_line (event_text e @ [CHR 0x0A]) = (if unread_event e then None else Some (read_event e))"
proof (cases "unread_event e")
  case True
  then show ?thesis
    using assms suspend_log_unreadable [of "le_timestamp e" "le_event e"]
    by (cases e) (auto simp: one_line_event_def unread_event_def parse_event_line_def event_text_def)
next
  case False
  then show ?thesis
    using assms read_event_line [of e "[CHR 0x0A]"]
    by (auto simp: one_line_event_def event_ok_def parse_event_line_def event_text_def line_end_def)
qed

lemma read_lines_written:
  assumes "list_all one_line_event es"
  shows "read_lines since (map (\<lambda>e. event_text e @ [CHR 0x0A]) es) acc hit =
    (rev (map read_event (filter (\<lambda>e. \<not> unread_event e \<and> \<not> too_old since e) es)) @ acc,
     hit \<or> list_ex (\<lambda>e. \<not> unread_event e \<and> too_old since e) es)"
  using assms by (induction es arbitrary: acc hit) (simp_all add: parse_written)

definition kept :: "nat option \<Rightarrow> CkLogEvent list \<Rightarrow> CkLogEvent list" where
  "kept since es = map read_event (filter (\<lambda>e. \<not> unread_event e \<and> \<not> too_old since e) es)"

lemma process_log_file_written:
  assumes "file_contents E f = Some (file_text es)" "list_all one_line_event es"
  shows "process_log_file E since f acc = (\<not> list_ex (\<lambda>e. \<not> unread_event e \<and> too_old since e) es, acc @ rev (kept since es))"
proof -
  have "gets_all (file_text es) = map (\<lambda>e. event_text e @ [CHR 0x0A]) es"
    using gets_all_lines [of "map event_text es"] assms(2)
    by (auto simp: file_text_def list_all_iff one_line_event_def comp_def)
  then show ?thesis
    using assms read_lines_written [OF assms(2), of since "[]" False]
    by (simp add: process_log_file_def file_contents_def process_log_gzstream_def process_log_stream_def kept_def split: if_splits)
qed

text \<open>Events that are in order of time: an older event in a file means only older events in the files before it.\<close>

definition in_order :: "CkLogEvent list \<Rightarrow> bool" where
  "in_order es = sorted (map (\<lambda>e. fst (le_timestamp e)) es)"

lemma in_order_old:
  assumes "in_order (as @ bs)" "list_ex (\<lambda>e. \<not> unread_event e \<and> too_old since e) bs"
  shows "kept since as = []"
proof -
  obtain b where b: "b \<in> set bs" "too_old since b" using assms(2) by (auto simp: list_ex_iff)
  have "too_old since a" if "a \<in> set as" for a
    using assms(1) that b by (fastforce simp: in_order_def sorted_append too_old_def split: option.splits)
  then show ?thesis by (auto simp: kept_def filter_empty_conv)
qed

lemma process_files_written:
  assumes "list_all2 (\<lambda>f es. file_contents E f = Some (file_text es)) files logs"
    and "list_all (list_all one_line_event) logs" "since = None \<or> in_order (concat (rev logs))"
  shows "snd (process_files E since files acc) = acc @ rev (kept since (concat (rev logs)))"
  using assms
proof (induction files logs arbitrary: acc rule: list_all2_induct)
  case (Cons f files es logs)
  have ord: "since = None \<or> in_order (concat (rev logs))" "since = None \<or> in_order (concat (rev logs) @ es)"
    using Cons.prems(2) by (auto simp: in_order_def sorted_append)
  have old: "kept since (concat (rev logs)) = []" if "list_ex (\<lambda>e. \<not> unread_event e \<and> too_old since e) es"
    using ord(2) in_order_old [OF _ that] that by (auto simp: too_old_def list_ex_iff)
  have "process_log_file E since f acc = (\<not> list_ex (\<lambda>e. \<not> unread_event e \<and> too_old since e) es, acc @ rev (kept since es))"
    using process_log_file_written Cons.hyps(1) Cons.prems(1) by simp
  with Cons.IH [OF _ ord(1)] Cons.prems(1) old show ?case
    by (auto simp: Let_def kept_def split: prod.splits)
qed (simp add: kept_def)

lemma rotated_files_list:
  assumes "rotated_file E n = None" "\<forall>k. num \<le> k \<and> k < n \<longrightarrow> rotated_file E k \<noteq> None" "num \<le> n"
  shows "rotated_files E num files = Some (rev files @ map (\<lambda>k. the (rotated_file E k)) [num ..< n])"
  using assms(2,3)
proof (induction "n - num" arbitrary: num files)
  case 0
  then show ?case using assms(1) by (subst rotated_files.simps) simp
next
  case (Suc d)
  then have "rotated_file E num \<noteq> None" by auto
  then obtain f where f: "rotated_file E num = Some f" by blast
  have "rotated_files E (Suc num) (f # files) = Some (rev (f # files) @ map (\<lambda>k. the (rotated_file E k)) [Suc num ..< n])"
    using Suc by (intro Suc(1)) auto
  moreover have "[num ..< n] = num # [Suc num ..< n]" using Suc(2) by (simp add: upt_conv_Cons)
  ultimately show ?case using f by (subst rotated_files.simps) simp
qed

lemma log_file_list:
  assumes "holds_logs E logs"
  shows "\<exists>files. get_log_file_list E = Some files \<and> list_all2 (\<lambda>f es. file_contents E f = Some (file_text es)) files logs"
proof -
  let ?fs = "DEFAULT_LOG_FILENAME # map (\<lambda>k. the (rotated_file E k)) [1 ..< length logs]"
  have r: "rotated_file E k \<noteq> None \<and> file_contents E (the (rotated_file E k)) = Some (file_text (logs ! k))" if "1 \<le> k" "k < length logs" for k
    using assms that by (auto simp: holds_logs_def list_all_iff split: option.splits)
  have n: "logs \<noteq> []" "rotated_file E (length logs) = None" using assms by (simp_all add: holds_logs_def)
  then have "1 \<le> length logs" by (cases logs) simp_all
  then have "get_log_file_list E = Some ?fs"
    unfolding get_log_file_list_def using rotated_files_list [OF n(2), of 1 "[DEFAULT_LOG_FILENAME]"] r by simp
  moreover have d: "file_contents E DEFAULT_LOG_FILENAME = Some (file_text (logs ! 0))"
    using assms by (simp add: holds_logs_def file_contents_def has_suffix_def DEFAULT_LOG_FILENAME_def)
  then have "file_contents E (?fs ! i) = Some (file_text (logs ! i))" if "i < length logs" for i
  proof (cases i)
    case (Suc j)
    with that have "[1 ..< length logs] ! j = i" using nth_upt [of 1 j "length logs"] by simp
    with that Suc r [of i] show ?thesis by (simp del: upt_Suc)
  qed (use d in simp)
  then have "list_all2 (\<lambda>f es. file_contents E f = Some (file_text es)) ?fs logs"
    using \<open>1 \<le> length logs\<close> by (auto simp: list_all2_conv_all_nth)
  ultimately show ?thesis by blast
qed

text \<open>Counting.\<close>

definition login_of :: "int \<Rightarrow> cstring \<Rightarrow> cstring \<Rightarrow> nat \<Rightarrow> CkLogEvent \<Rightarrow> bool" where
  "login_of uid seat session_type u e =
     (case le_event e of Ev_Seat_Session_Added x \<Rightarrow> selected uid seat session_type x \<and> le_session_unix_user x = u | _ \<Rightarrow> False)"

definition count_of :: "(nat, nat) ghash \<Rightarrow> nat \<Rightarrow> nat" where
  "count_of t u = (case g_hash_table_lookup t u of None \<Rightarrow> 0 | Some c \<Rightarrow> c)"

lemma count_logins_spec:
  assumes "ht_wf t" "\<forall>u. count_of t u + length es < 2 ^ 32" "\<forall>u. g_hash_table_lookup t u \<noteq> Some 0"
  shows "ht_wf (count_logins uid seat session_type es t) \<and>
    (\<forall>u. count_of (count_logins uid seat session_type es t) u = count_of t u + length (filter (login_of uid seat session_type u) es)) \<and>
    (\<forall>u. g_hash_table_lookup (count_logins uid seat session_type es t) u \<noteq> Some 0)"
  using assms
proof (induction es arbitrary: t)
  case (Cons e es)
  show ?case
  proof (cases "\<exists>x. le_event e = Ev_Seat_Session_Added x \<and> selected uid seat session_type x")
    case True
    then obtain x where x: "le_event e = Ev_Seat_Session_Added x" "selected uid seat session_type x" by blast
    let ?u = "le_session_unix_user x"
    let ?t = "g_hash_table_insert t ?u (count_of t ?u + 1)"
    have c: "count_of t ?u + 1 < 2 ^ 32" using Cons.prems(2) [rule_format, of ?u] by simp
    have step: "count_logins uid seat session_type (e # es) t = count_logins uid seat session_type es ?t"
      using x c by (auto simp: count_of_def split: option.splits)
    have cnt: "count_of ?t u = count_of t u + (if u = ?u then 1 else 0)" for u by (simp add: count_of_def)
    have "count_of ?t u + length es < 2 ^ 32" for u using Cons.prems(2) [rule_format, of u] unfolding cnt by (cases "u = ?u") simp_all
    moreover have "ht_wf ?t" using Cons.prems(1) by simp
    moreover have "\<forall>u. g_hash_table_lookup ?t u \<noteq> Some 0" using Cons.prems(3) by simp
    ultimately have "ht_wf (count_logins uid seat session_type es ?t) \<and>
        (\<forall>u. count_of (count_logins uid seat session_type es ?t) u = count_of ?t u + length (filter (login_of uid seat session_type u) es)) \<and>
        (\<forall>u. g_hash_table_lookup (count_logins uid seat session_type es ?t) u \<noteq> Some 0)"
      by (intro Cons.IH) simp_all
    moreover have "login_of uid seat session_type u e \<longleftrightarrow> u = ?u" for u using x by (auto simp: login_of_def)
    ultimately show ?thesis unfolding step cnt by simp
  next
    case False
    then have "count_logins uid seat session_type (e # es) t = count_logins uid seat session_type es t"
      and "\<not> login_of uid seat session_type u e" for u
      by (auto simp: login_of_def split: log_data.splits)
    moreover have "count_of t u + length es < 2 ^ 32" for u using Cons.prems(2) [rule_format, of u] by simp
    ultimately show ?thesis using Cons.IH [of t] Cons.prems by simp
  qed
qed simp

lemma as_gint_inj: "u < 2 ^ 32 \<Longrightarrow> v < 2 ^ 32 \<Longrightarrow> as_gint u = as_gint v \<Longrightarrow> u = v"
  by (auto simp: as_gint_def Let_def split: if_splits)

lemma listify_counts_eq: "listify_counts t = rev (map (\<lambda>(k, v). \<lparr>cd_uid = as_gint k, cd_count = v\<rparr>) t)"
proof -
  have "fold (\<lambda>(k, v) l. \<lparr>cd_uid = as_gint k, cd_count = v\<rparr> # l) t acc = rev (map (\<lambda>(k, v). \<lparr>cd_uid = as_gint k, cd_count = v\<rparr>) t) @ acc" for acc
    by (induction t arbitrary: acc) auto
  then show ?thesis by (simp add: listify_counts_def)
qed

text \<open>The order and the elements of a sorted list.\<close>

lemma sorted_g_list_sort:
  assumes "\<And>a b. le a b \<or> le b a" "\<And>a b c. le a b \<Longrightarrow> le b c \<Longrightarrow> le a c"
  shows "sorted_wrt le (g_list_sort le xs)"
proof -
  have "sorted_wrt le (insort_by le x ys)" if "sorted_wrt le ys" for x ys
    using that
  proof (induction ys)
    case (Cons y ys)
    then show ?case using assms(1) [of x y] by (auto intro: assms(2))
  qed simp
  then show ?thesis by (induction xs) (simp_all add: g_list_sort_def)
qed

lemma distinct_map_sort: "distinct (map f (g_list_sort le xs)) = distinct (map f xs)"
proof -
  have "distinct (map f (insort_by le x ys)) = distinct (map f (x # ys))" for x ys
    by (induction ys) auto
  moreover have "f ` set (foldr (insort_by le) xs []) = f ` set xs" for xs
    using set_g_list_sort [of le xs] by (simp add: g_list_sort_def)
  ultimately show ?thesis by (induction xs) (simp_all add: g_list_sort_def)
qed

section \<open>Properties\<close>


definition stop_at :: "nat \<Rightarrow> CkLogEvent" where
  "stop_at t = \<lparr>le_timestamp = (t, 0), le_event = Ev_System_Stop\<rparr>"

definition sample_history :: history_env where
  "sample_history = \<lparr>hv_access = (\<lambda>f. f = log_filename 1),
     hv_file = (\<lambda>f. if f = DEFAULT_LOG_FILENAME then Some (file_text [stop_at 20]) else Some (file_text [stop_at 7, stop_at 8])),
     hv_gzfile = (\<lambda>f. None), hv_pwuid = (\<lambda>u. Some ''user''), hv_pwnam = (\<lambda>n. Some 7), hv_ctime = (\<lambda>t. dec_int t), hv_now = 30, hv_version = ''ck-history''\<rparr>"


text \<open>
  The listing of frequent users is exact. It is ordered by falling counts, names no user
  twice, and holds a user with a count exactly if that many added sessions of the user pass the
  filters, at least one.
\<close>

theorem frequent_report_is_exact:
  assumes "length es < 2 ^ 32"
    and "list_all (\<lambda>e. case le_event e of Ev_Seat_Session_Added x \<Rightarrow> le_session_unix_user x < 2 ^ 32 | _ \<Rightarrow> True) es"
  shows "sorted_wrt (\<lambda>a b. cd_count b \<le> cd_count a) (user_counts uid seat session_type es) \<and>
    distinct (map cd_uid (user_counts uid seat session_type es)) \<and>
    (\<forall>u n. u < 2 ^ 32 \<longrightarrow> (\<lparr>cd_uid = as_gint u, cd_count = n\<rparr> \<in> set (user_counts uid seat session_type es) \<longleftrightarrow>
      n = length (filter (login_of uid seat session_type u) es) \<and> n > 0))"
proof -
  let ?t = "count_logins uid seat session_type es []" and ?le = "\<lambda>a b. counts_compare a b \<le> 0"
  have t: "ht_wf ?t" "\<And>u. count_of ?t u = length (filter (login_of uid seat session_type u) es)"
      "\<And>u. g_hash_table_lookup ?t u \<noteq> Some 0"
    using count_logins_spec [of "[]" es uid seat session_type] assms(1) by (simp_all add: count_of_def)
  have le: "?le a b \<longleftrightarrow> cd_count b \<le> cd_count a" for a b by (simp add: counts_compare_def)
  have keys: "k < 2 ^ 32" if "(k, v) \<in> set ?t" for k v
  proof -
    have "g_hash_table_lookup ?t k = Some v" using that t(1) by (simp add: ht_lookup_iff)
    then have "length (filter (login_of uid seat session_type k) es) \<noteq> 0" using t(2,3) [of k] by (auto simp: count_of_def)
    then obtain e where "e \<in> set es" "login_of uid seat session_type k e" by (auto simp: filter_empty_conv)
    with assms(2) show ?thesis by (auto simp: login_of_def list_all_iff split: log_data.splits)
  qed
  have "sorted_wrt ?le (user_counts uid seat session_type es)"
    unfolding user_counts_def by (rule sorted_g_list_sort) (auto simp: counts_compare_def split: if_splits)
  then have "sorted_wrt (\<lambda>a b. cd_count b \<le> cd_count a) (user_counts uid seat session_type es)" by (simp only: le)
  moreover have "distinct (map (as_gint \<circ> fst) ?t)"
  proof -
    have "inj_on as_gint (set (map fst ?t))" using keys by (intro inj_onI) (auto intro: as_gint_inj)
    with t(1) show ?thesis unfolding ht_wf_def by (metis distinct_map map_map)
  qed
  then have "distinct (map cd_uid (user_counts uid seat session_type es))"
    unfolding user_counts_def distinct_map_sort listify_counts_eq by (simp add: rev_map comp_def case_prod_beta flip: rev_map)
  moreover have "\<lparr>cd_uid = as_gint u, cd_count = n\<rparr> \<in> set (user_counts uid seat session_type es) \<longleftrightarrow>
      n = length (filter (login_of uid seat session_type u) es) \<and> n > 0" if "u < 2 ^ 32" for u n
  proof -
    have "\<lparr>cd_uid = as_gint u, cd_count = n\<rparr> \<in> set (user_counts uid seat session_type es) \<longleftrightarrow> (u, n) \<in> set ?t"
    proof
      assume "\<lparr>cd_uid = as_gint u, cd_count = n\<rparr> \<in> set (user_counts uid seat session_type es)"
      then obtain k where "(k, n) \<in> set ?t" "as_gint u = as_gint k" by (auto simp: user_counts_def listify_counts_eq)
      with as_gint_inj [OF that keys [of k n]] show "(u, n) \<in> set ?t" by simp
    next
      assume "(u, n) \<in> set ?t"
      then show "\<lparr>cd_uid = as_gint u, cd_count = n\<rparr> \<in> set (user_counts uid seat session_type es)"
        by (force simp: user_counts_def listify_counts_eq)
    qed
    also have "\<dots> \<longleftrightarrow> g_hash_table_lookup ?t u = Some n" using t(1) by (simp add: ht_lookup_iff)
    also have "\<dots> \<longleftrightarrow> n = count_of ?t u \<and> n > 0" using t(3) [of u] by (auto simp: count_of_def split: option.splits)
    finally show ?thesis by (simp only: t(2))
  qed
  ultimately show ?thesis by blast
qed

definition login_event :: "nat \<Rightarrow> nat \<Rightarrow> CkLogEvent" where
  "login_event t uid = \<lparr>le_timestamp = (t, 0), le_event = Ev_Seat_Session_Added
     \<lparr>le_seat_id = Some ''seat0'', le_session_id = Some ''Session1'', le_session_type = None,
      le_session_x11_display = None, le_session_x11_display_device = None,
      le_session_display_device = None, le_session_remote_host_name = None,
      le_session_is_local = True, le_session_unix_user = uid, le_session_creation_time = None\<rparr>\<rparr>"

theorem frequent_report_is_exact_witness:
  "\<lparr>cd_uid = as_gint 7, cd_count = 2\<rparr> \<in> set (user_counts (- 1) None None [login_event 1 7, login_event 2 8, login_event 3 7])"
  using frequent_report_is_exact [of "[login_event 1 7, login_event 2 8, login_event 3 7]" "- 1" None None]
  by (simp add: login_event_def login_of_def selected_def)

end
