(* ===== verification/CK_RuntimeDir.thy ===== *)
theory CK_RuntimeDir
  imports CK_SessionLeader
begin

text \<open>
  The parts of src/src/ck-sysdeps-unix.c (with the tmpfs calls of src/src/ck-sysdeps-linux.c):
  finding and switching consoles, the credentials of a socket, and the runtime directory of a
  user, with the program that removes it, src/tools/ck-remove-directory.c.

  Results of system calls are inputs; a list of results is consumed by a loop that retries, and
  \<open>None\<close> is a loop that does not end or a failed assertion. A runtime directory is its owner, its
  files and the stack of file systems mounted on it, each with owner and files.
\<close>

section \<open>Consoles\<close>

record console_fd =
  cf_is_tty :: bool
  cf_has_vt :: bool

text \<open>The Linux variant: \<open>VT_GETSTATE\<close> works and the descriptor is a terminal.\<close>

definition ck_fd_is_a_console :: "console_fd \<Rightarrow> bool" where
  "ck_fd_is_a_console fd = (cf_is_tty fd \<and> cf_has_vt fd)"

datatype 'fd open_result = Opened 'fd | Open_EACCES | Open_EIO | Open_Other

text \<open>One round opens for reading and, if that is denied, for writing; EIO repeats the round.\<close>

fun ck_open_a_console :: "(console_fd open_result \<times> console_fd open_result) list \<Rightarrow> console_fd option option" where
  "ck_open_a_console [] = None"
| "ck_open_a_console ((rd, wr) # rs) =
     (case (if rd = Open_EACCES then wr else rd) of
        Open_EIO \<Rightarrow> ck_open_a_console rs
      | Opened fd \<Rightarrow> Some (if ck_fd_is_a_console fd then Some fd else None)
      | _ \<Rightarrow> Some None)"

text \<open>The Linux candidates in order, then the three standard descriptors.\<close>

definition console_names :: "string list" where
  "console_names = [''/dev/tty'', ''/dev/tty'', ''/dev/tty0'', ''/dev/console'', ''/dev/console'']"

datatype console_found = Console_Opened string console_fd | Console_Std nat | Console_None

fun first_console :: "(string \<Rightarrow> console_fd option option) \<Rightarrow> string list \<Rightarrow> console_found option option" where
  "first_console try [] = Some None"
| "first_console try (n # ns) =
     (case try n of
        None \<Rightarrow> None
      | Some (Some fd) \<Rightarrow> Some (Some (Console_Opened n fd))
      | Some None \<Rightarrow> first_console try ns)"

text \<open>When nothing is a console the loop variable has the value 3.\<close>

definition ck_get_a_console_fd :: "(string \<Rightarrow> console_fd option option) \<Rightarrow> (nat \<Rightarrow> console_fd) \<Rightarrow> console_found option" where
  "ck_get_a_console_fd try std =
     (case first_console try console_names of
        None \<Rightarrow> None
      | Some (Some c) \<Rightarrow> Some c
      | Some None \<Rightarrow>
          Some (case List.find (\<lambda>fd. ck_fd_is_a_console (std fd)) [0, 1, 2] of
                  Some fd \<Rightarrow> Console_Std fd
                | None \<Rightarrow> Console_Std 3))"

datatype ioctl_result = Ioctl_Ok | Ioctl_EINTR | Ioctl_Fails

fun ck_wait_for_active_console_num :: "ioctl_result list \<Rightarrow> bool option" where
  "ck_wait_for_active_console_num [] = None"
| "ck_wait_for_active_console_num (Ioctl_EINTR # rs) = ck_wait_for_active_console_num rs"
| "ck_wait_for_active_console_num (Ioctl_Ok # rs) = Some True"
| "ck_wait_for_active_console_num (Ioctl_Fails # rs) = Some False"

definition ck_activate_console_num :: "ioctl_result \<Rightarrow> bool" where
  "ck_activate_console_num r = (r = Ioctl_Ok)"

text \<open>Both descriptors are checked with assertions before.\<close>

definition ck_get_active_console_num :: "nat option \<Rightarrow> bool \<times> nat" where
  "ck_get_active_console_num v_active = (case v_active of None \<Rightarrow> (False, 0) | Some n \<Rightarrow> (True, n))"

text \<open>\<open>SO_PEERCRED\<close>: the answer, and whether it has the expected length.\<close>

definition ck_get_socket_peer_credentials :: "((int \<times> int) \<times> bool) option \<Rightarrow> bool \<times> int \<times> int" where
  "ck_get_socket_peer_credentials r =
     (case r of Some ((pid, uid), True) \<Rightarrow> (True, pid, uid) | _ \<Rightarrow> (False, - 1, 2 ^ 32 - 1))"

definition ck_is_root_user :: "nat option \<Rightarrow> nat \<Rightarrow> bool" where
  "ck_is_root_user resuid uid = ((case resuid of Some ruid \<Rightarrow> ruid | None \<Rightarrow> uid) = 0)"

section \<open>Runtime directories\<close>

record user_dir =
  ud_owner :: nat
  ud_files :: "string list"
  ud_mounts :: "(nat \<times> string list) list"

record rundir_env =
  rv_pwuid :: "nat \<Rightarrow> nat option"
  rv_mkdir_base :: bool
  rv_chown_base :: bool
  rv_mkdir :: bool
  rv_chown :: bool
  rv_mount :: bool
  rv_umount :: bool
  rv_spawn :: bool
  rv_setegid :: bool
  rv_seteuid :: bool
  rv_unlink :: "string \<Rightarrow> bool"

type_synonym rundirs = "string \<Rightarrow> user_dir option"

definition RUNDIR :: string where
  "RUNDIR = ''/var/run''"

definition get_rundir :: "nat \<Rightarrow> string" where
  "get_rundir uid = RUNDIR @ ''/user'' @ ''/'' @ dec_int (as_gint uid)"

definition create_rundir_base :: "rundir_env \<Rightarrow> bool" where
  "create_rundir_base E = (rv_mkdir_base E \<and> rv_chown_base E)"

text \<open>What a process sees in a directory: the topmost file system.\<close>

definition visible :: "user_dir \<Rightarrow> nat \<times> string list" where
  "visible d = (case ud_mounts d of [] \<Rightarrow> (ud_owner d, ud_files d) | m # _ \<Rightarrow> m)"

definition set_visible_files :: "string list \<Rightarrow> user_dir \<Rightarrow> user_dir" where
  "set_visible_files fs d =
     (case ud_mounts d of [] \<Rightarrow> d\<lparr>ud_files := fs\<rparr> | (o', _) # ms \<Rightarrow> d\<lparr>ud_mounts := (o', fs) # ms\<rparr>)"

text \<open>The removing program: a failed removal of a file or of the directory aborts it.\<close>

definition become_user :: "rundir_env \<Rightarrow> nat \<Rightarrow> bool" where
  "become_user E uid = (rv_pwuid E uid \<noteq> None \<and> rv_setegid E \<and> rv_seteuid E)"

definition unlink_cb :: "rundir_env \<Rightarrow> string \<Rightarrow> bool" where
  "unlink_cb E f = rv_unlink E f"

definition remove_dest_dir :: "rundir_env \<Rightarrow> string \<Rightarrow> rundirs \<Rightarrow> bool \<times> rundirs" where
  "remove_dest_dir E dest dirs =
     (case dirs dest of
        None \<Rightarrow> (False, dirs)
      | Some d \<Rightarrow>
          let left = dropWhile (unlink_cb E) (snd (visible d)); d = set_visible_files left d
          in if left \<noteq> [] then (False, dirs(dest \<mapsto> d))
             else if ud_mounts d \<noteq> [] then (False, dirs(dest \<mapsto> d))
             else (True, dirs(dest := None)))"

definition in_rundir :: "string \<Rightarrow> bool" where
  "in_rundir dest = (take (length (RUNDIR @ ''/user/'')) dest = RUNDIR @ ''/user/'')"

definition ck_remove_directory :: "rundir_env \<Rightarrow> nat \<Rightarrow> int \<Rightarrow> string \<Rightarrow> rundirs \<Rightarrow> nat \<times> rundirs" where
  "ck_remove_directory E ruid user_id dest dirs =
     (if ruid \<noteq> 0 then (1, dirs)
      else if \<not> in_rundir dest then (1, dirs)
      else if \<not> become_user E (nat (user_id mod 2 ^ 32)) then (1, dirs)
      else let (ok, dirs) = remove_dest_dir E dest dirs in (if ok then 0 else 1, dirs))"

text \<open>The daemon runs it as root and looks only at whether it could be started.\<close>

definition remove_rundir :: "rundir_env \<Rightarrow> nat \<Rightarrow> string \<Rightarrow> rundirs \<Rightarrow> bool \<times> rundirs" where
  "remove_rundir E uid dest dirs =
     (if uid < 1 then (False, dirs)
      else if \<not> rv_spawn E then (False, dirs)
      else (True, snd (ck_remove_directory E 0 (as_gint uid) dest dirs)))"

definition ck_make_tmpfs :: "rundir_env \<Rightarrow> nat \<Rightarrow> nat \<Rightarrow> string \<Rightarrow> rundirs \<Rightarrow> bool \<times> rundirs" where
  "ck_make_tmpfs E uid gid dest dirs =
     (if rv_mount E
      then (True, dirs(dest := map_option (\<lambda>d. d\<lparr>ud_mounts := (uid, []) # ud_mounts d\<rparr>) (dirs dest)))
      else (False, dirs))"

definition ck_remove_tmpfs :: "rundir_env \<Rightarrow> nat \<Rightarrow> string \<Rightarrow> rundirs \<Rightarrow> bool \<times> rundirs" where
  "ck_remove_tmpfs E uid dest dirs =
     (case dirs dest of
        Some d \<Rightarrow>
          if rv_umount E \<and> ud_mounts d \<noteq> [] then (True, dirs(dest \<mapsto> d\<lparr>ud_mounts := tl (ud_mounts d)\<rparr>)) else (False, dirs)
      | None \<Rightarrow> (False, dirs))"

text \<open>\<open>g_mkdir_with_parents\<close> succeeds on a directory that exists; \<open>chown\<close> acts on the topmost file system.\<close>

definition make_dir :: "string \<Rightarrow> rundirs \<Rightarrow> rundirs" where
  "make_dir dest dirs =
     (if dirs dest = None then dirs(dest \<mapsto> \<lparr>ud_owner = 0, ud_files = [], ud_mounts = []\<rparr>) else dirs)"

definition chown_dir :: "string \<Rightarrow> nat \<Rightarrow> rundirs \<Rightarrow> rundirs" where
  "chown_dir dest uid dirs =
     dirs(dest := map_option (\<lambda>d. case ud_mounts d of [] \<Rightarrow> d\<lparr>ud_owner := uid\<rparr> | (_, fs) # ms \<Rightarrow> d\<lparr>ud_mounts := (uid, fs) # ms\<rparr>) (dirs dest))"

definition ck_generate_runtime_dir_for_user :: "rundir_env \<Rightarrow> nat \<Rightarrow> rundirs \<Rightarrow> cstring \<times> rundirs" where
  "ck_generate_runtime_dir_for_user E uid dirs =
     (case rv_pwuid E uid of
        None \<Rightarrow> (None, dirs)
      | Some gid \<Rightarrow>
          if \<not> create_rundir_base E then (None, dirs)
          else
            let dest = get_rundir uid;
                dirs = (if dirs dest \<noteq> None then snd (remove_rundir E uid dest dirs) else dirs)
            in if \<not> rv_mkdir E then (None, dirs)
               else
                 let dirs = make_dir dest dirs in
                 if \<not> rv_chown E then (None, dirs)
                 else let dirs = chown_dir dest uid dirs in (Some dest, snd (ck_make_tmpfs E uid gid dest dirs)))"

definition ck_remove_runtime_dir_for_user :: "rundir_env \<Rightarrow> nat \<Rightarrow> rundirs \<Rightarrow> bool \<times> rundirs" where
  "ck_remove_runtime_dir_for_user E uid dirs =
     (let dest = get_rundir uid;
          dirs = snd (ck_remove_tmpfs E uid dest dirs);
          dirs = snd (remove_rundir E uid dest dirs)
      in (True, dirs))"

section \<open>Lemmas\<close>

lemma rundir_prefix [simp]: "in_rundir (get_rundir uid)"
  by (simp add: in_rundir_def get_rundir_def RUNDIR_def)

lemma visible_set [simp]: "snd (visible (set_visible_files fs d)) = fs" "fst (visible (set_visible_files fs d)) = fst (visible d)"
  by (auto simp: visible_def set_visible_files_def split: list.splits prod.splits)

lemma mounts_set [simp]: "ud_mounts (set_visible_files fs d) = [] \<longleftrightarrow> ud_mounts d = []"
  by (auto simp: set_visible_files_def split: list.splits)

text \<open>The environment in which removing works.\<close>

definition removal_works :: "rundir_env \<Rightarrow> nat \<Rightarrow> rundirs \<Rightarrow> bool" where
  "removal_works E uid dirs =
     (uid \<ge> 1 \<and> uid < 2 ^ 32 \<and> rv_spawn E \<and> rv_setegid E \<and> rv_seteuid E \<and> rv_pwuid E uid \<noteq> None \<and>
      (case dirs (get_rundir uid) of None \<Rightarrow> True | Some d \<Rightarrow> list_all (rv_unlink E) (snd (visible d))))"

lemma as_gint_mod: "uid < 2 ^ 32 \<Longrightarrow> nat (as_gint uid mod 2 ^ 32) = uid"
  by (auto simp: as_gint_def Let_def)

lemma remove_rundir_other: "f \<noteq> get_rundir uid \<Longrightarrow> snd (remove_rundir E uid (get_rundir uid) dirs) f = dirs f"
  by (auto simp: remove_rundir_def ck_remove_directory_def remove_dest_dir_def Let_def split: option.splits prod.splits)

lemma remove_rundir_empties:
  assumes "removal_works E uid dirs"
  shows "case snd (remove_rundir E uid (get_rundir uid) dirs) (get_rundir uid) of
      None \<Rightarrow> True
    | Some d \<Rightarrow> snd (visible d) = [] \<and> (\<exists>d0. dirs (get_rundir uid) = Some d0 \<and> ud_mounts d0 \<noteq> [])"
proof -
  have b: "become_user E (nat (as_gint uid mod 2 ^ 32))"
    using assms as_gint_mod [of uid] by (simp add: removal_works_def become_user_def)
  show ?thesis
  proof (cases "dirs (get_rundir uid)")
    case (Some d)
    then have "dropWhile (unlink_cb E) (snd (visible d)) = []"
      using assms by (simp add: removal_works_def unlink_cb_def list_all_iff)
    with Some b assms show ?thesis
      by (simp add: remove_rundir_def ck_remove_directory_def remove_dest_dir_def removal_works_def Let_def)
  qed (use b assms in \<open>simp add: remove_rundir_def ck_remove_directory_def remove_dest_dir_def removal_works_def\<close>)
qed

lemma visible_chown:
  assumes "chown_dir dest uid dirs dest = Some d"
  shows "fst (visible d) = uid"
proof -
  obtain z where z: "dirs dest = Some z" using assms by (cases "dirs dest") (auto simp: chown_dir_def)
  with assms show ?thesis
    by (cases "ud_mounts z") (auto simp: chown_dir_def visible_def split: prod.splits)
qed

section \<open>Properties\<close>


definition sample_rundir_env :: rundir_env where
  "sample_rundir_env = \<lparr>rv_pwuid = (\<lambda>u. Some 100), rv_mkdir_base = True, rv_chown_base = True, rv_mkdir = True, rv_chown = True,
     rv_mount = True, rv_umount = True, rv_spawn = True, rv_setegid = True, rv_seteuid = True, rv_unlink = (\<lambda>f. True)\<rparr>"

definition old_dir :: user_dir where
  "old_dir = \<lparr>ud_owner = 1000, ud_files = [''bus''], ud_mounts = []\<rparr>"


text \<open>
  Creating a runtime directory and removing it when the last session of the user is gone
  leaves no trace, whatever files the user made there meanwhile and whether or not a tmpfs was
  mounted.
\<close>

theorem runtime_dir_roundtrip:
  assumes "ck_generate_runtime_dir_for_user E uid dirs = (Some dest, dirs')" "dirs dest = None"
    and "dirs'' = dirs'(dest := map_option (set_visible_files fs) (dirs' dest))"
    and "removal_works E uid dirs''" "rv_mount E \<longrightarrow> rv_umount E"
  shows "ck_remove_runtime_dir_for_user E uid dirs'' = (True, dirs)"
proof -
  let ?p = "get_rundir uid"
  have p: "dest = ?p"
    using assms(1) by (auto simp: ck_generate_runtime_dir_for_user_def Let_def split: option.splits if_splits)
  have d': "dirs' = dirs(?p \<mapsto> \<lparr>ud_owner = uid, ud_files = [], ud_mounts = (if rv_mount E then [(uid, [])] else [])\<rparr>)"
    using assms(1,2) unfolding p
    by (auto simp: ck_generate_runtime_dir_for_user_def Let_def make_dir_def chown_dir_def ck_make_tmpfs_def split: option.splits if_splits)
  let ?e = "\<lparr>ud_owner = uid, ud_files = (if rv_mount E then [] else fs), ud_mounts = []\<rparr>"
  have "snd (ck_remove_tmpfs E uid ?p dirs'') = dirs(?p \<mapsto> ?e)"
    using assms(5) by (simp add: assms(3) p d' ck_remove_tmpfs_def set_visible_files_def)
  moreover have w: "removal_works E uid (dirs(?p \<mapsto> ?e))"
    using assms(4) by (auto simp: assms(3) p d' removal_works_def visible_def set_visible_files_def)
  have "snd (remove_rundir E uid ?p (dirs(?p \<mapsto> ?e))) = dirs"
  proof
    fix f
    show "snd (remove_rundir E uid ?p (dirs(?p \<mapsto> ?e))) f = dirs f"
      using remove_rundir_empties [OF w] remove_rundir_other [of f uid E "dirs(?p \<mapsto> ?e)"] assms(2) p
      by (cases "f = ?p") (auto split: option.splits)
  qed
  ultimately show ?thesis by (simp add: ck_remove_runtime_dir_for_user_def Let_def)
qed

theorem runtime_dir_roundtrip_witness:
  "\<exists>dirs'. ck_generate_runtime_dir_for_user sample_rundir_env 1000 (\<lambda>f. None) = (Some (get_rundir 1000), dirs') \<and>
    ck_remove_runtime_dir_for_user sample_rundir_env 1000
      (dirs'(get_rundir 1000 := map_option (set_visible_files [''bus'']) (dirs' (get_rundir 1000)))) = (True, (\<lambda>f. None))"
proof -
  obtain dirs' where g: "ck_generate_runtime_dir_for_user sample_rundir_env 1000 (\<lambda>f. None) = (Some (get_rundir 1000), dirs')"
    by (simp add: ck_generate_runtime_dir_for_user_def create_rundir_base_def sample_rundir_env_def Let_def)
  have "removal_works sample_rundir_env 1000 (dirs'(get_rundir 1000 := map_option (set_visible_files [''bus'']) (dirs' (get_rundir 1000))))"
    by (simp add: removal_works_def sample_rundir_env_def list_all_iff split: option.splits)
  from runtime_dir_roundtrip [OF g _ refl this] g show ?thesis by (simp add: sample_rundir_env_def)
qed

text \<open>
  Root's runtime directory is created like any other but never removed, so without a tmpfs a
  session of root starts with the files of the one before.
\<close>

theorem root_runtime_dir_is_not_cleaned:
  assumes "dirs (get_rundir 0) = Some d" "ud_mounts d = []" "\<not> rv_mount E"
    and "ck_generate_runtime_dir_for_user E 0 dirs = (Some dest, dirs')"
  shows "\<exists>d'. dirs' (get_rundir 0) = Some d' \<and> snd (visible d') = ud_files d"
  using assms
  by (auto simp: ck_generate_runtime_dir_for_user_def Let_def remove_rundir_def make_dir_def chown_dir_def ck_make_tmpfs_def
      visible_def split: option.splits if_splits)

end
