(* ===== verification/CK_RunPrograms.thy ===== *)
theory CK_RunPrograms
  imports CK_Prelude
begin

text \<open>
  Running the programs of a directory: src/src/ck-run-programs.c.

  Each program has a reference-counted \<open>ChildData\<close> that the caller and the child watch share. The
  blocks ever allocated are a list, and a block with count 0 is freed: touching it is a fault. The
  sources of the main loop are the two flags of a block. While the caller waits it runs the main
  loop, whose events are an input; \<open>None\<close> is waiting for ever.
\<close>

section \<open>Types\<close>

record ChildData =
  cd_refcount :: nat
  cd_path :: string
  child_is_running :: bool
  cd_watch_id :: nat
  cd_timeout_id :: nat
  cd_pid :: nat

record kid = ChildData +
  kd_watch :: bool
  kd_timeout :: bool

datatype run_fault = Used_After_Free | Removed_Missing_Source

record run_world =
  kids :: "kid list"
  run_faults :: "run_fault list"
  run_started :: "(string list \<times> string list) list"
  run_killed :: "nat list"

definition TIMEOUT_SECONDS :: nat where
  "TIMEOUT_SECONDS = 15"

section \<open>Child data\<close>

definition upd_kid :: "nat \<Rightarrow> (kid \<Rightarrow> kid) \<Rightarrow> run_world \<Rightarrow> run_world" where
  "upd_kid i f w = w\<lparr>kids := (kids w)[i := f (kids w ! i)]\<rparr>"

definition run_fault_if :: "bool \<Rightarrow> run_fault \<Rightarrow> run_world \<Rightarrow> run_world" where
  "run_fault_if b f w = (if b then w\<lparr>run_faults := f # run_faults w\<rparr> else w)"

text \<open>Access to a block.\<close>

definition touch :: "nat \<Rightarrow> run_world \<Rightarrow> run_world" where
  "touch i w = run_fault_if (cd_refcount (kids w ! i) = 0) Used_After_Free w"

definition child_data_new :: kid where
  "child_data_new = \<lparr>cd_refcount = 1, cd_path = '''', child_is_running = False, cd_watch_id = 0, cd_timeout_id = 0, cd_pid = 0,
     kd_watch = False, kd_timeout = False\<rparr>"

definition child_data_ref :: "nat \<Rightarrow> run_world \<Rightarrow> run_world" where
  "child_data_ref i w = upd_kid i (\<lambda>c. c\<lparr>cd_refcount := cd_refcount c + 1\<rparr>) (touch i w)"

definition child_data_unref :: "nat \<Rightarrow> run_world \<Rightarrow> run_world" where
  "child_data_unref i w = upd_kid i (\<lambda>c. c\<lparr>cd_refcount := cd_refcount c - 1\<rparr>) (touch i w)"

text \<open>The watch is a source that fires once; removing a source that is gone is a fault.\<close>

definition child_watch :: "nat \<Rightarrow> run_world \<Rightarrow> run_world" where
  "child_watch i w =
     (let w = touch i (upd_kid i (\<lambda>c. c\<lparr>kd_watch := False\<rparr>) w);
          w = run_fault_if (\<not> kd_timeout (kids w ! i)) Removed_Missing_Source w;
          w = upd_kid i (\<lambda>c. c\<lparr>kd_timeout := False, cd_timeout_id := 0, child_is_running := False\<rparr>) w
      in child_data_unref i w)"

definition child_timeout :: "nat \<Rightarrow> run_world \<Rightarrow> run_world" where
  "child_timeout i w =
     (let w = touch i w;
          w = w\<lparr>run_killed := cd_pid (kids w ! i) # run_killed w\<rparr>
      in upd_kid i (\<lambda>c. c\<lparr>child_is_running := False, kd_timeout := False\<rparr>) w)"

section \<open>The main loop\<close>

datatype loop_event = Child_Exits nat | Times_Out nat | Other_Source

definition dispatch :: "loop_event \<Rightarrow> run_world \<Rightarrow> run_world" where
  "dispatch e w =
     (case e of
        Child_Exits i \<Rightarrow> if i < length (kids w) \<and> kd_watch (kids w ! i) then child_watch i w else w
      | Times_Out i \<Rightarrow> if i < length (kids w) \<and> kd_timeout (kids w ! i) then child_timeout i w else w
      | Other_Source \<Rightarrow> w)"

fun wait_child :: "nat \<Rightarrow> loop_event list \<Rightarrow> run_world \<Rightarrow> run_world option" where
  "wait_child i [] w = (let w = touch i w in if child_is_running (kids w ! i) then None else Some w)"
| "wait_child i (e # es) w =
     (let w = touch i w in if child_is_running (kids w ! i) then wait_child i es (dispatch e w) else Some w)"

section \<open>Running\<close>

text \<open>One program: the ids of its sources, its process or that it cannot be started, and the events while it is waited for.\<close>

record run_input =
  ri_spawn :: "nat option"
  ri_watch :: nat
  ri_timeout :: nat
  ri_events :: "loop_event list"

definition run_one :: "string \<Rightarrow> string \<Rightarrow> string list \<Rightarrow> string \<Rightarrow> run_input \<Rightarrow> run_world \<Rightarrow> run_world option" where
  "run_one dirpath action env name inp w =
     (let argv = [dirpath @ ''/'' @ name, action];
          i = length (kids w);
          w = w\<lparr>kids := kids w @ [child_data_new\<lparr>cd_path := dirpath @ ''/'' @ name\<rparr>]\<rparr>;
          w = child_data_ref i w
      in case ri_spawn inp of
        None \<Rightarrow> Some (child_data_unref i (child_data_unref i w))
      | Some pid \<Rightarrow>
          let w = upd_kid i (\<lambda>c. c\<lparr>cd_pid := pid, child_is_running := True, cd_watch_id := ri_watch inp, cd_timeout_id := ri_timeout inp,
                    kd_watch := True, kd_timeout := True\<rparr>) w;
              w = w\<lparr>run_started := run_started w @ [(argv, env)]\<rparr>
          in map_option (child_data_unref i) (wait_child i (ri_events inp) w))"

definition is_program :: "string \<Rightarrow> bool" where
  "is_program name = (length name \<ge> 3 \<and> drop (length name - 3) name = ''.ck'')"

fun run_names :: "string \<Rightarrow> string \<Rightarrow> string list \<Rightarrow> (string \<times> run_input) list \<Rightarrow> run_world \<Rightarrow> run_world option" where
  "run_names dirpath action env [] w = Some w"
| "run_names dirpath action env ((name, inp) # names) w =
     (if \<not> is_program name then run_names dirpath action env names w
      else case run_one dirpath action env name inp w of
        None \<Rightarrow> None
      | Some w \<Rightarrow> run_names dirpath action env names w)"

text \<open>The names of the directory, or \<open>None\<close> if it cannot be opened.\<close>

definition ck_run_programs ::
  "string list \<Rightarrow> string \<Rightarrow> string \<Rightarrow> string list \<Rightarrow> (string \<times> run_input) list option \<Rightarrow> run_world \<Rightarrow> run_world option" where
  "ck_run_programs environ dirpath action extra_env dir w =
     (case dir of
        None \<Rightarrow> Some w
      | Some names \<Rightarrow> run_names dirpath action (environ @ extra_env) names w)"

section \<open>Lemmas\<close>

text \<open>
  Each block counts its watch and, for the one that is being waited for, the caller; a timeout
  is pending only while the child is watched, and the awaited child is running only then.
\<close>

definition refs_ok :: "nat option \<Rightarrow> run_world \<Rightarrow> bool" where
  "refs_ok cur w =
     ((\<forall>i < length (kids w). cd_refcount (kids w ! i) = of_bool (kd_watch (kids w ! i)) + of_bool (cur = Some i) \<and>
        (kd_timeout (kids w ! i) \<longrightarrow> kd_watch (kids w ! i)) \<and> (child_is_running (kids w ! i) \<longrightarrow> kd_timeout (kids w ! i) \<and> cur = Some i)) \<and>
      Used_After_Free \<notin> set (run_faults w))"

lemma refs_okD:
  assumes "refs_ok cur w" "i < length (kids w)"
  shows "cd_refcount (kids w ! i) = of_bool (kd_watch (kids w ! i)) + of_bool (cur = Some i)"
    "kd_timeout (kids w ! i) \<Longrightarrow> kd_watch (kids w ! i)" "child_is_running (kids w ! i) \<Longrightarrow> kd_timeout (kids w ! i) \<and> cur = Some i"
    "Used_After_Free \<notin> set (run_faults w)"
  using assms by (auto simp: refs_ok_def)

lemma kid_simps [simp]:
  "kids (upd_kid i f w) = (kids w)[i := f (kids w ! i)]" "run_faults (upd_kid i f w) = run_faults w"
  "run_started (upd_kid i f w) = run_started w" "kids (run_fault_if b x w) = kids w"
  "run_started (run_fault_if b x w) = run_started w" "run_faults (run_fault_if b x w) = (if b then x # run_faults w else run_faults w)"
  by (simp_all add: upd_kid_def run_fault_if_def)

lemma touch_simps [simp]:
  "kids (touch i w) = kids w" "run_started (touch i w) = run_started w"
  "run_faults (touch i w) = (if cd_refcount (kids w ! i) = 0 then Used_After_Free # run_faults w else run_faults w)"
  by (simp_all add: touch_def)

text \<open>A block that stays counted after a change of one block.\<close>

lemma refs_ok_upd:
  assumes "refs_ok cur w" "i < length (kids w)" "kids w' = (kids w)[i := c]"
    and "cd_refcount c = of_bool (kd_watch c) + of_bool (cur' = Some i)" "kd_timeout c \<longrightarrow> kd_watch c" "child_is_running c \<longrightarrow> kd_timeout c \<and> cur' = Some i"
    and "\<forall>j. j \<noteq> i \<longrightarrow> (cur' = Some j) = (cur = Some j)" "Used_After_Free \<in> set (run_faults w') \<longrightarrow> Used_After_Free \<in> set (run_faults w)"
  shows "refs_ok cur' w'"
  using assms by (auto simp: refs_ok_def nth_list_update)

lemma child_watch_ok:
  assumes "refs_ok cur w" "i < length (kids w)" "kd_watch (kids w ! i)"
  shows "refs_ok cur (child_watch i w)" "length (kids (child_watch i w)) = length (kids w)"
    "run_started (child_watch i w) = run_started w" "\<not> child_is_running (kids (child_watch i w) ! i)"
  using assms refs_okD [OF assms(1,2)]
  by (auto intro!: refs_ok_upd [OF assms(1,2), where c = "(kids w ! i)\<lparr>kd_watch := False, kd_timeout := False, cd_timeout_id := 0,
      child_is_running := False, cd_refcount := cd_refcount (kids w ! i) - 1\<rparr>"]
      simp: child_watch_def child_data_unref_def Let_def split: if_splits)

lemma child_timeout_ok:
  assumes "refs_ok cur w" "i < length (kids w)" "kd_timeout (kids w ! i)"
  shows "refs_ok cur (child_timeout i w)" "length (kids (child_timeout i w)) = length (kids w)"
    "run_started (child_timeout i w) = run_started w" "\<not> child_is_running (kids (child_timeout i w) ! i)"
  using assms refs_okD [OF assms(1,2)]
  by (auto intro!: refs_ok_upd [OF assms(1,2), where c = "(kids w ! i)\<lparr>child_is_running := False, kd_timeout := False\<rparr>"]
      simp: child_timeout_def Let_def)

lemma dispatch_ok:
  assumes "refs_ok cur w"
  shows "refs_ok cur (dispatch e w)" "length (kids (dispatch e w)) = length (kids w)" "run_started (dispatch e w) = run_started w"
  using assms by (auto simp: dispatch_def child_watch_ok child_timeout_ok split: loop_event.splits)

text \<open>Waiting ends when the child exits or its time is over.\<close>

lemma touch_current:
  assumes "refs_ok (Some i) w" "i < length (kids w)"
  shows "touch i w = w"
  using refs_okD(1) [OF assms] by (simp add: touch_def run_fault_if_def)

lemma wait_child_ok:
  assumes "refs_ok (Some i) w" "i < length (kids w)" "Times_Out i \<in> set es \<or> Child_Exits i \<in> set es"
  shows "\<exists>w'. wait_child i es w = Some w' \<and> refs_ok (Some i) w' \<and> length (kids w') = length (kids w) \<and>
    run_started w' = run_started w \<and> \<not> child_is_running (kids w' ! i)"
  using assms
proof (induction es arbitrary: w)
  case (Cons e es)
  note t = touch_current [OF Cons.prems(1,2)]
  show ?case
  proof (cases "child_is_running (kids w ! i)")
    case run: True
    note d = dispatch_ok [OF Cons.prems(1), of e]
    show ?thesis
    proof (cases "Times_Out i \<in> set es \<or> Child_Exits i \<in> set es")
      case True
      with Cons.IH [OF d(1)] Cons.prems(2) d run t show ?thesis by auto
    next
      case False
      then have e: "e = Times_Out i \<or> e = Child_Exits i" using Cons.prems(3) by auto
      have live: "kd_timeout (kids w ! i)" "kd_watch (kids w ! i)" using refs_okD [OF Cons.prems(1,2)] run by auto
      have stop: "\<not> child_is_running (kids (dispatch e w) ! i)"
        using e live Cons.prems child_timeout_ok(4) child_watch_ok(4) by (auto simp: dispatch_def)
      have "wait_child i es v = Some v" if "refs_ok (Some i) v" "i < length (kids v)" "\<not> child_is_running (kids v ! i)" for v
        using that touch_current [OF that(1,2)] by (cases es) simp_all
      with d stop Cons.prems(2) run t show ?thesis by auto
    qed
  qed (use t Cons.prems in auto)
qed simp

lemma new_kid_ok:
  assumes "refs_ok None w" "c = child_data_new\<lparr>cd_path := p, cd_refcount := 2, kd_watch := True, kd_timeout := True, child_is_running := True,
      cd_pid := pid, cd_watch_id := a, cd_timeout_id := b\<rparr>"
    and "kids w' = kids w @ [c]" "run_faults w' = run_faults w"
  shows "refs_ok (Some (length (kids w))) w'"
  using assms by (auto simp: refs_ok_def nth_append less_Suc_eq)

lemma run_one_ok:
  assumes "refs_ok None w" "i = length (kids w)"
    and "ri_spawn inp \<noteq> None \<longrightarrow> Times_Out i \<in> set (ri_events inp) \<or> Child_Exits i \<in> set (ri_events inp)"
  shows "\<exists>w'. run_one dirpath action env name inp w = Some w' \<and> refs_ok None w' \<and> length (kids w') = Suc i \<and>
    run_started w' = run_started w @ (if ri_spawn inp = None then [] else [([dirpath @ ''/'' @ name, action], env)])"
proof (cases "ri_spawn inp")
  case None
  let ?c = "child_data_new\<lparr>cd_path := dirpath @ ''/'' @ name\<rparr>"
  have r: "cd_refcount ?c = 1" by (simp add: child_data_new_def)
  have "refs_ok None (w\<lparr>kids := kids w @ [?c\<lparr>cd_refcount := 0\<rparr>]\<rparr>)"
    using assms(1) by (auto simp: refs_ok_def nth_append less_Suc_eq child_data_new_def)
  moreover have "run_one dirpath action env name inp w = Some (w\<lparr>kids := kids w @ [?c\<lparr>cd_refcount := 0\<rparr>]\<rparr>)"
    using None r
    by (simp add: run_one_def Let_def child_data_ref_def child_data_unref_def touch_def run_fault_if_def upd_kid_def nth_append)
  ultimately show ?thesis using None assms(2) by simp
next
  case (Some pid)
  let ?c = "child_data_new\<lparr>cd_path := dirpath @ ''/'' @ name, cd_refcount := 2, kd_watch := True, kd_timeout := True, child_is_running := True,
      cd_pid := pid, cd_watch_id := ri_watch inp, cd_timeout_id := ri_timeout inp\<rparr>"
  let ?w = "w\<lparr>kids := kids w @ [?c], run_started := run_started w @ [([dirpath @ ''/'' @ name, action], env)]\<rparr>"
  have one: "run_one dirpath action env name inp w = map_option (child_data_unref i) (wait_child i (ri_events inp) ?w)"
    using Some assms(2)
    by (simp add: run_one_def Let_def child_data_ref_def touch_def run_fault_if_def upd_kid_def nth_append child_data_new_def numeral_2_eq_2)
  have "refs_ok (Some i) ?w" unfolding assms(2) by (rule new_kid_ok [OF assms(1) refl]) simp_all
  from wait_child_ok [OF this, of "ri_events inp"] assms(2,3) Some obtain w1 where
    w1: "wait_child i (ri_events inp) ?w = Some w1" "refs_ok (Some i) w1" "length (kids w1) = Suc i"
      "run_started w1 = run_started w @ [([dirpath @ ''/'' @ name, action], env)]" "\<not> child_is_running (kids w1 ! i)"
    by auto
  have "refs_ok None (child_data_unref i w1)"
    using refs_okD [OF w1(2), of i] w1(3,5)
    by (auto intro!: refs_ok_upd [OF w1(2), where i = i and c = "(kids w1 ! i)\<lparr>cd_refcount := cd_refcount (kids w1 ! i) - 1\<rparr>"]
        simp: child_data_unref_def)
  with one w1 Some show ?thesis by (simp add: child_data_unref_def)
qed

text \<open>Every started program exits or is out of time while it is waited for; \<open>n\<close> is its block.\<close>

fun events_end :: "nat \<Rightarrow> (string \<times> run_input) list \<Rightarrow> bool" where
  "events_end n [] = True"
| "events_end n ((name, inp) # names) =
     (if is_program name
      then (ri_spawn inp \<noteq> None \<longrightarrow> Times_Out n \<in> set (ri_events inp) \<or> Child_Exits n \<in> set (ri_events inp)) \<and> events_end (Suc n) names
      else events_end n names)"

definition programs :: "(string \<times> run_input) list \<Rightarrow> string list" where
  "programs names = map fst (filter (\<lambda>(name, inp). is_program name \<and> ri_spawn inp \<noteq> None) names)"

lemma run_names_ok:
  assumes "refs_ok None w" "events_end (length (kids w)) names"
  shows "\<exists>w'. run_names dirpath action env names w = Some w' \<and> refs_ok None w' \<and>
    run_started w' = run_started w @ map (\<lambda>name. ([dirpath @ ''/'' @ name, action], env)) (programs names)"
  using assms
proof (induction names arbitrary: w)
  case (Cons x names)
  obtain name inp where x: "x = (name, inp)" by (cases x)
  show ?case
  proof (cases "is_program name")
    case True
    from run_one_ok [OF Cons.prems(1) refl, of inp dirpath action env name] Cons.prems(2) True obtain w1 where
      "run_one dirpath action env name inp w = Some w1" "refs_ok None w1" "length (kids w1) = Suc (length (kids w))"
      "run_started w1 = run_started w @ (if ri_spawn inp = None then [] else [([dirpath @ ''/'' @ name, action], env)])"
      by (auto simp: x)
    with Cons.IH [of w1] Cons.prems(2) True show ?thesis by (auto simp: x programs_def)
  qed (use Cons in \<open>simp add: x programs_def\<close>)
qed (simp add: programs_def)

section \<open>Properties\<close>

text \<open>
  C35: The programs of a directory run one after the other, each once, in the order of the
  directory and with the daemon's environment followed by the extra one. As every program
  exits or runs out of its time, the call returns; no freed block is touched, and afterwards
  exactly the blocks are still allocated whose child, killed after its time, has not exited.
\<close>

theorem programs_run_in_order:
  assumes "refs_ok None w" "events_end (length (kids w)) names"
  shows "\<exists>w'. ck_run_programs environ dirpath action extra_env (Some names) w = Some w' \<and>
    run_started w' = run_started w @ map (\<lambda>name. ([dirpath @ ''/'' @ name, action], environ @ extra_env)) (programs names) \<and>
    Used_After_Free \<notin> set (run_faults w') \<and>
    (\<forall>c \<in> set (kids w'). \<not> child_is_running c \<and> cd_refcount c = (if kd_watch c then 1 else 0))"
proof -
  obtain w' where "run_names dirpath action (environ @ extra_env) names w = Some w'" and r: "refs_ok None w'"
    "run_started w' = run_started w @ map (\<lambda>name. ([dirpath @ ''/'' @ name, action], environ @ extra_env)) (programs names)"
    using run_names_ok [OF assms] by blast
  moreover from r(1) have "\<forall>c \<in> set (kids w'). \<not> child_is_running c \<and> cd_refcount c = (if kd_watch c then 1 else 0)"
    by (auto simp: in_set_conv_nth refs_ok_def)
  ultimately show ?thesis using r(1) by (auto simp: ck_run_programs_def refs_ok_def)
qed

definition no_kids :: run_world where
  "no_kids = \<lparr>kids = [], run_faults = [], run_started = [], run_killed = []\<rparr>"

definition sample_names :: "(string \<times> run_input) list" where
  "sample_names =
     [(''README'', \<lparr>ri_spawn = None, ri_watch = 0, ri_timeout = 0, ri_events = []\<rparr>),
      (''a.ck'', \<lparr>ri_spawn = Some 500, ri_watch = 1, ri_timeout = 2, ri_events = [Other_Source, Times_Out 0]\<rparr>),
      (''b.ck'', \<lparr>ri_spawn = Some 501, ri_watch = 3, ri_timeout = 4, ri_events = [Child_Exits 0, Child_Exits 1]\<rparr>)]"

theorem programs_run_in_order_witness:
  "\<exists>w'. ck_run_programs [] ''/d'' ''seat_added'' [''A=b''] (Some sample_names) no_kids = Some w' \<and>
    run_started w' = [([''/d/a.ck'', ''seat_added''], [''A=b'']), ([''/d/b.ck'', ''seat_added''], [''A=b''])]"
proof -
  have "refs_ok None no_kids" "events_end (length (kids no_kids)) sample_names"
    by (simp_all add: refs_ok_def no_kids_def sample_names_def is_program_def)
  from programs_run_in_order [OF this, of "[]" "''/d''" "''seat_added''" "[''A=b'']"] show ?thesis
    by (auto simp: no_kids_def sample_names_def programs_def is_program_def)
qed

text \<open>
  A program that is killed after its time makes its exit remove a source that is gone: the
  timeout returned FALSE, which removed it, but its id is still stored.
\<close>

theorem late_exit_removes_missing_source:
  assumes "i < length (kids w)" "kd_timeout (kids w ! i)" "kd_watch (kids w ! i)"
  shows "Removed_Missing_Source \<in> set (run_faults (dispatch (Child_Exits i) (dispatch (Times_Out i) w)))"
  using assms
  by (auto simp: dispatch_def child_watch_def child_timeout_def child_data_unref_def Let_def)

end
