(* ===== verification/CK_FileMonitor.thy ===== *)
theory CK_FileMonitor
  imports CK_Prelude
begin

unbundle bit_operations_syntax

text \<open>
  Watching files with inotify: src/src/ck-file-monitor-inotify.c.

  A watch is a block at an address, reached through the table of paths and the table of watch
  descriptors; a notification refers to its watch by address. \<open>None\<close> is a crash: a freed block or
  list cell is used. What the kernel answers and the events it delivers are inputs. A callback is
  a function on the monitor, since it may add and remove notifications. The path of a freed watch
  and the memory of events have no counterpart.
\<close>

section \<open>Types\<close>

datatype CkFileMonitorEvent =
    CK_FILE_MONITOR_EVENT_NONE
  | CK_FILE_MONITOR_EVENT_ACCESS
  | CK_FILE_MONITOR_EVENT_CREATE
  | CK_FILE_MONITOR_EVENT_DELETE
  | CK_FILE_MONITOR_EVENT_CHANGE

type_synonym mask = "32 word"

definition event_bit :: "CkFileMonitorEvent \<Rightarrow> mask" where
  "event_bit e =
     (case e of
        CK_FILE_MONITOR_EVENT_NONE \<Rightarrow> 1
      | CK_FILE_MONITOR_EVENT_ACCESS \<Rightarrow> 2
      | CK_FILE_MONITOR_EVENT_CREATE \<Rightarrow> 4
      | CK_FILE_MONITOR_EVENT_DELETE \<Rightarrow> 8
      | CK_FILE_MONITOR_EVENT_CHANGE \<Rightarrow> 16)"

record FileInotifyWatch =
  fw_wd :: int
  fw_path :: string
  fw_notifies :: "nat list"

record FileMonitorNotify =
  fn_mask :: mask
  fn_has_func :: bool
  fn_watch :: "nat option"

record FileMonitorEventInfo =
  ei_wd :: int
  ei_event :: CkFileMonitorEvent
  ei_path :: cstring

record CkFileMonitor =
  fm_serial :: nat
  initialized_inotify :: bool
  fm_io_watch :: bool
  wd_to_watch :: "(int, nat) ghash"
  path_to_watch :: "(string, nat) ghash"
  fm_notifies :: "(nat, FileMonitorNotify) ghash"
  fm_buflen :: nat
  events_idle_id :: bool
  remove_idle_id :: bool
  notify_events :: "FileMonitorEventInfo list"
  remove_events :: "int list"
  fm_watches :: "nat \<Rightarrow> FileInotifyWatch option"
  fm_next :: nat
  fm_rm_watch :: "int list"
  fm_calls :: "(nat \<times> CkFileMonitorEvent \<times> string) list"

definition IN_ACCESS :: mask where "IN_ACCESS = 0x1"
definition IN_MODIFY :: mask where "IN_MODIFY = 0x2"
definition IN_ATTRIB :: mask where "IN_ATTRIB = 0x4"
definition IN_CLOSE_WRITE :: mask where "IN_CLOSE_WRITE = 0x8"
definition IN_CLOSE_NOWRITE :: mask where "IN_CLOSE_NOWRITE = 0x10"
definition IN_OPEN :: mask where "IN_OPEN = 0x20"
definition IN_MOVED_FROM :: mask where "IN_MOVED_FROM = 0x40"
definition IN_MOVED_TO :: mask where "IN_MOVED_TO = 0x80"
definition IN_CREATE :: mask where "IN_CREATE = 0x100"
definition IN_DELETE :: mask where "IN_DELETE = 0x200"
definition IN_DELETE_SELF :: mask where "IN_DELETE_SELF = 0x400"
definition IN_MOVE_SELF :: mask where "IN_MOVE_SELF = 0x800"
definition IN_UNMOUNT :: mask where "IN_UNMOUNT = 0x2000"
definition IN_Q_OVERFLOW :: mask where "IN_Q_OVERFLOW = 0x4000"
definition IN_IGNORED :: mask where "IN_IGNORED = 0x8000"

definition DEFAULT_NOTIFY_BUFLEN :: nat where
  "DEFAULT_NOTIFY_BUFLEN = 32 * (16 + 16)"

definition MAX_NOTIFY_BUFLEN :: nat where
  "MAX_NOTIFY_BUFLEN = 32 * DEFAULT_NOTIFY_BUFLEN"

section \<open>Masks\<close>

definition has :: "mask \<Rightarrow> mask \<Rightarrow> bool" where
  "has m b = (m AND b \<noteq> 0)"

definition our_event_mask_to_inotify_mask :: "mask \<Rightarrow> mask" where
  "our_event_mask_to_inotify_mask our_mask =
     (if has our_mask (event_bit CK_FILE_MONITOR_EVENT_ACCESS) then IN_ACCESS else 0) OR
     (if has our_mask (event_bit CK_FILE_MONITOR_EVENT_CREATE) then IN_CREATE OR IN_MOVED_TO else 0) OR
     (if has our_mask (event_bit CK_FILE_MONITOR_EVENT_DELETE) then IN_DELETE OR IN_DELETE_SELF OR IN_MOVED_FROM OR IN_MOVE_SELF else 0) OR
     (if has our_mask (event_bit CK_FILE_MONITOR_EVENT_CHANGE) then IN_MODIFY OR IN_ATTRIB else 0)"

definition imask_to_string :: "mask \<Rightarrow> string" where
  "imask_to_string m =
     concat (map (\<lambda>(b, s). if has m b then s @ '' '' else [])
       [(IN_ACCESS, ''ACCESS''), (IN_MODIFY, ''MODIFY''), (IN_ATTRIB, ''ATTRIB''), (IN_CLOSE_WRITE, ''CLOSE_WRITE''),
        (IN_CLOSE_NOWRITE, ''CLOSE_NOWRITE''), (IN_OPEN, ''OPEN''), (IN_MOVED_FROM, ''MOVED_FROM''), (IN_MOVED_TO, ''MOVED_TO''),
        (IN_DELETE, ''DELETE''), (IN_CREATE, ''CREATE''), (IN_DELETE_SELF, ''DELETE_SELF''), (IN_UNMOUNT, ''UNMOUNT''),
        (IN_Q_OVERFLOW, ''Q_OVERFLOW''), (IN_IGNORED, ''IGNORED'')])"

text \<open>The event a mask stands for.\<close>

definition event_of_mask :: "mask \<Rightarrow> CkFileMonitorEvent" where
  "event_of_mask m =
     (if has m (IN_CREATE OR IN_MOVED_TO) then CK_FILE_MONITOR_EVENT_CREATE
      else if has m (IN_DELETE OR IN_DELETE_SELF OR IN_MOVED_FROM OR IN_MOVE_SELF) then CK_FILE_MONITOR_EVENT_DELETE
      else if has m (IN_MODIFY OR IN_ATTRIB) then CK_FILE_MONITOR_EVENT_CHANGE
      else if has m IN_ACCESS then CK_FILE_MONITOR_EVENT_ACCESS
      else CK_FILE_MONITOR_EVENT_NONE)"

section \<open>Watches\<close>

text \<open>\<open>wd\<close> is the answer of \<open>inotify_add_watch\<close>. The address of the watch is returned.\<close>

definition file_monitor_add_watch_for_path :: "string \<Rightarrow> int \<Rightarrow> CkFileMonitor \<Rightarrow> nat option \<times> CkFileMonitor" where
  "file_monitor_add_watch_for_path path wd m =
     (if wd < 0 then (None, m)
      else case g_hash_table_lookup (path_to_watch m) path of
        Some a \<Rightarrow> (Some a, m)
      | None \<Rightarrow>
          let a = fm_next m in
          (Some a, m\<lparr>fm_watches := (fm_watches m)(a \<mapsto> \<lparr>fw_wd = wd, fw_path = path, fw_notifies = []\<rparr>), fm_next := Suc a,
                     path_to_watch := g_hash_table_insert (path_to_watch m) path a,
                     wd_to_watch := g_hash_table_insert (wd_to_watch m) wd a\<rparr>))"

definition monitor_release_watch :: "nat \<Rightarrow> FileInotifyWatch \<Rightarrow> CkFileMonitor \<Rightarrow> CkFileMonitor" where
  "monitor_release_watch a w m =
     m\<lparr>fm_watches := (fm_watches m)(a \<mapsto> w\<lparr>fw_notifies := [], fw_path := '''', fw_wd := - 1\<rparr>), fm_rm_watch := fw_wd w # fm_rm_watch m\<rparr>"

definition file_monitor_remove_watch :: "nat \<Rightarrow> CkFileMonitor \<Rightarrow> CkFileMonitor option" where
  "file_monitor_remove_watch a m =
     (case fm_watches m a of
        None \<Rightarrow> None
      | Some w \<Rightarrow>
          Some (if fw_wd w = - 1 then m
                else monitor_release_watch a w
                       (m\<lparr>path_to_watch := g_hash_table_remove (path_to_watch m) (fw_path w),
                          wd_to_watch := g_hash_table_remove (wd_to_watch m) (fw_wd w)\<rparr>)))"

definition free_watch :: "nat \<Rightarrow> CkFileMonitor \<Rightarrow> CkFileMonitor" where
  "free_watch a m = m\<lparr>fm_watches := (fm_watches m)(a := None)\<rparr>"

text \<open>Closing releases every watch of the table of paths; the tables are gone afterwards.\<close>

definition remove_watch_foreach :: "nat \<Rightarrow> CkFileMonitor \<Rightarrow> CkFileMonitor" where
  "remove_watch_foreach a m = (case fm_watches m a of None \<Rightarrow> m | Some w \<Rightarrow> monitor_release_watch a w m)"

definition close_inotify :: "CkFileMonitor \<Rightarrow> CkFileMonitor" where
  "close_inotify m =
     (if \<not> initialized_inotify m then m
      else (fold (\<lambda>p. remove_watch_foreach (snd p)) (path_to_watch m) (m\<lparr>initialized_inotify := False\<rparr>))
             \<lparr>path_to_watch := [], wd_to_watch := [], fm_buflen := 0, fm_io_watch := False\<rparr>)"

section \<open>Notifications\<close>

definition file_monitor_add_notify_for_path :: "string \<Rightarrow> mask \<Rightarrow> int \<Rightarrow> bool \<Rightarrow> CkFileMonitor \<Rightarrow> nat option \<times> CkFileMonitor" where
  "file_monitor_add_notify_for_path path msk wd has_func m =
     (case file_monitor_add_watch_for_path path wd m of
        (None, m) \<Rightarrow> (None, m)
      | (Some a, m) \<Rightarrow>
          let i = fm_serial m in
          (Some i, m\<lparr>fm_serial := (i + 1) mod 2 ^ 32,
             fm_notifies := g_hash_table_insert (fm_notifies m) i \<lparr>fn_mask = msk, fn_has_func = has_func, fn_watch = Some a\<rparr>,
             fm_watches := (fm_watches m)(a := map_option (\<lambda>w. w\<lparr>fw_notifies := i # fw_notifies w\<rparr>) (fm_watches m a))\<rparr>))"

definition file_monitor_remove_notify :: "nat \<Rightarrow> CkFileMonitor \<Rightarrow> CkFileMonitor option" where
  "file_monitor_remove_notify i m =
     (case g_hash_table_lookup (fm_notifies m) i of
        None \<Rightarrow> Some m
      | Some n \<Rightarrow>
          let m = m\<lparr>fm_notifies := g_hash_table_remove (fm_notifies m) i\<rparr> in
          (case fn_watch n of
             None \<Rightarrow> Some m
           | Some a \<Rightarrow>
               (case fm_watches m a of
                  None \<Rightarrow> None
                | Some w \<Rightarrow>
                    let w = w\<lparr>fw_notifies := remove1 i (fw_notifies w)\<rparr>; m = m\<lparr>fm_watches := (fm_watches m)(a \<mapsto> w)\<rparr>
                    in if fw_notifies w = [] then map_option (free_watch a) (file_monitor_remove_watch a m) else Some m)))"

definition ck_file_monitor_add_notify :: "string \<Rightarrow> mask \<Rightarrow> int \<Rightarrow> bool \<Rightarrow> CkFileMonitor \<Rightarrow> nat \<times> CkFileMonitor" where
  "ck_file_monitor_add_notify path msk wd has_func m =
     (if \<not> initialized_inotify m then (0, m)
      else case file_monitor_add_notify_for_path path msk wd has_func m of
        (None, m) \<Rightarrow> (0, m)
      | (Some i, m) \<Rightarrow> (i, m))"

definition ck_file_monitor_remove_notify :: "nat \<Rightarrow> CkFileMonitor \<Rightarrow> CkFileMonitor option" where
  "ck_file_monitor_remove_notify i m = (if \<not> initialized_inotify m then Some m else file_monitor_remove_notify i m)"

text \<open>src/src/ck-file-monitor-dummy.c, the build without inotify: nothing can be watched.\<close>

definition ck_file_monitor_add_notify_dummy :: "string \<Rightarrow> mask \<Rightarrow> CkFileMonitor \<Rightarrow> nat \<times> CkFileMonitor" where
  "ck_file_monitor_add_notify_dummy path msk m = (0, m)"

definition ck_file_monitor_remove_notify_dummy :: "nat \<Rightarrow> CkFileMonitor \<Rightarrow> CkFileMonitor" where
  "ck_file_monitor_remove_notify_dummy i m = m"

text \<open>An inotify monitor that could not be initialized behaves the same way.\<close>

lemma dummy_is_uninitialized:
  "\<not> initialized_inotify m \<Longrightarrow> ck_file_monitor_add_notify path msk wd f m = ck_file_monitor_add_notify_dummy path msk m"
  "\<not> initialized_inotify m \<Longrightarrow> ck_file_monitor_remove_notify i m = Some (ck_file_monitor_remove_notify_dummy i m)"
  by (simp_all add: ck_file_monitor_add_notify_def ck_file_monitor_add_notify_dummy_def ck_file_monitor_remove_notify_def
      ck_file_monitor_remove_notify_dummy_def)

section \<open>Delivering events\<close>

type_synonym notify_func = "nat \<Rightarrow> CkFileMonitorEvent \<Rightarrow> string \<Rightarrow> CkFileMonitor \<Rightarrow> CkFileMonitor option"

definition g_build_filename :: "string \<Rightarrow> string \<Rightarrow> string" where
  "g_build_filename dir name =
     rev (dropWhile (\<lambda>c. c = CHR ''/'') (rev dir)) @ ''/'' @ dropWhile (\<lambda>c. c = CHR ''/'') name"

text \<open>The call of one notification; it is recorded and may change the monitor.\<close>

definition call_notify :: "notify_func \<Rightarrow> FileMonitorEventInfo \<Rightarrow> string \<Rightarrow> nat \<Rightarrow> CkFileMonitor \<Rightarrow> CkFileMonitor option" where
  "call_notify f ei dir i m =
     (case g_hash_table_lookup (fm_notifies m) i of
        None \<Rightarrow> Some m
      | Some n \<Rightarrow>
          if \<not> has (fn_mask n) (event_bit (ei_event ei)) then Some m
          else if fn_has_func n
          then let path = (case ei_path ei of None \<Rightarrow> dir | Some p \<Rightarrow> g_build_filename dir p)
               in f i (ei_event ei) path (m\<lparr>fm_calls := fm_calls m @ [(i, ei_event ei, path)]\<rparr>)
          else Some m)"

text \<open>
  The loop over the cells of \<open>watch->notifies\<close>: the next cell is read from the current one after
  the call, which must still be a cell of the list. \<open>fuel\<close> bounds the number of cells visited.
\<close>

fun notify_loop :: "nat \<Rightarrow> notify_func \<Rightarrow> FileMonitorEventInfo \<Rightarrow> nat \<Rightarrow> nat list \<Rightarrow> CkFileMonitor \<Rightarrow> CkFileMonitor option" where
  "notify_loop fuel f ei a [] m = Some m"
| "notify_loop 0 f ei a (i # l) m = None"
| "notify_loop (Suc fuel) f ei a (i # l) m =
     (case fm_watches m a of
        None \<Rightarrow> None
      | Some w \<Rightarrow>
          (case call_notify f ei (fw_path w) i m of
             None \<Rightarrow> None
           | Some m \<Rightarrow>
               (case fm_watches m a of
                  None \<Rightarrow> None
                | Some w \<Rightarrow>
                    if i \<in> set (fw_notifies w) then notify_loop fuel f ei a (tl (dropWhile (\<lambda>x. x \<noteq> i) (fw_notifies w))) m
                    else None)))"

text \<open>Emptying the queue; a callback cannot add to it, only the main loop does.\<close>

fun emit_events :: "nat \<Rightarrow> notify_func \<Rightarrow> FileMonitorEventInfo list \<Rightarrow> CkFileMonitor \<Rightarrow> CkFileMonitor option" where
  "emit_events fuel f [] m = Some m"
| "emit_events fuel f (ei # q) m =
     (case g_hash_table_lookup (wd_to_watch m) (ei_wd ei) of
        None \<Rightarrow> emit_events fuel f q m
      | Some a \<Rightarrow>
          (case fm_watches m a of
             None \<Rightarrow> None
           | Some w \<Rightarrow>
               (case notify_loop fuel f ei a (fw_notifies w) m of None \<Rightarrow> None | Some m \<Rightarrow> emit_events fuel f q m)))"

definition emit_events_in_idle :: "nat \<Rightarrow> notify_func \<Rightarrow> CkFileMonitor \<Rightarrow> CkFileMonitor option" where
  "emit_events_in_idle fuel f m =
     emit_events fuel f (notify_events m) (m\<lparr>events_idle_id := False, notify_events := []\<rparr>)"

definition forget_watch :: "nat \<Rightarrow> CkFileMonitor \<Rightarrow> CkFileMonitor" where
  "forget_watch i m =
     (case g_hash_table_lookup (fm_notifies m) i of
        None \<Rightarrow> m
      | Some n \<Rightarrow> m\<lparr>fm_notifies := g_hash_table_insert (fm_notifies m) i (n\<lparr>fn_watch := None\<rparr>)\<rparr>)"

fun emit_removals :: "int list \<Rightarrow> CkFileMonitor \<Rightarrow> CkFileMonitor option" where
  "emit_removals [] m = Some m"
| "emit_removals (wd # q) m =
     (case g_hash_table_lookup (wd_to_watch m) wd of
        None \<Rightarrow> emit_removals q m
      | Some a \<Rightarrow>
          (case fm_watches m a of
             None \<Rightarrow> None
           | Some w \<Rightarrow>
               if fw_wd w = - 1 then emit_removals q m
               else case file_monitor_remove_watch a (fold forget_watch (fw_notifies w) m) of
                 None \<Rightarrow> None
               | Some m \<Rightarrow> emit_removals q (free_watch a m)))"

text \<open>A descriptor 0 in the queue reads as the end of it; inotify numbers descriptors from 1.\<close>

definition emit_removals_in_idle :: "CkFileMonitor \<Rightarrow> CkFileMonitor option" where
  "emit_removals_in_idle m =
     emit_removals (takeWhile (\<lambda>wd. wd \<noteq> 0) (remove_events m)) (m\<lparr>remove_idle_id := False, remove_events := []\<rparr>)"

definition file_monitor_queue_event :: "FileMonitorEventInfo \<Rightarrow> CkFileMonitor \<Rightarrow> CkFileMonitor" where
  "file_monitor_queue_event ei m = m\<lparr>notify_events := notify_events m @ [ei], events_idle_id := True\<rparr>"

definition queue_watch_event :: "int \<Rightarrow> CkFileMonitorEvent \<Rightarrow> cstring \<Rightarrow> CkFileMonitor \<Rightarrow> CkFileMonitor" where
  "queue_watch_event wd e path m = file_monitor_queue_event \<lparr>ei_wd = wd, ei_event = e, ei_path = path\<rparr> m"

definition queue_remove_event :: "int \<Rightarrow> CkFileMonitor \<Rightarrow> CkFileMonitor" where
  "queue_remove_event wd m = m\<lparr>remove_events := remove_events m @ [wd], remove_idle_id := True\<rparr>"

record inotify_event =
  ie_wd :: int
  ie_mask :: mask
  ie_name :: cstring

definition handle_inotify_event :: "inotify_event \<Rightarrow> CkFileMonitor \<Rightarrow> CkFileMonitor" where
  "handle_inotify_event ie m =
     (let event = event_of_mask (ie_mask ie);
          m = (if event \<noteq> CK_FILE_MONITOR_EVENT_NONE then queue_watch_event (ie_wd ie) event (ie_name ie) m else m)
      in if has (ie_mask ie) IN_IGNORED then queue_remove_event (ie_wd ie) m else m)"

datatype inotify_read = Read_EINTR | Read_Failed | Read_Nothing | Read_Events "inotify_event list"

definition known_event :: "inotify_event \<Rightarrow> CkFileMonitor \<Rightarrow> CkFileMonitor" where
  "known_event ie m =
     (if g_hash_table_lookup (wd_to_watch m) (ie_wd ie) \<noteq> None then handle_inotify_event ie m else m)"

text \<open>Reading with a growing buffer; \<open>None\<close> if the reads never give anything.\<close>

fun inotify_data_pending :: "inotify_read list \<Rightarrow> CkFileMonitor \<Rightarrow> (bool \<times> CkFileMonitor) option" where
  "inotify_data_pending [] m = None"
| "inotify_data_pending (Read_EINTR # rs) m = inotify_data_pending rs m"
| "inotify_data_pending (Read_Events ies # rs) m = Some (True, fold known_event ies m)"
| "inotify_data_pending (Read_Failed # rs) m = Some (False, close_inotify (m\<lparr>fm_io_watch := False\<rparr>))"
| "inotify_data_pending (Read_Nothing # rs) m =
     (if 2 * fm_buflen m > MAX_NOTIFY_BUFLEN then Some (False, close_inotify (m\<lparr>fm_io_watch := False\<rparr>))
      else inotify_data_pending rs (m\<lparr>fm_buflen := 2 * fm_buflen m\<rparr>))"

section \<open>Life cycle\<close>

definition setup_inotify :: "bool \<Rightarrow> CkFileMonitor \<Rightarrow> CkFileMonitor" where
  "setup_inotify init_works m =
     (if initialized_inotify m then m
      else if \<not> init_works then m
      else m\<lparr>fm_io_watch := True, fm_buflen := DEFAULT_NOTIFY_BUFLEN, fm_notifies := [], wd_to_watch := [], path_to_watch := [],
             initialized_inotify := True\<rparr>)"

definition ck_file_monitor_init :: "bool \<Rightarrow> CkFileMonitor" where
  "ck_file_monitor_init init_works =
     setup_inotify init_works
       \<lparr>fm_serial = 1, initialized_inotify = False, fm_io_watch = False, wd_to_watch = [], path_to_watch = [], fm_notifies = [],
        fm_buflen = 0, events_idle_id = False, remove_idle_id = False, notify_events = [], remove_events = [],
        fm_watches = (\<lambda>_. None), fm_next = 0, fm_rm_watch = [], fm_calls = []\<rparr>"

text \<open>The monitor is a singleton: an existing one is returned.\<close>

definition ck_file_monitor_new :: "bool \<Rightarrow> CkFileMonitor option \<Rightarrow> CkFileMonitor" where
  "ck_file_monitor_new init_works monitor_object =
     (case monitor_object of Some m \<Rightarrow> m | None \<Rightarrow> ck_file_monitor_init init_works)"

section \<open>Lemmas\<close>

text \<open>
  The invariant. A path leads to its watch and back; a descriptor leads to a watch that has it, the last one made when
  several paths lead to one file; a watch in the tables has notifications, none twice, and each of them refers to it; a
  notification that refers to a watch is on its list.
\<close>

definition watch_ok :: "CkFileMonitor \<Rightarrow> nat \<Rightarrow> FileInotifyWatch \<Rightarrow> bool" where
  "watch_ok m a w =
     (fm_watches m a = Some w \<and> fw_wd w > 0 \<and>
      g_hash_table_lookup (path_to_watch m) (fw_path w) = Some a \<and>
      fw_notifies w \<noteq> [] \<and> distinct (fw_notifies w) \<and>
      (\<forall>i \<in> set (fw_notifies w). \<exists>n. g_hash_table_lookup (fm_notifies m) i = Some n \<and> fn_watch n = Some a))"

definition fm_inv :: "CkFileMonitor \<Rightarrow> bool" where
  "fm_inv m =
     ((\<forall>p a. g_hash_table_lookup (path_to_watch m) p = Some a \<longrightarrow> (\<exists>w. watch_ok m a w \<and> fw_path w = p)) \<and>
      (\<forall>d a. g_hash_table_lookup (wd_to_watch m) d = Some a \<longrightarrow> (\<exists>w. watch_ok m a w \<and> fw_wd w = d)) \<and>
      (\<forall>i n a. initialized_inotify m \<and> g_hash_table_lookup (fm_notifies m) i = Some n \<and> fn_watch n = Some a \<longrightarrow>
         (\<exists>w. watch_ok m a w \<and> i \<in> set (fw_notifies w))) \<and>
      (\<forall>a. fm_watches m a \<noteq> None \<longrightarrow> a < fm_next m) \<and>
      (\<forall>i. g_hash_table_lookup (fm_notifies m) i \<noteq> None \<longrightarrow> 0 < i \<and> i < fm_serial m) \<and> 0 < fm_serial m)"

lemma fm_invD:
  assumes "fm_inv m"
  shows "g_hash_table_lookup (path_to_watch m) p = Some a \<Longrightarrow> \<exists>w. watch_ok m a w \<and> fw_path w = p"
    "g_hash_table_lookup (wd_to_watch m) d = Some a \<Longrightarrow> \<exists>w. watch_ok m a w \<and> fw_wd w = d"
    "initialized_inotify m \<Longrightarrow> g_hash_table_lookup (fm_notifies m) i = Some n \<Longrightarrow> fn_watch n = Some a \<Longrightarrow>
       \<exists>w. watch_ok m a w \<and> i \<in> set (fw_notifies w)"
    "fm_watches m a = Some w \<Longrightarrow> a < fm_next m"
    "g_hash_table_lookup (fm_notifies m) i \<noteq> None \<Longrightarrow> 0 < i \<and> i < fm_serial m" "0 < fm_serial m"
  using assms unfolding fm_inv_def by blast+

text \<open>Only these fields matter.\<close>

lemma fm_inv_cong:
  assumes "fm_inv m" "path_to_watch m' = path_to_watch m" "wd_to_watch m' = wd_to_watch m" "fm_notifies m' = fm_notifies m"
    "fm_watches m' = fm_watches m" "fm_next m' = fm_next m" "fm_serial m' = fm_serial m" "initialized_inotify m' = initialized_inotify m"
  shows "fm_inv m'"
  using assms(1) unfolding fm_inv_def watch_ok_def assms(2-8) .

text \<open>A watch is determined by its path and its address.\<close>

lemma watch_ok_unique:
  assumes "watch_ok m a w" "watch_ok m b v"
  shows "fw_path w = fw_path v \<Longrightarrow> a = b" "a = b \<Longrightarrow> w = v"
  using assms by (auto simp: watch_ok_def)

text \<open>A watch that is not touched stays as it is.\<close>

lemma watch_ok_other:
  assumes "watch_ok m b v" "fm_watches m' b = fm_watches m b"
    and "g_hash_table_lookup (path_to_watch m') (fw_path v) = g_hash_table_lookup (path_to_watch m) (fw_path v)"
    and "\<And>i. i \<in> set (fw_notifies v) \<Longrightarrow> g_hash_table_lookup (fm_notifies m') i = g_hash_table_lookup (fm_notifies m) i"
  shows "watch_ok m' b v"
  using assms by (auto simp: watch_ok_def)

lemma add_notify_inv:
  assumes "fm_inv m" "initialized_inotify m" "wd > 0" "fm_serial m + 1 < 2 ^ 32"
  shows "\<exists>a m'. file_monitor_add_notify_for_path path msk wd hf m = (Some (fm_serial m), m') \<and> fm_inv m' \<and> initialized_inotify m' \<and>
    fm_serial m' = fm_serial m + 1 \<and> g_hash_table_lookup (path_to_watch m') path = Some a \<and>
    g_hash_table_lookup (fm_notifies m') (fm_serial m) = Some \<lparr>fn_mask = msk, fn_has_func = hf, fn_watch = Some a\<rparr>"
proof -
  let ?i = "fm_serial m"
  have new: "g_hash_table_lookup (fm_notifies m) ?i = None" using fm_invD(5) [OF assms(1), of ?i] by blast
  have old: "i \<noteq> ?i" if "watch_ok m b v" "i \<in> set (fw_notifies v)" for b v i
    using that new by (auto simp: watch_ok_def)
  show ?thesis
  proof (cases "g_hash_table_lookup (path_to_watch m) path")
    case (Some a)
    then obtain w where w: "watch_ok m a w" "fw_path w = path" using fm_invD(1) [OF assms(1)] by blast
    let ?w = "w\<lparr>fw_notifies := ?i # fw_notifies w\<rparr>"
    let ?n = "\<lparr>fn_mask = msk, fn_has_func = hf, fn_watch = Some a\<rparr>"
    let ?m = "m\<lparr>fm_serial := ?i + 1, fm_notifies := g_hash_table_insert (fm_notifies m) ?i ?n, fm_watches := (fm_watches m)(a \<mapsto> ?w)\<rparr>"
    have eq: "file_monitor_add_notify_for_path path msk wd hf m = (Some ?i, ?m)"
      using Some w assms(3,4)
      by (simp add: file_monitor_add_notify_for_path_def file_monitor_add_watch_for_path_def Let_def watch_ok_def)
    have wa: "watch_ok ?m a ?w" using w old [OF w(1)] by (auto simp: watch_ok_def)
    have wb: "watch_ok ?m b v" if "watch_ok m b v" "b \<noteq> a" for b v
      using that old [OF that(1)] by (intro watch_ok_other [OF that(1)]) auto
    have ex: "\<exists>v'. watch_ok ?m b v' \<and> fw_path v' = fw_path v \<and> fw_wd v' = fw_wd v \<and> set (fw_notifies v) \<subseteq> set (fw_notifies v')"
      if "watch_ok m b v" for b v
      using wa wb [OF that] watch_ok_unique(2) [OF that w(1)] by (cases "b = a") auto
    have "fm_inv ?m"
      unfolding fm_inv_def
    proof (intro conjI allI impI)
      fix p b assume "g_hash_table_lookup (path_to_watch ?m) p = Some b"
      then show "\<exists>w. watch_ok ?m b w \<and> fw_path w = p" using fm_invD(1) [OF assms(1), of p b] ex by fastforce
    next
      fix d b assume "g_hash_table_lookup (wd_to_watch ?m) d = Some b"
      then show "\<exists>w. watch_ok ?m b w \<and> fw_wd w = d" using fm_invD(2) [OF assms(1), of d b] ex by fastforce
    next
      fix i n b assume "initialized_inotify ?m \<and> g_hash_table_lookup (fm_notifies ?m) i = Some n \<and> fn_watch n = Some b"
      then show "\<exists>w. watch_ok ?m b w \<and> i \<in> set (fw_notifies w)"
        using fm_invD(3) [OF assms(1,2), of i n b] ex wa by (cases "i = ?i") fastforce+
    qed (use fm_invD(4,5,6) [OF assms(1)] w in \<open>auto simp: watch_ok_def less_Suc_eq split: if_splits\<close>)
    with eq assms(2) Some show ?thesis by simp
  next
    case None
    let ?a = "fm_next m" and ?n = "\<lparr>fn_mask = msk, fn_has_func = hf, fn_watch = Some (fm_next m)\<rparr>"
    let ?w = "\<lparr>fw_wd = wd, fw_path = path, fw_notifies = [?i]\<rparr>"
    let ?m = "m\<lparr>fm_watches := (fm_watches m)(?a \<mapsto> ?w), fm_next := Suc ?a,
       path_to_watch := g_hash_table_insert (path_to_watch m) path ?a, wd_to_watch := g_hash_table_insert (wd_to_watch m) wd ?a,
       fm_serial := ?i + 1, fm_notifies := g_hash_table_insert (fm_notifies m) ?i ?n\<rparr>"
    have eq: "file_monitor_add_notify_for_path path msk wd hf m = (Some ?i, ?m)"
      using None assms(3,4) by (simp add: file_monitor_add_notify_for_path_def file_monitor_add_watch_for_path_def Let_def)
    have wa: "watch_ok ?m ?a ?w" using assms(3) by (auto simp: watch_ok_def)
    have wb: "watch_ok ?m b v" if "watch_ok m b v" for b v
      using that old [OF that] None fm_invD(4) [OF assms(1), of b v]
      by (intro watch_ok_other [OF that]) (auto simp: watch_ok_def)
    have "fm_inv ?m"
      unfolding fm_inv_def
    proof (intro conjI allI impI)
      fix p b assume "g_hash_table_lookup (path_to_watch ?m) p = Some b"
      then show "\<exists>w. watch_ok ?m b w \<and> fw_path w = p" using fm_invD(1) [OF assms(1), of p b] wa wb by (cases "p = path") fastforce+
    next
      fix d b assume "g_hash_table_lookup (wd_to_watch ?m) d = Some b"
      then show "\<exists>w. watch_ok ?m b w \<and> fw_wd w = d" using fm_invD(2) [OF assms(1), of d b] wa wb by (cases "d = wd") fastforce+
    next
      fix i n b assume "initialized_inotify ?m \<and> g_hash_table_lookup (fm_notifies ?m) i = Some n \<and> fn_watch n = Some b"
      then show "\<exists>w. watch_ok ?m b w \<and> i \<in> set (fw_notifies w)"
        using fm_invD(3) [OF assms(1,2), of i n b] wa wb by (cases "i = ?i") fastforce+
    qed (use fm_invD(4,5,6) [OF assms(1)] in \<open>auto simp: less_Suc_eq split: if_splits\<close>)
    with eq assms(2) show ?thesis by simp
  qed
qed

text \<open>Taking a watch out of the tables when no notification refers to it any more.\<close>

lemma drop_watch_inv:
  assumes "fm_inv m" "initialized_inotify m" "watch_ok m a w"
    and "\<And>j. j \<notin> set (fw_notifies w) \<Longrightarrow> g_hash_table_lookup (fm_notifies m') j = g_hash_table_lookup (fm_notifies m) j"
    and "\<And>j n. j \<in> set (fw_notifies w) \<Longrightarrow> g_hash_table_lookup (fm_notifies m') j = Some n \<Longrightarrow> fn_watch n = None"
    and "path_to_watch m' = g_hash_table_remove (path_to_watch m) (fw_path w)"
      "wd_to_watch m' = g_hash_table_remove (wd_to_watch m) (fw_wd w)"
      "fm_watches m' = (fm_watches m)(a := None)" "fm_next m' = fm_next m" "fm_serial m' = fm_serial m" "initialized_inotify m'"
  shows "fm_inv m'"
proof -
  note inv = fm_invD [OF assms(1)]
  have apart: "j \<notin> set (fw_notifies w)" if "watch_ok m b v" "b \<noteq> a" "j \<in> set (fw_notifies v)" for b v j
    using that assms(3) by (fastforce simp: watch_ok_def)
  have wb: "watch_ok m' b v" if "watch_ok m b v" "b \<noteq> a" for b v
    using that assms(4,6,7,8) apart [OF that] watch_ok_unique(1) [OF that(1) assms(3)]
    by (intro watch_ok_other [OF that(1)]) auto
  have inl: "g_hash_table_lookup (fm_notifies m) j \<noteq> None" if "j \<in> set (fw_notifies w)" for j
    using that assms(3) by (auto simp: watch_ok_def)
  show ?thesis
    unfolding fm_inv_def
  proof (intro conjI allI impI)
    fix p b assume l: "g_hash_table_lookup (path_to_watch m') p = Some b"
    then have p: "g_hash_table_lookup (path_to_watch m) p = Some b" "p \<noteq> fw_path w" using assms(6) by (auto split: if_splits)
    then obtain v where v: "watch_ok m b v" "fw_path v = p" using inv(1) by blast
    then have "b \<noteq> a" using p(2) watch_ok_unique(2) [OF v(1) assms(3)] by auto
    with v wb show "\<exists>w. watch_ok m' b w \<and> fw_path w = p" by blast
  next
    fix d b assume l: "g_hash_table_lookup (wd_to_watch m') d = Some b"
    then have p: "g_hash_table_lookup (wd_to_watch m) d = Some b" "d \<noteq> fw_wd w" using assms(7) by (auto split: if_splits)
    then obtain v where v: "watch_ok m b v" "fw_wd v = d" using inv(2) by blast
    then have "b \<noteq> a" using p(2) watch_ok_unique(2) [OF v(1) assms(3)] by auto
    with v wb show "\<exists>w. watch_ok m' b w \<and> fw_wd w = d" by blast
  next
    fix i n b assume l: "initialized_inotify m' \<and> g_hash_table_lookup (fm_notifies m') i = Some n \<and> fn_watch n = Some b"
    then have i: "i \<notin> set (fw_notifies w)" using assms(5) [of i n] by auto
    then obtain v where v: "watch_ok m b v" "i \<in> set (fw_notifies v)"
      using l assms(4) [OF i] inv(3) [OF assms(2), of i n b] by auto
    then have "b \<noteq> a" using i watch_ok_unique(2) [OF v(1) assms(3)] by auto
    with v wb show "\<exists>w. watch_ok m' b w \<and> i \<in> set (fw_notifies w)" by blast
  next
    fix b assume "fm_watches m' b \<noteq> None"
    then show "b < fm_next m'" using inv(4) assms(8,9) by (auto split: if_splits)
  next
    fix i assume l: "g_hash_table_lookup (fm_notifies m') i \<noteq> None"
    then have "g_hash_table_lookup (fm_notifies m) i \<noteq> None" using assms(4) [of i] inl by (cases "i \<in> set (fw_notifies w)") simp_all
    then show "0 < i" "i < fm_serial m'" using inv(5) assms(10) by simp_all
  qed (use inv(6) assms(10) in simp)
qed

lemma remove_notify_inv:
  assumes "fm_inv m" "initialized_inotify m"
  shows "\<exists>m'. file_monitor_remove_notify i m = Some m' \<and> fm_inv m' \<and> initialized_inotify m' \<and> fm_serial m' = fm_serial m \<and>
    g_hash_table_lookup (fm_notifies m') i = None \<and> (\<forall>j. j \<noteq> i \<longrightarrow> g_hash_table_lookup (fm_notifies m') j = g_hash_table_lookup (fm_notifies m) j)"
proof (cases "g_hash_table_lookup (fm_notifies m) i")
  case (Some n)
  let ?ns = "g_hash_table_remove (fm_notifies m) i"
  show ?thesis
  proof (cases "fn_watch n")
    case None
    let ?m = "m\<lparr>fm_notifies := ?ns\<rparr>"
    have wb: "watch_ok ?m b v" if "watch_ok m b v" for b v
      using that Some None by (intro watch_ok_other [OF that]) (auto simp: watch_ok_def)
    have "fm_inv ?m"
      unfolding fm_inv_def using fm_invD [OF assms(1)] wb assms(2)
      by (auto split: if_splits) (metis | blast)+
    moreover have "file_monitor_remove_notify i m = Some ?m" using Some None by (simp add: file_monitor_remove_notify_def Let_def)
    ultimately show ?thesis using assms(2) by simp
  next
    case a: (Some a)
    then obtain w where w: "watch_ok m a w" "i \<in> set (fw_notifies w)" using fm_invD(3) [OF assms Some] by blast
    then have h: "fm_watches m a = Some w" "fw_wd w \<noteq> - 1" "distinct (fw_notifies w)" by (auto simp: watch_ok_def)
    show ?thesis
    proof (cases "remove1 i (fw_notifies w) = []")
      case True
      then have only: "set (fw_notifies w) = {i}" using w(2) h(3) by (metis set_remove1_eq Diff_eq_empty_iff empty_set insert_subset subset_singletonD singletonD subsetI subset_antisym empty_subsetI)
      let ?w = "w\<lparr>fw_notifies := []\<rparr>"
      let ?m = "free_watch a (monitor_release_watch a ?w (m\<lparr>fm_notifies := ?ns, fm_watches := (fm_watches m)(a \<mapsto> ?w),
          path_to_watch := g_hash_table_remove (path_to_watch m) (fw_path w), wd_to_watch := g_hash_table_remove (wd_to_watch m) (fw_wd w)\<rparr>))"
      have "file_monitor_remove_notify i m = Some ?m"
        using Some a h True by (simp add: file_monitor_remove_notify_def file_monitor_remove_watch_def Let_def)
      moreover have "fm_inv ?m"
        using only by (intro drop_watch_inv [OF assms w(1)]) (auto simp: free_watch_def monitor_release_watch_def assms(2) fun_upd_def)
      ultimately show ?thesis using assms(2) by (auto simp: free_watch_def monitor_release_watch_def)
    next
      case False
      let ?w = "w\<lparr>fw_notifies := remove1 i (fw_notifies w)\<rparr>"
      let ?m = "m\<lparr>fm_notifies := ?ns, fm_watches := (fm_watches m)(a \<mapsto> ?w)\<rparr>"
      have eq: "file_monitor_remove_notify i m = Some ?m"
        using Some a h False by (simp add: file_monitor_remove_notify_def Let_def)
      have wa: "watch_ok ?m a ?w" using w False by (auto simp: watch_ok_def)
      have wb: "watch_ok ?m b v" if "watch_ok m b v" "b \<noteq> a" for b v
      proof -
        have "i \<notin> set (fw_notifies v)" using that Some a by (auto simp: watch_ok_def)
        then show ?thesis using that by (intro watch_ok_other [OF that(1)]) auto
      qed
      have ex: "\<exists>v'. watch_ok ?m b v' \<and> fw_path v' = fw_path v \<and> fw_wd v' = fw_wd v \<and> set (fw_notifies v) - {i} \<subseteq> set (fw_notifies v')"
        if "watch_ok m b v" for b v
        using wa wb [OF that] watch_ok_unique(2) [OF that w(1)] h(3) by (cases "b = a") auto
      have "fm_inv ?m"
        unfolding fm_inv_def
      proof (intro conjI allI impI)
        fix p b assume "g_hash_table_lookup (path_to_watch ?m) p = Some b"
        then show "\<exists>w. watch_ok ?m b w \<and> fw_path w = p" using fm_invD(1) [OF assms(1), of p b] ex by fastforce
      next
        fix d b assume "g_hash_table_lookup (wd_to_watch ?m) d = Some b"
        then show "\<exists>w. watch_ok ?m b w \<and> fw_wd w = d" using fm_invD(2) [OF assms(1), of d b] ex by fastforce
      next
        fix j n b assume "initialized_inotify ?m \<and> g_hash_table_lookup (fm_notifies ?m) j = Some n \<and> fn_watch n = Some b"
        then have "j \<noteq> i" "g_hash_table_lookup (fm_notifies m) j = Some n" "fn_watch n = Some b" by (auto split: if_splits)
        with fm_invD(3) [OF assms, of j n b] ex show "\<exists>w. watch_ok ?m b w \<and> j \<in> set (fw_notifies w)" by fastforce
      qed (use fm_invD(4,5,6) [OF assms(1)] h in \<open>auto split: if_splits\<close>)
      with eq assms(2) show ?thesis by simp
    qed
  qed
qed (use assms in \<open>simp add: file_monitor_remove_notify_def\<close>)

lemma forget_fields [simp]:
  "path_to_watch (forget_watch i m) = path_to_watch m" "wd_to_watch (forget_watch i m) = wd_to_watch m"
  "fm_watches (forget_watch i m) = fm_watches m" "fm_next (forget_watch i m) = fm_next m" "fm_serial (forget_watch i m) = fm_serial m"
  "initialized_inotify (forget_watch i m) = initialized_inotify m"
  by (simp_all add: forget_watch_def split: option.splits)

lemma fold_forget_fields [simp]:
  "path_to_watch (fold forget_watch is m) = path_to_watch m" "wd_to_watch (fold forget_watch is m) = wd_to_watch m"
  "fm_watches (fold forget_watch is m) = fm_watches m" "fm_next (fold forget_watch is m) = fm_next m"
  "fm_serial (fold forget_watch is m) = fm_serial m" "initialized_inotify (fold forget_watch is m) = initialized_inotify m"
  by (induction "is" arbitrary: m) simp_all

lemma fold_forget_lookup:
  "g_hash_table_lookup (fm_notifies (fold forget_watch is m)) j =
     (if j \<in> set is then map_option (\<lambda>n. n\<lparr>fn_watch := None\<rparr>) (g_hash_table_lookup (fm_notifies m) j)
      else g_hash_table_lookup (fm_notifies m) j)"
  by (induction "is" arbitrary: m) (auto simp: forget_watch_def option.map_comp comp_def split: option.splits)

lemma emit_removals_inv:
  assumes "fm_inv m" "initialized_inotify m \<or> wd_to_watch m = []"
  shows "\<exists>m'. emit_removals q m = Some m' \<and> fm_inv m' \<and> fm_serial m' = fm_serial m \<and>
    initialized_inotify m' = initialized_inotify m \<and> (wd_to_watch m = [] \<longrightarrow> wd_to_watch m' = [])"
  using assms
proof (induction q arbitrary: m)
  case (Cons wd q)
  show ?case
  proof (cases "g_hash_table_lookup (wd_to_watch m) wd")
    case None
    with Cons show ?thesis by simp
  next
    case (Some a)
    then have init: "initialized_inotify m" using Cons.prems(2) by auto
    obtain w where w: "watch_ok m a w" "fw_wd w = wd" using fm_invD(2) [OF Cons.prems(1) Some] by blast
    then have h: "fm_watches m a = Some w" "fw_wd w \<noteq> - 1" by (auto simp: watch_ok_def)
    let ?m = "fold forget_watch (fw_notifies w) m"
    let ?m2 = "free_watch a (monitor_release_watch a w (?m\<lparr>path_to_watch := g_hash_table_remove (path_to_watch m) (fw_path w),
        wd_to_watch := g_hash_table_remove (wd_to_watch m) (fw_wd w)\<rparr>))"
    have "fm_inv ?m2"
      using init by (intro drop_watch_inv [OF Cons.prems(1) init w(1)])
        (auto simp: free_watch_def monitor_release_watch_def fold_forget_lookup fun_upd_def)
    moreover have init2: "initialized_inotify ?m2" "fm_serial ?m2 = fm_serial m" "wd_to_watch m \<noteq> []"
      using init Some by (auto simp: free_watch_def monitor_release_watch_def)
    moreover have "emit_removals (wd # q) m = emit_removals q ?m2"
      using Some h by (simp add: file_monitor_remove_watch_def)
    ultimately show ?thesis using Cons.IH [of ?m2] init by auto
  qed
qed simp

lemma release_fields [simp]:
  "fm_notifies (remove_watch_foreach a m) = fm_notifies m" "fm_next (remove_watch_foreach a m) = fm_next m"
  "fm_serial (remove_watch_foreach a m) = fm_serial m" "initialized_inotify (remove_watch_foreach a m) = initialized_inotify m"
  "(fm_watches (remove_watch_foreach a m) b = None) = (fm_watches m b = None)"
  by (auto simp: remove_watch_foreach_def monitor_release_watch_def split: option.splits)

lemma fold_release_fields [simp]:
  "fm_notifies (fold (\<lambda>p. remove_watch_foreach (snd p)) t m) = fm_notifies m"
  "fm_next (fold (\<lambda>p. remove_watch_foreach (snd p)) t m) = fm_next m"
  "fm_serial (fold (\<lambda>p. remove_watch_foreach (snd p)) t m) = fm_serial m"
  "initialized_inotify (fold (\<lambda>p. remove_watch_foreach (snd p)) t m) = initialized_inotify m"
  "(fm_watches (fold (\<lambda>p. remove_watch_foreach (snd p)) t m) b = None) = (fm_watches m b = None)"
  by (induction t arbitrary: m) simp_all

lemma close_inotify_inv:
  assumes "fm_inv m" "initialized_inotify m \<or> wd_to_watch m = []"
  shows "fm_inv (close_inotify m)" "wd_to_watch (close_inotify m) = []" "fm_serial (close_inotify m) = fm_serial m"
proof -
  have dom: "a < fm_next m" if "fm_watches m a \<noteq> None" for a using that fm_invD(4) [OF assms(1)] by auto
  show "wd_to_watch (close_inotify m) = []" "fm_serial (close_inotify m) = fm_serial m"
    using assms(2) by (auto simp: close_inotify_def)
  let ?f = "fold (\<lambda>p. remove_watch_foreach (snd p)) (path_to_watch m) (m\<lparr>initialized_inotify := False\<rparr>)"
  have "fm_watches m a \<noteq> None" if "fm_watches ?f a = Some y" for a y
    using that fold_release_fields(5) [of "path_to_watch m" "m\<lparr>initialized_inotify := False\<rparr>" a] by auto
  then have "a < fm_next m" if "fm_watches ?f a = Some y" for a y using that dom by blast
  then show "fm_inv (close_inotify m)"
    using assms(1) fm_invD(5,6) [OF assms(1)] by (auto simp: close_inotify_def fm_inv_def)
qed

lemma known_event_fields [simp]:
  "fm_inv (known_event ie m) = fm_inv m" "fm_serial (known_event ie m) = fm_serial m" "initialized_inotify (known_event ie m) = initialized_inotify m"
  "wd_to_watch (known_event ie m) = wd_to_watch m"
proof -
  have f: "path_to_watch (known_event ie m) = path_to_watch m" "wd_to_watch (known_event ie m) = wd_to_watch m"
    "fm_notifies (known_event ie m) = fm_notifies m" "fm_watches (known_event ie m) = fm_watches m" "fm_next (known_event ie m) = fm_next m"
    "fm_serial (known_event ie m) = fm_serial m" "initialized_inotify (known_event ie m) = initialized_inotify m"
    by (simp_all add: known_event_def handle_inotify_event_def queue_watch_event_def file_monitor_queue_event_def queue_remove_event_def Let_def)
  show "fm_inv (known_event ie m) = fm_inv m"
    using fm_inv_cong [of m "known_event ie m"] fm_inv_cong [of "known_event ie m" m] f by metis
  show "fm_serial (known_event ie m) = fm_serial m" "initialized_inotify (known_event ie m) = initialized_inotify m"
    "wd_to_watch (known_event ie m) = wd_to_watch m" by (rule f)+
qed

lemma fold_known_fields [simp]:
  "fm_inv (fold known_event ies m) = fm_inv m" "fm_serial (fold known_event ies m) = fm_serial m"
  "initialized_inotify (fold known_event ies m) = initialized_inotify m" "wd_to_watch (fold known_event ies m) = wd_to_watch m"
  by (induction ies arbitrary: m) simp_all

definition fm_state :: "nat \<Rightarrow> CkFileMonitor \<Rightarrow> bool" where
  "fm_state k m = (fm_inv m \<and> fm_serial m \<le> Suc k \<and> (initialized_inotify m \<or> wd_to_watch m = []))"

lemma fm_state_cong:
  assumes "fm_state k m" "path_to_watch m' = path_to_watch m" "wd_to_watch m' = wd_to_watch m" "fm_notifies m' = fm_notifies m"
    "fm_watches m' = fm_watches m" "fm_next m' = fm_next m" "fm_serial m' = fm_serial m" "initialized_inotify m' = initialized_inotify m"
  shows "fm_state k m'"
  using assms fm_inv_cong [of m m'] by (auto simp: fm_state_def)

lemma data_pending_state: "inotify_data_pending rs m = Some (b, m') \<Longrightarrow> fm_state k m \<Longrightarrow> fm_state k m'"
proof (induction rs m rule: inotify_data_pending.induct)
  case (4 rs m)
  then have "fm_state k (m\<lparr>fm_io_watch := False\<rparr>)" by (auto intro: fm_state_cong [OF 4(2)])
  with 4 close_inotify_inv [of "m\<lparr>fm_io_watch := False\<rparr>"] show ?case by (auto simp: fm_state_def)
next
  case (5 rs m)
  then have s: "fm_state k (m\<lparr>fm_io_watch := False\<rparr>)" "fm_state k (m\<lparr>fm_buflen := 2 * fm_buflen m\<rparr>)"
    by (auto intro: fm_state_cong [OF 5(3)])
  with 5 close_inotify_inv [of "m\<lparr>fm_io_watch := False\<rparr>"] show ?case by (auto simp: fm_state_def split: if_splits)
qed (auto simp: fm_state_def)

text \<open>Callbacks that leave the monitor alone.\<close>

definition quiet :: notify_func where
  "quiet i e p m = Some m"

definition notify_calls :: "CkFileMonitor \<Rightarrow> FileMonitorEventInfo \<Rightarrow> string \<Rightarrow> nat list \<Rightarrow> (nat \<times> CkFileMonitorEvent \<times> string) list" where
  "notify_calls m ei dir l =
     concat (map (\<lambda>i. case g_hash_table_lookup (fm_notifies m) i of
         None \<Rightarrow> []
       | Some n \<Rightarrow> if has (fn_mask n) (event_bit (ei_event ei)) \<and> fn_has_func n
                   then [(i, ei_event ei, case ei_path ei of None \<Rightarrow> dir | Some p \<Rightarrow> g_build_filename dir p)] else []) l)"

definition deliveries :: "CkFileMonitor \<Rightarrow> FileMonitorEventInfo \<Rightarrow> (nat \<times> CkFileMonitorEvent \<times> string) list" where
  "deliveries m ei =
     (case g_hash_table_lookup (wd_to_watch m) (ei_wd ei) of
        None \<Rightarrow> []
      | Some a \<Rightarrow> (case fm_watches m a of None \<Rightarrow> [] | Some w \<Rightarrow> notify_calls m ei (fw_path w) (fw_notifies w)))"

lemma call_notify_quiet:
  "call_notify quiet ei dir i m = Some (m\<lparr>fm_calls := fm_calls m @ notify_calls m ei dir [i]\<rparr>)"
  by (simp add: call_notify_def notify_calls_def quiet_def Let_def split: option.splits)

lemma notify_calls_cong [simp]: "notify_calls (m\<lparr>fm_calls := c\<rparr>) ei dir l = notify_calls m ei dir l"
  by (simp add: notify_calls_def)

lemma deliveries_cong [simp]: "deliveries (m\<lparr>fm_calls := c\<rparr>) = deliveries m"
  by (rule ext) (simp add: deliveries_def split: option.splits)

lemma deliveries_idle [simp]: "deliveries (m\<lparr>events_idle_id := b, notify_events := q\<rparr>) = deliveries m"
  by (rule ext) (simp add: deliveries_def notify_calls_def split: option.splits)

lemma notify_loop_quiet:
  assumes "fm_watches m a = Some w" "distinct (fw_notifies w)" "fw_notifies w = pre @ l" "length l \<le> fuel"
  shows "notify_loop fuel quiet ei a l m = Some (m\<lparr>fm_calls := fm_calls m @ notify_calls m ei (fw_path w) l\<rparr>)"
  using assms
proof (induction l arbitrary: m pre fuel)
  case (Cons i l)
  then obtain f where f: "fuel = Suc f" "length l \<le> f" by (cases fuel) auto
  have "i \<notin> set pre" using Cons.prems(2,3) by auto
  then have nx: "tl (dropWhile (\<lambda>x. x \<noteq> i) (fw_notifies w)) = l"
    unfolding Cons.prems(3) by (subst dropWhile_append2) auto
  let ?m = "m\<lparr>fm_calls := fm_calls m @ notify_calls m ei (fw_path w) [i]\<rparr>"
  have "notify_loop f quiet ei a l ?m = Some (?m\<lparr>fm_calls := fm_calls ?m @ notify_calls ?m ei (fw_path w) l\<rparr>)"
    using Cons.IH [of ?m "pre @ [i]" f] Cons.prems f by simp
  moreover have "i \<in> set (fw_notifies w)" using Cons.prems(3) by simp
  ultimately show ?case
    using Cons.prems(1) nx f(1) by (simp add: call_notify_quiet) (simp add: notify_calls_def)
qed (simp add: notify_calls_def)

lemma emit_events_quiet:
  assumes "fm_inv m" "\<forall>a w. fm_watches m a = Some w \<longrightarrow> length (fw_notifies w) \<le> fuel"
  shows "emit_events fuel quiet q m = Some (m\<lparr>fm_calls := fm_calls m @ concat (map (deliveries m) q)\<rparr>)"
  using assms
proof (induction q arbitrary: m)
  case (Cons ei q)
  show ?case
  proof (cases "g_hash_table_lookup (wd_to_watch m) (ei_wd ei)")
    case None
    with Cons show ?thesis by (simp add: deliveries_def)
  next
    case (Some a)
    then obtain w where w: "watch_ok m a w" using fm_invD(2) [OF Cons.prems(1)] by blast
    then have h: "fm_watches m a = Some w" "distinct (fw_notifies w)" by (auto simp: watch_ok_def)
    let ?m = "m\<lparr>fm_calls := fm_calls m @ deliveries m ei\<rparr>"
    have "fm_inv ?m" by (rule fm_inv_cong [OF Cons.prems(1)]) simp_all
    from Cons.IH [OF this] Cons.prems(2) have "emit_events fuel quiet q ?m = Some (?m\<lparr>fm_calls := fm_calls ?m @ concat (map (deliveries ?m) q)\<rparr>)"
      by simp
    moreover have "notify_loop fuel quiet ei a (fw_notifies w) m = Some ?m"
      using notify_loop_quiet [OF h, of "[]" "fw_notifies w" fuel ei] Cons.prems(2) h(1) Some by (simp add: deliveries_def)
    ultimately show ?thesis using Some h(1) by simp
  qed
qed simp

text \<open>
  The states of a monitor whose callbacks are quiet; \<open>k\<close> counts the requests. The kernel answers a request with a positive
  descriptor, the one it has already if the path leads to a file that is watched, or with a failure.
\<close>

inductive fm_reachable :: "nat \<Rightarrow> CkFileMonitor \<Rightarrow> bool" where
  fm_start: "fm_reachable 0 (ck_file_monitor_init b)"
| fm_add: "fm_reachable k m \<Longrightarrow> wd \<noteq> 0 \<Longrightarrow> k + 2 < 2 ^ 32 \<Longrightarrow>
    ck_file_monitor_add_notify path msk wd hf m = (i, m') \<Longrightarrow> fm_reachable (Suc k) m'"
| fm_remove: "fm_reachable k m \<Longrightarrow> ck_file_monitor_remove_notify i m = Some m' \<Longrightarrow> fm_reachable k m'"
| fm_data: "fm_reachable k m \<Longrightarrow> inotify_data_pending rs m = Some (b, m') \<Longrightarrow> fm_reachable k m'"
| fm_events: "fm_reachable k m \<Longrightarrow> emit_events_in_idle fuel quiet m = Some m' \<Longrightarrow>
    \<forall>a w. fm_watches m a = Some w \<longrightarrow> length (fw_notifies w) \<le> fuel \<Longrightarrow> fm_reachable k m'"
| fm_removals: "fm_reachable k m \<Longrightarrow> emit_removals_in_idle m = Some m' \<Longrightarrow> fm_reachable k m'"

lemma reachable_state: "fm_reachable k m \<Longrightarrow> fm_state k m"
proof (induction rule: fm_reachable.induct)
  case (fm_start b)
  then show ?case by (simp add: fm_state_def fm_inv_def ck_file_monitor_init_def setup_inotify_def)
next
  case (fm_add k m wd path msk hf i m')
  show ?case
  proof (cases "initialized_inotify m \<and> wd > 0")
    case True
    with fm_add have "fm_inv m" "initialized_inotify m" "wd > 0" "fm_serial m + 1 < 2 ^ 32" by (auto simp: fm_state_def)
    from add_notify_inv [OF this, of path msk hf] fm_add True show ?thesis
      by (auto simp: ck_file_monitor_add_notify_def fm_state_def)
  next
    case False
    with fm_add(2,4) have "m' = m"
      by (auto simp: ck_file_monitor_add_notify_def file_monitor_add_notify_for_path_def file_monitor_add_watch_for_path_def split: if_splits)
    with fm_add show ?thesis by (auto simp: fm_state_def)
  qed
next
  case (fm_remove k m i m')
  then show ?case using remove_notify_inv [of m i] by (auto simp: ck_file_monitor_remove_notify_def fm_state_def split: if_splits)
next
  case (fm_data k m rs b m')
  then show ?case using data_pending_state by blast
next
  case (fm_events k m fuel m')
  let ?m = "m\<lparr>events_idle_id := False, notify_events := []\<rparr>"
  have s: "fm_state k ?m" by (rule fm_state_cong [OF fm_events.IH]) simp_all
  with emit_events_quiet [of ?m fuel "notify_events m"] fm_events(2,3) have "m' = ?m\<lparr>fm_calls := fm_calls ?m @ concat (map (deliveries ?m) (notify_events m))\<rparr>"
    by (simp add: emit_events_in_idle_def fm_state_def)
  then show ?case using s by (auto intro: fm_state_cong [OF s])
next
  case (fm_removals k m m')
  let ?m = "m\<lparr>remove_idle_id := False, remove_events := []\<rparr>"
  have "fm_state k ?m" by (rule fm_state_cong [OF fm_removals.IH]) simp_all
  then show ?case using emit_removals_inv [of ?m "takeWhile (\<lambda>wd. wd \<noteq> 0) (remove_events m)"] fm_removals(2)
    by (auto simp: emit_removals_in_idle_def fm_state_def)
qed

section \<open>Properties\<close>

text \<open>What an event reaches: the notifications registered for the watch its descriptor leads to.\<close>

definition reaches :: "CkFileMonitor \<Rightarrow> FileMonitorEventInfo \<Rightarrow> nat \<Rightarrow> string \<Rightarrow> bool" where
  "reaches m ei i path =
     (\<exists>n a w. g_hash_table_lookup (fm_notifies m) i = Some n \<and> fn_watch n = Some a \<and>
        g_hash_table_lookup (wd_to_watch m) (ei_wd ei) = Some a \<and> fm_watches m a = Some w \<and>
        has (fn_mask n) (event_bit (ei_event ei)) \<and> fn_has_func n \<and>
        path = (case ei_path ei of None \<Rightarrow> fw_path w | Some p \<Rightarrow> g_build_filename (fw_path w) p))"

lemma notify_calls_simps [simp]:
  "notify_calls m ei dir [] = []"
  "notify_calls m ei dir (i # l) =
     (case g_hash_table_lookup (fm_notifies m) i of
        None \<Rightarrow> []
      | Some n \<Rightarrow> if has (fn_mask n) (event_bit (ei_event ei)) \<and> fn_has_func n
                  then [(i, ei_event ei, case ei_path ei of None \<Rightarrow> dir | Some p \<Rightarrow> g_build_filename dir p)] else []) @
     notify_calls m ei dir l"
  by (simp_all add: notify_calls_def)

lemma set_notify_calls:
  "(i, e, p) \<in> set (notify_calls m ei dir l) \<longleftrightarrow>
     i \<in> set l \<and> e = ei_event ei \<and> p = (case ei_path ei of None \<Rightarrow> dir | Some p \<Rightarrow> g_build_filename dir p) \<and>
     (\<exists>n. g_hash_table_lookup (fm_notifies m) i = Some n \<and> has (fn_mask n) (event_bit (ei_event ei)) \<and> fn_has_func n)"
proof (induction l)
  case (Cons x l)
  show ?case using Cons by (cases "g_hash_table_lookup (fm_notifies m) x") auto
qed simp

lemma distinct_notify_calls: "distinct l \<Longrightarrow> distinct (map fst (notify_calls m ei dir l))"
proof (induction l)
  case (Cons i l)
  have "i \<notin> fst ` set (notify_calls m ei dir l)" using Cons.prems set_notify_calls [of _ _ _ m ei dir l] by fastforce
  with Cons show ?case by (cases "g_hash_table_lookup (fm_notifies m) i") auto
qed simp

lemma deliveries_reach:
  assumes "fm_inv m" "initialized_inotify m \<or> wd_to_watch m = []"
  shows "(i, e, p) \<in> set (deliveries m ei) \<longleftrightarrow> e = ei_event ei \<and> reaches m ei i p" "distinct (map fst (deliveries m ei))"
proof -
  have "((i, e, p) \<in> set (deliveries m ei) \<longleftrightarrow> e = ei_event ei \<and> reaches m ei i p) \<and> distinct (map fst (deliveries m ei))"
  proof (cases "g_hash_table_lookup (wd_to_watch m) (ei_wd ei)")
    case None
    then show ?thesis by (simp add: deliveries_def reaches_def)
  next
    case (Some a)
    then have init: "initialized_inotify m" using assms(2) by auto
    obtain w where w: "watch_ok m a w" using fm_invD(2) [OF assms(1) Some] by blast
    then have h: "fm_watches m a = Some w" "distinct (fw_notifies w)" by (auto simp: watch_ok_def)
    have mem: "i \<in> set (fw_notifies w) \<longleftrightarrow> (\<exists>n. g_hash_table_lookup (fm_notifies m) i = Some n \<and> fn_watch n = Some a)"
    proof
      show "i \<in> set (fw_notifies w) \<Longrightarrow> \<exists>n. g_hash_table_lookup (fm_notifies m) i = Some n \<and> fn_watch n = Some a"
        using w by (auto simp: watch_ok_def)
      assume "\<exists>n. g_hash_table_lookup (fm_notifies m) i = Some n \<and> fn_watch n = Some a"
      then obtain v where "watch_ok m a v" "i \<in> set (fw_notifies v)" using fm_invD(3) [OF assms(1) init] by blast
      then show "i \<in> set (fw_notifies w)" using watch_ok_unique(2) [OF w] by auto
    qed
    show ?thesis
      using Some h distinct_notify_calls [OF h(2)] by (auto simp: deliveries_def set_notify_calls mem reaches_def)
  qed
  then show "(i, e, p) \<in> set (deliveries m ei) \<longleftrightarrow> e = ei_event ei \<and> reaches m ei i p" "distinct (map fst (deliveries m ei))" by blast+
qed

text \<open>
  C28: In every state a monitor can reach with callbacks that leave it alone, whatever descriptors the kernel answers, emptying the event
  queue returns: every queued event reaches every notification registered for the watch its descriptor leads to whose mask
  selects it and which has a function, once, in the order of the queue, and no other. Removing any
  notification and handling the queue of removals do not touch freed memory, and a removed
  notification is never called again.
\<close>

theorem file_events_are_delivered:
  assumes "fm_reachable k m" and "\<forall>a w. fm_watches m a = Some w \<longrightarrow> length (fw_notifies w) \<le> fuel"
  shows "(\<exists>m'. emit_events_in_idle fuel quiet m = Some m' \<and> notify_events m' = [] \<and>
      fm_calls m' = fm_calls m @ concat (map (deliveries m) (notify_events m))) \<and>
    (\<forall>ei. distinct (map fst (deliveries m ei)) \<and>
      (\<forall>i e path. (i, e, path) \<in> set (deliveries m ei) \<longleftrightarrow> e = ei_event ei \<and> reaches m ei i path)) \<and>
    emit_removals_in_idle m \<noteq> None \<and>
    (\<exists>m'. ck_file_monitor_remove_notify i m = Some m' \<and>
      (initialized_inotify m \<longrightarrow> (\<forall>ei c. c \<in> set (deliveries m' ei) \<longrightarrow> fst c \<noteq> i)))"
proof (intro conjI)
  have s: "fm_state k m" using reachable_state [OF assms(1)] .
  let ?m = "m\<lparr>events_idle_id := False, notify_events := []\<rparr>"
  have "fm_inv ?m" using fm_state_cong [OF s, of ?m] by (simp add: fm_state_def)
  with emit_events_quiet [of ?m fuel "notify_events m"] assms(2)
  show "\<exists>m'. emit_events_in_idle fuel quiet m = Some m' \<and> notify_events m' = [] \<and>
      fm_calls m' = fm_calls m @ concat (map (deliveries m) (notify_events m))"
    by (simp add: emit_events_in_idle_def)
  show "\<forall>ei. distinct (map fst (deliveries m ei)) \<and>
      (\<forall>i e path. (i, e, path) \<in> set (deliveries m ei) \<longleftrightarrow> e = ei_event ei \<and> reaches m ei i path)"
    using deliveries_reach [of m] s by (simp add: fm_state_def)
  let ?r = "m\<lparr>remove_idle_id := False, remove_events := []\<rparr>"
  have "fm_state k ?r" by (rule fm_state_cong [OF s]) simp_all
  with emit_removals_inv [of ?r "takeWhile (\<lambda>wd. wd \<noteq> 0) (remove_events m)"]
  show "emit_removals_in_idle m \<noteq> None" by (auto simp: emit_removals_in_idle_def fm_state_def)
  show "\<exists>m'. ck_file_monitor_remove_notify i m = Some m' \<and>
      (initialized_inotify m \<longrightarrow> (\<forall>ei c. c \<in> set (deliveries m' ei) \<longrightarrow> fst c \<noteq> i))"
  proof (cases "initialized_inotify m")
    case True
    with s remove_notify_inv [of m i] obtain m' where
      "file_monitor_remove_notify i m = Some m'" "g_hash_table_lookup (fm_notifies m') i = None"
      by (auto simp: fm_state_def)
    with True show ?thesis
      by (auto simp: ck_file_monitor_remove_notify_def deliveries_def notify_calls_def split: option.splits if_splits)
  qed (simp add: ck_file_monitor_remove_notify_def)
qed

text \<open>A monitor with one watched terminal and one access to it.\<close>

definition watched_terminal :: CkFileMonitor where
  "watched_terminal = snd (ck_file_monitor_add_notify ''/dev/tty7'' (event_bit CK_FILE_MONITOR_EVENT_ACCESS) 1 True (ck_file_monitor_init True))"

definition accessed_terminal :: CkFileMonitor where
  "accessed_terminal = known_event \<lparr>ie_wd = 1, ie_mask = IN_ACCESS, ie_name = None\<rparr> watched_terminal"

lemma accessed_terminal_state:
  "notify_events accessed_terminal = [\<lparr>ei_wd = 1, ei_event = CK_FILE_MONITOR_EVENT_ACCESS, ei_path = None\<rparr>]"
  "fm_watches accessed_terminal = [0 \<mapsto> \<lparr>fw_wd = 1, fw_path = ''/dev/tty7'', fw_notifies = [1]\<rparr>]"
  "g_hash_table_lookup (wd_to_watch accessed_terminal) 1 = Some 0"
  "g_hash_table_lookup (fm_notifies accessed_terminal) 1 = Some \<lparr>fn_mask = event_bit CK_FILE_MONITOR_EVENT_ACCESS, fn_has_func = True, fn_watch = Some 0\<rparr>"
  "fm_calls accessed_terminal = []" "initialized_inotify accessed_terminal"
  by (simp_all add: accessed_terminal_def watched_terminal_def ck_file_monitor_init_def setup_inotify_def ck_file_monitor_add_notify_def
      file_monitor_add_notify_for_path_def file_monitor_add_watch_for_path_def known_event_def handle_inotify_event_def event_of_mask_def has_def
      IN_ACCESS_def IN_CREATE_def IN_MOVED_TO_def IN_DELETE_def IN_DELETE_SELF_def IN_MOVED_FROM_def IN_MOVE_SELF_def IN_MODIFY_def IN_ATTRIB_def
      IN_IGNORED_def queue_watch_event_def file_monitor_queue_event_def Let_def)

lemma accessed_terminal_reachable: "fm_reachable 1 accessed_terminal"
proof -
  from fm_add [OF fm_start [of True], of 1 "''/dev/tty7''" "event_bit CK_FILE_MONITOR_EVENT_ACCESS" True]
  have "fm_reachable 1 watched_terminal" by (simp add: watched_terminal_def prod_eq_iff)
  moreover have "inotify_data_pending [Read_Events [\<lparr>ie_wd = 1, ie_mask = IN_ACCESS, ie_name = None\<rparr>]] watched_terminal = Some (True, accessed_terminal)"
    by (simp add: accessed_terminal_def)
  ultimately show ?thesis by (rule fm_data)
qed

theorem file_events_are_delivered_witness:
  "(\<exists>m'. emit_events_in_idle 1 quiet accessed_terminal = Some m' \<and> fm_calls m' = [(1, CK_FILE_MONITOR_EVENT_ACCESS, ''/dev/tty7'')]) \<and>
   emit_removals_in_idle accessed_terminal \<noteq> None"
proof -
  have f: "\<forall>a w. fm_watches accessed_terminal a = Some w \<longrightarrow> length (fw_notifies w) \<le> 1"
    by (auto simp: accessed_terminal_state split: if_splits)
  have "concat (map (deliveries accessed_terminal) (notify_events accessed_terminal)) = [(1, CK_FILE_MONITOR_EVENT_ACCESS, ''/dev/tty7'')]"
    using accessed_terminal_state(4) by (simp add: accessed_terminal_state deliveries_def notify_calls_def has_def event_bit_def)
  with file_events_are_delivered [OF accessed_terminal_reachable f, of 1] show ?thesis
    by (auto simp: accessed_terminal_state)
qed

text \<open>
  A callback that removes the notification it is called for makes the loop over the
  notifications of the file read a freed list cell, so emptying the event queue does not return
  normally. The callback of the terminal idle monitor does this: it restarts the monitor, which
  removes the notification and adds a new one.
\<close>

theorem callback_removing_itself_crashes:
  assumes "fm_reachable k m" "initialized_inotify m" "notify_events m = ei # q"
    and "g_hash_table_lookup (wd_to_watch m) (ei_wd ei) = Some a" "fm_watches m a = Some w" "fw_notifies w = i # l"
    and "g_hash_table_lookup (fm_notifies m) i = Some n" "has (fn_mask n) (event_bit (ei_event ei))" "fn_has_func n"
  shows "emit_events_in_idle fuel (\<lambda>i e p. ck_file_monitor_remove_notify i) m = None"
proof (cases fuel)
  case (Suc g)
  let ?m = "m\<lparr>events_idle_id := False, notify_events := []\<rparr>"
  have inv: "fm_inv m" using reachable_state [OF assms(1)] by (simp add: fm_state_def)
  obtain v where v: "watch_ok m a v" using fm_invD(2) [OF inv assms(4)] by blast
  then have n: "fn_watch n = Some a" "distinct (i # l)" "fw_wd w \<noteq> - 1" using assms(5,6,7) by (auto simp: watch_ok_def)
  let ?p = "case ei_path ei of None \<Rightarrow> fw_path w | Some p \<Rightarrow> g_build_filename (fw_path w) p"
  let ?c = "?m\<lparr>fm_calls := fm_calls m @ [(i, ei_event ei, ?p)]\<rparr>"
  obtain m' where m': "ck_file_monitor_remove_notify i ?c = Some m'" and gone: "\<And>v. fm_watches m' a = Some v \<Longrightarrow> i \<notin> set (fw_notifies v)"
    using assms(2,5,6,7) n
    by (cases l) (auto simp: ck_file_monitor_remove_notify_def file_monitor_remove_notify_def file_monitor_remove_watch_def free_watch_def
        monitor_release_watch_def Let_def)
  have "call_notify (\<lambda>i e p. ck_file_monitor_remove_notify i) ei (fw_path w) i ?m = Some m'"
    using assms(7-9) m' by (simp add: call_notify_def Let_def)
  then have "notify_loop fuel (\<lambda>i e p. ck_file_monitor_remove_notify i) ei a (i # l) ?m = None"
    using Suc assms(5) gone by (auto split: option.splits)
  then show ?thesis using assms(3-6) by (simp add: emit_events_in_idle_def)
qed (use assms in \<open>simp add: emit_events_in_idle_def\<close>)

theorem callback_removing_itself_crashes_witness:
  "emit_events_in_idle 9 (\<lambda>i e p. ck_file_monitor_remove_notify i) accessed_terminal = None"
  using callback_removing_itself_crashes [OF accessed_terminal_reachable accessed_terminal_state(6,1) _ _ _ accessed_terminal_state(4), of 0]
  by (simp add: accessed_terminal_state has_def event_bit_def)

text \<open>
  Two paths to one file. The kernel answers the second path with the descriptor it has, the table of descriptors then leads to the
  second watch only, and no event of the file reaches a notification of the first path any more.
\<close>

theorem shared_descriptor_hides_first_path:
  assumes "fm_reachable k m" "initialized_inotify m" "fm_serial m + 1 < 2 ^ 32" "wd > 0"
    and "g_hash_table_lookup (path_to_watch m) path = None" "ck_file_monitor_add_notify path msk wd hf m = (new, m')"
    and "ei_wd ei = wd" "reaches m' ei i q"
  shows "i = new"
proof -
  have inv: "fm_inv m" using reachable_state [OF assms(1)] by (simp add: fm_state_def)
  let ?a = "fm_next m"
  have m': "new = fm_serial m" "g_hash_table_lookup (wd_to_watch m') wd = Some ?a"
    "\<And>j. j \<noteq> new \<Longrightarrow> g_hash_table_lookup (fm_notifies m') j = g_hash_table_lookup (fm_notifies m) j"
    using assms(2-6)
    by (auto simp: ck_file_monitor_add_notify_def file_monitor_add_notify_for_path_def file_monitor_add_watch_for_path_def Let_def)
  show ?thesis
  proof (rule ccontr)
    assume "i \<noteq> new"
    then obtain n where "g_hash_table_lookup (fm_notifies m) i = Some n" "fn_watch n = Some ?a"
      using assms(7,8) m'(2,3) by (auto simp: reaches_def)
    then obtain w where "watch_ok m ?a w" using fm_invD(3) [OF inv assms(2)] by blast
    then show False using fm_invD(4) [OF inv, of ?a w] by (simp add: watch_ok_def)
  qed
qed

theorem shared_descriptor_hides_first_path_witness:
  "\<not> reaches (snd (ck_file_monitor_add_notify ''/dev/alias'' (event_bit CK_FILE_MONITOR_EVENT_ACCESS) 1 True accessed_terminal))
     \<lparr>ei_wd = 1, ei_event = CK_FILE_MONITOR_EVENT_ACCESS, ei_path = None\<rparr> 1 ''/dev/tty7''"
proof
  let ?r = "ck_file_monitor_add_notify ''/dev/alias'' (event_bit CK_FILE_MONITOR_EVENT_ACCESS) 1 True accessed_terminal"
  assume r: "reaches (snd ?r) \<lparr>ei_wd = 1, ei_event = CK_FILE_MONITOR_EVENT_ACCESS, ei_path = None\<rparr> 1 ''/dev/tty7''"
  have f: "fm_serial accessed_terminal = 2" "g_hash_table_lookup (path_to_watch accessed_terminal) ''/dev/alias'' = None"
    by (simp_all add: accessed_terminal_def watched_terminal_def ck_file_monitor_init_def setup_inotify_def ck_file_monitor_add_notify_def
        file_monitor_add_notify_for_path_def file_monitor_add_watch_for_path_def known_event_def handle_inotify_event_def event_of_mask_def has_def
        IN_ACCESS_def IN_CREATE_def IN_MOVED_TO_def IN_DELETE_def IN_DELETE_SELF_def IN_MOVED_FROM_def IN_MOVE_SELF_def IN_MODIFY_def IN_ATTRIB_def
        IN_IGNORED_def queue_watch_event_def file_monitor_queue_event_def Let_def)
  have "1 = fst ?r"
    using shared_descriptor_hides_first_path [OF accessed_terminal_reachable accessed_terminal_state(6) _ _ f(2) _ _ r, of 1 "event_bit CK_FILE_MONITOR_EVENT_ACCESS" True "fst ?r"] f(1)
    by simp
  moreover have "fst ?r = 2"
    using f accessed_terminal_state(6)
    by (simp add: ck_file_monitor_add_notify_def file_monitor_add_notify_for_path_def file_monitor_add_watch_for_path_def Let_def)
  ultimately show False by simp
qed

end
