(* ===== verification/CK_Connector.thy ===== *)
theory CK_Connector
  imports CK_ManagerSessions
begin

text \<open>
  The clients that register logins: the connector library (src/libck-connector/ck-connector.c)
  and the PAM module (src/pam-ck-connector/pam-ck-connector.c).

  The system bus with the daemon behind it is a parameter: a record of functions on a state of
  any type. The laws the clients rely on are the locale \<open>session_service\<close>, interpreted on the
  manager of the daemon. \<open>None\<close> is a process ended by a failed check of libdbus: an error set
  twice, a string that is not UTF-8, a missing connection. Which kinds of allocation succeed and
  which strings are UTF-8 are fields of the bus; log messages are left out.
\<close>

section \<open>The bus\<close>

datatype ck_call =
    Call_OpenSession
  | Call_OpenSessionWithParameters "(string \<times> gvariant) list"
  | Call_GetSessionForCookie string
  | Call_GetXDGRuntimeDir string
  | Call_CloseSession string

datatype ck_reply = Got_Error string | Got_String string | Got_Path string | Got_Bool bool | Got_Other

datatype alloc = Alloc_Connector | Alloc_Message | Alloc_Argument | Alloc_String

record 'd bus =
  bus_mem :: "alloc \<Rightarrow> bool"
  bus_utf8 :: "string \<Rightarrow> bool"
  bus_mismatch :: string
  bus_connect :: "'d \<Rightarrow> (string + nat) \<times> 'd"
  bus_send :: "nat \<Rightarrow> ck_call \<Rightarrow> 'd \<Rightarrow> ck_reply \<times> 'd"
  bus_close :: "nat \<Rightarrow> 'd \<Rightarrow> 'd"

text \<open>The message of a \<open>DBusError\<close>; setting one that is set fails a check.\<close>

type_synonym dbus_error = cstring

definition dbus_set_error :: "string \<Rightarrow> dbus_error \<Rightarrow> dbus_error option" where
  "dbus_set_error msg e = (if e = None then Some (Some msg) else None)"

definition reply_error :: "'d bus \<Rightarrow> ck_reply \<Rightarrow> string" where
  "reply_error B r = (case r of Got_Error m \<Rightarrow> m | _ \<Rightarrow> bus_mismatch B)"

section \<open>The connector\<close>

record CkConnector =
  cc_refcount :: int
  cc_cookie :: cstring
  cc_ssid :: cstring
  cc_runtime_dir :: cstring
  cc_session_created :: bool
  cc_connection :: "nat option"

definition connector_parameters :: "(string \<times> param_type) list" where
  "connector_parameters =
     [(''display-device'', P_STRING), (''x11-display-device'', P_STRING), (''x11-display'', P_STRING),
      (''remote-host-name'', P_STRING), (''session-type'', P_STRING), (''session-service'', P_STRING),
      (''is-local'', P_BOOLEAN), (''unix-user'', P_INT)]"

definition connector_parameter_type :: "string \<Rightarrow> param_type option" where
  "connector_parameter_type name = map_of connector_parameters name"

text \<open>An argument is a pointer to a value; the name decides how it is read.\<close>

datatype c_arg = Arg_string cstring | Arg_bool bool | Arg_int int

datatype 'a added = Added 'a | Add_Failed | Add_Aborts

definition add_param_basic :: "'d bus \<Rightarrow> string \<Rightarrow> param_type \<Rightarrow> c_arg \<Rightarrow> (string \<times> gvariant) added" where
  "add_param_basic B name t v =
     (if t = P_UINT then Add_Failed
      else if \<not> bus_mem B Alloc_Argument then Add_Failed
      else if \<not> bus_utf8 B name then Add_Aborts
      else
        (case (t, v) of
           (P_STRING, Arg_string (Some s)) \<Rightarrow> if bus_utf8 B s then Added (name, V_string s) else Add_Aborts
         | (P_BOOLEAN, Arg_bool b) \<Rightarrow> Added (name, V_bool b)
         | (P_INT, Arg_int i) \<Rightarrow> Added (name, V_int i)
         | _ \<Rightarrow> Add_Aborts))"

datatype params_result = Params "(string \<times> gvariant) list" | Params_Error string | Params_Abort

fun add_params :: "'d bus \<Rightarrow> (string \<times> c_arg) list \<Rightarrow> (string \<times> gvariant) list \<Rightarrow> params_result" where
  "add_params B [] ps = Params ps"
| "add_params B ((name, v) # args) ps =
     (case connector_parameter_type name of
        None \<Rightarrow> Params_Error (''Unknown parameter: '' @ name)
      | Some t \<Rightarrow>
          (case add_param_basic B name t v of
             Add_Aborts \<Rightarrow> Params_Abort
           | Add_Failed \<Rightarrow> Params_Error (''Error adding parameter: '' @ name)
           | Added p \<Rightarrow> add_params B args (ps @ [p])))"

definition ck_connector_new :: "'d bus \<Rightarrow> CkConnector option" where
  "ck_connector_new B =
     (if bus_mem B Alloc_Connector
      then Some \<lparr>cc_refcount = 1, cc_cookie = None, cc_ssid = None, cc_runtime_dir = None, cc_session_created = False, cc_connection = None\<rparr>
      else None)"

definition ck_connector_ref :: "CkConnector \<Rightarrow> CkConnector" where
  "ck_connector_ref c = c\<lparr>cc_refcount := cc_refcount c + 1\<rparr>"

definition ck_connector_free :: "'d bus \<Rightarrow> CkConnector \<Rightarrow> 'd \<Rightarrow> 'd" where
  "ck_connector_free B c d = (case cc_connection c of None \<Rightarrow> d | Some n \<Rightarrow> bus_close B n d)"

text \<open>\<open>None\<close> in the result is a freed connector.\<close>

definition ck_connector_unref :: "'d bus \<Rightarrow> CkConnector \<Rightarrow> 'd \<Rightarrow> CkConnector option \<times> 'd" where
  "ck_connector_unref B c d =
     (let c = c\<lparr>cc_refcount := cc_refcount c - 1\<rparr>
      in if cc_refcount c = 0 then (None, ck_connector_free B c d) else (Some c, d))"

type_synonym 'd connected = "bool \<times> CkConnector \<times> dbus_error \<times> 'd"

text \<open>What both ways of opening a session do with the reply.\<close>

definition receive_cookie :: "'d bus \<Rightarrow> ck_reply \<Rightarrow> CkConnector \<Rightarrow> dbus_error \<Rightarrow> 'd \<Rightarrow> 'd connected option" where
  "receive_cookie B r c e d =
     (case r of
        Got_String s \<Rightarrow>
          if bus_mem B Alloc_String
          then Some (True, c\<lparr>cc_cookie := Some s, cc_session_created := True\<rparr>, e, d)
          else Some (False, c\<lparr>cc_cookie := None\<rparr>, e, d)
      | _ \<Rightarrow> map_option (\<lambda>e. (False, c, e, d)) (dbus_set_error (''Unable to open session: '' @ reply_error B r) e))"

definition ck_connector_open_session :: "'d bus \<Rightarrow> CkConnector \<Rightarrow> dbus_error \<Rightarrow> 'd \<Rightarrow> 'd connected option" where
  "ck_connector_open_session B c e d =
     (if e \<noteq> None then Some (False, c, e, d)
      else
        (case bus_connect B d of
           (Inl m, d) \<Rightarrow>
             map_option (\<lambda>e. (False, c\<lparr>cc_connection := None\<rparr>, e, d)) (dbus_set_error (''Unable to open session: '' @ m) e)
         | (Inr n, d) \<Rightarrow>
             let c = c\<lparr>cc_connection := Some n\<rparr> in
             if \<not> bus_mem B Alloc_Message then Some (False, c, e, d)
             else let (r, d) = bus_send B n Call_OpenSession d in receive_cookie B r c e d))"

definition ck_connector_open_session_with_parameters_valist ::
  "'d bus \<Rightarrow> (string \<times> c_arg) list \<Rightarrow> CkConnector \<Rightarrow> dbus_error \<Rightarrow> 'd \<Rightarrow> 'd connected option" where
  "ck_connector_open_session_with_parameters_valist B args c e d =
     (case bus_connect B d of
        (Inl m, d) \<Rightarrow>
          map_option (\<lambda>e. (False, c\<lparr>cc_connection := None\<rparr>, e, d)) (dbus_set_error (''Unable to open session: '' @ m) e)
      | (Inr n, d) \<Rightarrow>
          let c = c\<lparr>cc_connection := Some n\<rparr> in
          if \<not> bus_mem B Alloc_Message then Some (False, c, e, d)
          else
            (case add_params B args [] of
               Params_Abort \<Rightarrow> None
             | Params_Error m \<Rightarrow> map_option (\<lambda>e. (False, c, e, d)) (dbus_set_error m e)
             | Params ps \<Rightarrow>
                 let (r, d) = bus_send B n (Call_OpenSessionWithParameters ps) d in receive_cookie B r c e d))"

definition ck_connector_open_session_with_parameters ::
  "'d bus \<Rightarrow> (string \<times> c_arg) list \<Rightarrow> CkConnector \<Rightarrow> dbus_error \<Rightarrow> 'd \<Rightarrow> 'd connected option" where
  "ck_connector_open_session_with_parameters B args c e d =
     (if e \<noteq> None then Some (False, c, e, d) else ck_connector_open_session_with_parameters_valist B args c e d)"

definition ck_connector_open_session_for_user ::
  "'d bus \<Rightarrow> nat \<Rightarrow> cstring \<Rightarrow> cstring \<Rightarrow> CkConnector \<Rightarrow> dbus_error \<Rightarrow> 'd \<Rightarrow> 'd connected option" where
  "ck_connector_open_session_for_user B user display_device x11_display c e d =
     (if display_device = None \<or> e \<noteq> None then Some (False, c, e, d)
      else ck_connector_open_session_with_parameters B
             [(''display-device'', Arg_string display_device), (''x11-display'', Arg_string x11_display),
              (''unix-user'', Arg_int (as_gint user))] c e d)"

definition ck_connector_get_cookie :: "CkConnector \<Rightarrow> cstring" where
  "ck_connector_get_cookie c = (if \<not> cc_session_created c then None else cc_cookie c)"

text \<open>
  Asking for the session sets the error a second time when the reply has the wrong type.
\<close>

definition ck_connector_get_ssid :: "'d bus \<Rightarrow> CkConnector \<Rightarrow> dbus_error \<Rightarrow> 'd \<Rightarrow> 'd connected option" where
  "ck_connector_get_ssid B c e d =
     (case (cc_session_created c, cc_cookie c, cc_connection c) of
        (True, Some k, Some n) \<Rightarrow>
          if \<not> bus_mem B Alloc_Message \<or> \<not> bus_mem B Alloc_Argument then Some (False, c, e, d)
          else
            (case bus_send B n (Call_GetSessionForCookie k) d of
               (Got_Error m, d) \<Rightarrow>
                 map_option (\<lambda>e. (False, c, e, d))
                   (dbus_set_error (''Unable to get session for cookie: '' @ m @ '', no reply from dbus'') e)
             | (Got_Path p, d) \<Rightarrow>
                 if e \<noteq> None then None
                 else if bus_mem B Alloc_String then Some (True, c\<lparr>cc_ssid := Some p\<rparr>, e, d)
                 else Some (False, c\<lparr>cc_ssid := None\<rparr>, e, d)
             | _ \<Rightarrow> None)
      | (True, Some k, None) \<Rightarrow> None
      | _ \<Rightarrow> Some (False, c, e, d))"

definition ask_runtime_dir :: "'d bus \<Rightarrow> CkConnector \<Rightarrow> dbus_error \<Rightarrow> 'd \<Rightarrow> (cstring \<times> CkConnector \<times> dbus_error \<times> 'd) option" where
  "ask_runtime_dir B c e d =
     (case (cc_ssid c, cc_connection c) of
        (Some p, Some n) \<Rightarrow>
          if \<not> bus_mem B Alloc_Message then Some (cc_runtime_dir c, c, e, d)
          else
            (case bus_send B n (Call_GetXDGRuntimeDir p) d of
               (Got_Error m, d) \<Rightarrow>
                 map_option (\<lambda>e. (cc_runtime_dir c, c, e, d)) (dbus_set_error (''Unable to get runtime dir for session: '' @ m) e)
             | (Got_String s, d) \<Rightarrow>
                 if e \<noteq> None then None
                 else let c = c\<lparr>cc_runtime_dir := if bus_mem B Alloc_String then Some s else None\<rparr> in Some (cc_runtime_dir c, c, e, d)
             | _ \<Rightarrow> None)
      | _ \<Rightarrow> None)"

definition ck_connector_get_runtime_dir ::
  "'d bus \<Rightarrow> CkConnector \<Rightarrow> dbus_error \<Rightarrow> 'd \<Rightarrow> (cstring \<times> CkConnector \<times> dbus_error \<times> 'd) option" where
  "ck_connector_get_runtime_dir B c e d =
     (if \<not> cc_session_created c \<or> cc_cookie c = None then Some (None, c, e, d)
      else if cc_runtime_dir c \<noteq> None then Some (cc_runtime_dir c, c, e, d)
      else if cc_ssid c \<noteq> None then ask_runtime_dir B c e d
      else
        (case ck_connector_get_ssid B c e d of
           None \<Rightarrow> None
         | Some (False, c, e, d) \<Rightarrow> Some (None, c, e, d)
         | Some (True, c, e, d) \<Rightarrow> ask_runtime_dir B c e d))"

definition ck_connector_close_session :: "'d bus \<Rightarrow> CkConnector \<Rightarrow> dbus_error \<Rightarrow> 'd \<Rightarrow> 'd connected option" where
  "ck_connector_close_session B c e d =
     (if e \<noteq> None then Some (False, c, e, d)
      else
        (case (cc_session_created c, cc_cookie c, cc_connection c) of
           (True, Some k, Some n) \<Rightarrow>
             if \<not> bus_mem B Alloc_Message \<or> \<not> bus_mem B Alloc_Argument then Some (False, c, e, d)
             else
               (case bus_send B n (Call_CloseSession k) d of
                  (Got_Bool closed, d) \<Rightarrow>
                    if closed then Some (True, c\<lparr>cc_session_created := False\<rparr>, e, d) else Some (False, c, e, d)
                | (r, d) \<Rightarrow> map_option (\<lambda>e. (False, c, e, d)) (dbus_set_error (''Unable to close session: '' @ reply_error B r) e))
         | (True, Some k, None) \<Rightarrow> None
         | _ \<Rightarrow> map_option (\<lambda>e. (False, c, e, d)) (dbus_set_error ''Unable to close session: no session open'' e)))"

section \<open>The PAM module\<close>

datatype pam_result = PAM_SUCCESS | PAM_IGNORE

text \<open>What PAM and the user database answer; a failed call is \<open>None\<close>.\<close>

record pam_handle =
  ph_user :: cstring
  ph_tty :: cstring
  ph_rhost :: cstring
  ph_getenv :: "string \<Rightarrow> cstring"
  ph_putenv :: "string \<Rightarrow> bool"
  ph_pwnam :: "string \<Rightarrow> nat option"

record pam_module =
  opt_debug :: bool
  opt_nox11 :: bool
  ckc :: "CkConnector option"
  pam_environ :: "string list"

fun parse_pam_args :: "string list \<Rightarrow> pam_module \<Rightarrow> pam_module" where
  "parse_pam_args [] m = m"
| "parse_pam_args (a # argv) m =
     parse_pam_args argv
       (if a = ''debug'' then m\<lparr>opt_debug := True\<rparr> else if a = ''nox11'' then m\<lparr>opt_nox11 := True\<rparr> else m)"

definition pam_sm_authenticate :: pam_result where
  "pam_sm_authenticate = PAM_IGNORE"

definition pam_sm_setcred :: pam_result where
  "pam_sm_setcred = PAM_IGNORE"

definition util_name_to_uid :: "pam_handle \<Rightarrow> string \<Rightarrow> nat" where
  "util_name_to_uid h user = (case ph_pwnam h user of None \<Rightarrow> 2 ^ 32 - 1 | Some u \<Rightarrow> u)"

definition pam_sm_close_session :: "'d bus \<Rightarrow> pam_module \<Rightarrow> 'd \<Rightarrow> pam_result \<times> pam_module \<times> 'd" where
  "pam_sm_close_session B m d =
     (case ckc m of
        None \<Rightarrow> (PAM_SUCCESS, m, d)
      | Some c \<Rightarrow> (PAM_SUCCESS, m\<lparr>ckc := None\<rparr>, snd (ck_connector_unref B c d)))"

text \<open>The display device and the X11 display of a PAM terminal.\<close>

definition pam_display :: "'d bus \<Rightarrow> bool \<Rightarrow> string \<Rightarrow> (string \<times> cstring) option" where
  "pam_display B nox11 tty =
     (if CHR '':'' \<in> set tty then if nox11 then None else Some ('''', Some tty)
      else if take 5 tty \<noteq> ''/dev/'' then if bus_mem B Alloc_String then Some (''/dev/'' @ tty, None) else None
      else Some (tty, None))"

definition empty_string :: "cstring \<Rightarrow> bool" where
  "empty_string s = (s = None \<or> s = Some [])"

definition or_empty :: "cstring \<Rightarrow> string" where
  "or_empty s = (case s of None \<Rightarrow> '''' | Some s \<Rightarrow> s)"

text \<open>The arguments for the daemon; \<open>None\<close> when the login is not registered.\<close>

definition pam_parameters :: "'d bus \<Rightarrow> pam_handle \<Rightarrow> bool \<Rightarrow> (string \<times> c_arg) list option" where
  "pam_parameters B h nox11 =
     (if empty_string (ph_user h) \<or> empty_string (ph_tty h) then None
      else
        (case pam_display B nox11 (the (ph_tty h)) of
           None \<Rightarrow> None
         | Some (display_device, x11_display) \<Rightarrow>
             let remote_host_name = (if empty_string (ph_rhost h) then None else ph_rhost h);
                 is_local = empty_string (ph_rhost h);
                 display_device = (case ph_getenv h ''CKCON_TTY'' of None \<Rightarrow> display_device | Some s \<Rightarrow> s);
                 x11_display = (case ph_getenv h ''CKCON_X11_DISPLAY'' of None \<Rightarrow> x11_display | Some s \<Rightarrow> Some s);
                 x11_display_device =
                   (case ph_getenv h ''CKCON_X11_DISPLAY_DEVICE'' of
                      Some s \<Rightarrow> Some s
                    | None \<Rightarrow> map_option (\<lambda>s. ''/dev/tty'' @ s) (ph_getenv h ''XDG_VTNR''));
                 uid = util_name_to_uid h (the (ph_user h))
             in if uid = 2 ^ 32 - 1 then None
                else Some [(''unix-user'', Arg_int (as_gint uid)), (''display-device'', Arg_string (Some display_device)),
                           (''x11-display'', Arg_string (Some (or_empty x11_display))),
                           (''x11-display-device'', Arg_string (Some (or_empty x11_display_device))),
                           (''remote-host-name'', Arg_string (Some (or_empty remote_host_name))), (''is-local'', Arg_bool is_local)]))"

text \<open>\<open>snprintf\<close> into 255 bytes, and the variable is put into the environment of the login.\<close>

definition pam_setenv :: "pam_handle \<Rightarrow> string \<Rightarrow> pam_module \<Rightarrow> bool \<times> pam_module" where
  "pam_setenv h s m =
     (let v = take 254 s in if ph_putenv h v then (True, m\<lparr>pam_environ := pam_environ m @ [v]\<rparr>) else (False, m))"

definition tear_down :: "'d bus \<Rightarrow> CkConnector \<Rightarrow> pam_module \<Rightarrow> 'd \<Rightarrow> pam_result \<times> pam_module \<times> 'd" where
  "tear_down B c m d = (PAM_IGNORE, m\<lparr>ckc := None\<rparr>, snd (ck_connector_unref B c d))"

definition register_environment ::
  "'d bus \<Rightarrow> pam_handle \<Rightarrow> CkConnector \<Rightarrow> dbus_error \<Rightarrow> pam_module \<Rightarrow> 'd \<Rightarrow> (pam_result \<times> pam_module \<times> 'd) option" where
  "register_environment B h c e m d =
     (case pam_setenv h (''XDG_SESSION_COOKIE='' @ or_empty (ck_connector_get_cookie c)) m of
        (False, m) \<Rightarrow> Some (tear_down B c m d)
      | (True, m) \<Rightarrow>
          (case ck_connector_get_runtime_dir B c e d of
             None \<Rightarrow> None
           | Some (None, c, e, d) \<Rightarrow> Some (PAM_SUCCESS, m\<lparr>ckc := Some c\<rparr>, d)
           | Some (Some dir, c, e, d) \<Rightarrow>
               (case pam_setenv h (''XDG_RUNTIME_DIR='' @ dir) m of
                  (False, m) \<Rightarrow> Some (tear_down B c m d)
                | (True, m) \<Rightarrow> Some (PAM_SUCCESS, m\<lparr>ckc := Some c\<rparr>, d))))"

definition pam_sm_open_session ::
  "'d bus \<Rightarrow> pam_handle \<Rightarrow> string list \<Rightarrow> pam_module \<Rightarrow> 'd \<Rightarrow> (pam_result \<times> pam_module \<times> 'd) option" where
  "pam_sm_open_session B h argv m d =
     (let m = parse_pam_args argv (m\<lparr>opt_debug := False\<rparr>) in
      if ckc m \<noteq> None then Some (PAM_IGNORE, m, d)
      else
        (case ck_connector_new B of
           None \<Rightarrow> Some (PAM_IGNORE, m, d)
         | Some c \<Rightarrow>
             let m = m\<lparr>ckc := Some c\<rparr> in
             (case pam_parameters B h (opt_nox11 m) of
                None \<Rightarrow> Some (PAM_IGNORE, m, d)
              | Some args \<Rightarrow>
                  (case ck_connector_open_session_with_parameters B args c None d of
                     None \<Rightarrow> None
                   | Some (False, c, e, d) \<Rightarrow> Some (PAM_IGNORE, m\<lparr>ckc := Some c\<rparr>, d)
                   | Some (True, c, e, d) \<Rightarrow> register_environment B h c e m d))))"

section \<open>Lemmas\<close>

text \<open>The variable that carries a cookie.\<close>

definition cookie_variable :: "string \<Rightarrow> string" where
  "cookie_variable k = take 254 (''XDG_SESSION_COOKIE='' @ k)"

definition arg_utf8 :: "'d bus \<Rightarrow> c_arg \<Rightarrow> bool" where
  "arg_utf8 B v = (case v of Arg_string None \<Rightarrow> False | Arg_string (Some s) \<Rightarrow> bus_utf8 B s | _ \<Rightarrow> True)"

definition args_utf8 :: "'d bus \<Rightarrow> (string \<times> c_arg) list \<Rightarrow> bool" where
  "args_utf8 B args = list_all (\<lambda>(name, v). bus_utf8 B name \<and> arg_utf8 B v \<and>
     (case connector_parameter_type name of
        Some P_STRING \<Rightarrow> (\<exists>s. v = Arg_string s) | Some P_BOOLEAN \<Rightarrow> (\<exists>b. v = Arg_bool b) | Some P_INT \<Rightarrow> (\<exists>i. v = Arg_int i)
      | _ \<Rightarrow> True)) args"

lemma parse_pam_args_nox11: "opt_nox11 (parse_pam_args argv m) = (opt_nox11 m \<or> ''nox11'' \<in> set argv)"
  by (induction argv m rule: parse_pam_args.induct) auto

lemma parse_pam_args_ckc: "ckc (parse_pam_args argv m) = ckc m"
  by (induction argv m rule: parse_pam_args.induct) auto

lemma add_params_no_abort: "args_utf8 B args \<Longrightarrow> add_params B args ps \<noteq> Params_Abort"
proof (induction args arbitrary: ps)
  case (Cons a args)
  obtain name v where a: "a = (name, v)" by fastforce
  have "add_param_basic B name t v \<noteq> Add_Aborts" if "connector_parameter_type name = Some t" for t
    using Cons.prems that by (cases t) (auto simp: a args_utf8_def add_param_basic_def arg_utf8_def split: option.splits)
  with Cons show ?case by (auto simp: a args_utf8_def split: option.splits added.splits)
qed simp

lemma open_returns:
  assumes "bus_mem B = (\<lambda>_. True)" "args_utf8 B args"
  shows "\<exists>x. ck_connector_open_session_with_parameters B args c None d = Some x"
proof (cases "bus_connect B d")
  case (Pair x d1)
  have cookie: "\<exists>y. receive_cookie B r c None d = Some y" for r c d
    by (cases r) (auto simp: receive_cookie_def dbus_set_error_def)
  show ?thesis
    using Pair assms(1) add_params_no_abort [OF assms(2), of "[]"] cookie
    by (cases x; cases "add_params B args []")
      (auto simp: ck_connector_open_session_with_parameters_def ck_connector_open_session_with_parameters_valist_def
        dbus_set_error_def Let_def split_beta)
qed

section \<open>What the clients rely on\<close>

text \<open>
  The contract of the bus and the daemon: \<open>serves d n k\<close> says that the daemon holds an open
  session under the cookie \<open>k\<close> for the client on connection \<open>n\<close>. A call is answered with a value of
  its type or an error, an open is answered with a cookie just if the session is held, and a
  client that leaves the bus loses its sessions.
\<close>

locale session_service =
  fixes B :: "'d bus" and inv :: "'d \<Rightarrow> bool" and live :: "'d \<Rightarrow> nat \<Rightarrow> bool" and serves :: "'d \<Rightarrow> nat \<Rightarrow> string \<Rightarrow> bool"
  assumes connect_fails: "inv d \<Longrightarrow> bus_connect B d = (Inl m, d') \<Longrightarrow> inv d'"
    and connect_works: "inv d \<Longrightarrow> bus_connect B d = (Inr n, d') \<Longrightarrow> inv d' \<and> live d' n \<and> serves d' = serves d \<and> (\<forall>k. \<not> serves d n k)"
    and send_keeps: "inv d \<Longrightarrow> live d n \<Longrightarrow> bus_send B n call d = (r, d') \<Longrightarrow> inv d' \<and> live d' n"
    and open_reply: "inv d \<Longrightarrow> live d n \<Longrightarrow> call = Call_OpenSession \<or> call = Call_OpenSessionWithParameters ps \<Longrightarrow>
      bus_send B n call d = (r, d') \<Longrightarrow>
      (\<exists>k. r = Got_String k \<and> serves d' n k) \<or> (\<exists>m. r = Got_Error m \<and> (\<forall>k. serves d' n k \<longrightarrow> serves d n k))"
    and session_reply: "inv d \<Longrightarrow> live d n \<Longrightarrow> bus_send B n (Call_GetSessionForCookie k) d = (r, d') \<Longrightarrow>
      serves d' = serves d \<and> ((\<exists>p. r = Got_Path p) \<or> (\<exists>m. r = Got_Error m))"
    and dir_reply: "inv d \<Longrightarrow> live d n \<Longrightarrow> bus_send B n (Call_GetXDGRuntimeDir p) d = (r, d') \<Longrightarrow>
      serves d' = serves d \<and> ((\<exists>s. r = Got_String s) \<or> (\<exists>m. r = Got_Error m))"
    and close_reply: "inv d \<Longrightarrow> live d n \<Longrightarrow> bus_send B n (Call_CloseSession k) d = (r, d') \<Longrightarrow>
      r = Got_Bool True \<and> \<not> serves d' n k \<or> (\<exists>m. r = Got_Error m \<and> serves d' = serves d)"
    and hangup: "inv d \<Longrightarrow> inv (bus_close B n d) \<and> \<not> serves (bus_close B n d) n k"
begin

definition registered :: "CkConnector \<Rightarrow> dbus_error \<Rightarrow> 'd \<Rightarrow> nat \<Rightarrow> string \<Rightarrow> bool" where
  "registered c e d n k =
     (inv d \<and> live d n \<and> serves d n k \<and> e = None \<and> cc_connection c = Some n \<and> cc_cookie c = Some k \<and> cc_session_created c)"

lemma open_result:
  assumes "inv d" "bus_mem B = (\<lambda>_. True)"
    and "ck_connector_open_session_with_parameters B args c None d = Some (ok, c', e', d')" "bus_connect B d = (Inr n, d1)"
  shows "if ok then (\<exists>k. registered c' e' d' n k) \<and> cc_refcount c' = cc_refcount c \<and> cc_ssid c' = cc_ssid c \<and> cc_runtime_dir c' = cc_runtime_dir c
    else inv d' \<and> cc_connection c' = Some n \<and> (\<forall>k. \<not> serves d' n k)"
proof -
  note d1 = connect_works [OF assms(1,4)]
  show ?thesis
  proof (cases "add_params B args []")
    case (Params ps)
    obtain r d2 where s: "bus_send B n (Call_OpenSessionWithParameters ps) d1 = (r, d2)" by fastforce
    have "inv d2 \<and> live d2 n" using send_keeps [OF _ _ s] d1 by blast
    with open_reply [OF _ _ _ s, of ps] d1 Params s assms(2,3,4) show ?thesis
      by (auto simp: ck_connector_open_session_with_parameters_def ck_connector_open_session_with_parameters_valist_def
          receive_cookie_def dbus_set_error_def registered_def)
  qed (use d1 assms in \<open>auto simp: ck_connector_open_session_with_parameters_def
      ck_connector_open_session_with_parameters_valist_def dbus_set_error_def\<close>)
qed

lemma open_unconnected:
  assumes "inv d" "ck_connector_open_session_with_parameters B args c None d = Some (ok, c', e', d')" "bus_connect B d = (Inl m, d1)"
  shows "\<not> ok \<and> inv d' \<and> cc_connection c' = None"
  using assms connect_fails [OF assms(1,3)]
  by (auto simp: ck_connector_open_session_with_parameters_def ck_connector_open_session_with_parameters_valist_def dbus_set_error_def)

text \<open>A registered connector gets an answer on its runtime directory and stays registered.\<close>

lemma runtime_dir_result:
  assumes "registered c e d n k" "bus_mem B = (\<lambda>_. True)"
  shows "\<exists>dir c' e' d'. ck_connector_get_runtime_dir B c e d = Some (dir, c', e', d') \<and> cc_refcount c' = cc_refcount c \<and>
    inv d' \<and> live d' n \<and> serves d' n k \<and> cc_connection c' = Some n \<and> cc_cookie c' = Some k \<and> cc_session_created c'"
proof -
  have ask: "\<exists>dir c' e' d'. ask_runtime_dir B c e d = Some (dir, c', e', d') \<and> cc_refcount c' = cc_refcount c \<and>
      inv d' \<and> live d' n \<and> serves d' n k \<and> cc_connection c' = Some n \<and> cc_cookie c' = Some k \<and> cc_session_created c'"
    if reg: "registered c e d n k" and "cc_ssid c = Some p" for c e d p
  proof -
    obtain r d2 where s: "bus_send B n (Call_GetXDGRuntimeDir p) d = (r, d2)" by fastforce
    have "inv d2 \<and> live d2 n" "serves d2 = serves d \<and> ((\<exists>s. r = Got_String s) \<or> (\<exists>m. r = Got_Error m))"
      using send_keeps [OF _ _ s] dir_reply [OF _ _ s] reg by (auto simp: registered_def)
    with that s assms(2) show ?thesis by (auto simp: ask_runtime_dir_def registered_def dbus_set_error_def)
  qed
  show ?thesis
  proof (cases "cc_ssid c")
    case None
    obtain r d2 where s: "bus_send B n (Call_GetSessionForCookie k) d = (r, d2)" by fastforce
    have k: "inv d2 \<and> live d2 n" "serves d2 = serves d \<and> ((\<exists>s. r = Got_Path s) \<or> (\<exists>m. r = Got_Error m))"
      using send_keeps [OF _ _ s] session_reply [OF _ _ s] assms(1) by (auto simp: registered_def)
    then consider p where "r = Got_Path p" | m where "r = Got_Error m" by blast
    then show ?thesis
    proof cases
      case (1 p)
      have "registered (c\<lparr>cc_ssid := Some p\<rparr>) e d2 n k" using k assms(1) by (auto simp: registered_def)
      from ask [OF this, of p] 1 k s None assms show ?thesis
        by (auto simp: ck_connector_get_runtime_dir_def ck_connector_get_ssid_def registered_def)
    next
      case (2 m)
      with k s None assms show ?thesis
        by (auto simp: ck_connector_get_runtime_dir_def ck_connector_get_ssid_def registered_def dbus_set_error_def)
    qed
  next
    case (Some p)
    with ask [OF assms(1) Some] assms show ?thesis by (auto simp: ck_connector_get_runtime_dir_def registered_def)
  qed
qed

lemma unref_last: "inv d \<Longrightarrow> cc_refcount c = 1 \<Longrightarrow> cc_connection c = Some n \<Longrightarrow>
    ck_connector_unref B c d = (None, bus_close B n d) \<and> inv (bus_close B n d) \<and> (\<forall>k. \<not> serves (bus_close B n d) n k)"
  using hangup by (simp add: ck_connector_unref_def ck_connector_free_def)

text \<open>After a successful open the login carries the cookie of a session the daemon holds.\<close>

lemma environment_result:
  assumes "registered c e d n k" "bus_mem B = (\<lambda>_. True)" "cc_refcount c = 1"
  shows "\<exists>res m' d'. register_environment B h c e m d = Some (res, m', d') \<and> inv d' \<and>
    (if res = PAM_SUCCESS
     then serves d' n k \<and> cookie_variable k \<in> set (pam_environ m') \<and>
       (\<exists>c. ckc m' = Some c \<and> cc_connection c = Some n \<and> cc_refcount c = 1)
     else ckc m' = None \<and> (\<forall>k. \<not> serves d' n k))"
proof -
  obtain dir c' e' d' where r: "ck_connector_get_runtime_dir B c e d = Some (dir, c', e', d')" "cc_refcount c' = 1" "inv d'" "live d' n"
    "serves d' n k" "cc_connection c' = Some n"
    using runtime_dir_result [OF assms(1,2)] assms(3) by auto
  have cookie: "or_empty (ck_connector_get_cookie c) = k" and c: "inv d" "cc_connection c = Some n"
    using assms(1) by (auto simp: registered_def or_empty_def ck_connector_get_cookie_def)
  note down = unref_last [OF c(1) assms(3) c(2)] unref_last [OF r(3,2,6)]
  show ?thesis
  proof (cases "ph_putenv h (cookie_variable k)")
    case True
    then show ?thesis using r down(2) by (cases dir) (simp_all add: register_environment_def pam_setenv_def tear_down_def cookie cookie_variable_def Let_def)
  next
    case False
    with down(1) show ?thesis by (simp add: register_environment_def pam_setenv_def tear_down_def cookie cookie_variable_def Let_def)
  qed
qed

text \<open>A login returns, and is registered with the daemon just if it says so; logging out ends the session.\<close>

lemma login_result:
  assumes "inv d" "bus_mem B = (\<lambda>_. True)" "ckc m = None" "\<And>b args. pam_parameters B h b = Some args \<Longrightarrow> args_utf8 B args"
  shows "\<exists>res m' d'. pam_sm_open_session B h argv m d = Some (res, m', d') \<and> inv d' \<and>
    (if res = PAM_SUCCESS
     then \<exists>n d1 k. bus_connect B d = (Inr n, d1) \<and> serves d' n k \<and> cookie_variable k \<in> set (pam_environ m') \<and>
       (\<exists>m2 d2. pam_sm_close_session B m' d' = (PAM_SUCCESS, m2, d2) \<and> ckc m2 = None \<and> inv d2 \<and> (\<forall>k. \<not> serves d2 n k))
     else \<forall>n d1. bus_connect B d = (Inr n, d1) \<longrightarrow> (\<forall>k. \<not> serves d' n k))"
proof -
  let ?m = "parse_pam_args argv (m\<lparr>opt_debug := False\<rparr>)"
  have m: "ckc ?m = None" by (simp add: parse_pam_args_ckc assms(3))
  obtain c where c: "ck_connector_new B = Some c" "cc_refcount c = 1" using assms(2) by (auto simp: ck_connector_new_def)
  show ?thesis
  proof (cases "pam_parameters B h (opt_nox11 ?m)")
    case None
    then show ?thesis
      using m c(1) assms(1) connect_works [OF assms(1)] by (auto simp: pam_sm_open_session_def Let_def)
  next
    case (Some args)
    obtain ok c' e' d2 where o: "ck_connector_open_session_with_parameters B args c None d = Some (ok, c', e', d2)"
      using open_returns [OF assms(2) assms(4) [OF Some], of c d] by (metis prod_cases4)
    have pam: "pam_sm_open_session B h argv m d =
        (if ok then register_environment B h c' e' (?m\<lparr>ckc := Some c\<rparr>) d2 else Some (PAM_IGNORE, ?m\<lparr>ckc := Some c'\<rparr>, d2))"
      using Some m c(1) o by (simp add: pam_sm_open_session_def Let_def)
    show ?thesis
    proof (cases "bus_connect B d")
      case (Pair x d1)
      show ?thesis
      proof (cases x)
        case (Inl e)
        with open_unconnected [OF assms(1) o] Pair pam show ?thesis by auto
      next
        case (Inr n)
        note r = open_result [OF assms(1,2) o, of n d1]
        show ?thesis
        proof (cases ok)
          case True
          with r Inr Pair obtain k where k: "registered c' e' d2 n k" "cc_refcount c' = 1" using c(2) by auto
          from environment_result [OF k(1) assms(2) k(2), of h "?m\<lparr>ckc := Some c\<rparr>"] obtain res m' d' where
            e: "register_environment B h c' e' (?m\<lparr>ckc := Some c\<rparr>) d2 = Some (res, m', d')" "inv d'"
              "if res = PAM_SUCCESS
               then serves d' n k \<and> cookie_variable k \<in> set (pam_environ m') \<and>
                 (\<exists>c. ckc m' = Some c \<and> cc_connection c = Some n \<and> cc_refcount c = 1)
               else ckc m' = None \<and> (\<forall>k. \<not> serves d' n k)" by blast
          show ?thesis
          proof (cases "res = PAM_SUCCESS")
            case res: True
            then obtain cc where cc: "ckc m' = Some cc" "cc_connection cc = Some n" "cc_refcount cc = 1" using e(3) by auto
            from unref_last [OF e(2) cc(3,2)] cc(1)
            have "\<exists>m2 d3. pam_sm_close_session B m' d' = (PAM_SUCCESS, m2, d3) \<and> ckc m2 = None \<and> inv d3 \<and> (\<forall>k. \<not> serves d3 n k)"
              by (simp add: pam_sm_close_session_def)
            with e res True pam Inr Pair show ?thesis by auto
          next
            case False
            with e True pam Inr Pair show ?thesis by auto
          qed
        next
          case False
          with r pam Inr Pair show ?thesis by auto
        qed
      qed
    qed
  qed
qed

end

section \<open>The daemon as the service\<close>

text \<open>
  The manager behind the bus: a call is a method call on the manager, with the helper of a new
  session run to its end before the next call. \<open>U\<close> decides which strings are UTF-8, \<open>H\<close> is the
  exit status of the helper for a leader, the \<open>errno\<close> left over at each line of its output and the output. A call that is not answered times out.
\<close>

type_synonym helper_runs = "CkSessionLeader \<Rightarrow> int \<times> (nat \<Rightarrow> nat) \<times> string"

record served_manager =
  sm_world :: manager_world
  sm_next :: nat

definition bus_name :: "nat \<Rightarrow> string" where
  "bus_name n = '':1.'' @ dec n"

definition answer_of :: "nat \<Rightarrow> manager_world \<Rightarrow> CkManagerError reply" where
  "answer_of ctx w =
     (if mg_out w = [] then No_reply
      else case last (mg_out w) of Answer c r \<Rightarrow> if c = ctx then r else No_reply | _ \<Rightarrow> No_reply)"

definition serve_open ::
  "manager_env \<Rightarrow> helper_runs \<Rightarrow> cstring \<Rightarrow> nat \<Rightarrow> (string \<times> gvariant) list option \<Rightarrow> manager_world \<Rightarrow> manager_world option" where
  "serve_open E H sender ctx ps w =
     (case (case ps of None \<Rightarrow> dbus_open_session E sender ctx w | Some ps \<Rightarrow> dbus_open_session_with_parameters E sender ctx ps w) of
        None \<Rightarrow> None
      | Some w \<Rightarrow>
          (case jobs w of
             [] \<Rightarrow> Some w
           | c # _ \<Rightarrow> (case H (leader_heap w (cj_leader c)) of (status, stale, text) \<Rightarrow> job_completed E stale (cj_id c) status text w)))"

definition opened :: "nat \<Rightarrow> manager_world option \<Rightarrow> served_manager \<Rightarrow> ck_reply \<times> served_manager" where
  "opened ctx r d =
     (case r of
        None \<Rightarrow> (Got_Error ''NoReply'', d)
      | Some w \<Rightarrow> (case answer_of ctx w of Reply_string (Some s) \<Rightarrow> Got_String s | _ \<Rightarrow> Got_Error ''Failed'', d\<lparr>sm_world := w\<rparr>))"

definition manager_send ::
  "manager_env \<Rightarrow> helper_runs \<Rightarrow> nat \<Rightarrow> ck_call \<Rightarrow> served_manager \<Rightarrow> ck_reply \<times> served_manager" where
  "manager_send E H n call d =
     (let w = sm_world d; sender = Some (bus_name n); ctx = sm_next d in
      case call of
        Call_OpenSession \<Rightarrow> opened ctx (serve_open E H sender ctx None w) d
      | Call_OpenSessionWithParameters ps \<Rightarrow> opened ctx (serve_open E H sender ctx (Some ps) w) d
      | Call_GetSessionForCookie k \<Rightarrow>
          let w = dbus_get_session_for_cookie E sender ctx k w
          in (case answer_of ctx w of Reply_string (Some p) \<Rightarrow> Got_Path p | _ \<Rightarrow> Got_Error ''Failed'', d\<lparr>sm_world := w\<rparr>)
      | Call_GetXDGRuntimeDir p \<Rightarrow>
          (case List.find (\<lambda>kv. ck_session_get_path (sess w (snd kv)) = Some p) (mg_sessions w) of
             None \<Rightarrow> (Got_Error ''UnknownMethod'', d)
           | Some kv \<Rightarrow> (case snd (dbus_get_runtime_dir (sess w (snd kv))) of Reply_string (Some s) \<Rightarrow> Got_String s | _ \<Rightarrow> Got_Error ''Failed'', d))
      | Call_CloseSession k \<Rightarrow>
          let w = dbus_close_session E sender ctx k w
          in (case answer_of ctx w of Reply_bool b \<Rightarrow> Got_Bool b | _ \<Rightarrow> Got_Error ''Failed'', d\<lparr>sm_world := w\<rparr>))"

definition manager_bus ::
  "(string \<Rightarrow> bool) \<Rightarrow> manager_env \<Rightarrow> helper_runs \<Rightarrow> served_manager bus" where
  "manager_bus U E H =
     \<lparr>bus_mem = (\<lambda>_. True), bus_utf8 = U, bus_mismatch = ''InvalidArgs'',
      bus_connect = (\<lambda>d. (Inr (sm_next d), d\<lparr>sm_next := Suc (sm_next d)\<rparr>)),
      bus_send = manager_send E H,
      bus_close = (\<lambda>n d. d\<lparr>sm_world := on_name_owner_notify E (bus_name n, bus_name n, []) (sm_world d)\<rparr>)\<rparr>"

definition manager_live :: "served_manager \<Rightarrow> nat \<Rightarrow> bool" where
  "manager_live d n = (n < sm_next d)"

definition manager_serves :: "served_manager \<Rightarrow> nat \<Rightarrow> string \<Rightarrow> bool" where
  "manager_serves d n k =
     (\<exists>la. g_hash_table_lookup (mg_leaders (sm_world d)) k = Some la \<and>
       sl_service_name (leader_heap (sm_world d) la) = Some (bus_name n) \<and>
       g_hash_table_lookup (mg_sessions (sm_world d)) (leader_ssid (sm_world d) la) \<noteq> None)"

definition manager_inv :: "served_manager \<Rightarrow> bool" where
  "manager_inv d =
     (jobs (sm_world d) = [] \<and>
      (\<forall>(k, la) \<in> set (mg_leaders (sm_world d)). la < next_address (sm_world d) \<and>
         (\<forall>j \<ge> sm_next d. sl_service_name (leader_heap (sm_world d) la) \<noteq> Some (bus_name j))))"

lemma session_id_free: "generate_session_id w = Some (i, w') \<Longrightarrow> g_hash_table_lookup (mg_sessions w) i = None"
proof -
  have "case y of (i, w') \<Rightarrow> g_hash_table_lookup (mg_sessions w) i = None" if "generate_session_id w = Some y" for w y
    using that
    by (rule generate_session_id.raw_induct [rotated])
      (fastforce simp: get_next_session_serial_def Let_def split: if_splits prod.splits)
  then show "generate_session_id w = Some (i, w') \<Longrightarrow> g_hash_table_lookup (mg_sessions w) i = None" by fastforce
qed

lemma add_new_seat_leaders:
  assumes "add_new_seat E kind w = Some (r, v)"
  shows "mg_leaders v = mg_leaders w"
proof -
  obtain sid t where "generate_seat_id w = Some (sid, w\<lparr>seat_serial := t\<rparr>)"
    using assms generate_seat_id_frame by (fastforce simp: add_new_seat_def split: option.splits)
  then have v: "v = snd (announce_seat E sid (next_address w) (upd_seat (next_address w) (\<lambda>_. ck_seat_new sid kind True)
      (w\<lparr>seat_serial := t, next_address := Suc (next_address w)\<rparr>)))"
    using assms by (auto simp: add_new_seat_def Let_def)
  show ?thesis
    unfolding v announce_seat_def Let_def connect_seat_signals_def disconnect_seat_signals_def log_defs
    by (auto split: option.split) (auto simp: upd_seat_def)
qed

lemma place_session_leaders: "place_session E a w = Some w1 \<Longrightarrow> mg_leaders w1 = mg_leaders w"
  by (auto simp: place_session_def add_new_seat_leaders split: option.splits)

lemma save_parameters_fields [simp]:
  "sl_service_name (save_parameters ps l) = sl_service_name l" "sl_cookie (save_parameters ps l) = sl_cookie l"
  "sl_session_id (save_parameters ps l) = sl_session_id l"
  by (induction ps l rule: save_parameters.induct) auto

text \<open>What an open leaves behind: nothing, a leader without a session, or a leader with its session.\<close>

definition entered :: "string \<Rightarrow> string \<Rightarrow> CkSessionLeader \<Rightarrow> manager_world \<Rightarrow> manager_world \<Rightarrow> bool" where
  "entered nm cookie l w v =
     (mg_leaders v = g_hash_table_insert (mg_leaders w) cookie (next_address w) \<and>
      leader_heap v = (leader_heap w)(next_address w := l) \<and> sl_service_name l = Some nm \<and>
      sl_cookie l = Some cookie \<and> (\<exists>ssid. sl_session_id l = Some ssid \<and> g_hash_table_lookup (mg_sessions w) ssid = None) \<and>
      next_address w < next_address v)"

lemma create_result:
  assumes "create_session_for_sender E (Some nm) ps ctx w = Some w1" "jobs w = []"
  shows "(\<exists>e. w1 = throw_error ctx e w) \<or>
    (\<exists>cookie l. entered nm cookie l w w1 \<and> mg_sessions w1 = mg_sessions w \<and>
       (jobs w1 = [] \<and> (\<exists>e. answer_of ctx w1 = Throw e) \<or> (\<exists>j. jobs w1 = [\<lparr>cj_id = j, cj_leader = next_address w, cj_context = ctx\<rparr>])))"
proof (cases "manager_get_caller_info E (Some nm)")
  case None
  with assms show ?thesis by (auto simp: create_session_for_sender_def)
next
  case (Some up)
  obtain cookie ssid t where gen: "generate_session_cookie E 0 w = Some cookie"
    "generate_session_id w = Some (ssid, w\<lparr>session_serial := t\<rparr>)"
    using assms(1) Some generate_session_id_frame [of w]
    by (auto simp: create_session_for_sender_def split: option.splits prod.splits)
  define l where "l = ck_session_leader_set_override_parameters ps (ck_session_leader_set_cookie (Some cookie)
     (ck_session_leader_set_session_id (Some ssid) (ck_session_leader_set_service_name (Some nm)
       (ck_session_leader_set_pid (snd up) (ck_session_leader_set_uid (fst up) ck_session_leader_new)))))"
  let ?a = "next_address w"
  let ?v = "w\<lparr>session_serial := t, next_address := Suc ?a, leader_heap := (leader_heap w)(?a := l),
     mg_leaders := g_hash_table_insert (mg_leaders w) cookie ?a\<rparr>"
  have w1: "w1 = generate_session_for_leader E ?a ctx ?v"
    using assms(1) Some gen by (auto simp: create_session_for_sender_def l_def Let_def split: prod.splits)
  have l: "sl_service_name l = Some nm" "sl_cookie l = Some cookie" "sl_session_id l = Some ssid"
    by (simp_all add: l_def ck_session_leader_set_override_parameters_def ck_session_leader_set_cookie_def
        ck_session_leader_set_session_id_def ck_session_leader_set_service_name_def Let_def split: option.split)
  note free = session_id_free [OF gen(2)]
  show ?thesis
  proof (cases "mv_job E")
    case None
    have "entered nm cookie l w w1"
      using l free None by (auto simp: entered_def w1 generate_session_for_leader_def ck_session_leader_collect_parameters_def)
    moreover have "mg_sessions w1 = mg_sessions w" "jobs w1 = []" "answer_of ctx w1 = Throw CK_MANAGER_ERROR_GENERAL"
      using None assms(2)
      by (simp_all add: w1 generate_session_for_leader_def ck_session_leader_collect_parameters_def answer_of_def throw_error_def out_def)
    ultimately show ?thesis by blast
  next
    case (Some j)
    have "entered nm cookie (l\<lparr>sl_pending_jobs := j # sl_pending_jobs l\<rparr>) w w1"
      using l free Some by (auto simp: entered_def w1 generate_session_for_leader_def ck_session_leader_collect_parameters_def fun_eq_iff)
    moreover have "mg_sessions w1 = mg_sessions w" "jobs w1 = [\<lparr>cj_id = j, cj_leader = ?a, cj_context = ctx\<rparr>]"
      using Some assms(2) by (simp_all add: w1 generate_session_for_leader_def ck_session_leader_collect_parameters_def)
    ultimately show ?thesis by blast
  qed
qed

lemma collect_result:
  assumes "collect_parameters_cb E la ps ctx w = Some w1"
  shows "mg_leaders w1 = mg_leaders w \<and> leader_heap w1 = leader_heap w \<and> jobs w1 = jobs w \<and> next_address w \<le> next_address w1 \<and>
    (mg_sessions w1 = mg_sessions w \<and> (\<exists>e. answer_of ctx w1 = Throw e) \<or>
     (\<exists>a. mg_sessions w1 = g_hash_table_insert (mg_sessions w) (leader_ssid w la) a) \<and>
       answer_of ctx w1 = Reply_string (Some (NONULL_STRING (sl_cookie (leader_heap w la)))))"
proof (cases "\<exists>e. w1 = throw_error ctx e w")
  case True
  then show ?thesis by (auto simp: answer_of_def throw_error_def out_def)
next
  case False
  then obtain s v p loc where v: "place_session E (next_address w) (enter_session E la (leader_ssid w la) s w) = Some v"
    "w1 = out (Answer ctx (Reply_string (Some (NONULL_STRING (sl_cookie (leader_heap w la))))))
       (announce_session E (next_address w) (leader_ssid w la) loc v)"
    using assms
    by (auto simp: collect_parameters_cb_def verify_and_open_session_for_leader_def open_session_for_leader_def leader_ssid_def Let_def
        ck_session_leader_peek_cookie_def split: option.splits)
  from place_session_frame [OF v(1)] place_session_leaders [OF v(1)] v(2) show ?thesis
    by (auto simp: answer_of_def out_def)
qed

lemma serve_open_result:
  assumes "serve_open E H (Some nm) ctx ps w = Some w'" "jobs w = []"
  shows "(\<exists>e. w' = throw_error ctx e w) \<or>
    (\<exists>cookie l. entered nm cookie l w w' \<and> jobs w' = [] \<and>
       (mg_sessions w' = mg_sessions w \<and> (\<exists>e. answer_of ctx w' = Throw e) \<or>
        (\<exists>a. mg_sessions w' = g_hash_table_insert (mg_sessions w) (NONULL_STRING (sl_session_id l)) a) \<and>
          answer_of ctx w' = Reply_string (Some cookie)))"
proof -
  obtain w1 where w1: "create_session_for_sender E (Some nm) ps ctx w = Some w1"
    using assms(1) by (auto simp: serve_open_def dbus_open_session_def dbus_open_session_with_parameters_def split: option.splits)
  have w': "Some w' = (case jobs w1 of [] \<Rightarrow> Some w1
      | c # _ \<Rightarrow> (case H (leader_heap w1 (cj_leader c)) of (status, stale, outp) \<Rightarrow> job_completed E stale (cj_id c) status outp w1))"
    using assms(1) w1 by (cases ps) (simp_all add: serve_open_def dbus_open_session_def dbus_open_session_with_parameters_def)
  show ?thesis
  proof (cases "jobs w1 = []")
    case True
    with create_result [OF w1 assms(2)] w' show ?thesis by fastforce
  next
    case False
    with create_result [OF w1 assms(2)] assms(2) obtain cookie l j where
      e: "entered nm cookie l w w1" "mg_sessions w1 = mg_sessions w" "jobs w1 = [\<lparr>cj_id = j, cj_leader = next_address w, cj_context = ctx\<rparr>]"
      by auto
    let ?c = "\<lparr>cj_id = j, cj_leader = next_address w, cj_context = ctx\<rparr>"
    obtain status stale outp where h: "H (leader_heap w1 (next_address w)) = (status, stale, outp)" by (metis prod_cases3)
    obtain qs v where v: "collect_parameters_cb E (next_address w) qs ctx w1 = Some v"
      "w' = v\<lparr>jobs := removeAll ?c (jobs v), leader_heap := (leader_heap v)(next_address w := (leader_heap v (next_address w))\<lparr>sl_pending_jobs :=
           removeAll j (sl_pending_jobs (leader_heap v (next_address w)))\<rparr>)\<rparr>"
      using w' [symmetric] e(3) h by (auto simp: job_completed_def Let_def split: option.splits if_splits)
    let ?l = "l\<lparr>sl_pending_jobs := removeAll j (sl_pending_jobs l)\<rparr>"
    have l: "leader_heap w1 (next_address w) = l" "sl_cookie l = Some cookie" using e(1) by (auto simp: entered_def)
    note r = collect_result [OF v(1)]
    have "entered nm cookie ?l w w'" using e(1) r l by (auto simp: entered_def v(2) fun_eq_iff)
    moreover have "jobs w' = []" "answer_of ctx w' = answer_of ctx v" "mg_sessions w' = mg_sessions v"
      using r e(3) by (simp_all add: v(2) answer_of_def)
    ultimately show ?thesis
      using r e(2) l by (intro disjI2 exI [of _ cookie] exI [of _ ?l]) (auto simp: leader_ssid_def ck_session_leader_peek_session_id_def)
  qed
qed

lemma bus_name_inject [simp]: "bus_name m = bus_name n \<longleftrightarrow> m = n"
  by (simp add: bus_name_def)

lemma throw_serves: "manager_serves (d\<lparr>sm_world := throw_error ctx e (sm_world d)\<rparr>) = manager_serves d"
  by (simp add: manager_serves_def leader_ssid_def fun_eq_iff throw_error_def out_def)

lemma manager_open:
  assumes "manager_inv d" "n < sm_next d" "opened (sm_next d) (serve_open E H (Some (bus_name n)) (sm_next d) ps (sm_world d)) d = (r, d')"
  shows "manager_inv d' \<and> sm_next d' = sm_next d \<and>
    ((\<exists>k. r = Got_String k \<and> manager_serves d' n k) \<or> (\<exists>m. r = Got_Error m \<and> (\<forall>k. manager_serves d' n k \<longrightarrow> manager_serves d n k)))"
proof (cases "serve_open E H (Some (bus_name n)) (sm_next d) ps (sm_world d)")
  case None
  with assms show ?thesis by (auto simp: opened_def)
next
  case (Some w')
  let ?w = "sm_world d"
  have j: "jobs ?w = []" and old: "\<And>k la. (k, la) \<in> set (mg_leaders ?w) \<Longrightarrow> la < next_address ?w \<and>
      (\<forall>j \<ge> sm_next d. sl_service_name (leader_heap ?w la) \<noteq> Some (bus_name j))"
    using assms(1) by (auto simp: manager_inv_def)
  have d': "d' = d\<lparr>sm_world := w'\<rparr>" and r: "r = (case answer_of (sm_next d) w' of Reply_string (Some s) \<Rightarrow> Got_String s | _ \<Rightarrow> Got_Error ''Failed'')"
    using assms(3) Some by (auto simp: opened_def)
  from serve_open_result [OF Some j] consider e where "w' = throw_error (sm_next d) e ?w"
    | cookie l where "entered (bus_name n) cookie l ?w w'" "jobs w' = []"
       "mg_sessions w' = mg_sessions ?w \<and> (\<exists>e. answer_of (sm_next d) w' = Throw e) \<or>
        (\<exists>a. mg_sessions w' = g_hash_table_insert (mg_sessions ?w) (NONULL_STRING (sl_session_id l)) a) \<and>
          answer_of (sm_next d) w' = Reply_string (Some cookie)"
    by blast
  then show ?thesis
  proof cases
    case (1 e)
    then have "answer_of (sm_next d) w' = Throw e" by (simp add: answer_of_def throw_error_def out_def)
    moreover have "manager_inv d'" using assms(1) by (simp add: manager_inv_def d' 1 throw_error_def out_def)
    ultimately show ?thesis using throw_serves [of "sm_next d" e d] by (simp add: d' r 1)
  next
    case (2 cookie l)
    note e = 2(1) [unfolded entered_def]
    have inv: "manager_inv d'"
      using old e 2(2) assms(2) set_ht_insert_subset [of "mg_leaders ?w" cookie "next_address ?w"]
      by (fastforce simp: manager_inv_def d')
    have new: "g_hash_table_lookup (mg_leaders w') cookie = Some (next_address ?w)" "leader_ssid w' (next_address ?w) = NONULL_STRING (sl_session_id l)"
      using e by (auto simp: leader_ssid_def ck_session_leader_peek_session_id_def)
    have same: "leader_heap w' la = leader_heap ?w la" "leader_ssid w' la = leader_ssid ?w la" if "g_hash_table_lookup (mg_leaders ?w) k = Some la" for k la
      using old [OF lookup_in_set [OF that]] e by (auto simp: leader_ssid_def)
    from 2(3) show ?thesis
    proof
      assume s: "mg_sessions w' = mg_sessions ?w \<and> (\<exists>e. answer_of (sm_next d) w' = Throw e)"
      have "manager_serves d n k" if sv: "manager_serves d' n k" for k
        using sv e s new same by (cases "k = cookie") (auto simp: manager_serves_def d')
      with s inv show ?thesis by (auto simp: r d')
    next
      assume s: "(\<exists>a. mg_sessions w' = g_hash_table_insert (mg_sessions ?w) (NONULL_STRING (sl_session_id l)) a) \<and>
          answer_of (sm_next d) w' = Reply_string (Some cookie)"
      then have "manager_serves d' n cookie" using e new by (auto simp: manager_serves_def d')
      with s inv show ?thesis by (auto simp: r d')
    qed
  qed
qed

lemma get_session_out: "\<exists>x. dbus_get_session_for_cookie E sender ctx k w = out x w"
  by (auto simp: dbus_get_session_for_cookie_def throw_error_def split: option.split)

lemma out_serves [simp]: "manager_serves (d\<lparr>sm_world := out x (sm_world d)\<rparr>) = manager_serves d"
  "manager_inv (d\<lparr>sm_world := out x (sm_world d)\<rparr>) = manager_inv d"
  by (simp_all add: manager_serves_def manager_inv_def leader_ssid_def fun_eq_iff out_def)

lemma answer_of_out [simp]: "answer_of ctx (out (Answer ctx r) w) = r"
  by (simp add: answer_of_def out_def)

lemma manager_close:
  assumes "manager_inv d" "dbus_close_session E sender ctx k (sm_world d) = w'"
  shows "manager_inv (d\<lparr>sm_world := w'\<rparr>) \<and>
    (answer_of ctx w' = Reply_bool True \<and> \<not> manager_serves (d\<lparr>sm_world := w'\<rparr>) n k \<or>
     (\<exists>e. answer_of ctx w' = Throw e) \<and> manager_serves (d\<lparr>sm_world := w'\<rparr>) = manager_serves d)"
proof (cases "\<exists>e. w' = throw_error ctx e (sm_world d)")
  case True
  then show ?thesis using assms(1) by (auto simp: throw_error_def)
next
  case False
  let ?w = "sm_world d" and ?v = "snd (remove_session_for_cookie E k None (sm_world d))"
  have "remove_session_for_cookie E k None ?w = (True, ?v) \<or> fst (remove_session_for_cookie E k None ?w) = False"
    by (cases "remove_session_for_cookie E k None ?w") auto
  moreover have "snd (remove_session_for_cookie E k None ?w) = ?w" if "fst (remove_session_for_cookie E k None ?w) = False"
    using that by (auto simp: remove_session_for_cookie_def Let_def split: option.splits)
  ultimately have w': "w' = out (Answer ctx (Reply_bool True)) (?v\<lparr>mg_leaders := g_hash_table_remove (mg_leaders ?v) k\<rparr>)"
    using False assms(2)
    by (auto simp: dbus_close_session_def simp del: remove_session_fields split: option.splits if_splits prod.splits bool.splits)
  have "set (g_hash_table_remove (mg_leaders ?w) k) \<subseteq> set (mg_leaders ?w)"
    by (auto simp: g_hash_table_remove_def AList.delete_eq)
  then have "manager_inv (d\<lparr>sm_world := w'\<rparr>)" using assms(1) by (fastforce simp: manager_inv_def w' out_def)
  then show ?thesis by (simp add: w' manager_serves_def)
qed

lemma destroy_service [simp]:
  "sl_service_name (leader_heap (fold (destroy_entity E) kvs w) la) = sl_service_name (leader_heap w la)"
  "next_address (fold (destroy_entity E) kvs w) = next_address w"
  by (induction kvs arbitrary: w) (auto simp: destroy_entity_def Let_def ck_session_leader_cancel_def)

lemma manager_hangup:
  assumes "manager_inv d"
  shows "manager_inv (bus_close (manager_bus U E H) n d) \<and> \<not> manager_serves (bus_close (manager_bus U E H) n d) n k"
proof -
  let ?w = "sm_world d" and ?w' = "on_name_owner_notify E (bus_name n, bus_name n, []) (sm_world d)"
  have l: "mg_leaders ?w' = filter (\<lambda>kv. \<not> remove_leader_for_connection ?w (bus_name n) kv) (mg_leaders ?w)" "jobs ?w' = []"
    "next_address ?w' = next_address ?w" "\<And>la. sl_service_name (leader_heap ?w' la) = sl_service_name (leader_heap ?w la)"
    using assms by (simp_all add: on_name_owner_notify_def remove_sessions_for_connection_def Let_def destroy_entities manager_inv_def)
  have "manager_inv (d\<lparr>sm_world := ?w'\<rparr>)" using assms l by (fastforce simp: manager_inv_def)
  moreover have "\<not> manager_serves (d\<lparr>sm_world := ?w'\<rparr>) n k"
  proof
    assume "manager_serves (d\<lparr>sm_world := ?w'\<rparr>) n k"
    then obtain la where la: "g_hash_table_lookup (mg_leaders ?w') k = Some la" "sl_service_name (leader_heap ?w' la) = Some (bus_name n)"
      by (auto simp: manager_serves_def)
    from lookup_in_set [OF la(1)] la(2) show False
      unfolding l by (simp add: remove_leader_for_connection_def ck_session_leader_peek_service_name_def)
  qed
  ultimately show ?thesis by (simp add: manager_bus_def)
qed

interpretation daemon: session_service "manager_bus U E H" manager_inv manager_live manager_serves
proof
  fix d d' n assume "manager_inv d" "bus_connect (manager_bus U E H) d = (Inr n, d')"
  then have d': "d' = d\<lparr>sm_next := Suc n\<rparr>" "n = sm_next d" by (auto simp: manager_bus_def)
  have "manager_inv d'" using \<open>manager_inv d\<close> by (auto simp: manager_inv_def d')
  moreover have "\<not> manager_serves d n k" for k
    using \<open>manager_inv d\<close> lookup_in_set [of "mg_leaders (sm_world d)" k] by (fastforce simp: manager_inv_def manager_serves_def d'(2))
  ultimately show "manager_inv d' \<and> manager_live d' n \<and> manager_serves d' = manager_serves d \<and> (\<forall>k. \<not> manager_serves d n k)"
    by (simp add: d'(1) manager_live_def) (simp add: manager_serves_def fun_eq_iff)
next
  fix d d' n call r assume a: "manager_inv d" "manager_live d n" "bus_send (manager_bus U E H) n call d = (r, d')"
  show "manager_inv d' \<and> manager_live d' n"
  proof (cases call)
    case Call_OpenSession
    with a have "opened (sm_next d) (serve_open E H (Some (bus_name n)) (sm_next d) None (sm_world d)) d = (r, d')"
      by (simp add: manager_bus_def manager_send_def Let_def)
    with a manager_open [OF a(1) _ this] show ?thesis by (simp add: manager_live_def)
  next
    case (Call_OpenSessionWithParameters ps)
    with a have "opened (sm_next d) (serve_open E H (Some (bus_name n)) (sm_next d) (Some ps) (sm_world d)) d = (r, d')"
      by (simp add: manager_bus_def manager_send_def Let_def)
    with a manager_open [OF a(1) _ this] show ?thesis by (simp add: manager_live_def)
  next
    case (Call_GetSessionForCookie k)
    obtain x where "dbus_get_session_for_cookie E (Some (bus_name n)) (sm_next d) k (sm_world d) = out x (sm_world d)" using get_session_out by blast
    with a Call_GetSessionForCookie show ?thesis by (auto simp: manager_bus_def manager_send_def manager_live_def Let_def)
  next
    case (Call_GetXDGRuntimeDir p)
    with a show ?thesis by (auto simp: manager_bus_def manager_send_def manager_live_def Let_def split: option.splits)
  next
    case (Call_CloseSession k)
    with a manager_close [OF a(1) refl, of E "Some (bus_name n)" "sm_next d" k] show ?thesis
      by (auto simp: manager_bus_def manager_send_def manager_live_def Let_def)
  qed
next
  fix d d' n call r ps assume a: "manager_inv d" "manager_live d n" "call = Call_OpenSession \<or> call = Call_OpenSessionWithParameters ps"
    "bus_send (manager_bus U E H) n call d = (r, d')"
  then obtain q where "opened (sm_next d) (serve_open E H (Some (bus_name n)) (sm_next d) q (sm_world d)) d = (r, d')"
    by (auto simp: manager_bus_def manager_send_def Let_def)
  with manager_open [of d n E H q] a show
    "(\<exists>k. r = Got_String k \<and> manager_serves d' n k) \<or> (\<exists>m. r = Got_Error m \<and> (\<forall>k. manager_serves d' n k \<longrightarrow> manager_serves d n k))"
    by (simp add: manager_live_def)
next
  fix d d' n k r assume a: "manager_inv d" "manager_live d n" "bus_send (manager_bus U E H) n (Call_GetSessionForCookie k) d = (r, d')"
  obtain x where "dbus_get_session_for_cookie E (Some (bus_name n)) (sm_next d) k (sm_world d) = out x (sm_world d)" using get_session_out by blast
  with a show "manager_serves d' = manager_serves d \<and> ((\<exists>p. r = Got_Path p) \<or> (\<exists>m. r = Got_Error m))"
    by (auto simp: manager_bus_def manager_send_def Let_def split: reply.splits option.splits)
next
  fix d d' n p r assume "manager_inv d" "manager_live d n" "bus_send (manager_bus U E H) n (Call_GetXDGRuntimeDir p) d = (r, d')"
  then show "manager_serves d' = manager_serves d \<and> ((\<exists>s. r = Got_String s) \<or> (\<exists>m. r = Got_Error m))"
    by (auto simp: manager_bus_def manager_send_def Let_def split: reply.splits option.splits)
next
  fix d d' n k r assume "manager_inv d" "manager_live d n" "bus_send (manager_bus U E H) n (Call_CloseSession k) d = (r, d')"
  with manager_close [OF _ refl, of d E "Some (bus_name n)" "sm_next d" k n]
  show "r = Got_Bool True \<and> \<not> manager_serves d' n k \<or> (\<exists>m. r = Got_Error m \<and> manager_serves d' = manager_serves d)"
    by (auto simp: manager_bus_def manager_send_def Let_def)
qed (use manager_hangup in \<open>auto simp: manager_bus_def\<close>)

text \<open>When the daemon is in order it answers an open with a cookie.\<close>

definition daemon_ready :: "manager_env \<Rightarrow> helper_runs \<Rightarrow> served_manager \<Rightarrow> bool" where
  "daemon_ready E H d =
     (manager_inv d \<and> seats_ok (sm_world d) \<and> sv_export_ok (mv_seat E) \<and> se_export_ok (sv_session (mv_seat E)) \<and>
      session_serial_ok (session_serial (sm_world d)) \<and> length (mg_sessions (sm_world d)) < 2 ^ 31 - 1 \<and>
      (\<exists>k. g_hash_table_lookup (mg_leaders (sm_world d)) (cookie_text (mv_host_name E) (mv_random E k)) = None) \<and>
      manager_get_caller_info E (Some (bus_name (sm_next d))) \<noteq> None \<and> mv_job E \<noteq> None \<and>
      (\<forall>l. case H l of (status, stale, text) \<Rightarrow> status = 0 \<and> parse_output l stale text \<noteq> None))"

lemma serve_open_accepts:
  assumes "daemon_ready E H d"
  shows "\<exists>w' k. serve_open E H (Some (bus_name (sm_next d))) ctx ps (sm_world d) = Some w' \<and> answer_of ctx w' = Reply_string (Some k)"
proof -
  let ?w = "sm_world d" and ?nm = "bus_name (sm_next d)"
  note r = assms [unfolded daemon_ready_def]
  obtain n where n: "g_hash_table_lookup (mg_leaders ?w) (cookie_text (mv_host_name E) (mv_random E (0 + n))) = None" using r by auto
  obtain cookie where cookie: "generate_session_cookie E 0 ?w = Some cookie" using generate_session_cookie_returns [OF n] by blast
  obtain t where t: "generate_session_id ?w = Some (''Session'' @ dec (unat t), ?w\<lparr>session_serial := next_session_serial t\<rparr>)"
    using generate_session_id_returns [of ?w] r by blast
  obtain u p j where up: "manager_get_caller_info E (Some ?nm) = Some (u, p)" "mv_job E = Some j" using r by auto
  obtain w1 where w1: "create_session_for_sender E (Some ?nm) ps ctx ?w = Some w1" "jobs w1 = [\<lparr>cj_id = j, cj_leader = next_address ?w, cj_context = ctx\<rparr>]"
    and same: "mg_seats w1 = mg_seats ?w" "seats w1 = seats ?w" "seat_serial w1 = seat_serial ?w" "next_address w1 = Suc (next_address ?w)"
    using r cookie t up
    by (auto simp: create_session_for_sender_def generate_session_for_leader_def ck_session_leader_collect_parameters_def manager_inv_def Let_def
        split: prod.splits)
  have ok: "seats_ok w1" using r same by (auto simp: seats_ok_def list_all_iff split: option.splits)
  let ?l = "leader_heap w1 (next_address ?w)"
  obtain stale outp qs where qs: "H ?l = (0, stale, outp)" "parse_output ?l stale outp = Some qs"
    using r by (cases "H ?l") (auto dest: spec [of _ ?l])
  obtain v x where "open_session_for_leader E (next_address ?w) qs (verified_local w1 qs) ctx w1 =
      Some (out (Answer ctx (Reply_string (Some x))) v)"
    using r by (auto intro: open_session_opens [OF ok, of E "next_address ?w" qs "verified_local w1 qs" ctx])
  then have "collect_parameters_cb E (next_address ?w) (Some qs) ctx w1 = Some (out (Answer ctx (Reply_string (Some x))) v)"
    by (simp add: collect_parameters_cb_def verify_and_open_session_for_leader_def)
  with w1 qs have "\<exists>w'. serve_open E H (Some ?nm) ctx ps ?w = Some w' \<and> mg_out w' = mg_out v @ [Answer ctx (Reply_string (Some x))]"
    by (cases ps)
      (auto simp: serve_open_def dbus_open_session_def dbus_open_session_with_parameters_def job_completed_def Let_def out_def)
  then obtain w' where w': "serve_open E H (Some ?nm) ctx ps ?w = Some w'" "mg_out w' = mg_out v @ [Answer ctx (Reply_string (Some x))]"
    by blast
  have "answer_of ctx w' = Reply_string (Some x)" by (simp add: answer_of_def w'(2))
  with w'(1) show ?thesis by blast
qed

lemma pam_args_added:
  assumes "pam_parameters B h b = Some args" "args_utf8 B args" "bus_mem B = (\<lambda>_. True)"
  shows "\<exists>ps. add_params B args [] = Params ps \<and> (''is-local'', V_bool (empty_string (ph_rhost h))) \<in> set ps \<and>
    (''unix-user'', V_int (as_gint (util_name_to_uid h (the (ph_user h))))) \<in> set ps"
  using assms
  by (auto simp: pam_parameters_def args_utf8_def arg_utf8_def add_param_basic_def connector_parameter_type_def connector_parameters_def Let_def
      split: option.splits if_splits)

lemma environment_succeeds:
  "(\<And>v. ph_putenv h v) \<Longrightarrow> register_environment B h c e m d = Some (res, m', d') \<Longrightarrow> res = PAM_SUCCESS"
  by (auto simp: register_environment_def pam_setenv_def Let_def split: option.splits)

section \<open>Properties\<close>

text \<open>
  C19: A login through the PAM module is registered with the daemon or not at all. Whatever the
  daemon answers, opening returns; it says PAM_SUCCESS just if the daemon now holds a session for
  this client, whose cookie is in the environment of the login, and then closing takes the
  session away. When the daemon is in order and the environment can be set, it does succeed.
\<close>

theorem login_is_registered:
  assumes "manager_inv d" and "ckc m = None"
    and "\<forall>b args. pam_parameters (manager_bus U E H) h b = Some args \<longrightarrow> args_utf8 (manager_bus U E H) args"
  shows "\<exists>res m' d'. pam_sm_open_session (manager_bus U E H) h argv m d = Some (res, m', d') \<and>
    (if res = PAM_SUCCESS
     then \<exists>k m2 d2. manager_serves d' (sm_next d) k \<and> cookie_variable k \<in> set (pam_environ m') \<and>
       pam_sm_close_session (manager_bus U E H) m' d' = (PAM_SUCCESS, m2, d2) \<and> (\<forall>k. \<not> manager_serves d2 (sm_next d) k)
     else \<forall>k. \<not> manager_serves d' (sm_next d) k) \<and>
    (daemon_ready E H d \<and> (\<forall>v. ph_putenv h v) \<and> pam_parameters (manager_bus U E H) h (opt_nox11 m') \<noteq> None \<longrightarrow> res = PAM_SUCCESS)"
proof -
  let ?B = "manager_bus U E H"
  have mem: "bus_mem ?B = (\<lambda>_. True)" and con: "bus_connect ?B d = (Inr (sm_next d), d\<lparr>sm_next := Suc (sm_next d)\<rparr>)"
    by (simp_all add: manager_bus_def)
  obtain res m' d' where r: "pam_sm_open_session ?B h argv m d = Some (res, m', d')"
    "if res = PAM_SUCCESS
     then \<exists>n d1 k. bus_connect ?B d = (Inr n, d1) \<and> manager_serves d' n k \<and> cookie_variable k \<in> set (pam_environ m') \<and>
       (\<exists>m2 d2. pam_sm_close_session ?B m' d' = (PAM_SUCCESS, m2, d2) \<and> ckc m2 = None \<and> manager_inv d2 \<and> (\<forall>k. \<not> manager_serves d2 n k))
     else \<forall>n d1. bus_connect ?B d = (Inr n, d1) \<longrightarrow> (\<forall>k. \<not> manager_serves d' n k)"
    using daemon.login_result [OF assms(1) mem assms(2), of h argv] assms(3) by blast
  have "res = PAM_SUCCESS" if ready: "daemon_ready E H d" "\<forall>v. ph_putenv h v" and args: "pam_parameters ?B h (opt_nox11 m') \<noteq> None"
  proof -
    let ?m = "parse_pam_args argv (m\<lparr>opt_debug := False\<rparr>)" and ?d1 = "d\<lparr>sm_next := Suc (sm_next d)\<rparr>"
    have nox: "opt_nox11 m' = opt_nox11 ?m"
      using r(1) by (auto simp: pam_sm_open_session_def register_environment_def pam_setenv_def tear_down_def Let_def
          split: if_splits option.splits prod.splits bool.splits)
    obtain args' where a: "pam_parameters ?B h (opt_nox11 ?m) = Some args'" using args nox by auto
    obtain ps where ps: "add_params ?B args' [] = Params ps" using pam_args_added [OF a _ mem] assms(3) a by blast
    have ready1: "daemon_ready E H d" by (rule ready(1))
    obtain w' k where w': "serve_open E H (Some (bus_name (sm_next d))) (Suc (sm_next d)) (Some ps) (sm_world d) = Some w'"
      "answer_of (Suc (sm_next d)) w' = Reply_string (Some k)" using serve_open_accepts [OF ready1] by blast
    obtain c where c: "ck_connector_new ?B = Some c" using mem by (auto simp: ck_connector_new_def)
    have send: "bus_send ?B (sm_next d) (Call_OpenSessionWithParameters ps) ?d1 = (Got_String k, ?d1\<lparr>sm_world := w'\<rparr>)"
      using w' by (simp add: manager_bus_def manager_send_def opened_def Let_def)
    have "ck_connector_open_session_with_parameters ?B args' c None d =
        Some (True, c\<lparr>cc_connection := Some (sm_next d), cc_cookie := Some k, cc_session_created := True\<rparr>, None, ?d1\<lparr>sm_world := w'\<rparr>)"
      using mem con ps send
      by (simp add: ck_connector_open_session_with_parameters_def ck_connector_open_session_with_parameters_valist_def receive_cookie_def Let_def)
    then show ?thesis
      using r(1) a c ready(2) environment_succeeds [of h] parse_pam_args_ckc [of argv "m\<lparr>opt_debug := False\<rparr>"] assms(2)
      by (auto simp: pam_sm_open_session_def Let_def)
  qed
  moreover have "\<exists>k m2 d2. manager_serves d' (sm_next d) k \<and> cookie_variable k \<in> set (pam_environ m') \<and>
      pam_sm_close_session ?B m' d' = (PAM_SUCCESS, m2, d2) \<and> (\<forall>k. \<not> manager_serves d2 (sm_next d) k)" if "res = PAM_SUCCESS"
  proof -
    from r(2) that con obtain k m2 d2 where "manager_serves d' (sm_next d) k" "cookie_variable k \<in> set (pam_environ m')"
      "pam_sm_close_session ?B m' d' = (PAM_SUCCESS, m2, d2)" "\<forall>k. \<not> manager_serves d2 (sm_next d) k" by auto
    then show ?thesis by blast
  qed
  moreover have "\<forall>k. \<not> manager_serves d' (sm_next d) k" if "res \<noteq> PAM_SUCCESS" using r(2) that con by simp
  ultimately show ?thesis using r(1) by (intro exI [of _ res] exI [of _ m'] exI [of _ d']) simp
qed

definition sample_handle :: pam_handle where
  "sample_handle = \<lparr>ph_user = Some ''joe'', ph_tty = Some ''tty7'', ph_rhost = None, ph_getenv = (\<lambda>_. None), ph_putenv = (\<lambda>_. True),
     ph_pwnam = (\<lambda>_. Some 1000)\<rparr>"

definition idle_module :: pam_module where
  "idle_module = \<lparr>opt_debug = False, opt_nox11 = False, ckc = None, pam_environ = []\<rparr>"

definition quiet_helper :: helper_runs where
  "quiet_helper l = (0, \<lambda>_. 0, [])"

definition sample_daemon :: served_manager where
  "sample_daemon = \<lparr>sm_world = empty_manager, sm_next = 7\<rparr>"

lemma sample_daemon_ready: "daemon_ready sample_menv quiet_helper sample_daemon"
proof -
  have "parse_output l (\<lambda>_. 0) [] \<noteq> None" for l
    by (simp add: parse_output_def g_strsplit_def)
  then show ?thesis
    by (auto simp: daemon_ready_def sample_daemon_def quiet_helper_def manager_inv_def seats_ok_def waiting_ok(3,4) empty_manager_def
        ck_manager_init_def seat_serial_ok_def session_serial_ok_def manager_get_caller_info_def)
      (auto simp: sample_menv_def)
qed

theorem login_is_registered_witness:
  "\<exists>m' d' k m2 d2. pam_sm_open_session (manager_bus (\<lambda>_. True) sample_menv quiet_helper) sample_handle [] idle_module sample_daemon =
      Some (PAM_SUCCESS, m', d') \<and> manager_serves d' 7 k \<and> cookie_variable k \<in> set (pam_environ m') \<and>
    pam_sm_close_session (manager_bus (\<lambda>_. True) sample_menv quiet_helper) m' d' = (PAM_SUCCESS, m2, d2) \<and> \<not> manager_serves d2 7 k"
proof -
  let ?B = "manager_bus (\<lambda>_. True) sample_menv quiet_helper"
  have p: "pam_parameters ?B sample_handle b \<noteq> None" for b
    by (simp add: pam_parameters_def sample_handle_def empty_string_def pam_display_def util_name_to_uid_def manager_bus_def Let_def)
  have u: "\<forall>b args. pam_parameters ?B sample_handle b = Some args \<longrightarrow> args_utf8 ?B args"
    by (auto simp: pam_parameters_def sample_handle_def empty_string_def pam_display_def util_name_to_uid_def manager_bus_def Let_def
        args_utf8_def arg_utf8_def connector_parameter_type_def connector_parameters_def)
  have i: "manager_inv sample_daemon" "ckc idle_module = None" "sm_next sample_daemon = 7" "\<forall>v. ph_putenv sample_handle v"
    using sample_daemon_ready by (simp_all add: daemon_ready_def idle_module_def sample_daemon_def sample_handle_def)
  from login_is_registered [OF i(1,2) u, of "[]"] sample_daemon_ready i(3,4) p show ?thesis by auto
qed

fun has_type :: "param_type \<Rightarrow> gvariant \<Rightarrow> bool" where
  "has_type P_STRING (V_string s) = True"
| "has_type P_BOOLEAN (V_bool b) = True"
| "has_type P_INT (V_int i) = True"
| "has_type P_UINT (V_uint n) = True"
| "has_type t v = False"

lemma added_typed: "add_param_basic B name t v = Added (n, x) \<Longrightarrow> n = name \<and> has_type t x"
  by (auto simp: add_param_basic_def split: param_type.splits c_arg.splits option.splits if_splits)

lemma add_params_typed:
  "add_params B args ps = Params qs \<Longrightarrow> \<exists>rs. qs = ps @ rs \<and> map fst rs = map fst args \<and>
     list_all (\<lambda>(n, x). \<exists>t. connector_parameter_type n = Some t \<and> has_type t x) rs"
proof (induction args arbitrary: ps)
  case (Cons a args)
  obtain name v where a: "a = (name, v)" by fastforce
  obtain t p where t: "connector_parameter_type name = Some t" "add_param_basic B name t v = Added p" "add_params B args (ps @ [p]) = Params qs"
    using Cons.prems by (auto simp: a split: option.splits added.splits)
  obtain rs where rs: "qs = (ps @ [p]) @ rs" "map fst rs = map fst args"
    "list_all (\<lambda>(n, x). \<exists>t. connector_parameter_type n = Some t \<and> has_type t x) rs" using Cons.IH [OF t(3)] by blast
  have "fst p = name \<and> has_type t (snd p)" using added_typed [of B name t v "fst p" "snd p"] t(2) by simp
  with rs t(1) show ?case by (intro exI [of _ "p # rs"]) (auto simp: a split: prod.splits)
qed simp

text \<open>
  C37: The two parameter tables agree. Every parameter the connector accepts has the type the
  daemon expects, and a message is built only from known parameters, each with a value of its
  type, in the order of the arguments.
\<close>

theorem sent_parameters_are_typed:
  assumes "add_params B args [] = Params ps"
  shows "map fst ps = map fst args \<and> list_all (\<lambda>(n, x). \<exists>t. lookup_parameter_type n = Some t \<and> has_type t x) ps"
proof -
  have agree: "lookup_parameter_type n = Some t" if "connector_parameter_type n = Some t" for n t
    using that by (auto simp: lookup_parameter_type_def parameter_lookup_def connector_parameter_type_def connector_parameters_def split: if_splits)
  obtain rs where "ps = [] @ rs" "map fst rs = map fst args"
    "list_all (\<lambda>(n, x). \<exists>t. connector_parameter_type n = Some t \<and> has_type t x) rs" using add_params_typed [OF assms] by blast
  with agree show ?thesis by (fastforce simp: list_all_iff)
qed

theorem sent_parameters_are_typed_witness:
  "list_all (\<lambda>(n, x). \<exists>t. lookup_parameter_type n = Some t \<and> has_type t x) [(''unix-user'', V_int 7), (''x11-display'', V_string '':0'')]"
  using sent_parameters_are_typed [of "manager_bus (\<lambda>_. True) sample_menv quiet_helper"
      "[(''unix-user'', Arg_int 7), (''x11-display'', Arg_string (Some '':0''))]" "[(''unix-user'', V_int 7), (''x11-display'', V_string '':0'')]"]
  by (simp add: connector_parameter_type_def connector_parameters_def add_param_basic_def manager_bus_def)

text \<open>
  A login that could not be registered blocks every later one of the process. The module
  keeps its connector when the terminal or the user is unknown, and from then on every attempt
  returns PAM_IGNORE without a word to the daemon.
\<close>

theorem failed_login_blocks_retry:
  fixes B :: "'d bus"
  assumes "ckc m = None" and "bus_mem B Alloc_Connector" and "pam_parameters B h (opt_nox11 (parse_pam_args argv m)) = None"
  shows "\<exists>m'. pam_sm_open_session B h argv m d = Some (PAM_IGNORE, m', d) \<and>
    (\<forall>(C :: 'd bus) h2 argv2 d2. \<exists>m2. pam_sm_open_session C h2 argv2 m' d2 = Some (PAM_IGNORE, m2, d2) \<and> ckc m2 = ckc m')"
proof -
  obtain c where c: "ck_connector_new B = Some c" using assms(2) by (auto simp: ck_connector_new_def)
  let ?m = "(parse_pam_args argv (m\<lparr>opt_debug := False\<rparr>))\<lparr>ckc := Some c\<rparr>"
  have "pam_sm_open_session B h argv m d = Some (PAM_IGNORE, ?m, d)"
    using assms c by (simp add: pam_sm_open_session_def parse_pam_args_ckc parse_pam_args_nox11 Let_def)
  moreover have "pam_sm_open_session C h2 argv2 ?m d2 = Some (PAM_IGNORE, parse_pam_args argv2 (?m\<lparr>opt_debug := False\<rparr>), d2)"
    for C :: "'d bus" and h2 argv2 d2
    by (simp add: pam_sm_open_session_def parse_pam_args_ckc Let_def)
  ultimately show ?thesis by (intro exI [of _ ?m]) (simp add: parse_pam_args_ckc)
qed

theorem failed_login_blocks_retry_witness:
  "\<exists>m'. pam_sm_open_session (manager_bus (\<lambda>_. True) sample_menv quiet_helper) (sample_handle\<lparr>ph_tty := None\<rparr>) [] idle_module sample_daemon =
      Some (PAM_IGNORE, m', sample_daemon) \<and>
    (\<exists>m2. pam_sm_open_session (manager_bus (\<lambda>_. True) sample_menv quiet_helper) sample_handle [] m' sample_daemon = Some (PAM_IGNORE, m2, sample_daemon))"
proof -
  have "ckc idle_module = None" "bus_mem (manager_bus (\<lambda>_. True) sample_menv quiet_helper) Alloc_Connector"
    "pam_parameters (manager_bus (\<lambda>_. True) sample_menv quiet_helper) (sample_handle\<lparr>ph_tty := None\<rparr>) (opt_nox11 (parse_pam_args [] idle_module)) = None"
    by (simp_all add: idle_module_def manager_bus_def pam_parameters_def empty_string_def)
  from failed_login_blocks_retry [OF this, of sample_daemon] show ?thesis by blast
qed

text \<open>
  A connector that is used again answers with the runtime directory of its first session, and a
  missing X11 display, allowed by the documentation, ends the process.
\<close>

theorem reused_connector_keeps_runtime_dir:
  assumes "cc_runtime_dir c = Some dir"
    and "ck_connector_close_session B c None d = Some (True, c1, e1, d1)"
    and "ck_connector_open_session_with_parameters B args c1 e1 d1 = Some (True, c2, e2, d2)"
  shows "ck_connector_get_runtime_dir B c2 e2 d2 = Some (Some dir, c2, e2, d2)"
proof -
  have "cc_runtime_dir c1 = Some dir"
    using assms(1,2) by (auto simp: ck_connector_close_session_def split: if_splits prod.splits option.splits bool.splits ck_reply.splits)
  with assms(3) have "cc_runtime_dir c2 = Some dir" "cc_session_created c2" "cc_cookie c2 \<noteq> None"
    by (auto simp: ck_connector_open_session_with_parameters_def ck_connector_open_session_with_parameters_valist_def receive_cookie_def Let_def
        split: if_splits prod.splits sum.splits params_result.splits ck_reply.splits)
  then show ?thesis by (simp add: ck_connector_get_runtime_dir_def)
qed

theorem missing_display_aborts:
  assumes "bus_mem B = (\<lambda>_. True)" "bus_utf8 B = (\<lambda>_. True)" "bus_connect B d = (Inr n, d1)"
  shows "ck_connector_open_session_for_user B user (Some dev) None c None d = None"
  using assms
  by (simp add: ck_connector_open_session_for_user_def ck_connector_open_session_with_parameters_def add_param_basic_def
      ck_connector_open_session_with_parameters_valist_def connector_parameter_type_def connector_parameters_def)

end
