(* ===== verification/CK_UdevAcl.thy ===== *)
theory CK_UdevAcl
  imports CK_Manager
begin

text \<open>
  The program that gives the users of active local sessions access to devices:
  src/tools/udev-acl.c. The daemon runs it on every change of an active session, with the
  environment of \<open>seat_env_vector\<close> and after writing the database; udev runs it for new devices.

  The access control lists of files are the state. The mask calculation of libacl and the results
  of its calls are fields of \<open>acl_env\<close>; the database is the loaded key file, the options are
  parsed, the nodes of the tagged devices are an input. Debug output is left out.
\<close>

section \<open>Access control lists\<close>

datatype acl_tag = ACL_USER_OBJ | ACL_USER nat | ACL_GROUP_OBJ | ACL_GROUP nat | ACL_MASK | ACL_OTHER

type_synonym acl = "(acl_tag \<times> bool \<times> bool \<times> bool) list"

type_synonym acl_files = "string \<Rightarrow> acl option"

record acl_env =
  ae_qualifier_ok :: bool
  ae_create_ok :: bool
  ae_calc_mask :: "acl \<Rightarrow> acl"
  ae_set_ok :: "string \<Rightarrow> bool"

text \<open>The search for the entry of a user: \<open>None\<close> is an error, otherwise the position.\<close>

fun find_entry :: "bool \<Rightarrow> nat \<Rightarrow> acl \<Rightarrow> nat option option" where
  "find_entry ok user [] = Some None"
| "find_entry ok user ((t, p) # es) =
     (case t of
        ACL_USER u \<Rightarrow>
          if \<not> ok then None else if u = user then Some (Some 0) else map_option (map_option Suc) (find_entry ok user es)
      | _ \<Rightarrow> map_option (map_option Suc) (find_entry ok user es))"

definition acl_update :: "acl_env \<Rightarrow> string \<Rightarrow> acl \<Rightarrow> acl_files \<Rightarrow> int \<times> acl_files" where
  "acl_update E filename a files =
     (if ae_set_ok E filename then (0, files(filename \<mapsto> ae_calc_mask E a)) else (- 1, files))"

definition set_facl :: "acl_env \<Rightarrow> string \<Rightarrow> nat \<Rightarrow> bool \<Rightarrow> acl_files \<Rightarrow> int \<times> acl_files" where
  "set_facl E filename user add files =
     (if user = 0 then (0, files)
      else
        (case files filename of
           None \<Rightarrow> (- 1, files)
         | Some a \<Rightarrow>
             (case find_entry (ae_qualifier_ok E) user a of
                None \<Rightarrow> (- 1, files)
              | Some entry \<Rightarrow>
                  if \<not> add
                  then (case entry of None \<Rightarrow> (0, files) | Some i \<Rightarrow> acl_update E filename (take i a @ drop (Suc i) a) files)
                  else
                    (case entry of
                       None \<Rightarrow> if ae_create_ok E then acl_update E filename (a @ [(ACL_USER user, True, True, False)]) files else (- 1, files)
                     | Some i \<Rightarrow> acl_update E filename (a[i := (fst (a ! i), True, True, snd (snd (snd (a ! i))))]) files))))"

section \<open>The database\<close>

definition uid_in_list :: "nat list \<Rightarrow> nat \<Rightarrow> bool" where
  "uid_in_list l user = list_ex (\<lambda>u. user = u) l"

definition kf_groups :: "key_file \<Rightarrow> string list" where
  "kf_groups kf = remdups (map (fst \<circ> fst) kf)"

definition kf_boolean :: "key_file \<Rightarrow> string \<Rightarrow> string \<Rightarrow> bool" where
  "kf_boolean kf g k = (case g_hash_table_lookup kf (g, k) of None \<Rightarrow> False | Some v \<Rightarrow> v = ''true'' \<or> v = ''1'')"

text \<open>\<open>g_key_file_get_integer\<close>: 0 for text after the number and for values that are no \<open>gint\<close>.\<close>

definition kf_parse_integer :: "string \<Rightarrow> int" where
  "kf_parse_integer v =
     (let s = dropWhile is_space v;
          neg = (s \<noteq> [] \<and> hd s = CHR ''-'');
          s = (if s \<noteq> [] \<and> (hd s = CHR ''-'' \<or> hd s = CHR ''+'') then tl s else s);
          i = int (dec_val (takeWhile is_digit s));
          i = (if neg then - i else i);
          r = dropWhile is_digit s
      in if r \<noteq> [] \<and> \<not> is_space (hd r) then 0 else if i < - (2 ^ 31) \<or> i \<ge> 2 ^ 31 then 0 else i)"

definition kf_integer :: "key_file \<Rightarrow> string \<Rightarrow> string \<Rightarrow> int" where
  "kf_integer kf g k = (case g_hash_table_lookup kf (g, k) of None \<Rightarrow> 0 | Some v \<Rightarrow> kf_parse_integer v)"

fun str_has_prefix :: "string \<Rightarrow> string \<Rightarrow> bool" where
  "str_has_prefix s [] = True"
| "str_has_prefix [] (d # p) = False"
| "str_has_prefix (c # s) (d # p) = (c = d \<and> str_has_prefix s p)"

definition str_has_suffix :: "string \<Rightarrow> string \<Rightarrow> bool" where
  "str_has_suffix s p = (length p \<le> length s \<and> drop (length s - length p) s = p)"

definition local_active_group :: "key_file \<Rightarrow> cstring \<Rightarrow> string \<Rightarrow> bool" where
  "local_active_group kf own_id g =
     (str_has_prefix g ''Session '' \<and> \<not> (case own_id of None \<Rightarrow> False | Some i \<Rightarrow> str_has_suffix g i) \<and>
      kf_boolean kf g ''is_local'' \<and> kf_boolean kf g ''is_active'')"

fun collect_uids :: "key_file \<Rightarrow> cstring \<Rightarrow> string list \<Rightarrow> nat list \<Rightarrow> nat list" where
  "collect_uids kf own_id [] l = l"
| "collect_uids kf own_id (g # gs) l =
     collect_uids kf own_id gs
       (if \<not> local_active_group kf own_id g then l
        else let u = nat (kf_integer kf g ''uid'' mod 2 ^ 32) in if u > 0 \<and> \<not> uid_in_list l u then u # l else l)"

definition uids_with_local_active_session :: "key_file option \<Rightarrow> cstring \<Rightarrow> nat list" where
  "uids_with_local_active_session db own_id =
     (case db of None \<Rightarrow> [] | Some kf \<Rightarrow> collect_uids kf own_id (kf_groups kf) [])"

section \<open>The program\<close>

datatype acl_action = ACTION_NONE | ACTION_REMOVE | ACTION_ADD | ACTION_CHANGE

text \<open>\<open>strtoul\<close> in base ten on 64 bits, as a \<open>uid_t\<close>.\<close>

definition strtoul_uid :: "string \<Rightarrow> nat" where
  "strtoul_uid v =
     (let s = dropWhile is_space v;
          neg = (s \<noteq> [] \<and> hd s = CHR ''-'');
          s = (if s \<noteq> [] \<and> (hd s = CHR ''-'' \<or> hd s = CHR ''+'') then tl s else s);
          n = dec_val (takeWhile is_digit s)
      in (if n \<ge> 2 ^ 64 then 2 ^ 64 - 1 else if neg then (2 ^ 64 - n) mod 2 ^ 64 else n) mod 2 ^ 32)"

fun getenv :: "string list \<Rightarrow> string \<Rightarrow> cstring" where
  "getenv [] name = None"
| "getenv (e # env) name = (if str_has_prefix e (name @ ''='') then Some (drop (length name + 1) e) else getenv env name)"

text \<open>The call by the daemon: not one, a change of other sessions, or users and an action.\<close>

datatype ck_called = Not_Called | Nothing_To_Do | Called nat nat cstring acl_action

definition add_called :: "string list \<Rightarrow> ck_called" where
  "add_called env =
     (case (getenv env ''CK_SEAT_SESSION_USER_UID'', getenv env ''CK_SEAT_SESSION_IS_LOCAL'') of
        (Some u, Some l) \<Rightarrow> if l \<noteq> ''true'' then Nothing_To_Do else Called (strtoul_uid u) 0 None ACTION_ADD
      | _ \<Rightarrow> Not_Called)"

definition remove_called :: "string list \<Rightarrow> ck_called" where
  "remove_called env =
     (case (getenv env ''CK_SEAT_OLD_SESSION_USER_UID'', getenv env ''CK_SEAT_OLD_SESSION_IS_LOCAL'') of
        (Some u, Some l) \<Rightarrow>
          if l \<noteq> ''true'' then Nothing_To_Do
          else (case getenv env ''CK_SEAT_OLD_SESSION_ID'' of
                  None \<Rightarrow> Not_Called
                | Some old_session \<Rightarrow> Called (strtoul_uid u) 0 (Some old_session) ACTION_REMOVE)
      | _ \<Rightarrow> Not_Called)"

definition change_called :: "string list \<Rightarrow> ck_called" where
  "change_called env =
     (case (getenv env ''CK_SEAT_OLD_SESSION_USER_UID'', getenv env ''CK_SEAT_SESSION_USER_UID'',
            getenv env ''CK_SEAT_OLD_SESSION_IS_LOCAL'', getenv env ''CK_SEAT_SESSION_IS_LOCAL'') of
        (Some a, Some b, Some s, Some s2) \<Rightarrow>
          let u = strtoul_uid a; u2 = strtoul_uid b; old_session = getenv env ''CK_SEAT_OLD_SESSION_ID'' in
          if s \<noteq> ''true'' \<and> s2 \<noteq> ''true'' then Nothing_To_Do
          else if s = ''true'' \<and> s2 = ''true''
          then if old_session = None then Not_Called
               else Called u u2 old_session (if u = u2 then ACTION_NONE else ACTION_CHANGE)
          else if s = ''true''
          then if old_session = None then Not_Called else Called u u2 old_session ACTION_REMOVE
          else Called u2 u2 None ACTION_ADD
      | _ \<Rightarrow> Not_Called)"

definition consolekit_called :: "cstring \<Rightarrow> string list \<Rightarrow> ck_called" where
  "consolekit_called ck_action env =
     (if ck_action \<noteq> Some ''seat_active_session_changed'' then Not_Called
      else
        (case (getenv env ''CK_SEAT_OLD_SESSION_ID'', getenv env ''CK_SEAT_SESSION_ID'') of
           (None, None) \<Rightarrow> Not_Called
         | (_, None) \<Rightarrow> remove_called env
         | (None, _) \<Rightarrow> add_called env
         | _ \<Rightarrow> change_called env))"

text \<open>The devices udev knows with the tag; some have no node.\<close>

definition apply_acl_to_devices :: "acl_env \<Rightarrow> cstring list \<Rightarrow> nat \<Rightarrow> bool \<Rightarrow> acl_files \<Rightarrow> acl_files" where
  "apply_acl_to_devices E nodes user add files =
     fold (\<lambda>node files. case node of None \<Rightarrow> files | Some f \<Rightarrow> snd (set_facl E f user add files)) nodes files"

definition remove_uid :: "acl_env \<Rightarrow> key_file option \<Rightarrow> cstring list \<Rightarrow> nat \<Rightarrow> cstring \<Rightarrow> acl_files \<Rightarrow> acl_files" where
  "remove_uid E db nodes user remove_session_id files =
     (if \<not> uid_in_list (uids_with_local_active_session db remove_session_id) user
      then apply_acl_to_devices E nodes user False files else files)"

datatype acl_opt = Opt_action string | Opt_device string | Opt_user string | Opt_debug | Opt_help | Opt_unknown

record acl_args =
  aa_action :: "acl_action option"
  aa_device :: cstring
  aa_uid :: "nat option"

text \<open>\<open>None\<close> is the help option.\<close>

fun parse_options :: "acl_opt list \<Rightarrow> acl_args \<Rightarrow> acl_args option" where
  "parse_options [] a = Some a"
| "parse_options (Opt_action s # os) a = parse_options os (a\<lparr>aa_action := Some (if s = ''remove'' then ACTION_REMOVE else ACTION_ADD)\<rparr>)"
| "parse_options (Opt_device s # os) a = parse_options os (a\<lparr>aa_device := Some s\<rparr>)"
| "parse_options (Opt_user s # os) a = parse_options os (a\<lparr>aa_uid := Some (strtoul_uid s)\<rparr>)"
| "parse_options (Opt_help # os) a = None"
| "parse_options (_ # os) a = parse_options os a"

definition device_acls :: "acl_env \<Rightarrow> key_file option \<Rightarrow> bool \<Rightarrow> string \<Rightarrow> acl_files \<Rightarrow> acl_files" where
  "device_acls E db add device files =
     (let l = uids_with_local_active_session db None
      in fold (\<lambda>u files. if add \<or> \<not> uid_in_list l u then snd (set_facl E device u add files) else files) l files)"

definition user_acls ::
  "acl_env \<Rightarrow> key_file option \<Rightarrow> cstring list \<Rightarrow> acl_action \<Rightarrow> nat \<Rightarrow> nat \<Rightarrow> cstring \<Rightarrow> acl_files \<Rightarrow> acl_files" where
  "user_acls E db nodes action user uid2 remove_session_id files =
     (case action of
        ACTION_ADD \<Rightarrow> apply_acl_to_devices E nodes user True files
      | ACTION_REMOVE \<Rightarrow> remove_uid E db nodes user remove_session_id files
      | ACTION_CHANGE \<Rightarrow> apply_acl_to_devices E nodes uid2 True (remove_uid E db nodes user remove_session_id files)
      | ACTION_NONE \<Rightarrow> files)"

text \<open>The whole program; the result is the exit status.\<close>

definition udev_acl ::
  "acl_env \<Rightarrow> acl_opt list \<Rightarrow> cstring \<Rightarrow> string list \<Rightarrow> key_file option \<Rightarrow> cstring list \<Rightarrow> acl_files \<Rightarrow> nat \<times> acl_files" where
  "udev_acl E opts ck_action env db nodes files =
     (case parse_options opts \<lparr>aa_action = None, aa_device = None, aa_uid = None\<rparr> of
        None \<Rightarrow> (0, files)
      | Some a \<Rightarrow>
          let called = (if aa_action a = None \<and> aa_device a = None \<and> aa_uid a = None then consolekit_called ck_action env else Not_Called)
          in (case called of
                Called u u2 own action \<Rightarrow> (0, user_acls E db nodes action u u2 own files)
              | Nothing_To_Do \<Rightarrow> (2, files)
              | Not_Called \<Rightarrow>
                  (case (aa_action a, aa_device a, aa_uid a) of
                     (None, _, _) \<Rightarrow> (2, files)
                   | (Some _, Some _, Some _) \<Rightarrow> (3, files)
                   | (Some action, None, Some u) \<Rightarrow> (0, user_acls E db nodes action u 0 None files)
                   | (Some action, Some device, None) \<Rightarrow> (0, device_acls E db (action = ACTION_ADD) device files)
                   | (Some _, None, None) \<Rightarrow> (3, files))))"

section \<open>Lemmas\<close>

subsection \<open>Lists of one file\<close>

definition is_user :: "acl_tag \<times> bool \<times> bool \<times> bool \<Rightarrow> bool" where
  "is_user e = (\<exists>u. fst e = ACL_USER u)"

text \<open>The calls work, and the mask calculation leaves the entries of users alone.\<close>

definition acl_env_ok :: "acl_env \<Rightarrow> bool" where
  "acl_env_ok E =
     (ae_qualifier_ok E \<and> ae_create_ok E \<and> (\<forall>f. ae_set_ok E f) \<and> (\<forall>a. filter is_user (ae_calc_mask E a) = filter is_user a))"

definition files_ok :: "acl_files \<Rightarrow> bool" where
  "files_ok files = (\<forall>f a. files f = Some a \<longrightarrow> distinct (map fst (filter is_user a)))"

definition allowed :: "acl_files \<Rightarrow> string \<Rightarrow> nat \<Rightarrow> bool" where
  "allowed files f u = (case files f of None \<Rightarrow> False | Some a \<Rightarrow> \<exists>x. (ACL_USER u, True, True, x) \<in> set a)"

lemma find_entry_spec:
  "find_entry True u a \<noteq> None"
  "find_entry True u a = Some None \<Longrightarrow> list_all (\<lambda>e. fst e \<noteq> ACL_USER u) a"
  "find_entry True u a = Some (Some i) \<Longrightarrow> i < length a \<and> fst (a ! i) = ACL_USER u"
proof -
  show "find_entry True u a \<noteq> None" by (induction a) (auto split: acl_tag.splits)
  show "find_entry True u a = Some None \<Longrightarrow> list_all (\<lambda>e. fst e \<noteq> ACL_USER u) a"
    by (induction a) (auto split: acl_tag.splits if_splits)
  show "find_entry True u a = Some (Some i) \<Longrightarrow> i < length a \<and> fst (a ! i) = ACL_USER u"
    by (induction a arbitrary: i) (auto split: acl_tag.splits if_splits)
qed

lemma is_user_entry [simp]: "is_user (ACL_USER u, p)"
  by (simp add: is_user_def)

text \<open>The entries of users after a change of one entry.\<close>

lemma users_of_delete:
  assumes "distinct (map fst (filter is_user a))" "i < length a" "fst (a ! i) = ACL_USER u"
  shows "filter is_user (take i a @ drop (Suc i) a) = filter (\<lambda>e. is_user e \<and> fst e \<noteq> ACL_USER u) a"
proof -
  have a: "a = take i a @ a ! i # drop (Suc i) a" using assms(2) by (rule id_take_nth_drop)
  have "distinct (map fst (filter is_user (take i a @ a ! i # drop (Suc i) a)))" using assms(1) a by metis
  moreover have "is_user (a ! i)" using assms(3) by (simp add: is_user_def)
  ultimately have "fst e \<noteq> ACL_USER u" if "e \<in> set (take i a) \<union> set (drop (Suc i) a)" "is_user e" for e
    using that assms(3) by (cases e) (auto simp: image_iff)
  then have "filter (\<lambda>e. is_user e \<and> fst e \<noteq> ACL_USER u) (take i a) = filter is_user (take i a)"
      "filter (\<lambda>e. is_user e \<and> fst e \<noteq> ACL_USER u) (drop (Suc i) a) = filter is_user (drop (Suc i) a)"
    by (auto intro!: filter_cong)
  then show ?thesis by (subst (3) a) (simp add: assms(3))
qed

lemma users_of_update:
  assumes "i < length a" "fst (a ! i) = ACL_USER u"
  shows "map fst (filter is_user (a[i := (fst (a ! i), p)])) = map fst (filter is_user a)"
proof -
  have "a = take i a @ a ! i # drop (Suc i) a" using assms(1) by (rule id_take_nth_drop)
  then have "map fst (filter is_user a) = map fst (filter is_user (take i a)) @ ACL_USER u # map fst (filter is_user (drop (Suc i) a))"
    using assms(2) by (metis (no_types, lifting) filter.simps(2) filter_append is_user_def list.simps(9) map_append)
  then show ?thesis using assms by (simp add: upd_conv_take_nth_drop is_user_def)
qed

lemma allowed_users: "filter is_user a = us \<Longrightarrow> files f = Some a \<Longrightarrow> allowed files f u = (\<exists>x. (ACL_USER u, True, True, x) \<in> set us)"
  by (auto simp: allowed_def)

lemma set_facl_result:
  assumes "acl_env_ok E" "files_ok files" "user \<noteq> 0" "files' = snd (set_facl E f user add files)"
  shows "files_ok files'" "g \<noteq> f \<Longrightarrow> files' g = files g" "(files' g = None) = (files g = None)"
    "files f \<noteq> None \<Longrightarrow> allowed files' f u = (if u = user then add else allowed files f u)"
proof -
  have E: "ae_qualifier_ok E" "ae_create_ok E" "\<And>f. ae_set_ok E f" "\<And>a. filter is_user (ae_calc_mask E a) = filter is_user a"
    using assms(1) by (auto simp: acl_env_ok_def)
  have "files_ok files' \<and> (\<forall>g. g \<noteq> f \<longrightarrow> files' g = files g) \<and> (\<forall>g. (files' g = None) = (files g = None)) \<and>
    (files f \<noteq> None \<longrightarrow> (\<forall>u. allowed files' f u = (if u = user then add else allowed files f u)))"
  proof (cases "files f")
    case None
    then show ?thesis using assms(2,3,4) by (simp add: set_facl_def)
  next
    case (Some a)
    have d: "distinct (map fst (filter is_user a))" using assms(2) Some by (auto simp: files_ok_def)
    obtain entry where entry: "find_entry True user a = Some entry" using find_entry_spec(1) [of user a] by blast
    note s = find_entry_spec(2,3) [of user a]
    define us where "us = (if add then (case entry of None \<Rightarrow> filter is_user a @ [(ACL_USER user, True, True, False)]
         | Some i \<Rightarrow> filter is_user (a[i := (fst (a ! i), True, True, snd (snd (snd (a ! i))))]))
       else filter (\<lambda>e. is_user e \<and> fst e \<noteq> ACL_USER user) a)"
    have "\<exists>b. files' = files(f \<mapsto> b) \<and> filter is_user b = us"
    proof (cases entry)
      case None
      with s entry have no: "list_all (\<lambda>e. fst e \<noteq> ACL_USER user) a" by simp
      then have "filter (\<lambda>e. is_user e \<and> fst e \<noteq> ACL_USER user) a = filter is_user a"
        by (auto simp: list_all_iff intro!: filter_cong)
      moreover have "files = files(f \<mapsto> a)" using Some by (simp add: fun_upd_idem)
      ultimately show ?thesis
        using None Some entry E assms(3,4) by (cases add) (auto simp: set_facl_def acl_update_def us_def intro: exI [of _ a])
    next
      case i: (Some i)
      with s entry have "i < length a" "fst (a ! i) = ACL_USER user" by auto
      with users_of_delete [OF d this] i Some entry E assms(3,4) show ?thesis
        by (auto simp: set_facl_def acl_update_def us_def)
    qed
    then obtain b where b: "files' = files(f \<mapsto> b)" "filter is_user b = us" by blast
    have "distinct (map fst us)"
    proof (cases add)
      case True
      show ?thesis
      proof (cases entry)
        case None
        with s entry d True show ?thesis by (auto simp: us_def list_all_iff)
      next
        case (Some i)
        with s entry d True users_of_update [of i a user] show ?thesis by (simp add: us_def)
      qed
    next
      case False
      have "us = filter (\<lambda>e. fst e \<noteq> ACL_USER user) (filter is_user a)" using False by (simp add: us_def conj_commute)
      with d show ?thesis by (simp only: distinct_map_filter)
    qed
    moreover have "(\<exists>x. (ACL_USER u, True, True, x) \<in> set us) = (if u = user then add else allowed files f u)" for u
    proof (cases entry)
      case None
      with s entry show ?thesis by (auto simp: us_def allowed_def Some list_all_iff)
    next
      case i: (Some i)
      with s entry have i': "i < length a" "fst (a ! i) = ACL_USER user" by auto
      show ?thesis
      proof (cases add)
        case True
        have "(ACL_USER u, True, True, x) \<in> set (a[i := (ACL_USER user, True, True, y)]) \<longleftrightarrow> (ACL_USER u, True, True, x) \<in> set a" if "u \<noteq> user" for x y
          using that i' by (auto simp: in_set_conv_nth nth_list_update split: if_splits) (metis fst_conv acl_tag.inject(1))+
        moreover have "(ACL_USER user, True, True, y) \<in> set (a[i := (ACL_USER user, True, True, y)])" for y
          using i'(1) by (simp add: set_update_memI)
        ultimately show ?thesis using True i i' Some by (auto simp: us_def allowed_def)
      qed (auto simp: us_def allowed_def Some)
    qed
    ultimately show ?thesis
      using assms(2) b Some allowed_users [OF b(2), of files' f] by (auto simp: files_ok_def)
  qed
  then show "files_ok files'" "g \<noteq> f \<Longrightarrow> files' g = files g" "(files' g = None) = (files g = None)"
    "files f \<noteq> None \<Longrightarrow> allowed files' f u = (if u = user then add else allowed files f u)" by blast+
qed

lemma apply_acl_result:
  assumes "acl_env_ok E" "files_ok files" "user \<noteq> 0" "files' = apply_acl_to_devices E nodes user add files"
  shows "files_ok files'" "Some g \<notin> set nodes \<Longrightarrow> files' g = files g" "(files' g = None) = (files g = None)"
    "Some g \<in> set nodes \<Longrightarrow> files g \<noteq> None \<Longrightarrow> allowed files' g u = (if u = user then add else allowed files g u)"
proof -
  have "files_ok files' \<and> (\<forall>g. Some g \<notin> set nodes \<longrightarrow> files' g = files g) \<and> (\<forall>g. (files' g = None) = (files g = None)) \<and>
    (\<forall>g u. Some g \<in> set nodes \<longrightarrow> files g \<noteq> None \<longrightarrow> allowed files' g u = (if u = user then add else allowed files g u))"
    using assms(2,4) unfolding apply_acl_to_devices_def
  proof (induction nodes arbitrary: files files')
    case (Cons node nodes)
    define files1 where "files1 = (case node of None \<Rightarrow> files | Some f \<Rightarrow> snd (set_facl E f user add files))"
    have 1: "files_ok files1" "\<And>g. node \<noteq> Some g \<Longrightarrow> files1 g = files g" "\<And>g. (files1 g = None) = (files g = None)"
      "\<And>g u. node = Some g \<Longrightarrow> files g \<noteq> None \<Longrightarrow> allowed files1 g u = (if u = user then add else allowed files g u)"
    proof -
      note r = set_facl_result [OF assms(1) Cons.prems(1) assms(3) refl]
      show "files_ok files1" using r(1) Cons.prems(1) by (simp add: files1_def split: option.split)
      show "node \<noteq> Some g \<Longrightarrow> files1 g = files g" for g by (cases node) (simp_all add: files1_def r(2))
      show "(files1 g = None) = (files g = None)" for g using r(3) by (simp add: files1_def split: option.split)
      show "node = Some g \<Longrightarrow> files g \<noteq> None \<Longrightarrow> allowed files1 g u = (if u = user then add else allowed files g u)" for g u
        using r(4) by (simp add: files1_def)
    qed
    have same: "allowed files1 g = allowed files g" if "files1 g = files g" for g using that by (simp add: allowed_def fun_eq_iff)
    note IH = Cons.IH [OF 1(1), OF refl]
    have f': "files' = fold (\<lambda>node files. case node of None \<Rightarrow> files | Some f \<Rightarrow> snd (set_facl E f user add files)) nodes files1"
      using Cons.prems(2) by (simp add: files1_def)
    have keep: "allowed files' g u = allowed files1 g u" if "files' g = files1 g" for g u using that by (simp add: allowed_def)
    have "allowed files' g u = (if u = user then add else allowed files g u)" if g: "Some g \<in> set (node # nodes)" "files g \<noteq> None" for g u
    proof (cases "Some g \<in> set nodes")
      case True
      then have "allowed files' g u = (if u = user then add else allowed files1 g u)" using IH f' g(2) 1(3) by auto
      then show ?thesis using 1(4) [OF _ g(2)] same [OF 1(2)] by (cases "node = Some g") auto
    next
      case False
      with g have "node = Some g" by auto
      then show ?thesis using keep [of g u] IH f' False 1(4) [OF _ g(2)] by auto
    qed
    moreover have "files' g = files g" if "Some g \<notin> set (node # nodes)" for g using that IH f' 1(2) by auto
    moreover have "(files' g = None) = (files g = None)" for g using IH f' 1(3) by simp
    ultimately show ?case using IH f' by blast
  qed simp
  then show "files_ok files'" "Some g \<notin> set nodes \<Longrightarrow> files' g = files g" "(files' g = None) = (files g = None)"
    "Some g \<in> set nodes \<Longrightarrow> files g \<noteq> None \<Longrightarrow> allowed files' g u = (if u = user then add else allowed files g u)" by blast+
qed

lemma apply_acl_root: "apply_acl_to_devices E nodes 0 add files = files"
proof -
  have "fold (\<lambda>node files. case node of None \<Rightarrow> files | Some f \<Rightarrow> snd (set_facl E f 0 add files)) nodes files = files"
    by (induction nodes) (auto simp: set_facl_def split: option.splits)
  then show ?thesis by (simp add: apply_acl_to_devices_def)
qed

subsection \<open>The users of active local sessions\<close>

lemma set_collect_uids:
  "set (collect_uids kf own gs l) =
     set l \<union> {u. u > 0 \<and> (\<exists>g \<in> set gs. local_active_group kf own g \<and> u = nat (kf_integer kf g ''uid'' mod 2 ^ 32))}"
  by (induction kf own gs l rule: collect_uids.induct) (auto simp: Let_def uid_in_list_def list_ex_iff)

lemma distinct_collect_uids: "distinct l \<Longrightarrow> distinct (collect_uids kf own gs l)"
  by (induction kf own gs l rule: collect_uids.induct) (auto simp: Let_def uid_in_list_def list_ex_iff)

lemma kf_groups_lookup: "g_hash_table_lookup kf (g, k) \<noteq> None \<Longrightarrow> g \<in> set (kf_groups kf)"
  by (force simp: kf_groups_def g_hash_table_lookup_def dest!: map_of_SomeD)

lemma users_of_database:
  "set (uids_with_local_active_session (Some kf) own) =
     {u. u > 0 \<and> (\<exists>g. local_active_group kf own g \<and> u = nat (kf_integer kf g ''uid'' mod 2 ^ 32))}"
proof -
  have "g \<in> set (kf_groups kf)" if "local_active_group kf own g" for g
    using that kf_groups_lookup [of kf g "''is_local''"] by (auto simp: local_active_group_def kf_boolean_def split: option.splits)
  then show ?thesis by (auto simp: uids_with_local_active_session_def set_collect_uids)
qed

lemma dec_scan:
  "dropWhile is_space (dec n) = dec n" "takeWhile is_digit (dec n) = dec n" "dropWhile is_digit (dec n) = []"
  "hd (dec n) \<noteq> CHR ''-''" "hd (dec n) \<noteq> CHR ''+''"
proof -
  show "takeWhile is_digit (dec n) = dec n" "dropWhile is_digit (dec n) = []" by (simp_all add: takeWhile_eq_all_conv)
  have h: "is_digit (hd (dec n))" by (rule dec_digits, rule hd_in_set, rule dec_nonempty)
  then show "dropWhile is_space (dec n) = dec n" by (metis dropWhile_eq_self_iff is_digit_not_space)
  show "hd (dec n) \<noteq> CHR ''-''" "hd (dec n) \<noteq> CHR ''+''" using h by (auto simp: is_digit_def)
qed

lemma kf_parse_uid: "u < 2 ^ 32 \<Longrightarrow> nat (kf_parse_integer (dec_int (as_gint u)) mod 2 ^ 32) = u"
proof -
  assume u: "u < 2 ^ 32"
  have m: "\<not> is_space CHR ''-''" by (simp add: is_space_def)
  show ?thesis
  proof (cases "u < 2 ^ 31")
    case True
    then show ?thesis using u by (simp add: kf_parse_integer_def as_gint_def Let_def dec_int_def dec_scan nat_mod_distrib)
  next
    case False
    define i where "i = (2 ^ 32 - u :: nat)"
    have i: "as_gint u = - int i" "0 < i" "i \<le> 2 ^ 31" "int u = 2 ^ 32 - int i" using False u by (auto simp: as_gint_def Let_def i_def)
    then have "kf_parse_integer (dec_int (as_gint u)) = - int i"
      by (simp add: kf_parse_integer_def Let_def dec_int_def dec_scan m)
    moreover have "- int i mod 2 ^ 32 = 2 ^ 32 - int i" using i by (simp add: zmod_zminus1_eq_if)
    ultimately show ?thesis using i by simp
  qed
qed

text \<open>What the program reads of a group, and what the daemon wrote for a session.\<close>

definition group_view :: "key_file \<Rightarrow> string \<Rightarrow> cstring \<times> cstring \<times> cstring" where
  "group_view kf g =
     (g_hash_table_lookup kf (g, ''is_local''), g_hash_table_lookup kf (g, ''is_active''), g_hash_table_lookup kf (g, ''uid''))"

definition session_view :: "CkSession \<Rightarrow> cstring \<times> cstring \<times> cstring" where
  "session_view s = (Some (bool_string (s_is_local s)), Some (bool_string (s_active s)), Some (dec_int (as_gint (s_unix_user s))))"

definition session_group :: "string \<Rightarrow> bool" where
  "session_group g = str_has_prefix g ''Session ''"

lemma group_view_set: "g \<noteq> h \<Longrightarrow> group_view (kf_set h k v kf) g = group_view kf g"
  by (simp add: group_view_def kf_set_def)

lemma group_view_set_opt:
  "g \<noteq> h \<Longrightarrow> group_view (kf_set_opt h k v kf) g = group_view kf g"
  "g \<noteq> h \<Longrightarrow> group_view (kf_set_nonnull h k v kf) g = group_view kf g"
  by (simp_all add: kf_set_opt_def kf_set_nonnull_def group_view_set split: option.split)

lemma session_dump_view:
  "group_view (ck_session_dump iso8601 s kf) g = (if g = ''Session '' @ printf_string (s_id s) then session_view s else group_view kf g)"
proof (cases "g = ''Session '' @ printf_string (s_id s)")
  case True
  then show ?thesis
    by (simp add: group_view_def session_view_def ck_session_dump_def Let_def kf_set_def kf_set_opt_def kf_set_nonnull_def split: option.split)
next
  case False
  then show ?thesis by (simp add: ck_session_dump_def Let_def group_view_set group_view_set_opt)
qed

lemma session_group_names [simp]:
  "session_group (''Session '' @ i)" "\<not> session_group (''SessionLeader '' @ i)" "\<not> session_group (''Seat '' @ i)" "\<not> session_group ''Seats''" "\<not> session_group (''User '' @ i)"
  by (simp_all add: session_group_def)

lemma other_dumps_view:
  assumes "session_group g"
  shows "group_view (ck_session_leader_dump l kf) g = group_view kf g"
    "ck_seat_dump st w kf = Some kf' \<Longrightarrow> group_view kf' g = group_view kf g"
    "group_view (kf_set ''Seats'' k v kf) g = group_view kf g"
proof -
  have "g \<noteq> ''SessionLeader '' @ i" "g \<noteq> ''Seat '' @ i" "g \<noteq> ''Seats''" for i using assms session_group_names by metis+
  then show "group_view (ck_session_leader_dump l kf) g = group_view kf g" "group_view (kf_set ''Seats'' k v kf) g = group_view kf g"
    "ck_seat_dump st w kf = Some kf' \<Longrightarrow> group_view kf' g = group_view kf g"
    by (auto simp: ck_session_leader_dump_def ck_seat_dump_def Let_def group_view_set split: if_splits option.splits)
qed

lemma dump_seats_view: "session_group g \<Longrightarrow> dump_seats w t kf = Some kf' \<Longrightarrow> group_view kf' g = group_view kf g"
  by (induction w t kf rule: dump_seats.induct) (auto simp: other_dumps_view split: option.splits)

lemma dump_leaders_view: "session_group g \<Longrightarrow> group_view (fold (dump_state_leader_iter w) t kf) g = group_view kf g"
  by (induction t arbitrary: kf) (simp_all add: dump_state_leader_iter_def other_dumps_view)

lemma dump_users_view:
  assumes "session_group g"
  shows "group_view (dump_user_section E w kf) g = group_view kf g"
proof -
  have "g \<noteq> ''User '' @ i" for i using assms session_group_names(5) by metis
  then have "group_view (dump_user_iter E d kf) g = group_view kf g" for d kf by (simp add: dump_user_iter_def Let_def group_view_set)
  then have "group_view (fold (dump_user_iter E) t kf) g = group_view kf g" for t by (induction t arbitrary: kf) simp_all
  then show ?thesis by (simp add: dump_user_section_def)
qed

text \<open>
  Sessions are listed under their names, which have the form that \<open>generate_session_id\<close> gives them;
  user ids have 32 bits.
\<close>

definition named_sessions :: "manager_world \<Rightarrow> bool" where
  "named_sessions w =
     (ht_wf (mg_sessions w) \<and>
      list_all (\<lambda>(k, a). s_id (sess w a) = Some k \<and> (\<exists>n. k = ''Session'' @ dec n) \<and> s_unix_user (sess w a) < 2 ^ 32) (mg_sessions w))"

lemma dump_sessions_view:
  assumes "distinct (map fst t)" "\<And>k a. (k, a) \<in> set t \<Longrightarrow> s_id (sess w a) = Some k"
  shows "group_view (fold (dump_state_session_iter E w) t kf) g =
    (case List.find (\<lambda>(k, a). g = ''Session '' @ k) t of None \<Rightarrow> group_view kf g | Some (k, a) \<Rightarrow> session_view (sess w a))"
  using assms
proof (induction t arbitrary: kf)
  case (Cons ka t)
  obtain k a where ka: "ka = (k, a)" by fastforce
  have "s_id (sess w a) = Some k" using Cons.prems(2) ka by simp
  then have v: "group_view (dump_state_session_iter E w ka kf) g = (if g = ''Session '' @ k then session_view (sess w a) else group_view kf g)"
    by (simp add: dump_state_session_iter_def ka session_dump_view printf_string_def)
  have "List.find (\<lambda>(k, a). g = ''Session '' @ k) t = None" if "g = ''Session '' @ k"
    using Cons.prems(1) that by (force simp: find_None_iff ka)
  then show ?case using Cons v by (cases "List.find (\<lambda>(k, a). g = ''Session '' @ k) t") (auto simp: ka)
qed simp

lemma bool_string_true [simp]: "bool_string b = ''true'' \<longleftrightarrow> b" "bool_string b \<noteq> ''1''"
  by (simp_all add: bool_string_def)

lemma local_active_view:
  assumes "group_view kf g = session_view s" "s_unix_user s < 2 ^ 32"
  shows "kf_boolean kf g ''is_local'' = s_is_local s" "kf_boolean kf g ''is_active'' = s_active s"
    "nat (kf_integer kf g ''uid'' mod 2 ^ 32) = s_unix_user s"
  using assms kf_parse_uid by (auto simp: group_view_def session_view_def kf_boolean_def kf_integer_def)

text \<open>The suffix test recognizes the group of the session that ends, and no other one.\<close>

lemma own_group: "str_has_suffix (''Session '' @ ''Session'' @ dec m) (''Session'' @ dec n) \<longleftrightarrow> m = n"
proof
  let ?g = "''Session '' @ ''Session'' @ dec m" and ?o = "''Session'' @ dec n"
  assume "str_has_suffix ?g ?o"
  then have "\<exists>p. ?g = p @ ?o" unfolding str_has_suffix_def by (metis append_take_drop_id)
  then obtain p where "''Session '' @ ''Session'' @ dec m = p @ ''Session'' @ dec n" by blast
  then have "rev (''Session '' @ ''Session'' @ dec m) = rev (p @ ''Session'' @ dec n)" by (rule arg_cong)
  then have "rev (dec m) @ CHR ''n'' # rev ''Session Sessio'' = rev (dec n) @ CHR ''n'' # rev (p @ ''Sessio'')"
    by simp
  moreover have "takeWhile is_digit (rev (dec k) @ CHR ''n'' # r) = rev (dec k)" for k r
    by (subst takeWhile_append2) (simp_all add: is_digit_def [of "CHR ''n''"])
  ultimately have "rev (dec m) = rev (dec n)" by metis
  then show "m = n" by simp
next
  assume "m = n"
  then show "str_has_suffix (''Session '' @ ''Session'' @ dec m) (''Session'' @ dec n)" by (simp add: str_has_suffix_def)
qed

lemma session_names_inj: "''Session '' @ k = ''Session '' @ k' \<longleftrightarrow> k = k'"
  by simp

text \<open>The users the program reads are those of the sessions the daemon holds.\<close>

lemma users_of_dump:
  assumes "named_sessions w" "manager_key_file E w = Some kf" "own = None \<or> own = Some (''Session'' @ dec n)"
  shows "u \<in> set (uids_with_local_active_session (Some kf) own) \<longleftrightarrow>
    u > 0 \<and> (\<exists>(k, a) \<in> set (mg_sessions w). own \<noteq> Some k \<and> s_is_local (sess w a) \<and> s_active (sess w a) \<and> u = s_unix_user (sess w a))"
proof -
  have ids: "s_id (sess w a) = Some k" "\<exists>n. k = ''Session'' @ dec n" "s_unix_user (sess w a) < 2 ^ 32" if "(k, a) \<in> set (mg_sessions w)" for k a
    using assms(1) that by (auto simp: named_sessions_def list_all_iff)
  have d: "distinct (map fst (mg_sessions w))" using assms(1) by (simp add: named_sessions_def ht_wf_def)
  let ?find = "\<lambda>g. List.find (\<lambda>(k, a). g = ''Session '' @ k) (mg_sessions w)"
  have view: "group_view kf g = (case ?find g of None \<Rightarrow> (None, None, None) | Some (k, a) \<Rightarrow> session_view (sess w a))" if g: "session_group g" for g
  proof -
    obtain kf1 where kf1: "dump_seats w (mg_seats w) (kf_set ''Seats'' ''seats'' (fold (dump_manager_seat_iter w) (mg_seats w) []) []) = Some kf1"
      "kf = dump_user_section E w (fold (dump_state_leader_iter w) (mg_leaders w) (fold (dump_state_session_iter E w) (mg_sessions w) kf1))"
      using assms(2) by (auto simp: manager_key_file_def)
    have "group_view kf1 g = (None, None, None)"
      using dump_seats_view [OF g kf1(1)] other_dumps_view(3) [OF g] by (simp add: group_view_def)
    then show ?thesis using dump_sessions_view [OF d ids(1)] dump_users_view [OF g] dump_leaders_view [OF g] kf1(2) by (simp cong: option.case_cong)
  qed
  have entry: "?find (''Session '' @ k) = Some (k, a)" if "(k, a) \<in> set (mg_sessions w)" for k a
  proof -
    have "?find (''Session '' @ k) \<noteq> None" using that by (auto simp: find_None_iff intro!: exI [of _ "(k, a)"])
    then obtain k' a' where "?find (''Session '' @ k) = Some (k', a')" by auto
    moreover then have "(k', a') \<in> set (mg_sessions w)" "k' = k" by (auto simp: find_Some_iff in_set_conv_nth)
    ultimately show ?thesis using d that by (auto dest: eq_key_imp_eq_value)
  qed
  have own: "(case own of None \<Rightarrow> False | Some i \<Rightarrow> str_has_suffix (''Session '' @ k) i) = (own = Some k)" if "(k, a) \<in> set (mg_sessions w)" for k a
    using ids(2) [OF that] assms(3) own_group by auto
  show ?thesis
  proof
    assume "u \<in> set (uids_with_local_active_session (Some kf) own)"
    then obtain g where g: "u > 0" "local_active_group kf own g" "u = nat (kf_integer kf g ''uid'' mod 2 ^ 32)" by (auto simp: users_of_database)
    have sg: "session_group g" using g(2) by (simp add: local_active_group_def session_group_def)
    have "group_view kf g \<noteq> (None, None, None)" using g(2) by (auto simp: local_active_group_def kf_boolean_def group_view_def)
    then have "?find g \<noteq> None" using view [OF sg] by (auto split: option.splits)
    then obtain k a where f: "?find g = Some (k, a)" by auto
    then have ka: "(k, a) \<in> set (mg_sessions w)" "g = ''Session '' @ k" by (auto simp: find_Some_iff in_set_conv_nth)
    then have "local_active_group kf own (''Session '' @ k)" "group_view kf (''Session '' @ k) = session_view (sess w a)"
      using g(2) view [OF sg] f by auto
    then show "u > 0 \<and> (\<exists>(k, a) \<in> set (mg_sessions w). own \<noteq> Some k \<and> s_is_local (sess w a) \<and> s_active (sess w a) \<and> u = s_unix_user (sess w a))"
      using g ka local_active_view [of kf "''Session '' @ k" "sess w a"] ids(3) [OF ka(1)] own [OF ka(1)] unfolding local_active_group_def
      by blast
  next
    assume "u > 0 \<and> (\<exists>(k, a) \<in> set (mg_sessions w). own \<noteq> Some k \<and> s_is_local (sess w a) \<and> s_active (sess w a) \<and> u = s_unix_user (sess w a))"
    then obtain k a where ka: "u > 0" "(k, a) \<in> set (mg_sessions w)" "own \<noteq> Some k" "s_is_local (sess w a)" "s_active (sess w a)" "u = s_unix_user (sess w a)"
      by blast
    have "group_view kf (''Session '' @ k) = session_view (sess w a)" using view [OF session_group_names(1), of k] unfolding entry [OF ka(2)] by simp
    note v = local_active_view [OF this ids(3) [OF ka(2)]]
    have "local_active_group kf own (''Session '' @ k)" unfolding local_active_group_def using v ka own [OF ka(2)] by simp
    then show "u \<in> set (uids_with_local_active_session (Some kf) own)" using ka v by (auto simp: users_of_database)
  qed
qed

subsection \<open>The environment\<close>

lemma getenv_skip:
  "(\<And>x. \<not> str_has_prefix (n @ ''='' @ x) (m @ ''='')) \<Longrightarrow> getenv (set_entry n v @ r) m = getenv r m"
  by (simp add: set_entry_def env_entry_def split: option.split)

lemma getenv_old:
  assumes "s_id s = Some i" "i \<noteq> []"
  shows "getenv (env_add_session_info ''CK_SEAT_OLD_SESSION_'' s @ r) ''CK_SEAT_OLD_SESSION_ID'' = Some i"
    "getenv (env_add_session_info ''CK_SEAT_OLD_SESSION_'' s @ r) ''CK_SEAT_OLD_SESSION_USER_UID'' = Some (dec (s_unix_user s))"
    "getenv (env_add_session_info ''CK_SEAT_OLD_SESSION_'' s @ r) ''CK_SEAT_OLD_SESSION_IS_LOCAL'' = Some (bool_string (ck_session_is_local s))"
    "getenv (env_add_session_info ''CK_SEAT_OLD_SESSION_'' s @ r) ''CK_SEAT_SESSION_ID'' = getenv r ''CK_SEAT_SESSION_ID''"
    "getenv (env_add_session_info ''CK_SEAT_OLD_SESSION_'' s @ r) ''CK_SEAT_SESSION_USER_UID'' = getenv r ''CK_SEAT_SESSION_USER_UID''"
    "getenv (env_add_session_info ''CK_SEAT_OLD_SESSION_'' s @ r) ''CK_SEAT_SESSION_IS_LOCAL'' = getenv r ''CK_SEAT_SESSION_IS_LOCAL''"
  using assms by (simp_all add: env_add_session_info_def getenv_skip) (simp_all add: set_entry_def env_entry_def IS_STR_SET_def)

lemma getenv_new:
  assumes "s_id s = Some i" "i \<noteq> []"
  shows "getenv (env_add_session_info ''CK_SEAT_SESSION_'' s) ''CK_SEAT_SESSION_ID'' = Some i"
    "getenv (env_add_session_info ''CK_SEAT_SESSION_'' s) ''CK_SEAT_SESSION_USER_UID'' = Some (dec (s_unix_user s))"
    "getenv (env_add_session_info ''CK_SEAT_SESSION_'' s) ''CK_SEAT_SESSION_IS_LOCAL'' = Some (bool_string (ck_session_is_local s))"
    "getenv (env_add_session_info ''CK_SEAT_SESSION_'' s) ''CK_SEAT_OLD_SESSION_ID'' = None"
  using assms by (simp_all add: env_add_session_info_def getenv_skip) (simp_all add: set_entry_def env_entry_def IS_STR_SET_def)

lemma strtoul_uid_dec: "u < 2 ^ 32 \<Longrightarrow> strtoul_uid (dec u) = u"
  by (simp add: strtoul_uid_def dec_scan Let_def)

text \<open>A session whose user and name fit the formats of the environment.\<close>

definition session_fits :: "CkSession \<Rightarrow> bool" where
  "session_fits s = ((\<exists>n. s_id s = Some (''Session'' @ dec n)) \<and> s_unix_user s < 2 ^ 32)"

lemma called_for_change:
  assumes "session_fits (sess w a)" "session_fits (sess w b)"
  shows "consolekit_called (Some ''seat_active_session_changed'') (seat_env_vector st (Some a) (Some b) w) =
    (let s = sess w a; t = sess w b in
     if ck_session_is_local s \<and> ck_session_is_local t
     then Called (s_unix_user s) (s_unix_user t) (s_id s) (if s_unix_user s = s_unix_user t then ACTION_NONE else ACTION_CHANGE)
     else if ck_session_is_local s then Called (s_unix_user s) (s_unix_user t) (s_id s) ACTION_REMOVE
     else if ck_session_is_local t then Called (s_unix_user t) (s_unix_user t) None ACTION_ADD else Nothing_To_Do)"
proof -
  obtain i j where i: "s_id (sess w a) = Some i" "i \<noteq> []" "s_id (sess w b) = Some j" "j \<noteq> []" "s_unix_user (sess w a) < 2 ^ 32" "s_unix_user (sess w b) < 2 ^ 32"
    using assms by (auto simp: session_fits_def)
  then show ?thesis
    by (simp add: seat_env_vector_def consolekit_called_def change_called_def getenv_old [OF i(1,2)] getenv_new [OF i(3,4)] strtoul_uid_dec Let_def)
qed

lemma called_for_start:
  assumes "session_fits (sess w b)"
  shows "consolekit_called (Some ''seat_active_session_changed'') (seat_env_vector st None (Some b) w) =
    (if ck_session_is_local (sess w b) then Called (s_unix_user (sess w b)) 0 None ACTION_ADD else Nothing_To_Do)"
proof -
  obtain j where j: "s_id (sess w b) = Some j" "j \<noteq> []" "s_unix_user (sess w b) < 2 ^ 32" using assms by (auto simp: session_fits_def)
  then show ?thesis
    by (simp add: seat_env_vector_def consolekit_called_def add_called_def getenv_new [OF j(1,2)] strtoul_uid_dec)
qed

lemma called_for_end:
  assumes "session_fits (sess w a)"
  shows "consolekit_called (Some ''seat_active_session_changed'') (seat_env_vector st (Some a) None w) =
    (if ck_session_is_local (sess w a) then Called (s_unix_user (sess w a)) 0 (s_id (sess w a)) ACTION_REMOVE else Nothing_To_Do)"
proof -
  obtain i where i: "s_id (sess w a) = Some i" "i \<noteq> []" "s_unix_user (sess w a) < 2 ^ 32" using assms by (auto simp: session_fits_def)
  then show ?thesis
    using getenv_old [OF i(1,2), of "[]"] by (simp add: seat_env_vector_def consolekit_called_def remove_called_def strtoul_uid_dec)
qed

lemmas called_by_daemon = called_for_change called_for_start called_for_end

lemma remove_uid_result:
  assumes "acl_env_ok E" "files_ok files" "files' = remove_uid E db nodes user own files"
  shows "files_ok files'" "Some g \<notin> set nodes \<Longrightarrow> files' g = files g" "(files' g = None) = (files g = None)"
    "Some g \<in> set nodes \<Longrightarrow> files g \<noteq> None \<Longrightarrow> u \<noteq> 0 \<Longrightarrow>
      allowed files' g u = (if u = user \<and> u \<notin> set (uids_with_local_active_session db own) then False else allowed files g u)"
  using apply_acl_result [OF assms(1,2) _ refl, of user] assms(2,3)
  by (cases "user = 0"; auto simp: remove_uid_def uid_in_list_def list_ex_iff apply_acl_root)+

lemma user_acls_result:
  assumes "acl_env_ok A" "files_ok files" "files' = user_acls A db nodes action v v2 own files"
  shows "Some g \<notin> set nodes \<Longrightarrow> files' g = files g"
    "Some g \<in> set nodes \<Longrightarrow> files g \<noteq> None \<Longrightarrow> u \<noteq> 0 \<Longrightarrow> allowed files' g u =
      (let gone = (u = v \<and> u \<notin> set (uids_with_local_active_session db own)) in
       case action of
         ACTION_NONE \<Rightarrow> allowed files g u
       | ACTION_ADD \<Rightarrow> u = v \<or> allowed files g u
       | ACTION_REMOVE \<Rightarrow> \<not> gone \<and> allowed files g u
       | ACTION_CHANGE \<Rightarrow> u = v2 \<or> (\<not> gone \<and> allowed files g u))"
proof -
  define files1 where "files1 = remove_uid A db nodes v own files"
  note r = remove_uid_result [OF assms(1,2) files1_def]
  have add: "Some g \<notin> set nodes \<Longrightarrow> apply_acl_to_devices A nodes x True fs g = fs g"
    "Some g \<in> set nodes \<Longrightarrow> fs g \<noteq> None \<Longrightarrow> u \<noteq> 0 \<Longrightarrow> allowed (apply_acl_to_devices A nodes x True fs) g u = (u = x \<or> allowed fs g u)"
    if "files_ok fs" for x fs
    using apply_acl_result(2,4) [OF assms(1) that _ refl, of x] by (cases "x = 0"; auto simp: apply_acl_root)+
  show "Some g \<notin> set nodes \<Longrightarrow> files' g = files g"
    using add(1) [OF assms(2)] add(1) [OF r(1)] r(2) assms(3) by (cases action) (simp_all add: user_acls_def flip: files1_def)
  show "Some g \<in> set nodes \<Longrightarrow> files g \<noteq> None \<Longrightarrow> u \<noteq> 0 \<Longrightarrow> allowed files' g u =
      (let gone = (u = v \<and> u \<notin> set (uids_with_local_active_session db own)) in
       case action of
         ACTION_NONE \<Rightarrow> allowed files g u
       | ACTION_ADD \<Rightarrow> u = v \<or> allowed files g u
       | ACTION_REMOVE \<Rightarrow> \<not> gone \<and> allowed files g u
       | ACTION_CHANGE \<Rightarrow> u = v2 \<or> (\<not> gone \<and> allowed files g u))"
    using add(2) [OF assms(2)] add(2) [OF r(1)] r(3,4) assms(3) by (cases action) (auto simp: user_acls_def Let_def simp flip: files1_def)
qed

subsection \<open>Properties\<close>

definition local_user :: "manager_world \<Rightarrow> nat option \<Rightarrow> nat \<Rightarrow> bool" where
  "local_user w s u = (case s of None \<Rightarrow> False | Some a \<Rightarrow> s_is_local (sess w a) \<and> s_unix_user (sess w a) = u)"

definition other_local_session :: "manager_world \<Rightarrow> nat option \<Rightarrow> nat \<Rightarrow> bool" where
  "other_local_session w old u =
     list_ex (\<lambda>(k, a). s_id (sess w (the old)) \<noteq> Some k \<and> s_is_local (sess w a) \<and> s_active (sess w a) \<and> s_unix_user (sess w a) = u) (mg_sessions w)"

text \<open>
  C20: The program follows the active session of a seat. Run with the environment and the database
  of the daemon, it lets the user of the new local session use every tagged device, takes the devices
  away from the user of the old one unless that user has another active local session, and leaves every other
  user and every other file alone. Nothing changes between two local sessions of one user.
\<close>

theorem acls_follow_active_session:
  assumes "acl_env_ok A" "files_ok files" "named_sessions w" "manager_key_file E w = Some kf"
    and "\<And>a. a \<in> set_option old \<union> set_option new \<Longrightarrow> session_fits (sess w a)"
    and "files' = snd (udev_acl A [] (Some ''seat_active_session_changed'') (seat_env_vector st old new w) (Some kf) nodes files)"
    and "old \<noteq> None \<or> new \<noteq> None" "u \<noteq> 0"
  shows "(Some f \<notin> set nodes \<longrightarrow> files' f = files f) \<and>
    (Some f \<in> set nodes \<and> files f \<noteq> None \<longrightarrow> allowed files' f u =
      (if local_user w new u then local_user w old u \<longrightarrow> allowed files f u
       else if local_user w old u \<and> \<not> other_local_session w old u then False
       else allowed files f u))"
proof -
  define called where "called = consolekit_called (Some ''seat_active_session_changed'') (seat_env_vector st old new w)"
  have prog: "files' = (case called of Called v v2 own action \<Rightarrow> user_acls A (Some kf) nodes action v v2 own files | _ \<Rightarrow> files)"
    using assms(6) by (simp add: udev_acl_def called_def split: ck_called.split)
  note step = user_acls_result [OF assms(1,2) refl, where db = "Some kf"]
  have others: "u \<notin> set (uids_with_local_active_session (Some kf) (s_id (sess w a))) \<longleftrightarrow> \<not> other_local_session w old u" if "old = Some a" for a
  proof -
    have "session_fits (sess w a)" using assms(5) that by simp
    then obtain n where "s_id (sess w a) = Some (''Session'' @ dec n)" unfolding session_fits_def by blast
    then show ?thesis using users_of_dump [OF assms(3,4), of "s_id (sess w a)" n u] assms(8) that
      by (auto simp: other_local_session_def list_ex_iff)
  qed
  show ?thesis
  proof (cases old)
    case None
    then obtain b where b: "new = Some b" using assms(7) by auto
    show ?thesis using prog step assms(8) called_for_start [of w b st] assms(5) [of b] None b
      by (auto simp: called_def local_user_def ck_session_is_local_def)
  next
    case a: (Some a)
    note oth = others [OF a]
    show ?thesis
    proof (cases new)
      case None
      show ?thesis using prog step assms(8) called_for_end [of w a st] assms(5) [of a] None a oth
        by (auto simp: called_def local_user_def ck_session_is_local_def)
    next
      case b: (Some b)
      show ?thesis using prog step assms(8) called_for_change [of w a b st] assms(5) [of a] assms(5) [of b] a b oth
        by (auto simp: called_def local_user_def ck_session_is_local_def Let_def)
    qed
  qed
qed

definition plain_acls :: acl_env where
  "plain_acls = \<lparr>ae_qualifier_ok = True, ae_create_ok = True, ae_calc_mask = (\<lambda>a. a), ae_set_ok = (\<lambda>_. True)\<rparr>"

definition switched_manager :: manager_world where
  "switched_manager = empty_manager
     \<lparr>mg_sessions := [(''Session'' @ dec 1, 1), (''Session'' @ dec 2, 2)],
      sess := (\<lambda>a. (ck_session_init sample_senv)\<lparr>s_id := Some (''Session'' @ dec a), s_unix_user := (1000 + a) mod 2 ^ 32, s_is_local := True, s_active := (a = 2)\<rparr>)\<rparr>"

definition sound_files :: acl_files where
  "sound_files = [''/dev/snd'' \<mapsto> [(ACL_USER_OBJ, True, True, False), (ACL_USER 1001, True, True, False)]]"

lemma switched_manager_ok:
  "named_sessions switched_manager" "session_fits (sess switched_manager a)" "mg_seats switched_manager = []"
  by (auto simp: named_sessions_def switched_manager_def ht_wf_def session_fits_def empty_manager_def ck_manager_init_def)

theorem acls_follow_active_session_witness:
  "\<exists>kf files'. manager_key_file sample_menv switched_manager = Some kf \<and>
     files' = snd (udev_acl plain_acls [] (Some ''seat_active_session_changed'') (seat_env_vector 0 (Some 1) (Some 2) switched_manager) (Some kf) [Some ''/dev/snd''] sound_files) \<and>
     allowed files' ''/dev/snd'' 1002 \<and> \<not> allowed files' ''/dev/snd'' 1001"
proof -
  obtain kf where kf: "manager_key_file sample_menv switched_manager = Some kf"
    by (simp add: manager_key_file_def switched_manager_ok Let_def)
  have E: "acl_env_ok plain_acls" "files_ok sound_files" by (auto simp: acl_env_ok_def plain_acls_def files_ok_def sound_files_def is_user_def)
  note r = acls_follow_active_session [OF E switched_manager_ok(1) kf switched_manager_ok(2) refl, where old = "Some 1" and new = "Some 2" and f = "''/dev/snd''" and st = 0 and nodes = "[Some ''/dev/snd'']"]
  have "local_user switched_manager (Some 2) 1002" "\<not> local_user switched_manager (Some 1) 1002" "\<not> local_user switched_manager (Some 2) 1001"
    "local_user switched_manager (Some 1) 1001" "\<not> other_local_session switched_manager (Some 1) 1001"
    by (simp_all add: local_user_def other_local_session_def switched_manager_def)
  then show ?thesis using r [where u = 1002] r [where u = 1001] kf by (auto simp: sound_files_def)
qed

text \<open>
  A new device is made accessible to exactly the users of active local sessions, beside the users
  it was accessible to before.
\<close>

lemma device_acls_add:
  assumes "acl_env_ok A" "files_ok files" "files device \<noteq> None" "u \<noteq> 0"
  shows "allowed (device_acls A db True device files) device u \<longleftrightarrow> allowed files device u \<or> u \<in> set (uids_with_local_active_session db None)"
proof -
  define us where "us = uids_with_local_active_session db None"
  have "0 \<notin> set us" by (cases db) (auto simp: us_def uids_with_local_active_session_def set_collect_uids)
  then have "allowed (fold (\<lambda>v files. snd (set_facl A device v True files)) us files) device u \<longleftrightarrow> allowed files device u \<or> u \<in> set us"
    using assms(2,3)
  proof (induction us arbitrary: files)
    case (Cons v us)
    have v: "v \<noteq> 0" using Cons.prems(1) by auto
    note r = set_facl_result [OF assms(1) Cons.prems(2) v refl, where f = device and add = True]
    show ?case using Cons.IH [OF _ r(1)] Cons.prems r(3) [of device] r(4) [OF Cons.prems(3), where u = u] by auto
  qed simp
  then show ?thesis by (simp add: device_acls_def us_def)
qed

text \<open>
  Taking a device away changes nothing, whoever has access: the loop is over the users of active local
  sessions, and skips those.
\<close>

theorem device_removal_changes_nothing:
  "udev_acl A [Opt_action ''remove'', Opt_device device] ck_action env db nodes files = (0, files)"
proof -
  have "fold (\<lambda>u files. if False \<or> \<not> uid_in_list l u then snd (set_facl A device u False files) else files) k files = files"
    if "set k \<subseteq> set l" for k l
    using that by (induction k) (auto simp: uid_in_list_def list_ex_iff)
  then show ?thesis by (simp add: udev_acl_def device_acls_def Let_def)
qed

end
