(* ===== verification/CK_Client.thy ===== *)
theory CK_Client
  imports CK_ManagerSessions "HOL-Library.Monad_Syntax"
begin

text \<open>
  The clients that ask the daemon about seats and sessions: the query library
  (src/libconsolekit/libconsolekit.c), the functions of sd-login on top of it
  (src/libconsolekit/sd-compat.c) and the program that lists sessions (src/tools/list-sessions.c).

  The bus with the daemon behind it is a parameter, a record of functions on a state of any type;
  the locale \<open>query_service\<close> has the laws the clients rely on and is interpreted on the daemon.
  \<open>None\<close> as a result is a fault of the client: a reply of an unexpected type, a variable read before it is
  set, memory freed twice. A pointer argument that may be NULL is a \<open>bool\<close>, its target an \<open>option\<close> in the
  result: \<open>None\<close> if nothing is stored. Warnings are left out.
\<close>

section \<open>The bus\<close>

datatype bus_value = BV_bool bool | BV_uint nat | BV_string string | BV_path string | BV_paths "string list"

text \<open>A proxy for a path that is not an object path is NULL without an error.\<close>

datatype bus_proxy = Proxy_Made | Proxy_Error string | Proxy_Refused

record 'd query_bus =
  qb_proxy :: "string \<Rightarrow> string \<Rightarrow> 'd \<Rightarrow> bus_proxy"
  qb_call :: "string \<Rightarrow> string \<Rightarrow> string \<Rightarrow> nat option \<Rightarrow> 'd \<Rightarrow> (string + bus_value) \<times> 'd"
  qb_property :: "string \<Rightarrow> string \<Rightarrow> string \<Rightarrow> 'd \<Rightarrow> bus_value option"

definition CK_MANAGER_PATH :: string where "CK_MANAGER_PATH = ''/org/freedesktop/ConsoleKit/Manager''"
definition CK_MANAGER_NAME :: string where "CK_MANAGER_NAME = ''org.freedesktop.ConsoleKit.Manager''"
definition CK_SEAT_NAME :: string where "CK_SEAT_NAME = ''org.freedesktop.ConsoleKit.Seat''"
definition CK_SESSION_NAME :: string where "CK_SESSION_NAME = ''org.freedesktop.ConsoleKit.Session''"

definition bv_bool :: "bus_value \<Rightarrow> bool option" where
  "bv_bool v = (case v of BV_bool b \<Rightarrow> Some b | _ \<Rightarrow> None)"

definition bv_uint :: "bus_value \<Rightarrow> nat option" where
  "bv_uint v = (case v of BV_uint n \<Rightarrow> Some n | _ \<Rightarrow> None)"

definition bv_string :: "bus_value \<Rightarrow> string option" where
  "bv_string v = (case v of BV_string s \<Rightarrow> Some s | _ \<Rightarrow> None)"

definition bv_path :: "bus_value \<Rightarrow> string option" where
  "bv_path v = (case v of BV_path s \<Rightarrow> Some s | _ \<Rightarrow> None)"

definition bv_paths :: "bus_value \<Rightarrow> string list option" where
  "bv_paths v = (case v of BV_paths ss \<Rightarrow> Some ss | _ \<Rightarrow> None)"

section \<open>The query library\<close>

datatype LibConsoleKitError = CONSOLEKIT_ERROR_FAILED | CONSOLEKIT_ERROR_INVALID_INPUT

datatype client_error = Client_Error LibConsoleKitError string | Bus_Error string

type_synonym ('a, 'd) queried = "('a \<times> client_error option \<times> 'd) option"

datatype asked = Ask_Refused | Ask_Error string | Ask_Denied string | Ask_Value bus_value

definition ask :: "'d query_bus \<Rightarrow> string \<Rightarrow> string \<Rightarrow> string \<Rightarrow> nat option \<Rightarrow> 'd \<Rightarrow> asked \<times> 'd" where
  "ask B path iface method arg d =
     (case qb_proxy B path iface d of
        Proxy_Refused \<Rightarrow> (Ask_Refused, d)
      | Proxy_Error m \<Rightarrow> (Ask_Error m, d)
      | Proxy_Made \<Rightarrow>
          (case qb_call B path iface method arg d of
             (Inl m, d) \<Rightarrow> (Ask_Denied m, d)
           | (Inr v, d) \<Rightarrow> (Ask_Value v, d)))"

definition invalid :: "string \<Rightarrow> 'a \<Rightarrow> 'd \<Rightarrow> ('a, 'd) queried" where
  "invalid m r d = Some (r, Some (Client_Error CONSOLEKIT_ERROR_INVALID_INPUT m), d)"

text \<open>What the functions return when there is no proxy, when the call fails, and of a value.\<close>

definition received :: "'a \<Rightarrow> 'a \<Rightarrow> (bus_value \<Rightarrow> 'a option) \<Rightarrow> asked \<times> 'd \<Rightarrow> ('a, 'd) queried" where
  "received no_proxy no_reply read = (\<lambda>(r, d).
     (case r of
        Ask_Refused \<Rightarrow> Some (no_proxy, None, d)
      | Ask_Error m \<Rightarrow> Some (no_proxy, Some (Bus_Error m), d)
      | Ask_Denied m \<Rightarrow> Some (no_reply, Some (Bus_Error m), d)
      | Ask_Value v \<Rightarrow> map_option (\<lambda>a. (a, None, d)) (read v)))"

definition lib_consolekit_session_get_uid ::
  "'d query_bus \<Rightarrow> bool \<Rightarrow> cstring \<Rightarrow> bool \<Rightarrow> 'd \<Rightarrow> (bool \<times> nat option, 'd) queried" where
  "lib_consolekit_session_get_uid B ck session user d =
     (if \<not> ck then invalid ''Invalid LibConsoleKit'' (False, None) d
      else case session of
        None \<Rightarrow> invalid ''Session must not be NULL'' (False, None) d
      | Some p \<Rightarrow>
          if \<not> user then invalid ''uid must not be NULL'' (False, None) d
          else received (False, None) (False, None) (\<lambda>v. map_option (\<lambda>u. (True, Some u)) (bv_uint v))
            (ask B p CK_SESSION_NAME ''GetUnixUser'' None d))"

definition lib_consolekit_seat_get_active ::
  "'d query_bus \<Rightarrow> bool \<Rightarrow> cstring \<Rightarrow> bool \<Rightarrow> bool \<Rightarrow> 'd \<Rightarrow> (bool \<times> cstring \<times> nat option, 'd) queried" where
  "lib_consolekit_seat_get_active B ck seat session user d =
     (if \<not> ck then invalid ''Invalid LibConsoleKit'' (False, None, None) d
      else case seat of
        None \<Rightarrow> invalid ''Seat must not be NULL'' (False, None, None) d
      | Some p \<Rightarrow>
          if \<not> session then invalid ''Session must not be NULL'' (False, None, None) d
          else
            (case received (False, None) (False, None) (\<lambda>v. map_option (\<lambda>s. (True, Some s)) (bv_path v))
                    (ask B p CK_SEAT_NAME ''GetActiveSession'' None d) of
               Some ((True, Some s), None, d) \<Rightarrow>
                 if \<not> user then Some ((True, Some s, None), None, d)
                 else received (False, Some s, None) (False, Some s, None) (\<lambda>v. map_option (\<lambda>u. (True, Some s, Some u)) (bv_uint v))
                        (ask B s CK_SESSION_NAME ''GetUnixUser'' None d)
             | Some ((r, s), e, d) \<Rightarrow> Some ((r, s, None), e, d)
             | None \<Rightarrow> None))"

text \<open>The lists of sessions: without a proxy the first two return FALSE, which is 0, and not -1.\<close>

definition counted :: "bus_value \<Rightarrow> (int \<times> string list option) option" where
  "counted v = map_option (\<lambda>ss. (int (length ss), Some ss)) (bv_paths v)"

definition lib_consolekit_uid_get_sessions ::
  "'d query_bus \<Rightarrow> bool \<Rightarrow> nat \<Rightarrow> 'd \<Rightarrow> (int \<times> string list option, 'd) queried" where
  "lib_consolekit_uid_get_sessions B ck user d =
     (if \<not> ck then invalid ''Invalid LibConsoleKit'' (- 1, None) d
      else received (0, None) (- 1, None) counted (ask B CK_MANAGER_PATH CK_MANAGER_NAME ''GetSessionsForUnixUser'' (Some user) d))"

definition lib_consolekit_get_sessions :: "'d query_bus \<Rightarrow> bool \<Rightarrow> 'd \<Rightarrow> (int \<times> string list option, 'd) queried" where
  "lib_consolekit_get_sessions B ck d =
     (if \<not> ck then invalid ''Invalid LibConsoleKit'' (- 1, None) d
      else received (0, None) (- 1, None) counted (ask B CK_MANAGER_PATH CK_MANAGER_NAME ''GetSessions'' None d))"

definition lib_consolekit_seat_get_sessions ::
  "'d query_bus \<Rightarrow> bool \<Rightarrow> cstring \<Rightarrow> bool \<Rightarrow> 'd \<Rightarrow> (int \<times> string list option, 'd) queried" where
  "lib_consolekit_seat_get_sessions B ck seat sessions d =
     (if \<not> ck then invalid ''Invalid LibConsoleKit'' (- 1, None) d
      else case seat of
        None \<Rightarrow> invalid ''Seat must not be NULL'' (- 1, None) d
      | Some p \<Rightarrow>
          if \<not> sessions then invalid ''Sessions must not be NULL'' (- 1, None) d
          else received (- 1, None) (- 1, None) counted (ask B p CK_SEAT_NAME ''GetSessions'' None d))"

definition lib_consolekit_seat_can_multi_session :: "'d query_bus \<Rightarrow> bool \<Rightarrow> cstring \<Rightarrow> 'd \<Rightarrow> (bool, 'd) queried" where
  "lib_consolekit_seat_can_multi_session B ck seat d =
     (if \<not> ck then invalid ''Invalid LibConsoleKit'' False d
      else case seat of
        None \<Rightarrow> invalid ''Seat must not be NULL'' False d
      | Some p \<Rightarrow> received False False bv_bool (ask B p CK_SEAT_NAME ''CanActivateSessions'' None d))"

definition lib_consolekit_seat_can_graphical :: "'d query_bus \<Rightarrow> bool \<Rightarrow> cstring \<Rightarrow> 'd \<Rightarrow> (bool, 'd) queried" where
  "lib_consolekit_seat_can_graphical B ck seat d =
     (if \<not> ck then invalid ''Invalid LibConsoleKit'' False d
      else case seat of
        None \<Rightarrow> invalid ''Seat must not be NULL'' False d
      | Some p \<Rightarrow>
          (case qb_proxy B p CK_SEAT_NAME d of
             Proxy_Refused \<Rightarrow> Some (False, None, d)
           | Proxy_Error m \<Rightarrow> Some (False, Some (Bus_Error m), d)
           | Proxy_Made \<Rightarrow>
               (case qb_property B p CK_SEAT_NAME ''CanGraphical'' d of
                  None \<Rightarrow> Some (False, None, d)
                | Some v \<Rightarrow> map_option (\<lambda>b. (b, None, d)) (bv_bool v))))"

definition lib_consolekit_session_is_active :: "'d query_bus \<Rightarrow> bool \<Rightarrow> cstring \<Rightarrow> 'd \<Rightarrow> (bool, 'd) queried" where
  "lib_consolekit_session_is_active B ck session d =
     (if \<not> ck then invalid ''Invalid LibConsoleKit'' False d
      else case session of
        None \<Rightarrow> invalid ''Session must not be NULL'' False d
      | Some p \<Rightarrow> received False False bv_bool (ask B p CK_SESSION_NAME ''IsActive'' None d))"

definition lib_consolekit_session_is_remote :: "'d query_bus \<Rightarrow> bool \<Rightarrow> cstring \<Rightarrow> 'd \<Rightarrow> (bool, 'd) queried" where
  "lib_consolekit_session_is_remote B ck session d =
     (if \<not> ck then invalid ''Invalid LibConsoleKit'' False d
      else case session of
        None \<Rightarrow> invalid ''Session must not be NULL'' False d
      | Some p \<Rightarrow> received True True (\<lambda>v. map_option Not (bv_bool v)) (ask B p CK_SESSION_NAME ''IsLocal'' None d))"

definition stored :: "(bus_value \<Rightarrow> 'a option) \<Rightarrow> bus_value \<Rightarrow> (bool \<times> 'a option) option" where
  "stored read v = map_option (\<lambda>s. (True, Some s)) (read v)"

definition lib_consolekit_session_get_seat ::
  "'d query_bus \<Rightarrow> bool \<Rightarrow> cstring \<Rightarrow> bool \<Rightarrow> 'd \<Rightarrow> (bool \<times> cstring, 'd) queried" where
  "lib_consolekit_session_get_seat B ck session seat d =
     (if \<not> ck then invalid ''Invalid LibConsoleKit'' (False, None) d
      else if \<not> seat then invalid ''Seat must not be NULL'' (False, None) d
      else case session of
        None \<Rightarrow> invalid ''Session must not be NULL'' (False, None) d
      | Some p \<Rightarrow> received (False, None) (False, None) (stored bv_path) (ask B p CK_SESSION_NAME ''GetSeatId'' None d))"

definition lib_consolekit_session_get_service ::
  "'d query_bus \<Rightarrow> bool \<Rightarrow> cstring \<Rightarrow> bool \<Rightarrow> 'd \<Rightarrow> (bool \<times> cstring, 'd) queried" where
  "lib_consolekit_session_get_service B ck session service d =
     (if \<not> ck then invalid ''Invalid LibConsoleKit'' (False, None) d
      else case session of
        None \<Rightarrow> invalid ''Session must not be NULL'' (False, None) d
      | Some p \<Rightarrow>
          if \<not> service then invalid ''service must not be NULL'' (False, None) d
          else received (False, None) (False, None) (stored bv_string) (ask B p CK_SESSION_NAME ''GetSessionService'' None d))"

definition lib_consolekit_session_get_type ::
  "'d query_bus \<Rightarrow> bool \<Rightarrow> cstring \<Rightarrow> bool \<Rightarrow> 'd \<Rightarrow> (bool \<times> cstring, 'd) queried" where
  "lib_consolekit_session_get_type B ck session typ d =
     (if \<not> ck then invalid ''Invalid LibConsoleKit'' (False, None) d
      else case session of
        None \<Rightarrow> invalid ''Session must not be NULL'' (False, None) d
      | Some p \<Rightarrow>
          if \<not> typ then invalid ''type must not be NULL'' (False, None) d
          else received (False, None) (False, None) (stored bv_string) (ask B p CK_SESSION_NAME ''GetSessionType'' None d))"

definition lib_consolekit_session_get_class ::
  "'d query_bus \<Rightarrow> bool \<Rightarrow> cstring \<Rightarrow> bool \<Rightarrow> 'd \<Rightarrow> (bool \<times> cstring, 'd) queried" where
  "lib_consolekit_session_get_class B ck session session_class d =
     (if \<not> ck then invalid ''Invalid LibConsoleKit'' (False, None) d
      else case session of
        None \<Rightarrow> invalid ''Session must not be NULL'' (False, None) d
      | Some p \<Rightarrow>
          if \<not> session_class then invalid ''session_class must not be NULL'' (False, None) d
          else received (False, None) (False, None) (stored bv_string) (ask B p CK_SESSION_NAME ''GetSessionClass'' None d))"

definition lib_consolekit_session_get_state ::
  "'d query_bus \<Rightarrow> bool \<Rightarrow> cstring \<Rightarrow> bool \<Rightarrow> 'd \<Rightarrow> (bool \<times> cstring, 'd) queried" where
  "lib_consolekit_session_get_state B ck session state d =
     (if \<not> ck then invalid ''Invalid LibConsoleKit'' (False, None) d
      else case session of
        None \<Rightarrow> invalid ''Session must not be NULL'' (False, None) d
      | Some p \<Rightarrow>
          if \<not> state then invalid ''state must not be NULL'' (False, None) d
          else received (False, None) (False, None) (stored bv_string) (ask B p CK_SESSION_NAME ''GetSessionState'' None d))"

definition lib_consolekit_session_get_display ::
  "'d query_bus \<Rightarrow> bool \<Rightarrow> cstring \<Rightarrow> bool \<Rightarrow> 'd \<Rightarrow> (bool \<times> cstring, 'd) queried" where
  "lib_consolekit_session_get_display B ck session display d =
     (if \<not> ck then invalid ''Invalid LibConsoleKit'' (False, None) d
      else case session of
        None \<Rightarrow> invalid ''Session must not be NULL'' (False, None) d
      | Some p \<Rightarrow>
          if \<not> display then invalid ''Display must not be NULL'' (False, None) d
          else received (False, None) (False, None) (stored bv_string) (ask B p CK_SESSION_NAME ''GetX11Display'' None d))"

definition lib_consolekit_session_get_remote_host ::
  "'d query_bus \<Rightarrow> bool \<Rightarrow> cstring \<Rightarrow> bool \<Rightarrow> 'd \<Rightarrow> (bool \<times> cstring, 'd) queried" where
  "lib_consolekit_session_get_remote_host B ck session remote_host d =
     (if \<not> ck then invalid ''Invalid LibConsoleKit'' (False, None) d
      else case session of
        None \<Rightarrow> invalid ''Session must not be NULL'' (False, None) d
      | Some p \<Rightarrow>
          if \<not> remote_host then invalid ''remote_host must not be NULL'' (False, None) d
          else received (False, None) (False, None) (stored bv_string) (ask B p CK_SESSION_NAME ''GetRemoteHostName'' None d))"

text \<open>A failed second call leaves the freed pointer of the first one in the target: \<open>Some None\<close>.\<close>

definition lib_consolekit_session_get_tty ::
  "'d query_bus \<Rightarrow> bool \<Rightarrow> cstring \<Rightarrow> bool \<Rightarrow> 'd \<Rightarrow> (bool \<times> cstring option, 'd) queried" where
  "lib_consolekit_session_get_tty B ck session tty d =
     (if \<not> ck then invalid ''Invalid LibConsoleKit'' (False, None) d
      else case session of
        None \<Rightarrow> invalid ''Session must not be NULL'' (False, None) d
      | Some p \<Rightarrow>
          if \<not> tty then invalid ''tty must not be NULL'' (False, None) d
          else
            (case received (False, None) (False, None) (stored bv_string) (ask B p CK_SESSION_NAME ''GetX11DisplayDevice'' None d) of
               Some ((True, Some s), None, d) \<Rightarrow>
                 if length s \<noteq> 0 then Some ((True, Some (Some s)), None, d)
                 else
                   (case qb_call B p CK_SESSION_NAME ''GetDisplayDevice'' None d of
                      (Inl m, d) \<Rightarrow> Some ((False, Some None), Some (Bus_Error m), d)
                    | (Inr v, d) \<Rightarrow> map_option (\<lambda>s. ((True, Some (Some s)), None, d)) (bv_string v))
             | Some ((r, s), e, d) \<Rightarrow> Some ((r, map_option Some s), e, d)
             | None \<Rightarrow> None))"

definition lib_consolekit_session_get_vt ::
  "'d query_bus \<Rightarrow> bool \<Rightarrow> cstring \<Rightarrow> bool \<Rightarrow> 'd \<Rightarrow> (bool \<times> nat option, 'd) queried" where
  "lib_consolekit_session_get_vt B ck session vt d =
     (if \<not> ck then invalid ''Invalid LibConsoleKit'' (False, None) d
      else case session of
        None \<Rightarrow> invalid ''Session must not be NULL'' (False, None) d
      | Some p \<Rightarrow>
          if \<not> vt then invalid ''vt must not be NULL'' (False, None) d
          else received (False, None) (False, None) (stored bv_uint) (ask B p CK_SESSION_NAME ''GetVTNr'' None d))"

definition lib_consolekit_pid_get_session ::
  "'d query_bus \<Rightarrow> bool \<Rightarrow> int \<Rightarrow> bool \<Rightarrow> 'd \<Rightarrow> (bool \<times> cstring, 'd) queried" where
  "lib_consolekit_pid_get_session B ck p session d =
     (if \<not> ck then invalid ''Invalid LibConsoleKit'' (False, None) d
      else if \<not> session then invalid ''Session must not be NULL'' (False, None) d
      else received (False, None) (False, None) (stored bv_path)
        (ask B CK_MANAGER_PATH CK_MANAGER_NAME ''GetSessionByPID'' (Some (nat (p mod 2 ^ 32))) d))"

section \<open>The functions of sd-login\<close>

definition ENXIO :: int where "ENXIO = 6"
definition ENOTSUP :: int where "ENOTSUP = 95"

text \<open>The functions look at the error alone, and not at what the query library returns.\<close>

definition sd_result :: "('r \<times> 'a \<Rightarrow> int \<times> 'a) \<Rightarrow> int \<Rightarrow> ('r \<times> 'a, 'd) queried \<Rightarrow> (int \<times> 'a \<times> 'd) option" where
  "sd_result ok bad q =
     map_option (\<lambda>(r, e, d). if e \<noteq> None then (bad, snd r, d) else (fst (ok r), snd (ok r), d)) q"

definition sd_session_get_class :: "'d query_bus \<Rightarrow> cstring \<Rightarrow> bool \<Rightarrow> 'd \<Rightarrow> (int \<times> cstring \<times> 'd) option" where
  "sd_session_get_class B session cls d =
     sd_result (\<lambda>r. (0, snd r)) (- ENXIO) (lib_consolekit_session_get_class B True session cls d)"

definition sd_session_get_seat :: "'d query_bus \<Rightarrow> cstring \<Rightarrow> bool \<Rightarrow> 'd \<Rightarrow> (int \<times> cstring \<times> 'd) option" where
  "sd_session_get_seat B session seat d =
     sd_result (\<lambda>r. (0, snd r)) (- ENXIO) (lib_consolekit_session_get_seat B True session seat d)"

definition sd_session_get_type :: "'d query_bus \<Rightarrow> cstring \<Rightarrow> bool \<Rightarrow> 'd \<Rightarrow> (int \<times> cstring \<times> 'd) option" where
  "sd_session_get_type B session typ d =
     sd_result (\<lambda>r. (0, snd r)) (- ENXIO) (lib_consolekit_session_get_type B True session typ d)"

definition sd_session_get_state :: "'d query_bus \<Rightarrow> cstring \<Rightarrow> bool \<Rightarrow> 'd \<Rightarrow> (int \<times> cstring \<times> 'd) option" where
  "sd_session_get_state B session state d =
     sd_result (\<lambda>r. (0, snd r)) (- ENXIO) (lib_consolekit_session_get_state B True session state d)"

definition sd_session_get_uid :: "'d query_bus \<Rightarrow> cstring \<Rightarrow> bool \<Rightarrow> 'd \<Rightarrow> (int \<times> nat option \<times> 'd) option" where
  "sd_session_get_uid B session user d =
     sd_result (\<lambda>r. (0, snd r)) (- ENXIO) (lib_consolekit_session_get_uid B True session user d)"

definition sd_session_get_service :: "'d query_bus \<Rightarrow> cstring \<Rightarrow> bool \<Rightarrow> 'd \<Rightarrow> (int \<times> cstring \<times> 'd) option" where
  "sd_session_get_service B session service d =
     sd_result (\<lambda>r. (0, snd r)) (- ENXIO) (lib_consolekit_session_get_service B True session service d)"

text \<open>The error of \<open>sd_session_get_display\<close> is an automatic pointer that is also freed by hand.\<close>

definition sd_session_get_display :: "'d query_bus \<Rightarrow> cstring \<Rightarrow> bool \<Rightarrow> 'd \<Rightarrow> (int \<times> cstring \<times> 'd) option" where
  "sd_session_get_display B session service d =
     (case lib_consolekit_session_get_display B True session service d of
        Some (r, None, d) \<Rightarrow> Some (0, snd r, d)
      | _ \<Rightarrow> None)"

definition sd_pid_get_session :: "'d query_bus \<Rightarrow> int \<Rightarrow> bool \<Rightarrow> 'd \<Rightarrow> (int \<times> cstring \<times> 'd) option" where
  "sd_pid_get_session B p session d =
     sd_result (\<lambda>r. (if fst r then 1 else 0, snd r)) (- ENXIO) (lib_consolekit_pid_get_session B True p session d)"

definition sd_uid_get_sessions :: "'d query_bus \<Rightarrow> nat \<Rightarrow> int \<Rightarrow> 'd \<Rightarrow> (int \<times> string list option \<times> 'd) option" where
  "sd_uid_get_sessions B user require_active d =
     sd_result (\<lambda>r. r) (- ENXIO) (lib_consolekit_uid_get_sessions B True user d)"

definition sd_seat_can_graphical :: "'d query_bus \<Rightarrow> cstring \<Rightarrow> 'd \<Rightarrow> (int \<times> 'd) option" where
  "sd_seat_can_graphical B seat d =
     map_option (\<lambda>(r, e, d). (if e \<noteq> None then 0 else if r then 1 else 0, d)) (lib_consolekit_seat_can_graphical B True seat d)"

definition sd_seat_can_multi_session :: "'d query_bus \<Rightarrow> cstring \<Rightarrow> 'd \<Rightarrow> (int \<times> 'd) option" where
  "sd_seat_can_multi_session B seat d =
     map_option (\<lambda>(r, e, d). (if e \<noteq> None then 0 else if r then 1 else 0, d)) (lib_consolekit_seat_can_multi_session B True seat d)"

text \<open>The user ids and their number are never stored.\<close>

definition sd_seat_get_sessions :: "'d query_bus \<Rightarrow> cstring \<Rightarrow> bool \<Rightarrow> 'd \<Rightarrow> (int \<times> string list option \<times> 'd) option" where
  "sd_seat_get_sessions B seat sessions d = sd_result (\<lambda>r. r) 0 (lib_consolekit_seat_get_sessions B True seat sessions d)"

definition sd_get_sessions :: "'d query_bus \<Rightarrow> 'd \<Rightarrow> (int \<times> string list option \<times> 'd) option" where
  "sd_get_sessions B d = sd_result (\<lambda>r. r) (- ENXIO) (lib_consolekit_get_sessions B True d)"

text \<open>Without kernel event queues there are no monitors.\<close>

definition sd_login_monitor_new :: int where "sd_login_monitor_new = - ENOTSUP"
definition sd_login_monitor_flush :: int where "sd_login_monitor_flush = - ENOTSUP"
definition sd_login_monitor_get_fd :: int where "sd_login_monitor_get_fd = - ENOTSUP"
definition sd_login_monitor_get_events :: int where "sd_login_monitor_get_events = 0"
definition sd_login_monitor_get_timeout :: int where "sd_login_monitor_get_timeout = - 1"

section \<open>Listing the sessions\<close>

definition get_value :: "'d query_bus \<Rightarrow> string \<Rightarrow> (bus_value \<Rightarrow> 'a option) \<Rightarrow> string \<Rightarrow> 'd \<Rightarrow> ('a option \<times> 'd) option" where
  "get_value B path read method d =
     (case qb_call B path CK_SESSION_NAME method None d of
        (Inl m, d) \<Rightarrow> Some (None, d)
      | (Inr v, d) \<Rightarrow> map_option (\<lambda>x. (Some x, d)) (read v))"

definition get_property_value :: "'d query_bus \<Rightarrow> string \<Rightarrow> (bus_value \<Rightarrow> 'a option) \<Rightarrow> string \<Rightarrow> 'd \<Rightarrow> 'a option option" where
  "get_property_value B path read name d =
     (case qb_property B path CK_SESSION_NAME name d of None \<Rightarrow> Some None | Some v \<Rightarrow> map_option Some (read v))"

definition toupper_char :: "char \<Rightarrow> char" where
  "toupper_char c = (let n = (of_char c :: nat) in if 97 \<le> n \<and> n \<le> 122 then char_of (n - 32) else c)"

text \<open>The password entry: the name of the user and the gecos field, which may be NULL.\<close>

definition get_real_name :: "(nat \<Rightarrow> (string \<times> cstring) option) \<Rightarrow> nat \<Rightarrow> cstring" where
  "get_real_name pwuid user =
     (case pwuid user of
        Some (name, Some (c # gecos)) \<Rightarrow>
          let gecos_field = hd (split_on CHR '','' [] (c # gecos));
              name_parts = split_on CHR ''&'' [] gecos_field;
              name = (case name of [] \<Rightarrow> [] | n # ns \<Rightarrow> toupper_char n # ns)
          in Some (join_with name name_parts)
      | _ \<Rightarrow> None)"

definition g_path_get_basename :: "cstring \<Rightarrow> cstring" where
  "g_path_get_basename p =
     map_option (\<lambda>p.
       if p = [] then ''.''
       else let r = dropWhile (\<lambda>c. c = CHR ''/'') (rev p)
            in if r = [] then ''/'' else rev (takeWhile (\<lambda>c. c \<noteq> CHR ''/'') r)) p"

record listed =
  ls_ssid :: cstring
  ls_uid :: nat
  ls_realname :: cstring
  ls_sid :: cstring
  ls_type :: cstring
  ls_class :: cstring
  ls_state :: cstring
  ls_service :: cstring
  ls_active :: bool
  ls_x11_display :: cstring
  ls_x11_display_device :: cstring
  ls_display_device :: cstring
  ls_remote_host_name :: cstring
  ls_local :: bool
  ls_creation_time :: cstring
  ls_lsid :: cstring
  ls_runtime_dir :: cstring
  ls_vtnum :: nat
  ls_idle_since_hint :: cstring

definition listed_field :: "string \<Rightarrow> cstring \<Rightarrow> string" where
  "listed_field name v = CHR 0x0A # CHR 0x09 # name @ '' = '' @ CHR 0x27 # printf_string v @ [CHR 0x27]"

definition listed_flag :: "string \<Rightarrow> bool \<Rightarrow> string" where
  "listed_flag name b = CHR 0x0A # CHR 0x09 # name @ '' = '' @ (if b then ''TRUE'' else ''FALSE'')"

definition listed_text :: "listed \<Rightarrow> string" where
  "listed_text l =
     printf_string (ls_ssid l) @ '':'' @
     listed_field ''unix-user'' (Some (dec_int (as_gint (ls_uid l)))) @
     listed_field ''realname'' (ls_realname l) @
     listed_field ''seat'' (ls_sid l) @
     listed_field ''session-type'' (ls_type l) @
     listed_field ''session-class'' (ls_class l) @
     listed_field ''session-state'' (ls_state l) @
     listed_field ''session-service'' (ls_service l) @
     listed_flag ''active'' (ls_active l) @
     listed_field ''x11-display'' (ls_x11_display l) @
     listed_field ''x11-display-device'' (ls_x11_display_device l) @
     listed_field ''display-device'' (ls_display_device l) @
     listed_field ''remote-host-name'' (ls_remote_host_name l) @
     listed_flag ''is-local'' (ls_local l) @
     listed_field ''on-since'' (ls_creation_time l) @
     listed_field ''login-session-id'' (ls_lsid l) @
     listed_field ''XDG_RUNTIME_DIR'' (ls_runtime_dir l) @
     (if ls_vtnum l \<noteq> 0 then listed_field ''VTNr'' (Some (dec (ls_vtnum l))) else []) @
     (case ls_idle_since_hint l of Some (c # s) \<Rightarrow> listed_field ''idle-since-hint'' (Some (c # s)) | _ \<Rightarrow> []) @
     [CHR 0x0A]"

text \<open>
  The answers of the session in the order of the calls. The variables for the runtime directory
  and for the two flags have no initial value: reading one that was not answered is a fault.
\<close>

definition list_session ::
  "'d query_bus \<Rightarrow> (nat \<Rightarrow> (string \<times> cstring) option) \<Rightarrow> string \<Rightarrow> 'd \<Rightarrow> (string \<times> 'd) option" where
  "list_session B pwuid ssid d =
     (case qb_proxy B ssid CK_SESSION_NAME d of
        Proxy_Refused \<Rightarrow> None
      | Proxy_Error m \<Rightarrow> Some (''error creating proxy, '' @ m, d)
      | Proxy_Made \<Rightarrow> do {
          (user, d) \<leftarrow> get_value B ssid bv_uint ''GetUnixUser'' d;
          (sid, d) \<leftarrow> get_value B ssid bv_path ''GetSeatId'' d;
          (lsid, d) \<leftarrow> get_value B ssid bv_string ''GetLoginSessionId'' d;
          (session_type, d) \<leftarrow> get_value B ssid bv_string ''GetSessionType'' d;
          (session_class, d) \<leftarrow> get_value B ssid bv_string ''GetSessionClass'' d;
          (session_state, d) \<leftarrow> get_value B ssid bv_string ''GetSessionState'' d;
          (session_service, d) \<leftarrow> get_value B ssid bv_string ''GetSessionService'' d;
          (x11_display, d) \<leftarrow> get_value B ssid bv_string ''GetX11Display'' d;
          (x11_display_device, d) \<leftarrow> get_value B ssid bv_string ''GetX11DisplayDevice'' d;
          (display_device, d) \<leftarrow> get_value B ssid bv_string ''GetDisplayDevice'' d;
          (remote_host_name, d) \<leftarrow> get_value B ssid bv_string ''GetRemoteHostName'' d;
          (is_active, d) \<leftarrow> get_value B ssid bv_bool ''IsActive'' d;
          (is_local, d) \<leftarrow> get_value B ssid bv_bool ''IsLocal'' d;
          (creation_time, d) \<leftarrow> get_value B ssid bv_string ''GetCreationTime'' d;
          (idle_since_hint, d) \<leftarrow> get_value B ssid bv_string ''GetIdleSinceHint'' d;
          (runtime_dir, d) \<leftarrow> get_value B ssid bv_string ''GetXDGRuntimeDir'' d;
          vtnum \<leftarrow> get_property_value B ssid bv_uint ''VTNr'' d;
          active \<leftarrow> is_active;
          local \<leftarrow> is_local;
          dir \<leftarrow> runtime_dir;
          let u = (case user of None \<Rightarrow> 0 | Some u \<Rightarrow> u);
          Some (listed_text
            \<lparr>ls_ssid = g_path_get_basename (Some ssid), ls_uid = u, ls_realname = get_real_name pwuid u, ls_sid = g_path_get_basename sid,
             ls_type = session_type, ls_class = session_class, ls_state = session_state, ls_service = session_service, ls_active = active,
             ls_x11_display = x11_display, ls_x11_display_device = x11_display_device, ls_display_device = display_device,
             ls_remote_host_name = remote_host_name, ls_local = local, ls_creation_time = creation_time, ls_lsid = lsid,
             ls_runtime_dir = Some dir, ls_vtnum = (case vtnum of None \<Rightarrow> 2 ^ 32 - 1 | Some v \<Rightarrow> v), ls_idle_since_hint = idle_since_hint\<rparr>, d)
        })"

text \<open>
  The error pointers of the next two functions have no initial value: without a proxy their message is
  read through whatever they hold.
\<close>

fun list_each :: "(string \<Rightarrow> 'd \<Rightarrow> (string \<times> 'd) option) \<Rightarrow> string list \<Rightarrow> 'd \<Rightarrow> (string \<times> 'd) option" where
  "list_each f [] d = Some ([], d)"
| "list_each f (p # ps) d = do {
     (s, d) \<leftarrow> f p d;
     (t, d) \<leftarrow> list_each f ps d;
     Some (s @ t, d)
   }"

definition list_sessions ::
  "'d query_bus \<Rightarrow> (nat \<Rightarrow> (string \<times> cstring) option) \<Rightarrow> string \<Rightarrow> 'd \<Rightarrow> (string \<times> 'd) option" where
  "list_sessions B pwuid sid d =
     (if qb_proxy B sid CK_SEAT_NAME d \<noteq> Proxy_Made then None
      else case qb_call B sid CK_SEAT_NAME ''GetSessions'' None d of
        (Inl m, d) \<Rightarrow> Some ([], d)
      | (Inr v, d) \<Rightarrow> do {
          paths \<leftarrow> bv_paths v;
          list_each (list_session B pwuid) paths d
        })"

definition list_seats :: "'d query_bus \<Rightarrow> (nat \<Rightarrow> (string \<times> cstring) option) \<Rightarrow> 'd \<Rightarrow> (string \<times> 'd) option" where
  "list_seats B pwuid d =
     (if qb_proxy B CK_MANAGER_PATH CK_MANAGER_NAME d \<noteq> Proxy_Made then None
      else case qb_call B CK_MANAGER_PATH CK_MANAGER_NAME ''GetSeats'' None d of
        (Inl m, d) \<Rightarrow> Some ([], d)
      | (Inr v, d) \<Rightarrow> do {
          paths \<leftarrow> bv_paths v;
          list_each (list_sessions B pwuid) paths d
        })"

text \<open>The program: the options are parsed, \<open>on_bus\<close> says whether there is a system bus.\<close>

record list_options =
  lo_parsed :: bool
  lo_version :: bool

definition list_main ::
  "'d query_bus \<Rightarrow> (nat \<Rightarrow> (string \<times> cstring) option) \<Rightarrow> string \<Rightarrow> list_options \<Rightarrow> bool \<Rightarrow> 'd \<Rightarrow> (int \<times> string \<times> 'd) option" where
  "list_main B pwuid version opts on_bus d =
     (if \<not> lo_parsed opts then Some (1, [], d)
      else if lo_version opts then Some (1, version, d)
      else if \<not> on_bus then Some (1, [], d)
      else do {
        (s, d) \<leftarrow> list_seats B pwuid d;
        Some (0, s, d)
      })"

section \<open>The daemon behind the bus\<close>

text \<open>The types of the replies: src/src/org.freedesktop.ConsoleKit.Manager.xml, .Seat.xml and .Session.xml.\<close>

datatype reply_type = T_bool | T_uint | T_string | T_path | T_paths

definition interface_methods :: "((string \<times> string) \<times> reply_type) list" where
  "interface_methods =
     map (\<lambda>(m, t). ((CK_MANAGER_NAME, m), t))
       [(''GetSeats'', T_paths), (''GetSessions'', T_paths), (''GetSessionByPID'', T_path), (''GetSessionsForUnixUser'', T_paths)] @
     map (\<lambda>(m, t). ((CK_SEAT_NAME, m), t))
       [(''GetSessions'', T_paths), (''GetActiveSession'', T_path), (''CanActivateSessions'', T_bool)] @
     map (\<lambda>(m, t). ((CK_SESSION_NAME, m), t))
       [(''GetUnixUser'', T_uint), (''GetSeatId'', T_path), (''GetLoginSessionId'', T_string), (''GetSessionType'', T_string),
        (''GetSessionClass'', T_string), (''GetSessionState'', T_string), (''GetSessionService'', T_string), (''GetX11Display'', T_string),
        (''GetX11DisplayDevice'', T_string), (''GetDisplayDevice'', T_string), (''GetRemoteHostName'', T_string), (''IsActive'', T_bool),
        (''IsLocal'', T_bool), (''GetCreationTime'', T_string), (''GetIdleSinceHint'', T_string), (''GetXDGRuntimeDir'', T_string),
        (''GetVTNr'', T_uint)]"

definition interface_properties :: "((string \<times> string) \<times> reply_type) list" where
  "interface_properties = [((CK_SEAT_NAME, ''CanGraphical''), T_bool), ((CK_SESSION_NAME, ''VTNr''), T_uint)]"

definition value_has_type :: "bus_value \<Rightarrow> reply_type \<Rightarrow> bool" where
  "value_has_type v t =
     (case v of BV_bool _ \<Rightarrow> t = T_bool | BV_uint _ \<Rightarrow> t = T_uint | BV_string _ \<Rightarrow> t = T_string | BV_path _ \<Rightarrow> t = T_path | BV_paths _ \<Rightarrow> t = T_paths)"

definition reply_value :: "'e reply \<Rightarrow> string + bus_value" where
  "reply_value r =
     (case r of
        Reply_bool b \<Rightarrow> Inr (BV_bool b)
      | Reply_uint n \<Rightarrow> Inr (BV_uint n)
      | Reply_string (Some s) \<Rightarrow> Inr (BV_string s)
      | _ \<Rightarrow> Inl ''Failed'')"

definition reply_path :: "'e reply \<Rightarrow> string + bus_value" where
  "reply_path r = (case r of Reply_string (Some s) \<Rightarrow> Inr (BV_path s) | _ \<Rightarrow> Inl ''Failed'')"

text \<open>A NULL in an array of strings ends it.\<close>

definition reply_paths :: "'e + cstring list \<Rightarrow> string + bus_value" where
  "reply_paths r = (case r of Inl _ \<Rightarrow> Inl ''Failed'' | Inr ps \<Rightarrow> Inr (BV_paths (map the (takeWhile (\<lambda>p. p \<noteq> None) ps))))"

definition manager_reply :: "manager_world \<Rightarrow> string + bus_value" where
  "manager_reply w =
     (if mg_out w = [] then Inl ''NoReply''
      else case last (mg_out w) of
        Answer c r \<Rightarrow> reply_path r
      | Answer_Paths c ps \<Rightarrow> reply_paths (Inr ps :: unit + cstring list)
      | _ \<Rightarrow> Inl ''NoReply'')"

definition session_methods :: "(timeval \<Rightarrow> string) \<Rightarrow> CkSession \<Rightarrow> (string \<times> (string + bus_value)) list" where
  "session_methods iso8601 s =
     [(''GetUnixUser'', reply_value (snd (dbus_get_unix_user s))),
      (''GetSeatId'', reply_path (snd (dbus_get_seat_id s))),
      (''GetLoginSessionId'', reply_value (snd (dbus_get_login_session_id s))),
      (''GetSessionType'', reply_value (snd (dbus_get_session_type s))),
      (''GetSessionClass'', reply_value (snd (dbus_get_session_class s))),
      (''GetSessionState'', reply_value (snd (dbus_get_session_state s))),
      (''GetSessionService'', reply_value (snd (dbus_get_session_service s))),
      (''GetX11Display'', reply_value (snd (dbus_get_x11_display s))),
      (''GetX11DisplayDevice'', reply_value (snd (dbus_get_x11_display_device s))),
      (''GetDisplayDevice'', reply_value (snd (dbus_get_display_device s))),
      (''GetRemoteHostName'', reply_value (snd (dbus_get_remote_host_name s))),
      (''IsActive'', reply_value (snd (dbus_is_active s))),
      (''IsLocal'', reply_value (snd (dbus_is_local s))),
      (''GetCreationTime'', reply_value (snd (dbus_get_creation_time iso8601 s))),
      (''GetIdleSinceHint'', reply_value (snd (dbus_get_idle_since_hint iso8601 s))),
      (''GetXDGRuntimeDir'', reply_value (snd (dbus_get_runtime_dir s))),
      (''GetVTNr'', reply_value (snd (dbus_get_vtnr s)))]"

definition seat_methods :: "nat \<Rightarrow> manager_world \<Rightarrow> (string \<times> (string + bus_value)) list" where
  "seat_methods st w =
     [(''GetSessions'', reply_paths (dbus_get_sessions st w)),
      (''GetActiveSession'', reply_path (dbus_get_active_session st w)),
      (''CanActivateSessions'', reply_value (dbus_can_activate_sessions (seats w st)))]"

definition session_at :: "manager_world \<Rightarrow> string \<Rightarrow> nat option" where
  "session_at w p = map_option snd (List.find (\<lambda>kv. s_path (sess w (snd kv)) = Some p) (mg_sessions w))"

definition seat_at :: "manager_world \<Rightarrow> string \<Rightarrow> nat option" where
  "seat_at w p = map_option snd (List.find (\<lambda>kv. st_path (seats w (snd kv)) = Some p) (mg_seats w))"

definition method_reply :: "(string \<times> (string + bus_value)) list \<Rightarrow> string \<Rightarrow> string + bus_value" where
  "method_reply ms m = (case map_of ms m of None \<Rightarrow> Inl ''UnknownMethod'' | Some r \<Rightarrow> r)"

definition manager_method :: "manager_env \<Rightarrow> cstring \<Rightarrow> string \<Rightarrow> nat option \<Rightarrow> manager_world \<Rightarrow> string + bus_value" where
  "manager_method E sender m arg w =
     (if m = ''GetSeats'' then manager_reply (dbus_get_seats 0 w)
      else if m = ''GetSessions'' then manager_reply (manager_get_sessions 0 w)
      else case arg of
        None \<Rightarrow> Inl ''InvalidArgs''
      | Some n \<Rightarrow>
          if m = ''GetSessionsForUnixUser'' then manager_reply (dbus_get_sessions_for_unix_user 0 n w)
          else if m = ''GetSessionByPID'' then manager_reply (dbus_get_session_by_pid E sender 0 n w)
          else Inl ''UnknownMethod'')"

definition daemon_call ::
  "manager_env \<Rightarrow> cstring \<Rightarrow> string \<Rightarrow> string \<Rightarrow> string \<Rightarrow> nat option \<Rightarrow> manager_world \<Rightarrow> (string + bus_value) \<times> manager_world" where
  "daemon_call E sender path iface m arg w =
     ((if iface = CK_MANAGER_NAME then if path = CK_MANAGER_PATH then manager_method E sender m arg w else Inl ''UnknownMethod''
       else if iface = CK_SEAT_NAME then
         (case seat_at w path of None \<Rightarrow> Inl ''UnknownMethod'' | Some st \<Rightarrow> method_reply (seat_methods st w) m)
       else if iface = CK_SESSION_NAME then
         (case session_at w path of None \<Rightarrow> Inl ''UnknownMethod'' | Some a \<Rightarrow> method_reply (session_methods (sv_iso8601 (mv_seat E)) (sess w a)) m)
       else Inl ''UnknownMethod''), w)"

definition daemon_property :: "string \<Rightarrow> string \<Rightarrow> string \<Rightarrow> manager_world \<Rightarrow> bus_value option" where
  "daemon_property path iface name w =
     (if iface = CK_SEAT_NAME \<and> name = ''CanGraphical'' then map_option (\<lambda>st. BV_bool (st_can_graphical (seats w st))) (seat_at w path)
      else if iface = CK_SESSION_NAME \<and> name = ''VTNr'' then map_option (\<lambda>a. BV_uint (s_vtnr (sess w a))) (session_at w path)
      else None)"

definition path_char :: "char \<Rightarrow> bool" where
  "path_char c =
     (let n = (of_char c :: nat) in is_digit c \<or> (65 \<le> n \<and> n \<le> 90) \<or> (97 \<le> n \<and> n \<le> 122) \<or> c = CHR ''_'')"

definition is_object_path :: "string \<Rightarrow> bool" where
  "is_object_path p =
     (p = ''/'' \<or>
      (case p of [] \<Rightarrow> False | c # s \<Rightarrow> c = CHR ''/'' \<and> list_all (\<lambda>e. e \<noteq> [] \<and> list_all path_char e) (split_on CHR ''/'' [] s)))"

definition daemon_bus :: "manager_env \<Rightarrow> cstring \<Rightarrow> manager_world query_bus" where
  "daemon_bus E sender =
     \<lparr>qb_proxy = (\<lambda>p i w. if is_object_path p then Proxy_Made else Proxy_Refused),
      qb_call = daemon_call E sender, qb_property = daemon_property\<rparr>"

section \<open>Lemmas\<close>

subsection \<open>What the clients rely on\<close>

definition map_reads :: "(bus_value \<Rightarrow> 'a option) \<Rightarrow> reply_type \<Rightarrow> bool" where
  "map_reads read t = (\<forall>v. value_has_type v t \<longrightarrow> read v \<noteq> None)"

lemma reads_typed:
  "map_reads bv_bool T_bool" "map_reads bv_uint T_uint" "map_reads bv_string T_string" "map_reads bv_path T_path" "map_reads bv_paths T_paths"
  by (auto simp: map_reads_def value_has_type_def bv_bool_def bv_uint_def bv_string_def bv_path_def bv_paths_def split: bus_value.splits)

lemma reads_map:
  "map_reads read t \<Longrightarrow> map_reads (stored read) t" "map_reads read t \<Longrightarrow> map_reads (\<lambda>v. map_option f (read v)) t" "map_reads counted T_paths"
  using reads_typed(5) by (auto simp: map_reads_def stored_def counted_def)

text \<open>Replies and properties have the types of the interfaces.\<close>

locale query_service =
  fixes B :: "'d query_bus"
  assumes call_type:
    "qb_call B p i m arg d = (Inr v, d') \<Longrightarrow> map_of interface_methods (i, m) = Some t \<Longrightarrow> value_has_type v t"
  and property_type:
    "qb_property B p i name d = Some v \<Longrightarrow> map_of interface_properties (i, name) = Some t \<Longrightarrow> value_has_type v t"
begin

lemma received_returns:
  assumes "map_of interface_methods (i, m) = Some t" "map_reads read t"
  shows "received x y read (ask B p i m arg d) \<noteq> None"
  using call_type [of p i m arg d] assms
  by (auto simp: received_def ask_def map_reads_def split: asked.splits bus_proxy.splits sum.splits prod.splits)

lemma received_session:
  "map_of interface_methods (CK_SESSION_NAME, m) = Some t \<Longrightarrow> map_reads read t \<Longrightarrow> received x y read (ask B p CK_SESSION_NAME m arg d) \<noteq> None"
  by (rule received_returns)

end

lemma names_differ [simp]:
  "CK_MANAGER_NAME \<noteq> CK_SEAT_NAME" "CK_MANAGER_NAME \<noteq> CK_SESSION_NAME" "CK_SEAT_NAME \<noteq> CK_SESSION_NAME"
  "CK_SEAT_NAME \<noteq> CK_MANAGER_NAME" "CK_SESSION_NAME \<noteq> CK_MANAGER_NAME" "CK_SESSION_NAME \<noteq> CK_SEAT_NAME"
  by (simp_all add: CK_MANAGER_NAME_def CK_SEAT_NAME_def CK_SESSION_NAME_def)

lemma reply_kinds:
  "reply_path r = Inr v \<Longrightarrow> value_has_type v T_path" "reply_paths rs = Inr v \<Longrightarrow> value_has_type v T_paths"
  by (auto simp: reply_path_def reply_paths_def value_has_type_def split: reply.splits option.splits sum.splits)

text \<open>The replies of the daemon, method by method.\<close>

lemma session_method_type:
  assumes "method_reply (session_methods iso8601 s) m = Inr v" "map_of interface_methods (CK_SESSION_NAME, m) = Some t"
  shows "value_has_type v t"
proof -
  have "list_all (\<lambda>(m, r). \<forall>v t. r = Inr v \<longrightarrow> map_of interface_methods (CK_SESSION_NAME, m) = Some t \<longrightarrow> value_has_type v t) (session_methods iso8601 s)"
    by (auto simp: session_methods_def interface_methods_def reply_value_def reply_path_def value_has_type_def
        dbus_get_unix_user_def dbus_get_seat_id_def dbus_get_login_session_id_def dbus_get_session_type_def dbus_get_session_class_def
        dbus_get_session_state_def dbus_get_session_service_def dbus_get_x11_display_def dbus_get_x11_display_device_def dbus_get_display_device_def
        dbus_get_remote_host_name_def dbus_is_active_def dbus_is_local_def dbus_get_creation_time_def dbus_get_idle_since_hint_def
        dbus_get_runtime_dir_def dbus_get_vtnr_def split: option.splits if_splits)
  moreover have "(m, Inr v) \<in> set (session_methods iso8601 s)"
    using assms(1) by (auto simp: method_reply_def split: option.splits dest: map_of_SomeD)
  ultimately show ?thesis using assms(2) unfolding list_all_iff by fast
qed

lemma seat_method_type:
  assumes "method_reply (seat_methods st w) m = Inr v" "map_of interface_methods (CK_SEAT_NAME, m) = Some t"
  shows "value_has_type v t"
proof -
  have "list_all (\<lambda>(m, r). \<forall>v t. r = Inr v \<longrightarrow> map_of interface_methods (CK_SEAT_NAME, m) = Some t \<longrightarrow> value_has_type v t) (seat_methods st w)"
    by (auto simp: seat_methods_def interface_methods_def dest: reply_kinds)
      (auto simp: reply_value_def value_has_type_def dbus_can_activate_sessions_def)
  moreover have "(m, Inr v) \<in> set (seat_methods st w)"
    using assms(1) by (auto simp: method_reply_def split: option.splits dest: map_of_SomeD)
  ultimately show ?thesis using assms(2) unfolding list_all_iff by fast
qed

lemma manager_reply_out [simp]:
  "manager_reply (out (Answer c r) w) = reply_path r" "manager_reply (out (Answer_Paths c ps) w) = reply_paths (Inr ps :: unit + cstring list)"
  "manager_reply (throw_error c err w) = Inl ''Failed''"
  by (simp_all add: manager_reply_def out_def throw_error_def reply_path_def)

lemma session_by_pid_reply:
  "(\<exists>e. manager_reply (dbus_get_session_by_pid E sender c p w) = Inl e) \<or>
   (\<exists>a. manager_reply (dbus_get_session_by_pid E sender c p w) = reply_path (Reply_string (ck_session_get_path (sess w a)) :: unit reply))"
proof -
  have "(\<exists>e. dbus_get_session_for_cookie E sender c k w = throw_error c e w) \<or>
      (\<exists>a. dbus_get_session_for_cookie E sender c k w = out (Answer c (Reply_string (ck_session_get_path (sess w a)))) w)" for k
    by (auto simp: dbus_get_session_for_cookie_def split: option.splits)
  moreover have "(\<exists>e. dbus_get_session_by_pid E sender c p w = throw_error c e w) \<or>
      (\<exists>k. dbus_get_session_by_pid E sender c p w = dbus_get_session_for_cookie E sender c k w)"
    by (auto simp: dbus_get_session_by_pid_def dbus_get_session_for_unix_process_def split: option.splits)
  ultimately have "(\<exists>e. dbus_get_session_by_pid E sender c p w = throw_error c e w) \<or>
      (\<exists>a. dbus_get_session_by_pid E sender c p w = out (Answer c (Reply_string (ck_session_get_path (sess w a)))) w)" by metis
  then show ?thesis by (auto simp: reply_path_def)
qed

lemma manager_method_type:
  assumes "manager_method E sender m arg w = Inr v" "map_of interface_methods (CK_MANAGER_NAME, m) = Some t"
  shows "value_has_type v t"
proof -
  have t: "m = ''GetSeats'' \<and> t = T_paths \<or> m = ''GetSessions'' \<and> t = T_paths \<or> m = ''GetSessionByPID'' \<and> t = T_path \<or> m = ''GetSessionsForUnixUser'' \<and> t = T_paths"
    using assms(2) by (auto simp: interface_methods_def split: if_splits)
  have "manager_reply (dbus_get_seats 0 w) = Inr v \<Longrightarrow> value_has_type v T_paths"
    "manager_reply (manager_get_sessions 0 w) = Inr v \<Longrightarrow> value_has_type v T_paths"
    "manager_reply (dbus_get_sessions_for_unix_user 0 n w) = Inr v \<Longrightarrow> value_has_type v T_paths"
    "manager_reply (dbus_get_session_by_pid E sender 0 n w) = Inr v \<Longrightarrow> value_has_type v T_path" for n
    using session_by_pid_reply [of E sender 0 n w]
    by (auto simp: dbus_get_seats_def manager_get_sessions_def dbus_get_sessions_for_unix_user_def
        dest: reply_kinds reply_kinds(1) [OF sym] split: if_splits)
  then show ?thesis using assms(1) t by (auto simp: manager_method_def split: if_splits option.splits)
qed

interpretation asked: query_service "daemon_bus E sender"
proof
  fix p i m arg w v w' t
  assume "qb_call (daemon_bus E sender) p i m arg w = (Inr v, w')" "map_of interface_methods (i, m) = Some t"
  then show "value_has_type v t"
    using manager_method_type seat_method_type session_method_type
    by (auto simp: daemon_bus_def daemon_call_def split: if_splits option.splits)
next
  fix p i name w v t
  assume "qb_property (daemon_bus E sender) p i name w = Some v" "map_of interface_properties (i, name) = Some t"
  then show "value_has_type v t"
    by (auto simp: daemon_bus_def daemon_property_def interface_properties_def value_has_type_def split: if_splits)
qed

lemma method_types:
  "map_of interface_methods (CK_MANAGER_NAME, ''GetSessions'') = Some T_paths"
  "map_of interface_methods (CK_MANAGER_NAME, ''GetSessionByPID'') = Some T_path"
  "map_of interface_methods (CK_MANAGER_NAME, ''GetSessionsForUnixUser'') = Some T_paths"
  "map_of interface_methods (CK_SEAT_NAME, ''GetSessions'') = Some T_paths"
  "map_of interface_methods (CK_SEAT_NAME, ''GetActiveSession'') = Some T_path"
  "map_of interface_methods (CK_SEAT_NAME, ''CanActivateSessions'') = Some T_bool"
  "map_of interface_methods (CK_SESSION_NAME, ''GetUnixUser'') = Some T_uint"
  "map_of interface_methods (CK_SESSION_NAME, ''GetSeatId'') = Some T_path"
  "map_of interface_methods (CK_SESSION_NAME, ''GetSessionType'') = Some T_string"
  "map_of interface_methods (CK_SESSION_NAME, ''GetSessionClass'') = Some T_string"
  "map_of interface_methods (CK_SESSION_NAME, ''GetSessionState'') = Some T_string"
  "map_of interface_methods (CK_SESSION_NAME, ''GetSessionService'') = Some T_string"
  "map_of interface_methods (CK_SESSION_NAME, ''GetX11Display'') = Some T_string"
  "map_of interface_methods (CK_SESSION_NAME, ''GetX11DisplayDevice'') = Some T_string"
  "map_of interface_methods (CK_SESSION_NAME, ''GetDisplayDevice'') = Some T_string"
  "map_of interface_methods (CK_SESSION_NAME, ''GetRemoteHostName'') = Some T_string"
  "map_of interface_methods (CK_SESSION_NAME, ''IsActive'') = Some T_bool"
  "map_of interface_methods (CK_SESSION_NAME, ''IsLocal'') = Some T_bool"
  "map_of interface_methods (CK_SESSION_NAME, ''GetVTNr'') = Some T_uint"
  by (simp_all add: interface_methods_def)

context query_service
begin

lemmas reply_returns =
  received_returns [OF method_types(1) reads_map(3)] received_returns [OF method_types(2) reads_map(1) [OF reads_typed(4)]]
  received_returns [OF method_types(3) reads_map(3)] received_returns [OF method_types(4) reads_map(3)]
  received_returns [OF method_types(5) reads_map(2) [OF reads_typed(4)]] received_returns [OF method_types(6) reads_typed(1)]
  received_returns [OF method_types(7) reads_map(2) [OF reads_typed(2)]] received_returns [OF method_types(8) reads_map(1) [OF reads_typed(4)]]
  received_returns [OF method_types(9) reads_map(1) [OF reads_typed(3)]] received_returns [OF method_types(10) reads_map(1) [OF reads_typed(3)]]
  received_returns [OF method_types(11) reads_map(1) [OF reads_typed(3)]] received_returns [OF method_types(12) reads_map(1) [OF reads_typed(3)]]
  received_returns [OF method_types(13) reads_map(1) [OF reads_typed(3)]] received_returns [OF method_types(14) reads_map(1) [OF reads_typed(3)]]
  received_returns [OF method_types(16) reads_map(1) [OF reads_typed(3)]] received_returns [OF method_types(17) reads_typed(1)]
  received_returns [OF method_types(18) reads_map(2) [OF reads_typed(1)]] received_returns [OF method_types(19) reads_map(1) [OF reads_typed(2)]]

lemma string_queries_return:
  "lib_consolekit_session_get_uid B ck p x d \<noteq> None" "lib_consolekit_session_get_seat B ck p x d \<noteq> None"
  "lib_consolekit_session_get_service B ck p x d \<noteq> None" "lib_consolekit_session_get_type B ck p x d \<noteq> None"
  "lib_consolekit_session_get_class B ck p x d \<noteq> None" "lib_consolekit_session_get_state B ck p x d \<noteq> None"
  "lib_consolekit_session_get_display B ck p x d \<noteq> None" "lib_consolekit_session_get_remote_host B ck p x d \<noteq> None"
  "lib_consolekit_session_get_vt B ck p x d \<noteq> None" "lib_consolekit_pid_get_session B ck i x d \<noteq> None"
  by (simp_all del: not_None_eq add: reply_returns lib_consolekit_session_get_uid_def lib_consolekit_session_get_seat_def lib_consolekit_session_get_service_def
      lib_consolekit_session_get_type_def lib_consolekit_session_get_class_def lib_consolekit_session_get_state_def
      lib_consolekit_session_get_display_def lib_consolekit_session_get_remote_host_def lib_consolekit_session_get_vt_def
      lib_consolekit_pid_get_session_def invalid_def split: option.split)

lemma flag_queries_return:
  "lib_consolekit_uid_get_sessions B ck n d \<noteq> None" "lib_consolekit_get_sessions B ck d \<noteq> None"
  "lib_consolekit_seat_get_sessions B ck p x d \<noteq> None" "lib_consolekit_seat_can_multi_session B ck p d \<noteq> None"
  "lib_consolekit_session_is_active B ck p d \<noteq> None" "lib_consolekit_session_is_remote B ck p d \<noteq> None"
  by (simp_all del: not_None_eq add: reply_returns lib_consolekit_uid_get_sessions_def lib_consolekit_get_sessions_def lib_consolekit_seat_get_sessions_def
      lib_consolekit_seat_can_multi_session_def lib_consolekit_session_is_active_def lib_consolekit_session_is_remote_def invalid_def split: option.split)

lemma graphical_query_returns: "lib_consolekit_seat_can_graphical B ck p d \<noteq> None"
  using property_type [of _ CK_SEAT_NAME "''CanGraphical''" d] reads_typed(1)
  by (auto simp: lib_consolekit_seat_can_graphical_def invalid_def interface_properties_def map_reads_def split: option.split bus_proxy.split)

lemma active_query_returns: "lib_consolekit_seat_get_active B ck p x y d \<noteq> None"
  by (simp del: not_None_eq add: reply_returns lib_consolekit_seat_get_active_def invalid_def split: option.split bool.split prod.split)

lemma tty_query_returns: "lib_consolekit_session_get_tty B ck p x d \<noteq> None"
  using call_type [OF _ method_types(15)] reads_typed(3)
  by (simp del: not_None_eq add: reply_returns lib_consolekit_session_get_tty_def invalid_def map_reads_def split: option.split bool.split sum.split prod.split)

end

text \<open>Calls on the object of a session and of a seat.\<close>

lemma ask_session:
  assumes "is_object_path p" "session_at w p = Some a"
  shows "ask (daemon_bus E sender) p CK_SESSION_NAME m None w =
    (case method_reply (session_methods (sv_iso8601 (mv_seat E)) (sess w a)) m of Inl e \<Rightarrow> Ask_Denied e | Inr v \<Rightarrow> Ask_Value v, w)"
  using assms by (simp add: ask_def daemon_bus_def daemon_call_def split: sum.split)

lemma ask_seat:
  assumes "is_object_path p" "seat_at w p = Some st"
  shows "ask (daemon_bus E sender) p CK_SEAT_NAME m None w =
    (case method_reply (seat_methods st w) m of Inl e \<Rightarrow> Ask_Denied e | Inr v \<Rightarrow> Ask_Value v, w)"
  using assms by (simp add: ask_def daemon_bus_def daemon_call_def split: sum.split)

lemma session_replies:
  "method_reply (session_methods iso8601 s) ''GetUnixUser'' = Inr (BV_uint (s_unix_user s))"
  "s_seat_id s \<noteq> None \<Longrightarrow> s_seat_path s = Some q \<Longrightarrow> method_reply (session_methods iso8601 s) ''GetSeatId'' = Inr (BV_path q)"
  "s_seat_id s = None \<or> s_seat_path s = None \<Longrightarrow> method_reply (session_methods iso8601 s) ''GetSeatId'' = Inl ''Failed''"
  "method_reply (session_methods iso8601 s) ''GetLoginSessionId'' = Inr (BV_string (NONULL_STRING (s_login_session_id s)))"
  "method_reply (session_methods iso8601 s) ''GetSessionType'' = Inr (BV_string (the (default_string ''unspecified'' (s_session_type s))))"
  "method_reply (session_methods iso8601 s) ''GetSessionClass'' = Inr (BV_string (the (default_string ''user'' (s_session_class s))))"
  "method_reply (session_methods iso8601 s) ''GetSessionState'' = Inr (BV_string (the (default_string ''online'' (s_session_state s))))"
  "method_reply (session_methods iso8601 s) ''GetSessionService'' = Inr (BV_string (the (default_string ''unspecified'' (s_session_service s))))"
  "method_reply (session_methods iso8601 s) ''GetX11Display'' = Inr (BV_string (NONULL_STRING (s_x11_display s)))"
  "method_reply (session_methods iso8601 s) ''GetX11DisplayDevice'' = Inr (BV_string (NONULL_STRING (s_x11_display_device s)))"
  "method_reply (session_methods iso8601 s) ''GetDisplayDevice'' = Inr (BV_string (NONULL_STRING (s_display_device s)))"
  "method_reply (session_methods iso8601 s) ''GetRemoteHostName'' = Inr (BV_string (NONULL_STRING (s_remote_host_name s)))"
  "method_reply (session_methods iso8601 s) ''IsActive'' = Inr (BV_bool (s_active s))"
  "method_reply (session_methods iso8601 s) ''IsLocal'' = Inr (BV_bool (s_is_local s))"
  "method_reply (session_methods iso8601 s) ''GetCreationTime'' = Inr (BV_string (iso8601 (s_creation_time s)))"
  "method_reply (session_methods iso8601 s) ''GetIdleSinceHint'' = (if s_idle_hint s then Inr (BV_string (iso8601 (s_idle_since_hint s))) else Inl ''Failed'')"
  "method_reply (session_methods iso8601 s) ''GetXDGRuntimeDir'' = (case s_runtime_dir s of None \<Rightarrow> Inl ''Failed'' | Some r \<Rightarrow> Inr (BV_string r))"
  "method_reply (session_methods iso8601 s) ''GetVTNr'' = Inr (BV_uint (s_vtnr s))"
  by (auto simp: method_reply_def session_methods_def reply_value_def reply_path_def default_string_def
      dbus_get_unix_user_def dbus_get_seat_id_def dbus_get_login_session_id_def dbus_get_session_type_def dbus_get_session_class_def
      dbus_get_session_state_def dbus_get_session_service_def dbus_get_x11_display_def dbus_get_x11_display_device_def dbus_get_display_device_def
      dbus_get_remote_host_name_def dbus_is_active_def dbus_is_local_def dbus_get_creation_time_def dbus_get_idle_since_hint_def
      dbus_get_runtime_dir_def dbus_get_vtnr_def split: option.split)

lemma default_string_eq: "default_string d v = Some (case v of None \<Rightarrow> d | Some v \<Rightarrow> v)"
  by (simp add: default_string_def split: option.split)

subsection \<open>Properties\<close>

text \<open>
  No query of the library reads a reply of the daemon at another type than the daemon gave it, whatever
  the arguments and the state of the daemon.
\<close>

theorem replies_are_read_at_their_types:
  "lib_consolekit_seat_get_active (daemon_bus E sender) ck p x y w \<noteq> None \<and>
   lib_consolekit_uid_get_sessions (daemon_bus E sender) ck n w \<noteq> None \<and> lib_consolekit_get_sessions (daemon_bus E sender) ck w \<noteq> None \<and>
   lib_consolekit_seat_get_sessions (daemon_bus E sender) ck p x w \<noteq> None \<and> lib_consolekit_seat_can_multi_session (daemon_bus E sender) ck p w \<noteq> None \<and>
   lib_consolekit_seat_can_graphical (daemon_bus E sender) ck p w \<noteq> None \<and> lib_consolekit_session_is_active (daemon_bus E sender) ck p w \<noteq> None \<and>
   lib_consolekit_session_is_remote (daemon_bus E sender) ck p w \<noteq> None \<and> lib_consolekit_session_get_uid (daemon_bus E sender) ck p x w \<noteq> None \<and>
   lib_consolekit_session_get_seat (daemon_bus E sender) ck p x w \<noteq> None \<and> lib_consolekit_session_get_service (daemon_bus E sender) ck p x w \<noteq> None \<and>
   lib_consolekit_session_get_type (daemon_bus E sender) ck p x w \<noteq> None \<and> lib_consolekit_session_get_class (daemon_bus E sender) ck p x w \<noteq> None \<and>
   lib_consolekit_session_get_state (daemon_bus E sender) ck p x w \<noteq> None \<and> lib_consolekit_session_get_display (daemon_bus E sender) ck p x w \<noteq> None \<and>
   lib_consolekit_session_get_remote_host (daemon_bus E sender) ck p x w \<noteq> None \<and> lib_consolekit_session_get_tty (daemon_bus E sender) ck p x w \<noteq> None \<and>
   lib_consolekit_session_get_vt (daemon_bus E sender) ck p x w \<noteq> None \<and> lib_consolekit_pid_get_session (daemon_bus E sender) ck i x w \<noteq> None"
  by (intro conjI asked.string_queries_return asked.flag_queries_return asked.graphical_query_returns asked.active_query_returns asked.tty_query_returns)

text \<open>
  C21: The library tells the truth about a session: every query about a registered session returns what
  the daemon holds, without an error, and the query of a seat returns the path and the user of its active session.
\<close>

theorem queries_report_the_session:
  assumes "is_object_path q" "session_at w q = Some a" "B = daemon_bus E sender" "s = sess w a"
  shows "lib_consolekit_session_is_active B True (Some q) w = Some (s_active s, None, w) \<and>
    lib_consolekit_session_is_remote B True (Some q) w = Some (\<not> s_is_local s, None, w) \<and>
    lib_consolekit_session_get_uid B True (Some q) True w = Some ((True, Some (s_unix_user s)), None, w) \<and>
    lib_consolekit_session_get_type B True (Some q) True w = Some ((True, default_string ''unspecified'' (s_session_type s)), None, w) \<and>
    lib_consolekit_session_get_class B True (Some q) True w = Some ((True, default_string ''user'' (s_session_class s)), None, w) \<and>
    lib_consolekit_session_get_state B True (Some q) True w = Some ((True, default_string ''online'' (s_session_state s)), None, w) \<and>
    lib_consolekit_session_get_service B True (Some q) True w = Some ((True, default_string ''unspecified'' (s_session_service s)), None, w) \<and>
    lib_consolekit_session_get_display B True (Some q) True w = Some ((True, Some (NONULL_STRING (s_x11_display s))), None, w) \<and>
    lib_consolekit_session_get_remote_host B True (Some q) True w = Some ((True, Some (NONULL_STRING (s_remote_host_name s))), None, w) \<and>
    lib_consolekit_session_get_tty B True (Some q) True w =
      Some ((True, Some (Some (if IS_STR_SET (s_x11_display_device s) then NONULL_STRING (s_x11_display_device s)
                               else NONULL_STRING (s_display_device s)))), None, w) \<and>
    lib_consolekit_session_get_vt B True (Some q) True w = Some ((True, Some (s_vtnr s)), None, w) \<and>
    (\<forall>p st. is_object_path p \<and> seat_at w p = Some st \<and> st_active_session (seats w st) = Some a \<and> s_path s = Some q \<longrightarrow>
      lib_consolekit_seat_get_active B True (Some p) True True w = Some ((True, Some q, Some (s_unix_user s)), None, w))"
proof -
  note ask = ask_session [OF assms(1,2), of E sender, folded assms(3,4)]
  note read = received_def stored_def session_replies default_string_eq bv_bool_def bv_uint_def bv_string_def bv_path_def
  have tty: "qb_call B q CK_SESSION_NAME m None w = (method_reply (session_methods (sv_iso8601 (mv_seat E)) s) m, w)" for m
    using assms by (simp add: daemon_bus_def daemon_call_def)
  have empty: "IS_STR_SET v \<longleftrightarrow> NONULL_STRING v \<noteq> []" for v by (cases v) simp_all
  have active: "lib_consolekit_seat_get_active B True (Some p) True True w = Some ((True, Some q, Some (s_unix_user s)), None, w)"
    if "is_object_path p" "seat_at w p = Some st" "st_active_session (seats w st) = Some a" "s_path s = Some q" for p st
  proof -
    have "method_reply (seat_methods st w) ''GetActiveSession'' = Inr (BV_path q)"
      using that(3,4) assms(4) by (simp add: method_reply_def seat_methods_def dbus_get_active_session_def ck_seat_get_active_session_def ck_session_get_path_def reply_path_def)
    then show ?thesis
      using ask_seat [OF that(1,2), of E sender] by (simp add: lib_consolekit_seat_get_active_def ask read flip: assms(3))
  qed
  show ?thesis
    using active
    by (simp add: lib_consolekit_session_is_active_def lib_consolekit_session_is_remote_def lib_consolekit_session_get_uid_def
        lib_consolekit_session_get_type_def lib_consolekit_session_get_class_def lib_consolekit_session_get_state_def
        lib_consolekit_session_get_service_def lib_consolekit_session_get_display_def lib_consolekit_session_get_remote_host_def
        lib_consolekit_session_get_tty_def lib_consolekit_session_get_vt_def ask tty read empty)
qed

definition listing :: "manager_env \<Rightarrow> (nat \<Rightarrow> (string \<times> cstring) option) \<Rightarrow> CkSession \<Rightarrow> listed" where
  "listing E pwuid s =
     \<lparr>ls_ssid = g_path_get_basename (s_path s), ls_uid = s_unix_user s, ls_realname = get_real_name pwuid (s_unix_user s),
      ls_sid = (if s_seat_id s = None then None else g_path_get_basename (s_seat_path s)),
      ls_type = default_string ''unspecified'' (s_session_type s), ls_class = default_string ''user'' (s_session_class s),
      ls_state = default_string ''online'' (s_session_state s), ls_service = default_string ''unspecified'' (s_session_service s),
      ls_active = s_active s, ls_x11_display = Some (NONULL_STRING (s_x11_display s)),
      ls_x11_display_device = Some (NONULL_STRING (s_x11_display_device s)), ls_display_device = Some (NONULL_STRING (s_display_device s)),
      ls_remote_host_name = Some (NONULL_STRING (s_remote_host_name s)), ls_local = s_is_local s,
      ls_creation_time = Some (sv_iso8601 (mv_seat E) (s_creation_time s)), ls_lsid = Some (NONULL_STRING (s_login_session_id s)),
      ls_runtime_dir = s_runtime_dir s, ls_vtnum = s_vtnr s,
      ls_idle_since_hint = (if s_idle_hint s then Some (sv_iso8601 (mv_seat E) (s_idle_since_hint s)) else None)\<rparr>"

text \<open>Seats and their sessions are at object paths of their own.\<close>

definition listable :: "manager_world \<Rightarrow> bool" where
  "listable w =
     list_all (\<lambda>(k, st).
       (case st_path (seats w st) of None \<Rightarrow> False | Some p \<Rightarrow> is_object_path p \<and> seat_at w p = Some st) \<and>
       list_all (\<lambda>(i, a).
         (case s_path (sess w a) of None \<Rightarrow> False | Some q \<Rightarrow> is_object_path q \<and> session_at w q = Some a)) (st_sessions (seats w st))) (mg_seats w)"

definition seat_has_dirs :: "manager_world \<Rightarrow> nat \<Rightarrow> bool" where
  "seat_has_dirs w st = list_all (\<lambda>(i, a). s_runtime_dir (sess w a) \<noteq> None) (st_sessions (seats w st))"

lemma daemon_bus_simps:
  "qb_proxy (daemon_bus E sender) p i w = (if is_object_path p then Proxy_Made else Proxy_Refused)"
  "qb_call (daemon_bus E sender) = daemon_call E sender" "qb_property (daemon_bus E sender) = daemon_property"
  by (simp_all add: daemon_bus_def)

lemma list_session_daemon:
  assumes "is_object_path q" "session_at w q = Some a"
  shows "list_session (daemon_bus E sender) pwuid q w =
    (if s_runtime_dir (sess w a) = None then None else Some (listed_text (listing E pwuid (sess w a)), w))"
proof -
  define s where "s = sess w a"
  have call: "daemon_call E sender q CK_SESSION_NAME m None w = (method_reply (session_methods (sv_iso8601 (mv_seat E)) s) m, w)" for m
    using assms by (simp add: daemon_call_def s_def)
  have vt: "daemon_property q CK_SESSION_NAME ''VTNr'' w = Some (BV_uint (s_vtnr s))" using assms by (simp add: daemon_property_def s_def)
  obtain k where "List.find (\<lambda>kv. s_path (sess w (snd kv)) = Some q) (mg_sessions w) = Some (k, a)" using assms(2) by (auto simp: session_at_def)
  then have path: "s_path s = Some q" using find_SomeD by (fastforce simp: s_def)
  have seat: "get_value (daemon_bus E sender) q bv_path ''GetSeatId'' w = Some (if s_seat_id s = None then None else s_seat_path s, w)"
    by (cases "s_seat_path s"; cases "s_seat_id s = None") (simp_all add: get_value_def daemon_bus_simps call session_replies bv_path_def)
  have "g_path_get_basename (if s_seat_id s = None then None else s_seat_path s) = (if s_seat_id s = None then None else g_path_get_basename (s_seat_path s))"
    by (simp add: g_path_get_basename_def)
  moreover have "get_value (daemon_bus E sender) q bv_string ''GetIdleSinceHint'' w =
      Some (if s_idle_hint s then Some (sv_iso8601 (mv_seat E) (s_idle_since_hint s)) else None, w)"
    by (simp add: get_value_def daemon_bus_simps call session_replies bv_string_def)
  ultimately show ?thesis
    using assms(1) seat path
    by (cases "s_runtime_dir s") (simp_all add: list_session_def daemon_bus_simps get_value_def call session_replies bv_bool_def bv_uint_def bv_string_def
        get_property_value_def vt listing_def default_string_eq Let_def flip: s_def)
qed

lemma list_each_map: "(\<And>p. p \<in> set ps \<Longrightarrow> f p d = Some (g p, d)) \<Longrightarrow> list_each f ps d = Some (concat (map g ps), d)"
  by (induction ps) auto

definition seat_listing :: "manager_env \<Rightarrow> (nat \<Rightarrow> (string \<times> cstring) option) \<Rightarrow> manager_world \<Rightarrow> nat \<Rightarrow> string" where
  "seat_listing E pwuid w st = concat (map (\<lambda>(i, a). listed_text (listing E pwuid (sess w a))) (st_sessions (seats w st)))"

lemma list_each_paths:
  assumes "\<And>x. x \<in> set xs \<Longrightarrow> path x = Some (the (path x)) \<and> f (the (path x)) d = (if P x then Some (g x, d) else None)"
  shows "list_each f (map the (takeWhile (\<lambda>p. p \<noteq> None) (map path xs))) d =
    (if list_all P xs then Some (concat (map g xs), d) else None)"
  using assms
proof (induction xs)
  case (Cons x xs)
  then have "path x = Some (the (path x))" "f (the (path x)) d = (if P x then Some (g x, d) else None)" by auto
  moreover from this obtain p where "path x = Some p" by blast
  ultimately show ?case using Cons by auto
qed simp

lemma listableD:
  assumes "listable w" "(k, st) \<in> set (mg_seats w)"
  shows "\<exists>p. st_path (seats w st) = Some p \<and> is_object_path p \<and> seat_at w p = Some st"
    "(i, a) \<in> set (st_sessions (seats w st)) \<Longrightarrow>
      \<exists>q. s_path (sess w a) = Some q \<and> is_object_path q \<and> session_at w q = Some a"
proof -
  have l: "(case st_path (seats w st) of None \<Rightarrow> False | Some p \<Rightarrow> is_object_path p \<and> seat_at w p = Some st) \<and>
    (\<forall>(i, a) \<in> set (st_sessions (seats w st)).
      (case s_path (sess w a) of None \<Rightarrow> False | Some q \<Rightarrow> is_object_path q \<and> session_at w q = Some a))"
    using assms by (auto simp: listable_def list_all_iff)
  then show "\<exists>p. st_path (seats w st) = Some p \<and> is_object_path p \<and> seat_at w p = Some st" by (auto split: option.splits)
  assume "(i, a) \<in> set (st_sessions (seats w st))"
  with l have "case s_path (sess w a) of None \<Rightarrow> False | Some q \<Rightarrow> is_object_path q \<and> session_at w q = Some a" by blast
  then show "\<exists>q. s_path (sess w a) = Some q \<and> is_object_path q \<and> session_at w q = Some a"
    by (auto split: option.splits)
qed

lemma list_sessions_daemon:
  assumes "listable w" "(k, st) \<in> set (mg_seats w)" "st_path (seats w st) = Some p"
  shows "list_sessions (daemon_bus E sender) pwuid p w = (if seat_has_dirs w st then Some (seat_listing E pwuid w st, w) else None)"
proof -
  have st: "is_object_path p" "seat_at w p = Some st" using listableD(1) [OF assms(1,2)] assms(3) by auto
  have a: "s_path (sess w a) = Some (the (s_path (sess w a))) \<and>
      list_session (daemon_bus E sender) pwuid (the (s_path (sess w a))) w =
        (if s_runtime_dir (sess w a) \<noteq> None then Some (listed_text (listing E pwuid (sess w a)), w) else None)"
    if ia: "(i, a) \<in> set (st_sessions (seats w st))" for i a
  proof -
    obtain q where "s_path (sess w a) = Some q" "is_object_path q" "session_at w q = Some a"
      using listableD(2) [OF assms(1,2) ia] by blast
    then show ?thesis using list_session_daemon by auto
  qed
  have "list_each (list_session (daemon_bus E sender) pwuid)
      (map the (takeWhile (\<lambda>p. p \<noteq> None) (map (\<lambda>kv. ck_session_get_path (sess w (snd kv))) (st_sessions (seats w st))))) w =
      (if list_all (\<lambda>kv. s_runtime_dir (sess w (snd kv)) \<noteq> None) (st_sessions (seats w st))
       then Some (concat (map (\<lambda>kv. listed_text (listing E pwuid (sess w (snd kv)))) (st_sessions (seats w st))), w) else None)"
    by (rule list_each_paths) (use a in \<open>auto simp: ck_session_get_path_def\<close>)
  then show ?thesis using st
    by (simp add: list_sessions_def daemon_bus_simps daemon_call_def method_reply_def seat_methods_def reply_paths_def dbus_get_sessions_def
        Let_def bv_paths_def seat_listing_def seat_has_dirs_def case_prod_unfold)
qed

text \<open>
  C22: The listing is complete. When the seats and sessions of the daemon are at object paths of their own and
  every session has a runtime directory, the program exits with 0 and prints every session of every seat of the daemon once,
  in the order of the seats and of their sessions, with the values the daemon holds. A session without a
  runtime directory, on whatever seat, crashes the program.
\<close>

theorem every_session_is_listed:
  assumes "listable w"
  shows "list_main (daemon_bus E sender) pwuid version \<lparr>lo_parsed = True, lo_version = False\<rparr> True w =
    (if list_all (\<lambda>(k, st). seat_has_dirs w st) (mg_seats w)
     then Some (0, concat (map (\<lambda>(k, st). seat_listing E pwuid w st) (mg_seats w)), w)
     else None)"
proof -
  have m: "is_object_path CK_MANAGER_PATH" by (simp add: is_object_path_def CK_MANAGER_PATH_def path_char_def is_digit_def)
  have "list_each (list_sessions (daemon_bus E sender) pwuid)
      (map the (takeWhile (\<lambda>p. p \<noteq> None) (map (\<lambda>kv. st_path (seats w (snd kv))) (mg_seats w)))) w =
      (if list_all (\<lambda>kv. seat_has_dirs w (snd kv)) (mg_seats w)
       then Some (concat (map (\<lambda>kv. seat_listing E pwuid w (snd kv)) (mg_seats w)), w) else None)"
  proof (rule list_each_paths)
    fix kv
    assume kv: "kv \<in> set (mg_seats w)"
    then obtain p where "st_path (seats w (snd kv)) = Some p" using listableD(1) [OF assms, of "fst kv" "snd kv"] by auto
    then show "st_path (seats w (snd kv)) = Some (the (st_path (seats w (snd kv)))) \<and>
        list_sessions (daemon_bus E sender) pwuid (the (st_path (seats w (snd kv)))) w =
          (if seat_has_dirs w (snd kv) then Some (seat_listing E pwuid w (snd kv), w) else None)"
      using list_sessions_daemon [OF assms, of "fst kv" "snd kv" p] kv by simp
  qed
  then show ?thesis using m
    by (simp add: list_main_def list_seats_def daemon_bus_simps daemon_call_def manager_method_def dbus_get_seats_def reply_paths_def
        ck_seat_get_path_def bv_paths_def case_prod_unfold)
qed

text \<open>
  A session that is no object path counts as a success: no proxy is made and no error is set, so the
  functions of sd-login return 0 and store nothing.
\<close>

theorem bad_path_counts_as_success:
  assumes "qb_proxy B p CK_SESSION_NAME d = Proxy_Refused"
  shows "sd_session_get_class B (Some p) True d = Some (0, None, d) \<and> sd_session_get_uid B (Some p) True d = Some (0, None, d) \<and>
    sd_session_get_seat B (Some p) True d = Some (0, None, d)"
  using assms
  by (simp add: sd_session_get_class_def sd_session_get_uid_def sd_session_get_seat_def sd_result_def lib_consolekit_session_get_class_def
      lib_consolekit_session_get_uid_def lib_consolekit_session_get_seat_def received_def ask_def)

definition listed_manager :: manager_world where
  "listed_manager = empty_manager
     \<lparr>mg_sessions := [(''Session1'', 5)], mg_seats := [(''Seat1'', 3)],
      sess := (\<lambda>a. (ck_session_init sample_senv)\<lparr>s_path := Some ''/org/Session1'', s_unix_user := 1000, s_runtime_dir := Some ''/run/user/1000''\<rparr>),
      seats := (\<lambda>st. (seats empty_manager st)\<lparr>st_path := Some ''/org/Seat1'', st_sessions := [(''Session1'', 5)], st_active_session := Some 5\<rparr>)\<rparr>"

lemma sample_paths: "is_object_path ''/org/Session1''" "is_object_path ''/org/Seat1''" "\<not> is_object_path ''c1''"
  by (simp_all add: is_object_path_def path_char_def is_digit_def)

lemma listed_manager_ok: "session_at listed_manager ''/org/Session1'' = Some 5" "seat_at listed_manager ''/org/Seat1'' = Some 3" "listable listed_manager"
  using sample_paths by (simp_all add: listed_manager_def session_at_def seat_at_def listable_def)

theorem queries_report_the_session_witness:
  "lib_consolekit_session_get_uid (daemon_bus sample_menv None) True (Some ''/org/Session1'') True listed_manager = Some ((True, Some 1000), None, listed_manager) \<and>
   lib_consolekit_seat_get_active (daemon_bus sample_menv None) True (Some ''/org/Seat1'') True True listed_manager =
     Some ((True, Some ''/org/Session1'', Some 1000), None, listed_manager)"
proof -
  have "s_unix_user (sess listed_manager 5) = 1000" "s_path (sess listed_manager 5) = Some ''/org/Session1''"
    "st_active_session (seats listed_manager 3) = Some 5"
    by (simp_all add: listed_manager_def)
  then show ?thesis
    using queries_report_the_session [OF sample_paths(1) listed_manager_ok(1) refl refl, of sample_menv None] sample_paths(2) listed_manager_ok(2) by simp
qed

theorem every_session_is_listed_witness:
  "list_main (daemon_bus sample_menv None) (\<lambda>_. None) [] \<lparr>lo_parsed = True, lo_version = False\<rparr> True listed_manager =
     Some (0, listed_text (listing sample_menv (\<lambda>_. None) (sess listed_manager 5)), listed_manager)"
proof -
  have "mg_seats listed_manager = [(''Seat1'', 3)]" "st_sessions (seats listed_manager 3) = [(''Session1'', 5)]"
    "s_runtime_dir (sess listed_manager 5) = Some ''/run/user/1000''" by (simp_all add: listed_manager_def)
  then show ?thesis using every_session_is_listed [OF listed_manager_ok(3), of sample_menv None] by (simp add: seat_listing_def seat_has_dirs_def)
qed

theorem bad_path_counts_as_success_witness:
  "sd_session_get_uid (daemon_bus sample_menv None) (Some ''c1'') True listed_manager = Some (0, None, listed_manager)"
proof -
  have "qb_proxy (daemon_bus sample_menv None) ''c1'' CK_SESSION_NAME listed_manager = Proxy_Refused" using sample_paths(3) by (simp add: daemon_bus_simps)
  from bad_path_counts_as_success [OF this] show ?thesis by (rule conjunct1 [OF conjunct2])
qed

text \<open>The error of a failed \<open>sd_session_get_display\<close> is freed twice; sessions without a runtime directory cannot be listed.\<close>

theorem failed_display_query_frees_twice:
  "sd_session_get_display B None True d = None"
  by (simp add: sd_session_get_display_def lib_consolekit_session_get_display_def invalid_def)

theorem missing_runtime_dir_breaks_listing:
  assumes "is_object_path q" "session_at w q = Some a" "s_runtime_dir (sess w a) = None"
  shows "list_session (daemon_bus E sender) pwuid q w = None"
  using list_session_daemon [OF assms(1,2)] assms(3) by simp

end
