(* ===== verification/CK_Tools.thy ===== *)
theory CK_Tools
  imports CK_Connector CK_CollectInfo CK_RuntimeDir CK_EventLogger "HOL-Library.Word"
begin

unbundle bit_operations_syntax

text \<open>
  The small programs and services around the daemon: writing system events to the history
  (src/tools/ck-log-system-start.c, -stop.c, -restart.c), running a command inside a session
  (src/tools/ck-launch-session.c), the terminal and the process of an X server
  (src/tools/ck-get-x11-display-device.c, ck-get-x11-server-pid.c), groups of processes
  (src/src/ck-process-group.c, built with cgmanager), the message log (src/src/ck-log.c) and the pid file of
  the daemon (src/src/main.c).

  Results of system calls, of X and of cgmanager are inputs. \<open>None\<close> as a result is a loop that does not end or
  memory that is read through NULL.
\<close>

section \<open>System events\<close>

record system_log_env =
  sy_mkdir :: bool
  sy_open :: "open_fault list"
  sy_create :: bool
  sy_open_again :: bool
  sy_cloexec :: bool
  sy_fdopen :: bool
  sy_print :: bool

text \<open>The log file is its lines, if it exists. The first component says whether a stream was opened.\<close>

fun open_system_log :: "system_log_env \<Rightarrow> open_fault list \<Rightarrow> string list option \<Rightarrow> (bool \<times> string list option) option" where
  "open_system_log E [] f = None"
| "open_system_log E (Open_ENFILE # rs) f = open_system_log E rs f"
| "open_system_log E (Open_Fails # rs) f = Some (False, f)"
| "open_system_log E (Open_Works # rs) f =
     (let ready = sy_cloexec E \<and> sy_fdopen E in
      case f of
        Some ls \<Rightarrow> Some (ready, f)
      | None \<Rightarrow> if \<not> sy_create E then Some (False, None) else Some (sy_open_again E \<and> ready, Some []))"

definition open_start_log :: "system_log_env \<Rightarrow> string list option \<Rightarrow> (bool \<times> string list option) option" where
  "open_start_log E f = (if \<not> sy_mkdir E then Some (False, f) else open_system_log E (sy_open E) f)"

text \<open>The exit status of the program and the file. The result of \<open>ck_log_event_to_string\<close> is not looked at.\<close>

definition write_system_event ::
  "system_log_env \<Rightarrow> (bool \<times> string list option) option \<Rightarrow> CkLogEvent \<Rightarrow> (nat \<times> string list option) option" where
  "write_system_event E result e =
     map_option (\<lambda>(ok, f).
       if \<not> ok then (1, f)
       else (0, if sy_print E then map_option (\<lambda>ls. ls @ [event_line e]) f else f)) result"

definition get_boot_arguments :: "cstring \<Rightarrow> cstring" where
  "get_boot_arguments cmdline = map_option g_strchomp cmdline"

definition log_system_start ::
  "system_log_env \<Rightarrow> timeval \<Rightarrow> cstring \<Rightarrow> cstring \<Rightarrow> string list option \<Rightarrow> (nat \<times> string list option) option" where
  "log_system_start E now release cmdline f =
     write_system_event E (open_start_log E f) \<lparr>le_timestamp = now, le_event = Ev_System_Start release (get_boot_arguments cmdline)\<rparr>"

definition log_system_restart :: "system_log_env \<Rightarrow> timeval \<Rightarrow> string list option \<Rightarrow> (nat \<times> string list option) option" where
  "log_system_restart E now f =
     write_system_event E (open_system_log E (sy_open E) f) \<lparr>le_timestamp = now, le_event = Ev_System_Restart\<rparr>"

definition log_system_stop :: "system_log_env \<Rightarrow> timeval \<Rightarrow> string list option \<Rightarrow> (nat \<times> string list option) option" where
  "log_system_stop E now f =
     write_system_event E (open_system_log E (sy_open E) f) \<lparr>le_timestamp = now, le_event = Ev_System_Stop\<rparr>"

section \<open>A command inside a session\<close>

text \<open>The environment is a table; the command is NULL when no argument is left.\<close>

record launch_env =
  la_service :: cstring
  la_command :: "string list option"
  la_environ :: "(string, string) ghash"
  la_executable :: "string \<Rightarrow> bool"

datatype fork_result = Fork_Fails | Fork_Child | Fork_Parent nat

datatype launched = Launch_Exec "string list" "(string, string) ghash" | Launch_Exit nat

definition check_shell :: "(string \<Rightarrow> bool) \<Rightarrow> cstring \<Rightarrow> bool" where
  "check_shell executable shell =
     (case shell of None \<Rightarrow> False | Some [] \<Rightarrow> False | Some s \<Rightarrow> executable s)"

definition PATH_BSHELL :: string where "PATH_BSHELL = ''/bin/sh''"

definition launch_exec :: "launch_env \<Rightarrow> (string, string) ghash \<Rightarrow> launched option" where
  "launch_exec L env =
     (case la_command L of
        None \<Rightarrow> None
      | Some (c # cs) \<Rightarrow> Some (Launch_Exec (c # cs) env)
      | Some [] \<Rightarrow>
          let shell = g_hash_table_lookup env ''SHELL'';
              shell = (if \<not> check_shell (la_executable L) shell then PATH_BSHELL else the shell)
          in Some (Launch_Exec [shell] env))"

definition launch_run :: "launch_env \<Rightarrow> (string, string) ghash \<Rightarrow> 'd \<Rightarrow> (launched \<times> 'd) option" where
  "launch_run L env d = map_option (\<lambda>r. (r, d)) (launch_exec L env)"

definition launch_open :: "'d bus \<Rightarrow> launch_env \<Rightarrow> CkConnector \<Rightarrow> 'd \<Rightarrow> 'd connected option" where
  "launch_open B L c d =
     (case la_service L of
        None \<Rightarrow> ck_connector_open_session B c None d
      | Some s \<Rightarrow> ck_connector_open_session_with_parameters B [(''session-service'', Arg_string (Some s))] c None d)"

text \<open>What the new process does before it runs the command.\<close>

definition launch_child :: "'d bus \<Rightarrow> launch_env \<Rightarrow> CkConnector \<Rightarrow> dbus_error \<Rightarrow> 'd \<Rightarrow> (launched \<times> 'd) option" where
  "launch_child B L c e d =
     (case ck_connector_get_cookie c of
        None \<Rightarrow> None
      | Some k \<Rightarrow>
          let env = g_hash_table_insert (la_environ L) ''XDG_SESSION_COOKIE'' k in
          case ck_connector_get_runtime_dir B c e d of
            None \<Rightarrow> None
          | Some (dir, c, e, d) \<Rightarrow>
              launch_run L (case dir of None \<Rightarrow> env | Some r \<Rightarrow> g_hash_table_insert env ''XDG_RUNTIME_DIR'' r) d)"

text \<open>The exit status of a process has eight bits; \<open>status\<close> is what \<open>waitpid\<close> stores.\<close>

definition exit_status :: "nat \<Rightarrow> nat" where
  "exit_status status = status mod 256"

definition launch_session :: "'d bus \<Rightarrow> launch_env \<Rightarrow> bool \<Rightarrow> fork_result \<Rightarrow> 'd \<Rightarrow> (launched \<times> 'd) option" where
  "launch_session B L parsed f d =
     (if \<not> parsed then Some (Launch_Exit 1, d)
      else case ck_connector_new B of
        None \<Rightarrow> launch_run L (la_environ L) d
      | Some c \<Rightarrow>
          (case launch_open B L c d of
             None \<Rightarrow> None
           | Some (False, c, e, d) \<Rightarrow> launch_run L (la_environ L) d
           | Some (True, c, e, d) \<Rightarrow>
               (case f of
                  Fork_Fails \<Rightarrow> launch_run L (la_environ L) d
                | Fork_Child \<Rightarrow> launch_child B L c e d
                | Fork_Parent status \<Rightarrow> Some (Launch_Exit (exit_status status), d))))"

section \<open>The X server\<close>

definition get_tty_for_pid :: "kernel_view \<Rightarrow> int \<Rightarrow> cstring option" where
  "get_tty_for_pid K p =
     (case ck_process_stat_new_for_unix_pid K p of
        None \<Rightarrow> None
      | Some None \<Rightarrow> Some None
      | Some (Some st) \<Rightarrow> ck_process_stat_get_tty K st)"

text \<open>The answer of the server: type is integer, format, count, bytes left and the value.\<close>

record x_property =
  xp_integer :: bool
  xp_format :: int
  xp_count :: nat
  xp_left :: nat
  xp_value :: int

record x_display =
  xd_number :: int
  xd_vt_atom :: bool
  xd_vt :: "x_property option"
  xd_peer :: "((int \<times> int) \<times> bool) option"

definition get_tty_for_display :: "x_display \<Rightarrow> cstring" where
  "get_tty_for_display x =
     (if \<not> xd_vt_atom x then None
      else case xd_vt x of
        None \<Rightarrow> None
      | Some p \<Rightarrow>
          if \<not> xp_integer p then None
          else if xp_format p \<noteq> 32 then None
          else if xp_count p \<noteq> 1 then None
          else if xp_left p \<noteq> 0 then None
          else if xp_value p \<le> 0 then None
          else Some (''/dev/tty'' @ dec_int (xp_value p)))"

definition display_init :: "(string \<Rightarrow> x_display option) \<Rightarrow> cstring \<Rightarrow> cstring \<Rightarrow> x_display option" where
  "display_init X display_name env_display =
     (case (if display_name = None then env_display else display_name) of
        None \<Rightarrow> None
      | Some n \<Rightarrow> X n)"

text \<open>Exit status and output of the two programs; the first ignores whether its options were parsed.\<close>

definition x11_display_device ::
  "kernel_view \<Rightarrow> (string \<Rightarrow> x_display option) \<Rightarrow> cstring \<Rightarrow> cstring \<Rightarrow> bool \<Rightarrow> (nat \<times> string) option" where
  "x11_display_device K X display env_display parsed =
     (case display_init X display env_display of
        None \<Rightarrow> Some (1, [])
      | Some x \<Rightarrow>
          if \<not> xd_number x > 0 then Some (if parsed then 1 else 0, [])
          else
            (case ck_get_socket_peer_credentials (xd_peer x) of
               (res, p, _) \<Rightarrow>
                 if \<not> res \<or> \<not> p > 0 then Some (0, [])
                 else
                   map_option (\<lambda>device.
                     (0, case (if device = None then get_tty_for_display x else device) of None \<Rightarrow> [] | Some t \<Rightarrow> t @ [CHR 0x0A]))
                     (get_tty_for_pid K p)))"

definition server_display_init :: "(string \<Rightarrow> x_display option) \<Rightarrow> cstring \<Rightarrow> x_display option" where
  "server_display_init X env_display =
     (case env_display of
        None \<Rightarrow> None
      | Some n \<Rightarrow> if (n = [] \<or> hd n \<noteq> CHR '':'') \<and> CHR '':'' \<in> set n then None else X n)"

definition x11_server_pid :: "(string \<Rightarrow> x_display option) \<Rightarrow> cstring \<Rightarrow> nat \<times> string" where
  "x11_server_pid X env_display =
     (case server_display_init X env_display of
        None \<Rightarrow> (1, [])
      | Some x \<Rightarrow>
          if \<not> xd_number x > 0 then (1, [])
          else (case ck_get_socket_peer_credentials (xd_peer x) of
                  (res, p, _) \<Rightarrow> if res \<and> p > 0 then (0, dec_int p @ [CHR 0x0A]) else (0, [])))"

section \<open>Groups of processes\<close>

text \<open>cgmanager, on a state of any type: every call may fail.\<close>

record 'c cgmanager =
  cg_create :: "string \<Rightarrow> 'c \<Rightarrow> bool \<times> 'c"
  cg_chown :: "string \<Rightarrow> nat \<Rightarrow> nat \<Rightarrow> 'c \<Rightarrow> bool \<times> 'c"
  cg_move :: "string \<Rightarrow> string \<Rightarrow> int \<Rightarrow> 'c \<Rightarrow> bool \<times> 'c"
  cg_group :: "string \<Rightarrow> int \<Rightarrow> 'c \<Rightarrow> cstring option"

text \<open>The result is whether the group object has a proxy.\<close>

definition ck_process_group_backend_init :: "bool \<Rightarrow> bool \<Rightarrow> bool \<times> bool" where
  "ck_process_group_backend_init connection proxy =
     (if \<not> connection then (False, False) else if \<not> proxy then (False, False) else (True, True))"

definition ck_process_group_create ::
  "'c cgmanager \<Rightarrow> bool \<Rightarrow> (nat \<Rightarrow> (nat \<times> nat) option) \<Rightarrow> int \<Rightarrow> string \<Rightarrow> nat \<Rightarrow> 'c \<Rightarrow> bool \<times> 'c" where
  "ck_process_group_create M proxy pwuid process ssid unix_user c =
     (if \<not> proxy then (False, c)
      else case cg_create M ssid c of
        (False, c) \<Rightarrow> (False, c)
      | (True, c) \<Rightarrow>
          (case pwuid unix_user of
             None \<Rightarrow> (False, c)
           | Some (u, g) \<Rightarrow>
               (case cg_chown M ssid u g c of
                  (False, c) \<Rightarrow> (False, c)
                | (True, c) \<Rightarrow>
                    (case cg_move M ''all'' ssid process c of
                       (True, c) \<Rightarrow> (True, c)
                     | (False, c) \<Rightarrow> (True, snd (cg_move M ''cpuacct'' ssid process c))))))"

definition ck_process_group_get_ssid :: "'c cgmanager \<Rightarrow> bool \<Rightarrow> int \<Rightarrow> 'c \<Rightarrow> cstring" where
  "ck_process_group_get_ssid M proxy process c =
     (if \<not> proxy then None
      else case cg_group M ''cpuacct'' process c of
        None \<Rightarrow> None
      | Some g \<Rightarrow> if g = Some ''/'' then None else g)"

section \<open>The message log\<close>

definition G_LOG_FLAG_FATAL :: "32 word" where "G_LOG_FLAG_FATAL = 2"
definition G_LOG_LEVEL_ERROR :: "32 word" where "G_LOG_LEVEL_ERROR = 4"
definition G_LOG_LEVEL_CRITICAL :: "32 word" where "G_LOG_LEVEL_CRITICAL = 8"
definition G_LOG_LEVEL_WARNING :: "32 word" where "G_LOG_LEVEL_WARNING = 16"
definition G_LOG_LEVEL_MESSAGE :: "32 word" where "G_LOG_LEVEL_MESSAGE = 32"
definition G_LOG_LEVEL_INFO :: "32 word" where "G_LOG_LEVEL_INFO = 64"
definition G_LOG_LEVEL_DEBUG :: "32 word" where "G_LOG_LEVEL_DEBUG = 128"
definition G_LOG_LEVEL_MASK :: "32 word" where "G_LOG_LEVEL_MASK = NOT 3"

datatype syslog_priority = LOG_EMERG | LOG_CRIT | LOG_ERR | LOG_WARNING | LOG_NOTICE | LOG_INFO | LOG_DEBUG

record ck_log =
  log_initialized :: bool
  log_installed :: bool
  syslog_levels :: "32 word"
  syslog_out :: "(syslog_priority \<times> string) list"

definition ck_log_start :: ck_log where
  "ck_log_start = \<lparr>log_initialized = False, log_installed = False,
     syslog_levels = G_LOG_LEVEL_ERROR OR G_LOG_LEVEL_CRITICAL OR G_LOG_LEVEL_WARNING, syslog_out = []\<rparr>"

definition log_level_to_priority_and_prefix :: "32 word \<Rightarrow> 32 word \<Rightarrow> syslog_priority \<times> string" where
  "log_level_to_priority_and_prefix levels log_level =
     (let l = log_level AND G_LOG_LEVEL_MASK in
      if l = G_LOG_FLAG_FATAL then (LOG_EMERG, ''FATAL'')
      else if l = G_LOG_LEVEL_ERROR then (LOG_ERR, ''ERROR'')
      else if l = G_LOG_LEVEL_CRITICAL then (LOG_CRIT, ''CRITICAL'')
      else if l = G_LOG_LEVEL_WARNING then (LOG_WARNING, ''WARNING'')
      else if l = G_LOG_LEVEL_MESSAGE then (LOG_NOTICE, ''MESSAGE'')
      else if l = G_LOG_LEVEL_INFO then (LOG_INFO, ''INFO'')
      else if l = G_LOG_LEVEL_DEBUG then (if levels AND G_LOG_LEVEL_DEBUG \<noteq> 0 then LOG_WARNING else LOG_DEBUG, ''DEBUG'')
      else (LOG_DEBUG, ''UNKNOWN''))"

definition ck_log_init :: "ck_log \<Rightarrow> ck_log" where
  "ck_log_init s = s\<lparr>log_installed := True, log_initialized := True\<rparr>"

definition ck_log_shutdown :: "ck_log \<Rightarrow> ck_log" where
  "ck_log_shutdown s = s\<lparr>log_initialized := False\<rparr>"

definition ck_log_default_handler :: "cstring \<Rightarrow> 32 word \<Rightarrow> cstring \<Rightarrow> ck_log \<Rightarrow> ck_log" where
  "ck_log_default_handler log_domain log_level message s =
     (if log_level AND syslog_levels s = 0 then s
      else
        let s = (if \<not> log_initialized s then ck_log_init s else s);
            (priority, level_prefix) = log_level_to_priority_and_prefix (syslog_levels s) log_level;
            text = (case log_domain of None \<Rightarrow> [] | Some d \<Rightarrow> d @ ''-'') @ level_prefix @ '': '' @
              (case message of None \<Rightarrow> ''(NULL) message'' | Some m \<Rightarrow> m) @
              (if log_level AND G_LOG_FLAG_FATAL \<noteq> 0 then CHR 0x0A # ''aborting...'' @ [CHR 0x0A] else [CHR 0x0A])
        in s\<lparr>syslog_out := syslog_out s @ [(priority, text)]\<rparr>)"

text \<open>\<open>g_debug\<close> reaches the handler once it is installed; \<open>D\<close> is the log domain of the program.\<close>

definition g_debug :: "cstring \<Rightarrow> string \<Rightarrow> ck_log \<Rightarrow> ck_log" where
  "g_debug D m s = (if log_installed s then ck_log_default_handler D G_LOG_LEVEL_DEBUG (Some m) s else s)"

definition ck_log_toggle_debug :: "cstring \<Rightarrow> ck_log \<Rightarrow> ck_log" where
  "ck_log_toggle_debug D s =
     (if syslog_levels s AND G_LOG_LEVEL_DEBUG \<noteq> 0
      then let s = g_debug D ''Debugging disabled'' s in s\<lparr>syslog_levels := syslog_levels s AND NOT G_LOG_LEVEL_DEBUG\<rparr>
      else g_debug D ''Debugging enabled'' (s\<lparr>syslog_levels := syslog_levels s OR G_LOG_LEVEL_DEBUG\<rparr>))"

definition ck_log_set_debug :: "cstring \<Rightarrow> bool \<Rightarrow> ck_log \<Rightarrow> ck_log" where
  "ck_log_set_debug D debug s =
     (if debug then g_debug D ''Debugging enabled'' (s\<lparr>syslog_levels := syslog_levels s OR G_LOG_LEVEL_DEBUG\<rparr>)
      else let s = g_debug D ''Debugging disabled'' s in s\<lparr>syslog_levels := syslog_levels s AND NOT G_LOG_LEVEL_DEBUG\<rparr>)"

section \<open>Starting the daemon\<close>

text \<open>The buffer of the pid has nine bytes; the file is its text, if it exists.\<close>

record pid_env =
  pe_pid :: nat
  pe_unlink :: bool
  pe_open :: bool
  pe_write :: nat

definition pid_text :: "nat \<Rightarrow> string" where
  "pid_text p = take 8 (dec p @ [CHR 0x0A])"

definition create_pid_file :: "pid_env \<Rightarrow> cstring \<Rightarrow> cstring \<times> bool" where
  "create_pid_file E f =
     (let f = (if pe_unlink E then None else f)
      in if f \<noteq> None \<or> \<not> pe_open E then (f, False) else (Some (take (pe_write E) (pid_text (pe_pid E))), True))"

text \<open>The file is removed at exit if the program made it.\<close>

definition cleanup :: "bool \<Rightarrow> cstring \<Rightarrow> cstring" where
  "cleanup unlinked f = (if unlinked then None else f)"

record daemon_options =
  do_root :: bool
  do_parsed :: bool
  do_debug :: bool
  do_no_daemon :: bool
  do_forked :: bool

definition setup_debug_log :: "cstring \<Rightarrow> bool \<Rightarrow> bool \<Rightarrow> ck_log \<Rightarrow> ck_log option" where
  "setup_debug_log D debug pipe s = (if pipe then Some (ck_log_set_debug D debug (ck_log_init s)) else None)"

text \<open>The status of a daemon that does not start, or what it has set up when its loop begins; \<open>None\<close> is an abort.\<close>

definition daemon_main ::
  "daemon_options \<Rightarrow> cstring \<Rightarrow> bool \<Rightarrow> pid_env \<Rightarrow> ck_log \<Rightarrow> cstring \<Rightarrow> (nat + ck_log \<times> cstring \<times> bool) option" where
  "daemon_main opts D pipe P s f =
     (if \<not> do_root opts then Some (Inl 1)
      else if \<not> do_parsed opts then Some (Inl 1)
      else if \<not> do_no_daemon opts \<and> \<not> do_forked opts then None
      else map_option (\<lambda>s. case create_pid_file P f of (f, made) \<Rightarrow> Inr (s, f, made)) (setup_debug_log D (do_debug opts) pipe s))"

section \<open>The life of the daemon\<close>

text \<open>
  The main loop with its signals: the bytes in the pipe of the debug signal, whether the loop was
  told to quit, the pid file and whether this process made it, and how the process ended. A signal
  of \<open>setup_termination_signals\<close> has its default action, which ends the process at once.
\<close>

datatype daemon_end = Exited nat | Killed

record daemon_state =
  dn_log :: ck_log
  dn_pipe :: nat
  dn_quit :: bool
  dn_pid_file :: cstring
  dn_made_pid :: bool
  dn_manager :: bool
  dn_end :: "daemon_end option"

definition sigusr1_handler :: "daemon_state \<Rightarrow> daemon_state" where
  "sigusr1_handler d = d\<lparr>dn_pipe := Suc (dn_pipe d)\<rparr>"

text \<open>Reading from an empty pipe blocks for ever.\<close>

definition debug_log_io_cb :: "cstring \<Rightarrow> daemon_state \<Rightarrow> daemon_state option" where
  "debug_log_io_cb D d =
     (if dn_pipe d = 0 then None
      else Some (d\<lparr>dn_pipe := dn_pipe d - 1, dn_log := ck_log_toggle_debug D (dn_log d)\<rparr>))"

definition timed_exit_cb :: "daemon_state \<Rightarrow> daemon_state" where
  "timed_exit_cb d = d\<lparr>dn_quit := True\<rparr>"

definition bus_acquired :: "cstring \<Rightarrow> bool \<Rightarrow> daemon_state \<Rightarrow> daemon_state" where
  "bus_acquired D works d = d\<lparr>dn_log := g_debug D ''bus_acquired'' (dn_log d), dn_manager := works\<rparr>"

definition name_acquired :: "cstring \<Rightarrow> daemon_state \<Rightarrow> daemon_state" where
  "name_acquired D d = d\<lparr>dn_log := g_debug D ''name_acquired'' (dn_log d)\<rparr>"

definition name_lost :: "cstring \<Rightarrow> daemon_state \<Rightarrow> daemon_state" where
  "name_lost D d = d\<lparr>dn_log := g_debug D ''Disconnected from D-Bus'' (g_debug D ''name_lost'' (dn_log d)), dn_quit := True\<rparr>"

definition delete_pid :: "bool \<Rightarrow> cstring \<Rightarrow> cstring" where
  "delete_pid unlinked f = cleanup unlinked f"

text \<open>The end of \<open>main\<close>: the handler of \<open>atexit\<close> runs if the pid file was made.\<close>

definition main_returns :: "bool \<Rightarrow> daemon_state \<Rightarrow> daemon_state" where
  "main_returns unlinked d =
     (if dn_quit d
      then d\<lparr>dn_pid_file := (if dn_made_pid d then delete_pid unlinked (dn_pid_file d) else dn_pid_file d),
             dn_end := Some (Exited 0)\<rparr>
      else d)"

datatype daemon_event =
    Sig_Usr1
  | Sig_Terminate
  | Debug_Pipe_Ready
  | Bus_Acquired bool
  | Name_Acquired
  | Name_Lost
  | Timed_Exit
  | Loop_Ends bool

fun daemon_step :: "cstring \<Rightarrow> daemon_event \<Rightarrow> daemon_state \<Rightarrow> daemon_state option" where
  "daemon_step D Sig_Usr1 d = Some (sigusr1_handler d)"
| "daemon_step D Sig_Terminate d = Some (d\<lparr>dn_end := Some Killed\<rparr>)"
| "daemon_step D Debug_Pipe_Ready d = debug_log_io_cb D d"
| "daemon_step D (Bus_Acquired works) d = Some (bus_acquired D works d)"
| "daemon_step D Name_Acquired d = Some (name_acquired D d)"
| "daemon_step D Name_Lost d = Some (name_lost D d)"
| "daemon_step D Timed_Exit d = Some (timed_exit_cb d)"
| "daemon_step D (Loop_Ends unlinked) d = Some (main_returns unlinked d)"

text \<open>A process that has ended takes no more steps.\<close>

fun daemon_run :: "cstring \<Rightarrow> daemon_event list \<Rightarrow> daemon_state \<Rightarrow> daemon_state option" where
  "daemon_run D [] d = Some d"
| "daemon_run D (e # es) d =
     (if dn_end d \<noteq> None then Some d
      else case daemon_step D e d of None \<Rightarrow> None | Some d \<Rightarrow> daemon_run D es d)"

section \<open>Properties\<close>

subsection \<open>System events\<close>

definition system_log_ok :: "system_log_env \<Rightarrow> bool" where
  "system_log_ok E =
     (sy_mkdir E \<and> (\<exists>n rs. sy_open E = replicate n Open_ENFILE @ Open_Works # rs) \<and> sy_create E \<and> sy_open_again E \<and>
      sy_cloexec E \<and> sy_fdopen E \<and> sy_print E)"

definition old_lines :: "string list option \<Rightarrow> string list" where
  "old_lines f = (case f of None \<Rightarrow> [] | Some ls \<Rightarrow> ls)"

lemma open_system_log_works:
  assumes "system_log_ok E"
  shows "open_system_log E (sy_open E) f = Some (True, Some (old_lines f))" "open_start_log E f = Some (True, Some (old_lines f))"
proof -
  obtain n rs where rs: "sy_open E = replicate n Open_ENFILE @ Open_Works # rs" using assms by (auto simp: system_log_ok_def)
  have "open_system_log E (replicate n Open_ENFILE @ Open_Works # rs) f = open_system_log E (Open_Works # rs) f" by (induction n) auto
  then show open_: "open_system_log E (sy_open E) f = Some (True, Some (old_lines f))"
    using assms rs by (simp add: system_log_ok_def old_lines_def Let_def split: option.split)
  then show "open_start_log E f = Some (True, Some (old_lines f))" using assms by (simp add: open_start_log_def system_log_ok_def)
qed

lemma system_event_written:
  assumes "system_log_ok E" "event_ok e" "result = Some (True, Some ls)"
  shows "\<exists>line. write_system_event E result e = Some (0, Some (ls @ [line])) \<and> ck_log_event_new_from_string line = Some (read_event e)"
  using assms read_event_line [OF assms(2), of "[]"] by (auto simp: write_system_event_def system_log_ok_def event_line_def line_end_def)

text \<open>
  The programs run at the start, the stop and the restart of the system add one line to the history, after any number of
  retries and even if there was no history, and the line is read back as the event with its time, the kernel and the
  boot arguments without trailing white space.
\<close>

theorem system_events_reach_the_history:
  assumes "system_log_ok E" "fst now < 2 ^ 64" "snd now < 1000000" "release \<noteq> []" "list_all not_quote release"
    and "utf8_valid release" "boot_line (g_strchomp cmdline)"
  shows "\<exists>a b c.
    log_system_start E now (Some release) (Some cmdline) f = Some (0, Some (old_lines f @ [a])) \<and>
    log_system_stop E now f = Some (0, Some (old_lines f @ [b])) \<and> log_system_restart E now f = Some (0, Some (old_lines f @ [c])) \<and>
    map_option le_event (ck_log_event_new_from_string a) = Some (Ev_System_Start (Some release) (Some (g_strchomp cmdline))) \<and>
    map_option le_event (ck_log_event_new_from_string b) = Some Ev_System_Stop \<and>
    map_option le_event (ck_log_event_new_from_string c) = Some Ev_System_Restart \<and>
    map_option le_timestamp (ck_log_event_new_from_string a) = Some (fst now, 1000 * (snd now div 1000))"
proof -
  have ok: "event_ok \<lparr>le_timestamp = now, le_event = Ev_System_Start (Some release) (get_boot_arguments (Some cmdline))\<rparr>"
    "event_ok \<lparr>le_timestamp = now, le_event = Ev_System_Stop\<rparr>" "event_ok \<lparr>le_timestamp = now, le_event = Ev_System_Restart\<rparr>"
    using assms by (simp_all add: event_ok_def get_boot_arguments_def)
  note w = system_event_written [OF assms(1)]
  show ?thesis
    using w [OF ok(1) open_system_log_works(2) [OF assms(1)]] w [OF ok(2) open_system_log_works(1) [OF assms(1)]]
      w [OF ok(3) open_system_log_works(1) [OF assms(1)]]
    by (fastforce simp: log_system_start_def log_system_stop_def log_system_restart_def read_event_def get_boot_arguments_def)
qed

definition working_log :: system_log_env where
  "working_log = \<lparr>sy_mkdir = True, sy_open = [Open_ENFILE, Open_Works], sy_create = True, sy_open_again = True, sy_cloexec = True, sy_fdopen = True, sy_print = True\<rparr>"

theorem system_events_reach_the_history_witness:
  "\<exists>a. log_system_start working_log (100, 5000) (Some ''6.1'') (Some (''quiet'' @ [CHR 0x0A])) None = Some (0, Some [a]) \<and>
     map_option le_event (ck_log_event_new_from_string a) = Some (Ev_System_Start (Some ''6.1'') (Some ''quiet''))"
proof -
  have "sy_open working_log = replicate 1 Open_ENFILE @ Open_Works # []" by (simp add: working_log_def)
  moreover have "sy_mkdir working_log" "sy_create working_log" "sy_open_again working_log" "sy_cloexec working_log" "sy_fdopen working_log" "sy_print working_log"
    by (simp_all add: working_log_def)
  ultimately have ok: "system_log_ok working_log" unfolding system_log_ok_def by blast
  have c: "g_strchomp (''quiet'' @ [CHR 0x0A]) = ''quiet''" by (simp add: g_strchomp_def is_space_def)
  have "list_all not_quote ''6.1''" "utf8_valid ''6.1''" "boot_line (g_strchomp (''quiet'' @ [CHR 0x0A]))"
    unfolding c by (simp_all add: not_quote_def boot_line_def newline_at_def)
  from system_events_reach_the_history [OF ok _ _ _ this, of "(100, 5000)" None] show ?thesis by (auto simp: c [simplified] old_lines_def)
qed

subsection \<open>Commands inside sessions\<close>

text \<open>The environment of the new process.\<close>

definition session_environment :: "(string, string) ghash \<Rightarrow> string \<Rightarrow> cstring \<Rightarrow> (string, string) ghash" where
  "session_environment env k dir =
     (let env = g_hash_table_insert env ''XDG_SESSION_COOKIE'' k
      in case dir of None \<Rightarrow> env | Some r \<Rightarrow> g_hash_table_insert env ''XDG_RUNTIME_DIR'' r)"

lemma session_environment_lookup:
  "g_hash_table_lookup (session_environment env k dir) v =
     (if v = ''XDG_SESSION_COOKIE'' then Some k
      else if v = ''XDG_RUNTIME_DIR'' \<and> dir \<noteq> None then dir else g_hash_table_lookup env v)"
  by (simp add: session_environment_def Let_def split: option.split)

context session_service
begin

lemma plain_open_result:
  assumes "inv d" "bus_mem B = (\<lambda>_. True)" "ck_connector_open_session B c None d = Some (True, c', e', d')"
  shows "\<exists>n d1 k. bus_connect B d = (Inr n, d1) \<and> registered c' e' d' n k"
proof -
  obtain n d1 where n: "bus_connect B d = (Inr n, d1)"
    using assms(3) by (auto simp: ck_connector_open_session_def dbus_set_error_def split: sum.splits prod.splits)
  note d1 = connect_works [OF assms(1) n]
  obtain r d2 where s: "bus_send B n Call_OpenSession d1 = (r, d2)" by fastforce
  have "inv d2 \<and> live d2 n" using send_keeps [OF _ _ s] d1 by blast
  with open_reply [OF _ _ _ s] d1 s n assms(2,3) show ?thesis
    by (auto simp: ck_connector_open_session_def receive_cookie_def dbus_set_error_def registered_def)
qed

lemma launch_open_result:
  assumes "inv d" "bus_mem B = (\<lambda>_. True)" "launch_open B L c d = Some (True, c', e', d')"
  shows "\<exists>n d1 k. bus_connect B d = (Inr n, d1) \<and> registered c' e' d' n k"
proof (cases "la_service L")
  case None
  then show ?thesis using plain_open_result assms by (simp add: launch_open_def)
next
  case (Some s)
  then have "ck_connector_open_session_with_parameters B [(''session-service'', Arg_string (Some s))] c None d = Some (True, c', e', d')"
    using assms(3) by (simp add: launch_open_def)
  note o = this
  show ?thesis
  proof (cases "fst (bus_connect B d)")
    case (Inl m)
    then show ?thesis using open_unconnected [OF assms(1) o] by (cases "bus_connect B d") auto
  next
    case (Inr n)
    then show ?thesis using open_result [OF assms(1,2) o] by (cases "bus_connect B d") auto
  qed
qed

text \<open>A command that is started in a session has the cookie of a session that the daemon holds.\<close>

lemma child_has_session:
  assumes "inv d" "bus_mem B = (\<lambda>_. True)" "launch_open B L c d = Some (True, c', e', d')"
  shows "\<exists>n d1 k dir d2. bus_connect B d = (Inr n, d1) \<and> serves d2 n k \<and>
    launch_child B L c' e' d' = launch_run L (session_environment (la_environ L) k dir) d2"
proof -
  obtain n d1 k where reg: "bus_connect B d = (Inr n, d1)" "registered c' e' d' n k" using launch_open_result [OF assms] by blast
  then have k: "ck_connector_get_cookie c' = Some k" by (simp add: registered_def ck_connector_get_cookie_def)
  obtain dir c2 e2 d2 where d: "ck_connector_get_runtime_dir B c' e' d' = Some (dir, c2, e2, d2)" "serves d2 n k"
    using runtime_dir_result [OF reg(2) assms(2)] by blast
  then have "launch_child B L c' e' d' = launch_run L (session_environment (la_environ L) k dir) d2"
    using k by (simp add: launch_child_def session_environment_def Let_def)
  with reg d show ?thesis by blast
qed

end

text \<open>A daemon in order opens the session.\<close>

lemma launch_open_ready:
  assumes "daemon_ready E H d" "U ''session-service''" "\<forall>s. la_service L = Some s \<longrightarrow> U s"
  shows "\<exists>c' e' d'. launch_open (manager_bus U E H) L c d = Some (True, c', e', d')"
proof -
  have acc: "\<exists>w' k. serve_open E H (Some (bus_name (sm_next d))) ctx ps (sm_world d) = Some w' \<and> answer_of ctx w' = Reply_string (Some k)" for ctx ps
    by (rule serve_open_accepts [OF assms(1)])
  show ?thesis
  proof (cases "la_service L")
    case None
    obtain w' k where "serve_open E H (Some (bus_name (sm_next d))) (Suc (sm_next d)) None (sm_world d) = Some w'"
      "answer_of (Suc (sm_next d)) w' = Reply_string (Some k)" using acc by blast
    then show ?thesis using None
      by (simp add: launch_open_def ck_connector_open_session_def manager_bus_def manager_send_def opened_def receive_cookie_def Let_def)
  next
    case (Some s)
    obtain w' k where "serve_open E H (Some (bus_name (sm_next d))) (Suc (sm_next d)) (Some [(''session-service'', V_string s)]) (sm_world d) = Some w'"
      "answer_of (Suc (sm_next d)) w' = Reply_string (Some k)" using acc by blast
    then show ?thesis using Some assms(2,3)
      by (simp add: launch_open_def ck_connector_open_session_with_parameters_def ck_connector_open_session_with_parameters_valist_def manager_bus_def
          manager_send_def opened_def receive_cookie_def Let_def connector_parameter_type_def connector_parameters_def add_param_basic_def)
  qed
qed

text \<open>
  C23: A command started by the launcher runs inside its own session: when a command is given, the daemon is in order and the
  service name (if any) is UTF-8, the new process runs that command, the cookie in its environment is that of a session the daemon
  holds for the connection the launcher made, and the other variables are those of the launcher, but for the runtime
  directory the daemon may have told.
\<close>

theorem launched_command_has_its_session:
  assumes "daemon_ready E H d" "U ''session-service''" "\<forall>s. la_service L = Some s \<longrightarrow> U s" "la_command L = Some (c # cs)"
  shows "\<exists>n d1 k dir env d'. bus_connect (manager_bus U E H) d = (Inr n, d1) \<and> manager_serves d' n k \<and>
    launch_session (manager_bus U E H) L True Fork_Child d = Some (Launch_Exec (c # cs) env, d') \<and>
    (\<forall>v. g_hash_table_lookup env v =
      (if v = ''XDG_SESSION_COOKIE'' then Some k
       else if v = ''XDG_RUNTIME_DIR'' \<and> dir \<noteq> None then dir else g_hash_table_lookup (la_environ L) v))"
proof -
  let ?B = "manager_bus U E H"
  have mem: "bus_mem ?B = (\<lambda>_. True)" by (simp add: manager_bus_def)
  obtain b where b: "ck_connector_new ?B = Some b" using mem by (simp add: ck_connector_new_def)
  obtain c' e' d1 where o: "launch_open ?B L b d = Some (True, c', e', d1)" using launch_open_ready [OF assms(1-3)] by blast
  have "manager_inv d" using assms(1) by (simp add: daemon_ready_def)
  from daemon.child_has_session [OF this mem o] obtain n d1 k dir d2
    where "bus_connect ?B d = (Inr n, d1)" "manager_serves d2 n k"
      "launch_session ?B L True Fork_Child d = launch_run L (session_environment (la_environ L) k dir) d2"
    using b o by (auto simp: launch_session_def)
  moreover from this(3) have "launch_session ?B L True Fork_Child d = Some (Launch_Exec (c # cs) (session_environment (la_environ L) k dir), d2)"
    using assms(4) by (simp add: launch_run_def launch_exec_def)
  ultimately show ?thesis using session_environment_lookup [of "la_environ L" k dir] by blast
qed

text \<open>
  A command that fails with any code looks like a success: the launcher exits with what \<open>waitpid\<close> stored, of which the
  system keeps the low eight bits, and the code is in the next eight.
\<close>

theorem failed_command_looks_successful:
  assumes "ck_connector_new B = Some c" "launch_open B L c d = Some (True, c', e', d')"
  shows "launch_session B L True (Fork_Parent (256 * code)) d = Some (Launch_Exit 0, d')"
  using assms by (simp add: launch_session_def exit_status_def)

definition sample_launch :: launch_env where
  "sample_launch = \<lparr>la_service = Some ''sway'', la_command = Some [''false''], la_environ = [], la_executable = (\<lambda>_. False)\<rparr>"

theorem launched_command_has_its_session_witness:
  "\<exists>n k env d'. launch_session (manager_bus (\<lambda>_. True) sample_menv quiet_helper) sample_launch True Fork_Child sample_daemon =
      Some (Launch_Exec [''false''] env, d') \<and>
    g_hash_table_lookup env ''XDG_SESSION_COOKIE'' = Some k \<and> manager_serves d' n k"
proof -
  have "la_command sample_launch = Some [''false'']" by (simp add: sample_launch_def)
  from launched_command_has_its_session [OF sample_daemon_ready TrueI _ this] show ?thesis by metis
qed

theorem failed_command_looks_successful_witness:
  "\<exists>d'. launch_session (manager_bus (\<lambda>_. True) sample_menv quiet_helper) sample_launch True (Fork_Parent (256 * 3)) sample_daemon =
      Some (Launch_Exit 0, d')"
proof -
  let ?B = "manager_bus (\<lambda>_. True) sample_menv quiet_helper"
  obtain c where c: "ck_connector_new ?B = Some c" by (simp add: ck_connector_new_def manager_bus_def)
  obtain c' e' d' where "launch_open ?B sample_launch c sample_daemon = Some (True, c', e', d')"
    using launch_open_ready [OF sample_daemon_ready, of "\<lambda>_. True" sample_launch c] by auto
  from failed_command_looks_successful [OF c this, of 3] show ?thesis by simp
qed

text \<open>Without a command on the command line the launcher reads through NULL.\<close>

theorem launch_without_command_crashes:
  assumes "la_command L = None"
  shows "launch_run L env d = None"
  using assms by (simp add: launch_run_def launch_exec_def)

subsection \<open>Groups, messages and the pid file\<close>

text \<open>A process that could not be moved counts as grouped, and its session is not found afterwards.\<close>

theorem unmoved_process_counts_as_grouped:
  assumes "cg_create M ssid c = (True, c1)" "pwuid u = Some (v, g)" "cg_chown M ssid v g c1 = (True, c2)"
    and "cg_move M ''all'' ssid p c2 = (False, c3)" "cg_move M ''cpuacct'' ssid p c3 = (False, c4)" "cg_group M ''cpuacct'' p c4 = Some (Some ''/'')"
  shows "ck_process_group_create M True pwuid p ssid u c = (True, c4) \<and> ck_process_group_get_ssid M True p c4 = None"
  using assms by (simp add: ck_process_group_create_def ck_process_group_get_ssid_def)

datatype log_op = Log_Init | Log_Shutdown | Log_Toggle cstring | Log_Debug cstring bool | Log_Message cstring "32 word" cstring

fun log_step :: "log_op \<Rightarrow> ck_log \<Rightarrow> ck_log" where
  "log_step Log_Init s = ck_log_init s"
| "log_step Log_Shutdown s = ck_log_shutdown s"
| "log_step (Log_Toggle D) s = ck_log_toggle_debug D s"
| "log_step (Log_Debug D b) s = ck_log_set_debug D b s"
| "log_step (Log_Message D l m) s = ck_log_default_handler D l m s"

definition keeps_errors :: "32 word \<Rightarrow> bool" where
  "keeps_errors l = (l AND 28 = 28)"

lemma keeps_errors_debug:
  "keeps_errors (x OR G_LOG_LEVEL_DEBUG) = keeps_errors x" "keeps_errors (x AND NOT G_LOG_LEVEL_DEBUG) = keeps_errors x"
proof -
  have "(x OR 128) AND 28 = x AND 28" by (simp add: bit.conj_disj_distrib2)
  then show "keeps_errors (x OR G_LOG_LEVEL_DEBUG) = keeps_errors x" by (simp add: keeps_errors_def G_LOG_LEVEL_DEBUG_def)
  have "(x AND NOT 128) AND 28 = x AND (NOT 128 AND 28)" by (rule and.assoc)
  also have "NOT 128 AND 28 = (28 :: 32 word)" by simp
  finally show "keeps_errors (x AND NOT G_LOG_LEVEL_DEBUG) = keeps_errors x" unfolding keeps_errors_def G_LOG_LEVEL_DEBUG_def by (rule arg_cong)
qed

lemma handler_levels [simp]: "syslog_levels (ck_log_default_handler D l m s) = syslog_levels s" "syslog_levels (g_debug D t s) = syslog_levels s"
  by (simp_all add: ck_log_default_handler_def g_debug_def ck_log_init_def Let_def split: prod.split)

lemma log_step_keeps: "keeps_errors (syslog_levels s) \<Longrightarrow> keeps_errors (syslog_levels (log_step x s))"
  by (cases x) (simp_all add: ck_log_init_def ck_log_shutdown_def ck_log_toggle_debug_def ck_log_set_debug_def keeps_errors_debug Let_def)

lemma log_run_keeps: "keeps_errors (syslog_levels (fold log_step xs ck_log_start))"
proof -
  have "keeps_errors (syslog_levels s) \<Longrightarrow> keeps_errors (syslog_levels (fold log_step xs s))" for s
    by (induction xs arbitrary: s) (auto simp: log_step_keeps)
  then show ?thesis
    by (simp add: ck_log_start_def keeps_errors_def G_LOG_LEVEL_ERROR_def G_LOG_LEVEL_CRITICAL_def G_LOG_LEVEL_WARNING_def)
qed

text \<open>Errors, critical messages and warnings reach the system log, whatever was toggled before.\<close>

theorem errors_reach_the_log:
  assumes "l \<in> {G_LOG_LEVEL_ERROR, G_LOG_LEVEL_CRITICAL, G_LOG_LEVEL_WARNING}" "s = fold log_step xs ck_log_start"
  shows "\<exists>p t. syslog_out (ck_log_default_handler D l m s) = syslog_out s @ [(p, t)] \<and> p \<in> {LOG_ERR, LOG_CRIT, LOG_WARNING}"
proof -
  have "l AND 28 = l" using assms(1) by (auto simp: G_LOG_LEVEL_ERROR_def G_LOG_LEVEL_CRITICAL_def G_LOG_LEVEL_WARNING_def)
  moreover have "28 AND syslog_levels s = 28" using log_run_keeps [of xs] assms(2) by (simp add: keeps_errors_def and.commute)
  ultimately have "l AND syslog_levels s = l" by (metis and.assoc)
  moreover have "l \<noteq> 0" "fst (log_level_to_priority_and_prefix v l) \<in> {LOG_ERR, LOG_CRIT, LOG_WARNING}" for v
    using assms(1)
    by (auto simp: G_LOG_LEVEL_ERROR_def G_LOG_LEVEL_CRITICAL_def G_LOG_LEVEL_WARNING_def log_level_to_priority_and_prefix_def
        G_LOG_LEVEL_MASK_def G_LOG_FLAG_FATAL_def Let_def)
  note b = calculation this(2) [of "syslog_levels s"]
  obtain p t where pt: "log_level_to_priority_and_prefix (syslog_levels s) l = (p, t)" by fastforce
  then have "p \<in> {LOG_ERR, LOG_CRIT, LOG_WARNING}" using b by simp
  moreover have "\<exists>t. syslog_out (ck_log_default_handler D l m s) = syslog_out s @ [(p, t)]"
    using b \<open>l \<noteq> 0\<close> pt by (simp add: ck_log_default_handler_def Let_def ck_log_init_def)
  ultimately show ?thesis by blast
qed

text \<open>The prefix for fatal messages is never used: the mask takes the bit away that the case asks for.\<close>

theorem fatal_prefix_is_never_used: "log_level_to_priority_and_prefix levels l \<noteq> (LOG_EMERG, ''FATAL'')"
proof -
  have "l AND NOT 3 \<noteq> (2 :: 32 word)"
  proof
    assume "l AND NOT 3 = (2 :: 32 word)"
    then have "(l AND NOT 3) AND 3 = 2 AND (3 :: 32 word)" by (rule arg_cong)
    moreover have "(l AND NOT 3) AND 3 = l AND (NOT 3 AND 3)" by (rule and.assoc)
    moreover have "NOT 3 AND 3 = (0 :: 32 word)" by (rule bit.conj_cancel_left)
    ultimately show False by simp
  qed
  then show ?thesis by (simp add: log_level_to_priority_and_prefix_def G_LOG_LEVEL_MASK_def G_LOG_FLAG_FATAL_def Let_def)
qed

text \<open>The buffer of the pid file holds every pid of up to seven digits.\<close>

theorem pid_file_is_complete:
  assumes "p < 10 ^ 7" "pe_pid E = p" "pe_unlink E" "pe_open E" "length (dec p) < pe_write E"
  shows "create_pid_file E f = (Some (dec p @ [CHR 0x0A]), True)"
proof -
  have "length (dec p) \<le> 7" using length_dec [of p 6] assms(1) by simp
  then show ?thesis using assms by (simp add: create_pid_file_def pid_text_def)
qed

subsection \<open>The life of the daemon\<close>

definition debugging :: "ck_log \<Rightarrow> bool" where
  "debugging s = (syslog_levels s AND G_LOG_LEVEL_DEBUG \<noteq> 0)"

lemma toggle_debugging: "debugging (ck_log_toggle_debug D s) \<longleftrightarrow> \<not> debugging s"
proof -
  have "(x AND NOT G_LOG_LEVEL_DEBUG) AND G_LOG_LEVEL_DEBUG = 0" "(x OR G_LOG_LEVEL_DEBUG) AND G_LOG_LEVEL_DEBUG = G_LOG_LEVEL_DEBUG" for x
    by (simp_all add: bit_eq_iff bit_and_iff bit_or_iff bit_not_iff)
  moreover have "G_LOG_LEVEL_DEBUG \<noteq> 0" by (simp add: G_LOG_LEVEL_DEBUG_def)
  ultimately show ?thesis by (simp add: debugging_def ck_log_toggle_debug_def Let_def)
qed

lemma daemon_step_toggles:
  assumes "daemon_step D e d = Some d'"
  shows "\<exists>k. dn_pipe d' + k = dn_pipe d + count_list [e] Sig_Usr1 \<and> debugging (dn_log d') = (debugging (dn_log d) \<noteq> odd k)"
proof (cases "e = Debug_Pipe_Ready")
  case True
  with assms have "dn_pipe d' + 1 = dn_pipe d" "debugging (dn_log d') = (\<not> debugging (dn_log d))"
    by (auto simp: debug_log_io_cb_def toggle_debugging split: if_splits)
  with True show ?thesis by (intro exI [of _ 1]) simp
next
  case False
  with assms have "dn_pipe d' = dn_pipe d + count_list [e] Sig_Usr1 \<and> debugging (dn_log d') = debugging (dn_log d)"
    by (cases e) (auto simp: sigusr1_handler_def bus_acquired_def name_acquired_def name_lost_def timed_exit_cb_def main_returns_def debugging_def split: if_splits)
  then show ?thesis by (intro exI [of _ 0]) simp
qed

text \<open>
  C31: Every debug signal switches the debug messages over exactly once, however signals and the
  main loop interleave: the state of the log is the first one, changed as often as
  signals have arrived and are not waiting in the pipe any more.
\<close>

theorem debug_signals_toggle_once:
  assumes "daemon_run D es d = Some d'" and "dn_end d' = None"
  shows "dn_pipe d' \<le> dn_pipe d + count_list es Sig_Usr1 \<and>
    debugging (dn_log d') = (debugging (dn_log d) \<noteq> odd (dn_pipe d + count_list es Sig_Usr1 - dn_pipe d'))"
  using assms
proof (induction es arbitrary: d)
  case (Cons e es)
  then obtain d1 where d1: "daemon_step D e d = Some d1" "daemon_run D es d1 = Some d'" by (auto split: if_splits option.splits)
  obtain k where k: "dn_pipe d1 + k = dn_pipe d + count_list [e] Sig_Usr1" "debugging (dn_log d1) = (debugging (dn_log d) \<noteq> odd k)"
    using daemon_step_toggles [OF d1(1)] by blast
  have c: "count_list (e # es) Sig_Usr1 = count_list [e] Sig_Usr1 + count_list es Sig_Usr1" by simp
  from Cons.IH [OF d1(2) Cons.prems(2)] k
  have le: "dn_pipe d' \<le> dn_pipe d1 + count_list es Sig_Usr1"
    and "dn_pipe d + count_list (e # es) Sig_Usr1 - dn_pipe d' = k + (dn_pipe d1 + count_list es Sig_Usr1 - dn_pipe d')"
    unfolding c by simp_all
  with Cons.IH [OF d1(2) Cons.prems(2)] k show ?case unfolding c by auto
qed simp

definition started_daemon :: daemon_state where
  "started_daemon = \<lparr>dn_log = ck_log_start, dn_pipe = 0, dn_quit = False, dn_pid_file = Some ''42'', dn_made_pid = True,
     dn_manager = False, dn_end = None\<rparr>"

theorem debug_signals_toggle_once_witness:
  "\<exists>d. daemon_run None [Sig_Usr1, Sig_Usr1, Debug_Pipe_Ready] started_daemon = Some d \<and> dn_pipe d = 1 \<and>
     debugging (dn_log d) \<noteq> debugging (dn_log started_daemon)"
proof -
  let ?es = "[Sig_Usr1, Sig_Usr1, Debug_Pipe_Ready]"
  obtain d where d: "daemon_run None ?es started_daemon = Some d" "dn_end d = None" "dn_pipe d = 1" "dn_pipe started_daemon = 0"
    by (simp add: sigusr1_handler_def debug_log_io_cb_def started_daemon_def)
  with debug_signals_toggle_once [OF d(1,2)] show ?thesis by auto
qed

text \<open>
  The pid file is removed when the loop ends, but a signal that terminates the daemon leaves
  it: the default action does not run the handlers of \<open>atexit\<close>.
\<close>

theorem terminated_daemon_leaves_pid_file:
  assumes "dn_end d = None" "dn_made_pid d"
  shows "map_option dn_pid_file (daemon_run D [Sig_Terminate] d) = Some (dn_pid_file d) \<and>
    map_option dn_pid_file (daemon_run D [Name_Lost, Loop_Ends True] d) = Some None"
  using assms by (simp add: name_lost_def main_returns_def delete_pid_def cleanup_def)

theorem terminated_daemon_leaves_pid_file_witness:
  "map_option dn_pid_file (daemon_run None [Sig_Terminate] started_daemon) = Some (Some ''42'')"
  using terminated_daemon_leaves_pid_file [of started_daemon None] by (simp add: started_daemon_def)

end
