(* ===== verification/CK_Bsd.thy ===== *)
theory CK_Bsd
  imports CK_Sysdeps CK_RuntimeDir
begin

text \<open>
  The ports of the system dependencies to the BSD systems: src/src/ck-sysdeps-freebsd.c,
  ck-sysdeps-dragonfly.c, ck-sysdeps-openbsd.c and ck-sysdeps-netbsd.c. The names of the
  functions carry the port; a function whose text in one port is that of another is defined
  by it.

  The answers of \<open>sysctl\<close>, the kernel memory library, \<open>glob\<close>, the terminals file and \<open>ioctl\<close> are the
  record \<open>bsd_view\<close>. The consoles of a port, with those of the Linux port, are instances of the
  locale \<open>console_port\<close>.
\<close>

unbundle bit_operations_syntax

section \<open>What the system answers\<close>

text \<open>The process information the ports read; a field one system lacks is not read there.\<close>

record kinfo_proc =
  kp_comm :: string
  kp_pid :: int
  kp_ppid :: int
  kp_pgid :: int
  kp_sid :: int
  kp_rssize :: int
  kp_size :: int
  kp_dsize :: int
  kp_ssize :: int
  kp_start_sec :: int
  kp_wchan :: int
  kp_stat :: int
  kp_nice :: int
  kp_flag :: int
  kp_tpgid :: int
  kp_cpu :: int
  kp_threads :: int
  kp_tdev :: int
  kp_uid :: nat

record bsd_view =
  bv_kinfo :: "int \<Rightarrow> kinfo_proc option"
  bv_major :: "int \<Rightarrow> int"
  bv_minor :: "int \<Rightarrow> int"
  bv_devname :: "int \<Rightarrow> cstring"
  bv_kvm :: bool
  bv_env :: "int \<Rightarrow> string list option"
  bv_sysctl_size :: "string \<Rightarrow> bool"
  bv_sysctl :: "string \<Rightarrow> cstring"
  bv_glob :: "(string \<times> bool) list"
  bv_ttys :: "(string \<times> bool) list option"
  bv_is_socket :: "string \<Rightarrow> bool option"
  bv_apm :: bool
  bv_version :: nat

definition NODEV :: int where
  "NODEV = - 1"

section \<open>Processes on FreeBSD and DragonFly\<close>

text \<open>The Linux form of a device number, in the 32 bits of an \<open>int\<close>.\<close>

definition DEV_ENCODE :: "int \<Rightarrow> int \<Rightarrow> 32 word" where
  "DEV_ENCODE M m =
     (push_bit 8 (word_of_int M AND 0xFFF) OR push_bit 12 (word_of_int m AND 0xFFF00) OR (word_of_int m AND 0xFF))"

record tty_process_stat = CkProcessStat +
  st_tty_text :: string

definition zero_stat :: "int \<Rightarrow> CkProcessStat" where
  "zero_stat pid =
     \<lparr>st_pid = pid, st_ppid = 0, st_state = 0, st_cmd = [], st_utime = 0, st_stime = 0, st_cutime = 0, st_cstime = 0,
      st_start_time = 0, st_start_code = 0, st_end_code = 0, st_start_stack = 0, st_kstk_esp = 0, st_kstk_eip = 0,
      st_wchan = 0, st_priority = 0, st_nice = 0, st_rss = 0, st_alarm = 0, st_rtprio = 0, st_sched = 0, st_vsize = 0,
      st_rss_rlim = 0, st_flags = 0, st_min_flt = 0, st_maj_flt = 0, st_cmin_flt = 0, st_cmaj_flt = 0, st_pgrp = 0,
      st_session = 0, st_nlwp = 0, st_tty = 0, st_tpgid = 0, st_exit_signal = 0, st_processor = 0\<rparr>"

definition zero_tty_stat :: "int \<Rightarrow> tty_process_stat" where
  "zero_tty_stat pid = CkProcessStat.extend (zero_stat pid) (tty_process_stat.fields (replicate 16 CHR 0x00))"

definition pad_left :: "nat \<Rightarrow> string \<Rightarrow> string" where
  "pad_left n s = replicate (n - length s) CHR '' '' @ s"

definition pad_right :: "nat \<Rightarrow> string \<Rightarrow> string" where
  "pad_right n s = s @ replicate (n - length s) CHR '' ''"

text \<open>
  The 16 bytes of \<open>tty_text\<close>. \<open>snprintf\<close> cuts the text and ends it; \<open>memcpy\<close> copies 16 bytes from
  a shorter string, of which those behind the end are taken to be zero.
\<close>

definition printed_text :: "string \<Rightarrow> string" where
  "printed_text s = take 15 s @ replicate (16 - length (take 15 s)) CHR 0x00"

definition copied_text :: "string \<Rightarrow> string" where
  "copied_text s = take 16 (s @ replicate 16 CHR 0x00)"

definition device_numbers_text :: "int \<Rightarrow> int \<Rightarrow> string" where
  "device_numbers_text maj mnr = pad_left 3 (dec_int maj) @ '','' @ pad_right 3 (dec_int mnr)"

definition no_terminal_text :: string where
  "no_terminal_text = ''   ?   ''"

definition ck_process_stat_get_ppid_freebsd :: "tty_process_stat \<Rightarrow> int" where
  "ck_process_stat_get_ppid_freebsd st = st_ppid st"

definition ck_process_stat_get_cmd_freebsd :: "tty_process_stat \<Rightarrow> string" where
  "ck_process_stat_get_cmd_freebsd st = st_cmd st"

text \<open>\<open>None\<close> is a read behind the 16 bytes, when no byte ends the text.\<close>

definition ck_process_stat_get_tty_freebsd :: "tty_process_stat \<Rightarrow> string option" where
  "ck_process_stat_get_tty_freebsd st =
     (if CHR 0x00 \<in> set (st_tty_text st) then Some (PATH_DEV @ c_string (st_tty_text st)) else None)"

definition get_kinfo_proc :: "bsd_view \<Rightarrow> int \<Rightarrow> kinfo_proc option" where
  "get_kinfo_proc V pid = bv_kinfo V pid"

definition stat2proc_freebsd :: "bsd_view \<Rightarrow> int \<Rightarrow> tty_process_stat \<Rightarrow> bool \<times> tty_process_stat" where
  "stat2proc_freebsd V pid P =
     (case get_kinfo_proc V pid of
        None \<Rightarrow> (False, P)
      | Some p \<Rightarrow>
          let P = P\<lparr>st_cmd := c_string (take 15 (kp_comm p)), st_pid := kp_pid p, st_ppid := kp_ppid p, st_pgrp := kp_pgid p,
                st_session := kp_sid p, st_rss := kp_rssize p, st_vsize := kp_size p, st_start_time := kp_start_sec p,
                st_wchan := kp_wchan p, st_state := kp_stat p, st_nice := kp_nice p, st_flags := kp_flag p,
                st_tpgid := kp_tpgid p, st_processor := kp_cpu p, st_nlwp := kp_threads p\<rparr>;
              maj = bv_major V (kp_tdev p); mnr = bv_minor V (kp_tdev p);
              P = P\<lparr>st_tty := sint (DEV_ENCODE maj mnr), st_tty_text := printed_text (device_numbers_text maj mnr)\<rparr>;
              P = (case bv_devname V (kp_tdev p) of
                     Some ttname \<Rightarrow> if kp_tdev p \<noteq> NODEV then P\<lparr>st_tty_text := copied_text ttname\<rparr> else P
                   | None \<Rightarrow> P);
              P = (if kp_tdev p = NODEV then P\<lparr>st_tty_text := copied_text no_terminal_text\<rparr> else P)
          in (st_pid P = pid, P))"

definition ck_process_stat_new_for_unix_pid_freebsd :: "bsd_view \<Rightarrow> int \<Rightarrow> tty_process_stat option" where
  "ck_process_stat_new_for_unix_pid_freebsd V pid =
     (if pid \<le> 1 then None
      else let (res, proc) = stat2proc_freebsd V pid (zero_tty_stat pid) in if res then Some proc else None)"

text \<open>The texts of DragonFly differ in the names of the kernel's fields only.\<close>

definition ck_process_stat_get_ppid_dragonfly :: "tty_process_stat \<Rightarrow> int" where
  "ck_process_stat_get_ppid_dragonfly st = st_ppid st"

definition ck_process_stat_get_cmd_dragonfly :: "tty_process_stat \<Rightarrow> string" where
  "ck_process_stat_get_cmd_dragonfly st = st_cmd st"

definition ck_process_stat_get_tty_dragonfly :: "tty_process_stat \<Rightarrow> string option" where
  "ck_process_stat_get_tty_dragonfly st = ck_process_stat_get_tty_freebsd st"

definition get_kinfo_proc_dragonfly :: "bsd_view \<Rightarrow> int \<Rightarrow> kinfo_proc option" where
  "get_kinfo_proc_dragonfly V pid = bv_kinfo V pid"

definition stat2proc_dragonfly :: "bsd_view \<Rightarrow> int \<Rightarrow> tty_process_stat \<Rightarrow> bool \<times> tty_process_stat" where
  "stat2proc_dragonfly V pid P = stat2proc_freebsd V pid P"

definition ck_process_stat_new_for_unix_pid_dragonfly :: "bsd_view \<Rightarrow> int \<Rightarrow> tty_process_stat option" where
  "ck_process_stat_new_for_unix_pid_dragonfly V pid =
     (if pid \<le> 1 then None
      else let (res, proc) = stat2proc_dragonfly V pid (zero_tty_stat pid) in if res then Some proc else None)"

section \<open>Processes on OpenBSD and NetBSD\<close>

definition ck_process_stat_get_ppid_openbsd :: "CkProcessStat \<Rightarrow> int" where
  "ck_process_stat_get_ppid_openbsd st = st_ppid st"

definition ck_process_stat_get_cmd_openbsd :: "CkProcessStat \<Rightarrow> string" where
  "ck_process_stat_get_cmd_openbsd st = st_cmd st"

text \<open>A missing name is printed as \<open>(null)\<close>.\<close>

definition ck_process_stat_get_tty_openbsd :: "bsd_view \<Rightarrow> CkProcessStat \<Rightarrow> cstring" where
  "ck_process_stat_get_tty_openbsd V st =
     (if st_tty st = NODEV then None
      else Some (PATH_DEV @ (case bv_devname V (st_tty st) of None \<Rightarrow> ''(null)'' | Some n \<Rightarrow> n)))"

definition get_kinfo_proc_openbsd :: "bsd_view \<Rightarrow> int \<Rightarrow> kinfo_proc option" where
  "get_kinfo_proc_openbsd V pid = bv_kinfo V pid"

definition stat2proc_openbsd :: "bsd_view \<Rightarrow> int \<Rightarrow> CkProcessStat \<Rightarrow> bool \<times> CkProcessStat" where
  "stat2proc_openbsd V pid P =
     (case get_kinfo_proc_openbsd V pid of
        None \<Rightarrow> (False, P)
      | Some p \<Rightarrow>
          let P = P\<lparr>st_cmd := c_string (take 15 (kp_comm p)), st_pid := kp_pid p, st_ppid := kp_ppid p, st_pgrp := kp_pgid p,
                st_session := kp_sid p, st_rss := kp_rssize p, st_vsize := kp_dsize p + kp_dsize p + kp_ssize p,
                st_start_time := kp_start_sec p, st_wchan := kp_wchan p, st_state := kp_stat p, st_nice := kp_nice p,
                st_flags := kp_flag p, st_tpgid := kp_tpgid p, st_processor := kp_cpu p, st_tty := as_signed 32 (kp_tdev p)\<rparr>
          in (st_pid P = pid, P))"

definition ck_process_stat_new_for_unix_pid_openbsd :: "bsd_view \<Rightarrow> int \<Rightarrow> CkProcessStat option" where
  "ck_process_stat_new_for_unix_pid_openbsd V pid =
     (if pid \<le> 1 then None
      else let (res, proc) = stat2proc_openbsd V pid (zero_stat pid) in if res then Some proc else None)"

definition ck_process_stat_get_ppid_netbsd :: "CkProcessStat \<Rightarrow> int" where
  "ck_process_stat_get_ppid_netbsd st = st_ppid st"

definition ck_process_stat_get_cmd_netbsd :: "CkProcessStat \<Rightarrow> string" where
  "ck_process_stat_get_cmd_netbsd st = st_cmd st"

definition ck_process_stat_get_tty_netbsd :: "bsd_view \<Rightarrow> CkProcessStat \<Rightarrow> cstring" where
  "ck_process_stat_get_tty_netbsd V st = (if st_tty st = NODEV then None else bv_devname V (st_tty st))"

definition get_kinfo_proc2 :: "bsd_view \<Rightarrow> int \<Rightarrow> kinfo_proc option" where
  "get_kinfo_proc2 V pid = bv_kinfo V pid"

definition stat2proc_netbsd :: "bsd_view \<Rightarrow> int \<Rightarrow> CkProcessStat \<Rightarrow> bool \<times> CkProcessStat" where
  "stat2proc_netbsd V pid P =
     (case get_kinfo_proc2 V pid of
        None \<Rightarrow> (False, P)
      | Some p \<Rightarrow>
          let P = P\<lparr>st_cmd := c_string (take 15 (kp_comm p)), st_pid := kp_pid p, st_ppid := kp_ppid p, st_pgrp := kp_pgid p,
                st_session := kp_sid p, st_rss := kp_rssize p, st_vsize := kp_size p,
                st_start_time := kp_start_sec p, st_wchan := kp_wchan p, st_state := kp_stat p, st_nice := kp_nice p,
                st_flags := kp_flag p, st_tpgid := kp_tpgid p, st_processor := kp_cpu p, st_tty := as_signed 32 (kp_tdev p),
                st_nlwp := kp_threads p\<rparr>
          in (st_pid P = pid, P))"

definition ck_process_stat_new_for_unix_pid_netbsd :: "bsd_view \<Rightarrow> int \<Rightarrow> CkProcessStat option" where
  "ck_process_stat_new_for_unix_pid_netbsd V pid =
     (if pid \<le> 1 then None
      else let (res, proc) = stat2proc_netbsd V pid (zero_stat pid) in if res then Some proc else None)"

section \<open>The environment and the user of a process\<close>

definition ck_unix_pid_get_env_hash_freebsd :: "bsd_view \<Rightarrow> int \<Rightarrow> (string, cstring) ghash option" where
  "ck_unix_pid_get_env_hash_freebsd V pid =
     (if \<not> bv_kvm V then None
      else case get_kinfo_proc V pid of
        None \<Rightarrow> None
      | Some p \<Rightarrow>
          (case bv_env V pid of
             None \<Rightarrow> None
           | Some penv \<Rightarrow>
               Some (fold (\<lambda>e hash. if e = [] then hash
                                    else let (n, v) = split_env e in g_hash_table_insert hash n v) penv [])))"

definition ck_unix_pid_get_env_freebsd :: "bsd_view \<Rightarrow> int \<Rightarrow> string \<Rightarrow> cstring" where
  "ck_unix_pid_get_env_freebsd V pid var =
     (case ck_unix_pid_get_env_hash_freebsd V pid of
        None \<Rightarrow> None
      | Some hash \<Rightarrow> (case g_hash_table_lookup hash var of None \<Rightarrow> None | Some v \<Rightarrow> v))"

definition ck_unix_pid_get_uid_freebsd :: "bsd_view \<Rightarrow> int \<Rightarrow> nat" where
  "ck_unix_pid_get_uid_freebsd V pid =
     (if pid \<le> 1 then 0 else case get_kinfo_proc V pid of None \<Rightarrow> 2 ^ 32 - 1 | Some p \<Rightarrow> kp_uid p)"

text \<open>No BSD has login session ids.\<close>

definition ck_unix_pid_get_login_session_id_freebsd :: "int \<Rightarrow> cstring" where
  "ck_unix_pid_get_login_session_id_freebsd pid = None"

definition ck_unix_pid_get_env_hash_dragonfly :: "bsd_view \<Rightarrow> int \<Rightarrow> (string, cstring) ghash option" where
  "ck_unix_pid_get_env_hash_dragonfly V pid = ck_unix_pid_get_env_hash_freebsd V pid"

definition ck_unix_pid_get_env_dragonfly :: "bsd_view \<Rightarrow> int \<Rightarrow> string \<Rightarrow> cstring" where
  "ck_unix_pid_get_env_dragonfly V pid var = ck_unix_pid_get_env_freebsd V pid var"

definition ck_unix_pid_get_uid_dragonfly :: "bsd_view \<Rightarrow> int \<Rightarrow> nat" where
  "ck_unix_pid_get_uid_dragonfly V pid = ck_unix_pid_get_uid_freebsd V pid"

definition ck_unix_pid_get_login_session_id_dragonfly :: "int \<Rightarrow> cstring" where
  "ck_unix_pid_get_login_session_id_dragonfly pid = None"

definition ck_unix_pid_get_env_hash_openbsd :: "bsd_view \<Rightarrow> int \<Rightarrow> (string, cstring) ghash option" where
  "ck_unix_pid_get_env_hash_openbsd V pid = ck_unix_pid_get_env_hash_freebsd V pid"

definition ck_unix_pid_get_env_openbsd :: "bsd_view \<Rightarrow> int \<Rightarrow> string \<Rightarrow> cstring" where
  "ck_unix_pid_get_env_openbsd V pid var = ck_unix_pid_get_env_freebsd V pid var"

definition ck_unix_pid_get_uid_openbsd :: "bsd_view \<Rightarrow> int \<Rightarrow> nat" where
  "ck_unix_pid_get_uid_openbsd V pid = ck_unix_pid_get_uid_freebsd V pid"

definition ck_unix_pid_get_login_session_id_openbsd :: "int \<Rightarrow> cstring" where
  "ck_unix_pid_get_login_session_id_openbsd pid = None"

definition ck_unix_pid_get_env_hash_netbsd :: "bsd_view \<Rightarrow> int \<Rightarrow> (string, cstring) ghash option" where
  "ck_unix_pid_get_env_hash_netbsd V pid = ck_unix_pid_get_env_hash_freebsd V pid"

definition ck_unix_pid_get_env_netbsd :: "bsd_view \<Rightarrow> int \<Rightarrow> string \<Rightarrow> cstring" where
  "ck_unix_pid_get_env_netbsd V pid var = ck_unix_pid_get_env_freebsd V pid var"

definition ck_unix_pid_get_uid_netbsd :: "bsd_view \<Rightarrow> int \<Rightarrow> nat" where
  "ck_unix_pid_get_uid_netbsd V pid = ck_unix_pid_get_uid_freebsd V pid"

definition ck_unix_pid_get_login_session_id_netbsd :: "int \<Rightarrow> cstring" where
  "ck_unix_pid_get_login_session_id_netbsd pid = None"

section \<open>Consoles\<close>

text \<open>The device files that are there, up to the first that is not a character device.\<close>

definition ck_get_max_num_consoles_freebsd :: "bsd_view \<Rightarrow> nat" where
  "ck_get_max_num_consoles_freebsd V = length (takeWhile snd (bv_glob V)) + 1"

definition ttyv_prefix :: string where
  "ttyv_prefix = ''/dev/ttyv''"

definition ck_get_console_device_for_num_freebsd :: "nat \<Rightarrow> cstring" where
  "ck_get_console_device_for_num_freebsd num =
     (let num = (num + 2 ^ 32 - 1) mod 2 ^ 32 in
      if num < 10 then Some (ttyv_prefix @ dec num)
      else if num < 32 then Some (ttyv_prefix @ [char_of (num - 10 + 97)])
      else None)"

text \<open>\<open>%c\<close> reads one \<open>char\<close>, which is signed; the number is a \<open>guint\<close>.\<close>

definition ck_get_console_num_from_device_freebsd :: "cstring \<Rightarrow> nat option" where
  "ck_get_console_num_from_device_freebsd device =
     (case device of
        None \<Rightarrow> None
      | Some d \<Rightarrow>
          if has_prefix ttyv_prefix d \<and> drop (length ttyv_prefix) d \<noteq> []
          then let c = as_signed 8 (of_char (hd (drop (length ttyv_prefix) d)));
                   n = (if c < 58 then c - 48 else c - 97 + 10)
               in Some (nat ((n + 1) mod 2 ^ 32))
          else None)"

text \<open>\<open>VT_GETACTIVE\<close>; the letter of the message has no effect.\<close>

definition ck_get_active_console_num_freebsd :: "int option \<Rightarrow> bool \<times> nat" where
  "ck_get_active_console_num_freebsd r = (case r of None \<Rightarrow> (False, 0) | Some active \<Rightarrow> (True, nat (active mod 2 ^ 32)))"

definition ck_get_max_num_consoles_dragonfly :: "bsd_view \<Rightarrow> nat" where
  "ck_get_max_num_consoles_dragonfly V = ck_get_max_num_consoles_freebsd V"

definition ck_get_console_device_for_num_dragonfly :: "nat \<Rightarrow> cstring" where
  "ck_get_console_device_for_num_dragonfly num = ck_get_console_device_for_num_freebsd num"

definition ck_get_console_num_from_device_dragonfly :: "cstring \<Rightarrow> nat option" where
  "ck_get_console_num_from_device_dragonfly device = ck_get_console_num_from_device_freebsd device"

definition ck_get_active_console_num_dragonfly :: "int option \<Rightarrow> bool \<times> nat" where
  "ck_get_active_console_num_dragonfly r = ck_get_active_console_num_freebsd r"

text \<open>The entries of the terminals file that are on and have a prefix.\<close>

definition ttys_on :: "string \<Rightarrow> (string \<times> bool) list \<Rightarrow> nat" where
  "ttys_on prefix ts = length (filter (\<lambda>(name, on). on \<and> has_prefix prefix name) ts)"

text \<open>The result and the number, which is 0 when the file cannot be read.\<close>

definition ck_get_max_num_consoles_openbsd :: "bsd_view \<Rightarrow> bool \<times> nat" where
  "ck_get_max_num_consoles_openbsd V =
     (case bv_ttys V of None \<Rightarrow> (False, 0) | Some ts \<Rightarrow> (True, ttys_on ''ttyC'' ts + 1 + 1))"

definition ttyC_prefix :: string where
  "ttyC_prefix = ''/dev/ttyC''"

text \<open>The numbers of a prefix, counted from 1 and printed from 0.\<close>

definition numbered_device :: "string \<Rightarrow> nat \<Rightarrow> string" where
  "numbered_device prefix num = prefix @ dec ((num + 2 ^ 32 - 1) mod 2 ^ 32)"

definition scan_prefixed :: "string \<Rightarrow> string \<Rightarrow> nat option" where
  "scan_prefixed prefix d = (if has_prefix prefix d then scan_uint (drop (length prefix) d) else None)"

definition ck_get_console_device_for_num_openbsd :: "nat \<Rightarrow> cstring" where
  "ck_get_console_device_for_num_openbsd num = Some (numbered_device ttyC_prefix num)"

definition ck_get_console_num_from_device_openbsd :: "cstring \<Rightarrow> nat option" where
  "ck_get_console_num_from_device_openbsd device =
     (case device of None \<Rightarrow> None | Some d \<Rightarrow> map_option (\<lambda>n. (n + 1) mod 2 ^ 32) (scan_prefixed ttyC_prefix d))"

definition ck_get_active_console_num_openbsd :: "int option \<Rightarrow> bool \<times> nat" where
  "ck_get_active_console_num_openbsd r = (case r of None \<Rightarrow> (False, 0) | Some active \<Rightarrow> (True, nat (active mod 2 ^ 32)))"

definition ck_get_max_num_consoles_netbsd :: "bsd_view \<Rightarrow> bool \<times> nat" where
  "ck_get_max_num_consoles_netbsd V =
     (case bv_ttys V of None \<Rightarrow> (False, 0) | Some ts \<Rightarrow> (True, ttys_on ''ttyE'' ts))"

definition ttyE_prefix :: string where
  "ttyE_prefix = ''/dev/ttyE''"

definition ck_get_console_device_for_num_netbsd :: "nat \<Rightarrow> cstring" where
  "ck_get_console_device_for_num_netbsd num = Some (numbered_device ttyE_prefix num)"

definition ck_get_console_num_from_device_netbsd :: "cstring \<Rightarrow> nat option" where
  "ck_get_console_num_from_device_netbsd device =
     (case device of None \<Rightarrow> None | Some d \<Rightarrow> map_option (\<lambda>n. (n + 1) mod 2 ^ 32) (scan_prefixed ttyE_prefix d))"

definition ck_get_active_console_num_netbsd :: "int option \<Rightarrow> bool \<times> nat" where
  "ck_get_active_console_num_netbsd r = (case r of None \<Rightarrow> (False, 0) | Some active \<Rightarrow> (True, nat (active mod 2 ^ 32)))"

section \<open>Sleeping and temporary file systems\<close>

definition get_string_sysctl :: "bsd_view \<Rightarrow> string \<Rightarrow> cstring" where
  "get_string_sysctl V name = (if bv_sysctl_size V name then map_option c_string (bv_sysctl V name) else None)"

definition new_power_interface :: "bsd_view \<Rightarrow> bool" where
  "new_power_interface V = (bv_version V \<ge> 1600018)"

definition freebsd_supports_sleep_state :: "bsd_view \<Rightarrow> string \<Rightarrow> bool" where
  "freebsd_supports_sleep_state V state =
     (case get_string_sysctl V (if new_power_interface V then ''kern.power.supported_stype'' else ''hw.acpi.supported_sleep_state'') of
        None \<Rightarrow> False
      | Some sleep_states \<Rightarrow> g_strstr state sleep_states \<noteq> None)"

definition ck_system_can_suspend_freebsd :: "bsd_view \<Rightarrow> bool" where
  "ck_system_can_suspend_freebsd V =
     freebsd_supports_sleep_state V (if new_power_interface V then ''suspend_to_idle'' else ''S3'')"

definition ck_system_can_hibernate_freebsd :: "bsd_view \<Rightarrow> bool" where
  "ck_system_can_hibernate_freebsd V =
     freebsd_supports_sleep_state V (if new_power_interface V then ''fw_hibernate'' else ''S4'')"

definition ck_system_can_suspend_openbsd :: "bsd_view \<Rightarrow> bool" where
  "ck_system_can_suspend_openbsd V = (bv_is_socket V ''/var/run/apmdev'' = Some True)"

definition ck_system_can_hibernate_openbsd :: "bsd_view \<Rightarrow> bool" where
  "ck_system_can_hibernate_openbsd V = ck_system_can_suspend_openbsd V"

definition ck_system_can_suspend_netbsd :: "bsd_view \<Rightarrow> bool" where
  "ck_system_can_suspend_netbsd V =
     (if bv_sysctl_size V ''hw.acpi.sleep.states'' \<and>
         (case bv_sysctl V ''hw.acpi.sleep.states'' of
            None \<Rightarrow> False
          | Some sleep_states \<Rightarrow> g_strstr ''S3'' (c_string sleep_states) \<noteq> None)
      then True
      else if bv_sysctl_size V ''machdep.xen.suspend'' then True
      else bv_apm V)"

text \<open>Mounting and unmounting as on Linux, with the result of \<open>mount\<close> and \<open>unmount\<close> as input.\<close>

definition ck_make_tmpfs_freebsd :: "rundir_env \<Rightarrow> nat \<Rightarrow> nat \<Rightarrow> string \<Rightarrow> rundirs \<Rightarrow> bool \<times> rundirs" where
  "ck_make_tmpfs_freebsd E uid gid dest dirs = ck_make_tmpfs E uid gid dest dirs"

definition ck_remove_tmpfs_freebsd :: "rundir_env \<Rightarrow> nat \<Rightarrow> string \<Rightarrow> rundirs \<Rightarrow> bool \<times> rundirs" where
  "ck_remove_tmpfs_freebsd E uid dest dirs = ck_remove_tmpfs E uid dest dirs"

definition ck_make_tmpfs_dragonfly :: "rundir_env \<Rightarrow> nat \<Rightarrow> nat \<Rightarrow> string \<Rightarrow> rundirs \<Rightarrow> bool \<times> rundirs" where
  "ck_make_tmpfs_dragonfly E uid gid dest dirs = ck_make_tmpfs E uid gid dest dirs"

definition ck_remove_tmpfs_dragonfly :: "rundir_env \<Rightarrow> nat \<Rightarrow> string \<Rightarrow> rundirs \<Rightarrow> bool \<times> rundirs" where
  "ck_remove_tmpfs_dragonfly E uid dest dirs = ck_remove_tmpfs E uid dest dirs"

definition ck_make_tmpfs_openbsd :: "rundir_env \<Rightarrow> nat \<Rightarrow> nat \<Rightarrow> string \<Rightarrow> rundirs \<Rightarrow> bool \<times> rundirs" where
  "ck_make_tmpfs_openbsd E uid gid dest dirs = ck_make_tmpfs E uid gid dest dirs"

definition ck_remove_tmpfs_openbsd :: "rundir_env \<Rightarrow> nat \<Rightarrow> string \<Rightarrow> rundirs \<Rightarrow> bool \<times> rundirs" where
  "ck_remove_tmpfs_openbsd E uid dest dirs = ck_remove_tmpfs E uid dest dirs"

definition ck_make_tmpfs_netbsd :: "rundir_env \<Rightarrow> nat \<Rightarrow> nat \<Rightarrow> string \<Rightarrow> rundirs \<Rightarrow> bool \<times> rundirs" where
  "ck_make_tmpfs_netbsd E uid gid dest dirs = ck_make_tmpfs E uid gid dest dirs"

definition ck_remove_tmpfs_netbsd :: "rundir_env \<Rightarrow> nat \<Rightarrow> string \<Rightarrow> rundirs \<Rightarrow> bool \<times> rundirs" where
  "ck_remove_tmpfs_netbsd E uid dest dirs = ck_remove_tmpfs E uid dest dirs"

section \<open>The console interface\<close>

text \<open>
  What the rest of the daemon relies on: the consoles of a port have device names, and the
  number of a console can be read from its name.
\<close>

locale console_port =
  fixes consoles :: "nat set"
    and device_for_num :: "nat \<Rightarrow> cstring"
    and num_from_device :: "cstring \<Rightarrow> nat option"
  assumes named: "n \<in> consoles \<Longrightarrow> device_for_num n \<noteq> None"
    and read_back: "n \<in> consoles \<Longrightarrow> num_from_device (device_for_num n) = Some n"
begin

lemma device_inj:
  assumes "n \<in> consoles" "m \<in> consoles" "device_for_num n = device_for_num m"
  shows "n = m"
proof -
  have "Some n = num_from_device (device_for_num m)" using read_back [OF assms(1)] unfolding assms(3) by (rule sym)
  also have "\<dots> = Some m" by (rule read_back [OF assms(2)])
  finally show ?thesis by (rule option.inject [THEN iffD1])
qed

text \<open>A device that names a console is the one of the number read from it.\<close>

lemma device_of_number:
  assumes "n \<in> consoles" "m \<in> consoles" "device_for_num m = Some d"
  shows "num_from_device (Some d) = Some n \<longleftrightarrow> device_for_num n = Some d"
proof
  assume "num_from_device (Some d) = Some n"
  with read_back [OF assms(2)] assms(3) have "n = m" by simp
  with assms(3) show "device_for_num n = Some d" by simp
next
  assume "device_for_num n = Some d"
  with read_back [OF assms(1)] show "num_from_device (Some d) = Some n" by simp
qed

end

lemma scan_prefixed_dec: "n < 2 ^ 32 \<Longrightarrow> scan_prefixed p (p @ dec n) = Some n"
  using scan_unsigned_digits [of "dec n" "[]" 32] by (simp add: scan_prefixed_def has_prefix_def scan_uint_def)

lemma numbered_device_back:
  assumes "n < 2 ^ 32"
  shows "map_option (\<lambda>n. (n + 1) mod 2 ^ 32) (scan_prefixed p (numbered_device p n)) = Some n"
proof -
  have b: "(n + 2 ^ 32 - 1) mod 2 ^ 32 < (2 ^ 32 :: nat)" by (rule mod_less_divisor) simp
  have "((n + 2 ^ 32 - 1) mod 2 ^ 32 + 1) mod 2 ^ 32 = (n + 2 ^ 32 - 1 + 1) mod (2 ^ 32 :: nat)" by (rule mod_add_left_eq)
  also have "n + 2 ^ 32 - 1 + 1 = n + (2 ^ 32 :: nat)" by simp
  also have "(n + 2 ^ 32) mod 2 ^ 32 = n" unfolding mod_add_self2 using assms by (rule mod_less)
  finally have m: "((n + 2 ^ 32 - 1) mod 2 ^ 32 + 1) mod 2 ^ 32 = n" .
  show ?thesis unfolding numbered_device_def scan_prefixed_dec [OF b] using m by simp
qed

text \<open>A letter or digit of a \<open>ttyv\<close> device, read back as a signed byte.\<close>

lemma ttyv_byte:
  assumes "k < 128"
  shows "as_signed 8 (of_char (char_of k)) = int k"
proof -
  have "(of_char (char_of k :: char) :: int) = int (of_char (char_of k :: char) :: nat)" by (rule of_nat_of_char [symmetric])
  also have "\<dots> = int k" using assms by (simp only: of_char_of) simp
  finally have "(of_char (char_of k :: char) :: int) = int k" .
  then show ?thesis using assms by (simp only:) (rule as_signed_id; simp)
qed

lemma ttyv_read:
  "k < 128 \<Longrightarrow> ck_get_console_num_from_device_freebsd (Some (ttyv_prefix @ [char_of k])) =
     Some (nat (((if int k < 58 then int k - 48 else int k - 97 + 10) + 1) mod 2 ^ 32))"
  by (simp add: ck_get_console_num_from_device_freebsd_def has_prefix_def ttyv_byte Let_def)

lemma guint_pred:
  assumes "m < 2 ^ 32"
  shows "(Suc m + 2 ^ 32 - 1) mod 2 ^ 32 = m"
proof -
  have "Suc m + 2 ^ 32 - 1 = m + (2 ^ 32 :: nat)" by simp
  then have "(Suc m + 2 ^ 32 - 1) mod 2 ^ 32 = (m + 2 ^ 32) mod (2 ^ 32 :: nat)" by (rule arg_cong)
  also have "\<dots> = m mod 2 ^ 32" by (rule mod_add_self2)
  finally show ?thesis using assms by simp
qed

lemma ttyv_device:
  assumes "m < 32"
  shows "ck_get_console_device_for_num_freebsd (Suc m) =
    Some (ttyv_prefix @ [char_of (if m < 10 then 48 + m else m - 10 + 97)])"
proof -
  have "(Suc m + 2 ^ 32 - 1) mod 2 ^ 32 = m" using assms by (intro guint_pred) simp
  moreover have "dec m = [char_of (48 + m)]" if "m < 10" using that by (simp add: dec.simps digit_def)
  ultimately show ?thesis using assms by (simp only: ck_get_console_device_for_num_freebsd_def Let_def) simp
qed

lemma ttyv_names:
  assumes "n \<in> {1..32}"
  shows "ck_get_console_device_for_num_freebsd n \<noteq> None"
    "ck_get_console_num_from_device_freebsd (ck_get_console_device_for_num_freebsd n) = Some n"
proof -
  obtain m where m: "n = Suc m" "m < 32" using assms by (cases n) auto
  show "ck_get_console_device_for_num_freebsd n \<noteq> None" unfolding m(1) ttyv_device [OF m(2)] by simp
  show "ck_get_console_num_from_device_freebsd (ck_get_console_device_for_num_freebsd n) = Some n"
  proof (cases "m < 10")
    case True
    then have "ck_get_console_num_from_device_freebsd (ck_get_console_device_for_num_freebsd n) = Some (nat ((int m + 1) mod 2 ^ 32))"
      unfolding m(1) ttyv_device [OF m(2)] using ttyv_read [of "48 + m"] by simp
    with m True show ?thesis by (simp add: nat_add_distrib)
  next
    case False
    then have "ck_get_console_num_from_device_freebsd (ck_get_console_device_for_num_freebsd n) = Some (nat ((int m + 1) mod 2 ^ 32))"
      unfolding m(1) ttyv_device [OF m(2)] using ttyv_read [of "m - 10 + 97"] m(2) by (simp add: of_nat_diff)
    with m show ?thesis by (simp add: nat_add_distrib)
  qed
qed

lemma ttyv_none:
  assumes "n < 2 ^ 32" "n \<notin> {1..32}"
  shows "ck_get_console_device_for_num_freebsd n = None"
proof (cases n)
  case (Suc m)
  have "(Suc m + 2 ^ 32 - 1) mod 2 ^ 32 = m" using assms(1) Suc by (intro guint_pred) simp
  moreover have "\<not> m < 10" "\<not> m < 32" using assms(2) Suc by auto
  ultimately show ?thesis using Suc by (simp only: ck_get_console_device_for_num_freebsd_def Let_def) simp
qed (simp add: ck_get_console_device_for_num_freebsd_def)

interpretation linux: console_port "{..<2 ^ 32}" "\<lambda>n. Some (ck_get_console_device_for_num n)" ck_get_console_num_from_device
  by unfold_locales (auto simp: console_num_of_device)

interpretation freebsd: console_port "{1..32}" ck_get_console_device_for_num_freebsd ck_get_console_num_from_device_freebsd
  by unfold_locales (fact ttyv_names)+

interpretation dragonfly: console_port "{1..32}" ck_get_console_device_for_num_dragonfly ck_get_console_num_from_device_dragonfly
  unfolding ck_get_console_device_for_num_dragonfly_def [abs_def] ck_get_console_num_from_device_dragonfly_def [abs_def]
  by (rule freebsd.console_port_axioms)

interpretation openbsd: console_port "{..<2 ^ 32}" ck_get_console_device_for_num_openbsd ck_get_console_num_from_device_openbsd
  by unfold_locales (simp_all only: ck_get_console_device_for_num_openbsd_def ck_get_console_num_from_device_openbsd_def option.case lessThan_iff
      numbered_device_back not_False_eq_True option.distinct)

interpretation netbsd: console_port "{..<2 ^ 32}" ck_get_console_device_for_num_netbsd ck_get_console_num_from_device_netbsd
  by unfold_locales (simp_all only: ck_get_console_device_for_num_netbsd_def ck_get_console_num_from_device_netbsd_def option.case lessThan_iff
      numbered_device_back not_False_eq_True option.distinct)

end
