(* ===== verification/CK_Ports.thy ===== *)
theory CK_Ports
  imports CK_Bsd
begin

text \<open>
  The ports of the system dependencies to Solaris and to the Hurd, src/src/ck-sysdeps-solaris.c and
  src/src/ck-sysdeps-gnu.c, and what the ports promise together: the names of consoles, the consoles
  that are watched, the terminal of a process and its environment.

  The files of /proc, the output of \<open>pargs\<close> and \<open>svcprop\<close> and the answers of the Hurd's process
  library are inputs. \<open>None\<close> is a crash or a read of something that was never set.
\<close>

section \<open>Solaris\<close>

record psinfo =
  pr_fname :: string
  pr_pid :: int
  pr_ppid :: int
  pr_pgid :: int
  pr_sid :: int
  pr_rssize :: int
  pr_size :: int
  pr_start_sec :: int
  pr_wchan :: int
  pr_sname :: int
  pr_nice :: int
  pr_pri :: int
  pr_ttymajor :: int
  pr_ttyminor :: int

text \<open>
  Reading the information file gives a whole record or fails; \<open>sv_pargs\<close> is what the program
  prints, \<open>None\<close> when the pipe cannot be opened; \<open>sv_svcprop\<close> is \<open>None\<close> when the program
  cannot be run, and its output may be missing.
\<close>

record solaris_view =
  sv_psinfo :: "int \<Rightarrow> psinfo option"
  sv_vt_major :: "int option"
  sv_pargs :: "int \<Rightarrow> cstring"
  sv_uid :: "int \<Rightarrow> nat option"
  sv_svcprop :: "cstring option"
  sv_smf_state :: "string \<Rightarrow> cstring"

definition NO_TTY_VALUE :: "32 word" where
  "NO_TTY_VALUE = DEV_ENCODE (- 1) (- 1)"

definition ck_process_stat_get_ppid_solaris :: "tty_process_stat \<Rightarrow> int" where
  "ck_process_stat_get_ppid_solaris st = st_ppid st"

definition ck_process_stat_get_cmd_solaris :: "tty_process_stat \<Rightarrow> string" where
  "ck_process_stat_get_cmd_solaris st = st_cmd st"

definition ck_process_stat_get_tty_solaris :: "tty_process_stat \<Rightarrow> string" where
  "ck_process_stat_get_tty_solaris st = c_string (st_tty_text st)"

definition get_system_vt_major :: "solaris_view \<Rightarrow> int" where
  "get_system_vt_major S = (case sv_vt_major S of None \<Rightarrow> - 1 | Some m \<Rightarrow> m)"

definition stat2proc_solaris :: "solaris_view \<Rightarrow> int \<Rightarrow> tty_process_stat \<Rightarrow> bool \<times> tty_process_stat" where
  "stat2proc_solaris S pid P =
     (case sv_psinfo S pid of
        None \<Rightarrow> (False, P)
      | Some p \<Rightarrow>
          let maj = pr_ttymajor p; mnr = pr_ttyminor p;
              P = P\<lparr>st_cmd := c_string (take 15 (pr_fname p)), st_pid := pr_pid p, st_ppid := pr_ppid p, st_pgrp := pr_pgid p,
                st_session := pr_sid p, st_rss := pr_rssize p, st_vsize := pr_size p, st_start_time := pr_start_sec p,
                st_wchan := pr_wchan p, st_state := pr_sname p, st_nice := pr_nice p, st_priority := pr_pri p,
                st_tty := sint (DEV_ENCODE maj mnr), st_tty_text := printed_text (device_numbers_text maj mnr)\<rparr>;
              P = (if maj = get_system_vt_major S
                   then P\<lparr>st_tty_text := printed_text (''/dev/vt/'' @ dec (nat (mnr mod 2 ^ 32)))\<rparr> else P);
              P = (if DEV_ENCODE maj mnr = NO_TTY_VALUE
                   then P\<lparr>st_tty_text := no_terminal_text @ CHR 0x00 # drop 8 (st_tty_text P)\<rparr> else P)
          in (st_pid P = pid, P))"

text \<open>
  On failure an error pointer that was never set is propagated: a fault if the caller asked for
  the error, harmless otherwise.
\<close>

definition ck_process_stat_new_for_unix_pid_solaris :: "solaris_view \<Rightarrow> bool \<Rightarrow> int \<Rightarrow> tty_process_stat option option" where
  "ck_process_stat_new_for_unix_pid_solaris S wants_error pid =
     (if pid \<le> 1 then Some None
      else let (res, proc) = stat2proc_solaris S pid (zero_tty_stat pid)
           in if res then Some (Some proc) else if wants_error then None else Some None)"

text \<open>\<open>fgets\<close> with a buffer of \<open>BUFSIZ\<close> characters, 1024 on Solaris: a longer line comes in pieces.\<close>

definition BUFSIZ :: nat where
  "BUFSIZ = 1024"

definition buffer_length :: "string \<Rightarrow> nat" where
  "buffer_length s = min (BUFSIZ - 1) (Suc (length (takeWhile (\<lambda>c. c \<noteq> CHR 0x0A) s)))"

function pargs_gets :: "string \<Rightarrow> string list" where
  "pargs_gets s = (if s = [] then [] else take (buffer_length s) s # pargs_gets (drop (buffer_length s) s))"
  by pat_completeness auto
termination
  by (relation "measure length") (auto simp: buffer_length_def BUFSIZ_def)

declare pargs_gets.simps [simp del]

definition pargs_line :: "string \<Rightarrow> (string, cstring) ghash \<Rightarrow> (string, cstring) ghash" where
  "pargs_line buf hash =
     (let buf = g_strchomp buf in
      if has_prefix ''envp['' buf
      then (case g_strstr '' '' buf of
              None \<Rightarrow> hash
            | Some skip_prefix \<Rightarrow>
                let (n, v) = split_env (tl skip_prefix) in g_hash_table_insert hash n v)
      else hash)"

definition ck_unix_pid_get_env_hash_solaris :: "solaris_view \<Rightarrow> int \<Rightarrow> (string, cstring) ghash option" where
  "ck_unix_pid_get_env_hash_solaris S pid = map_option (\<lambda>out. fold pargs_line (pargs_gets out) []) (sv_pargs S pid)"

definition ck_unix_pid_get_env_solaris :: "solaris_view \<Rightarrow> int \<Rightarrow> string \<Rightarrow> cstring option" where
  "ck_unix_pid_get_env_solaris S pid var =
     map_option (\<lambda>hash. case g_hash_table_lookup hash var of None \<Rightarrow> None | Some v \<Rightarrow> v) (ck_unix_pid_get_env_hash_solaris S pid)"

definition ck_unix_pid_get_uid_solaris :: "solaris_view \<Rightarrow> int \<Rightarrow> nat" where
  "ck_unix_pid_get_uid_solaris S pid =
     (if pid \<le> 1 then 0 else case sv_uid S pid of None \<Rightarrow> 2 ^ 32 - 1 | Some u \<Rightarrow> u)"

definition ck_unix_pid_get_ppid_solaris :: "solaris_view \<Rightarrow> int \<Rightarrow> int option" where
  "ck_unix_pid_get_ppid_solaris S pid =
     (if pid \<le> 1 then Some 0
      else map_option (\<lambda>st. case st of None \<Rightarrow> - 1 | Some st \<Rightarrow> ck_process_stat_get_ppid_solaris st)
             (ck_process_stat_new_for_unix_pid_solaris S False pid))"

text \<open>\<open>strtol\<close> with base 0: the digits decide on the base. \<open>None\<close> when there is no number.\<close>

definition digit_of :: "char \<Rightarrow> nat" where
  "digit_of c =
     (let n = (of_char c :: nat) in
      if 48 \<le> n \<and> n \<le> 57 then n - 48
      else if 97 \<le> n \<and> n \<le> 122 then n - 87
      else if 65 \<le> n \<and> n \<le> 90 then n - 55
      else 99)"

definition is_hex_prefix :: "string \<Rightarrow> bool" where
  "is_hex_prefix s =
     (length s > 2 \<and> s ! 0 = CHR ''0'' \<and> (s ! 1 = CHR ''x'' \<or> s ! 1 = CHR ''X'') \<and> digit_of (s ! 2) < 16)"

definition strtol_any_base :: "string \<Rightarrow> (int \<times> bool) option" where
  "strtol_any_base s =
     (let s = dropWhile is_space s;
          neg = (s \<noteq> [] \<and> hd s = CHR ''-'');
          s = (if s \<noteq> [] \<and> (hd s = CHR ''-'' \<or> hd s = CHR ''+'') then tl s else s);
          base = (if is_hex_prefix s then 16 else if s \<noteq> [] \<and> hd s = CHR ''0'' then 8 else 10);
          ds = takeWhile (\<lambda>c. digit_of c < base) (if is_hex_prefix s then drop 2 s else s);
          v = int (foldl (\<lambda>a c. a * base + digit_of c) 0 ds);
          v = (if neg then - v else v)
      in if ds = [] then None else Some (v, v \<ge> 2 ^ 63 \<or> v < - (2 ^ 63)))"

text \<open>
  The result and the number, \<open>None\<close> when it was never set: the program could not be run or has no
  output.
\<close>

definition ck_get_max_num_consoles_solaris :: "solaris_view \<Rightarrow> bool \<times> nat option" where
  "ck_get_max_num_consoles_solaris S =
     (case sv_svcprop S of
        Some (Some svcprop_stdout) \<Rightarrow>
          (case strtol_any_base svcprop_stdout of
             None \<Rightarrow> (False, Some 0)
           | Some (v, erange) \<Rightarrow> if erange then (False, Some 0) else (True, Some (nat (v mod 2 ^ 32))))
      | _ \<Rightarrow> (False, None))"

definition ck_supports_activatable_consoles_solaris :: "solaris_view \<Rightarrow> bool" where
  "ck_supports_activatable_consoles_solaris S = (sv_smf_state S ''svc:/system/vtdaemon:default'' = Some ''online'')"

definition vt_prefix :: string where
  "vt_prefix = ''/dev/vt/''"

definition DEV_CONSOLE :: string where
  "DEV_CONSOLE = ''/dev/console''"

definition ck_get_console_device_for_num_solaris :: "nat \<Rightarrow> cstring" where
  "ck_get_console_device_for_num_solaris num = Some (if num = 1 then DEV_CONSOLE else vt_prefix @ dec num)"

text \<open>
  The result and the number stored, \<open>None\<close> when it is left alone. For the console device the
  stored 1 is overwritten by the 0 of the local variable.
\<close>

definition console_num_from_device_solaris :: "cstring \<Rightarrow> bool \<times> nat option" where
  "console_num_from_device_solaris device =
     (case device of
        None \<Rightarrow> (False, None)
      | Some d \<Rightarrow>
          if d = DEV_CONSOLE then (False, Some 0)
          else case scan_prefixed vt_prefix d of None \<Rightarrow> (False, Some 0) | Some n \<Rightarrow> (True, Some n))"

definition ck_get_console_num_from_device_solaris :: "cstring \<Rightarrow> nat option" where
  "ck_get_console_num_from_device_solaris device =
     (case console_num_from_device_solaris device of (True, num) \<Rightarrow> num | _ \<Rightarrow> None)"

text \<open>\<open>VT_GETSTATE\<close>; a system without it answers 1.\<close>

definition ck_get_active_console_num_solaris :: "bool \<Rightarrow> nat option \<Rightarrow> bool \<times> nat" where
  "ck_get_active_console_num_solaris has_vt r =
     (if has_vt then (case r of None \<Rightarrow> (False, 0) | Some active \<Rightarrow> (True, active)) else (True, 1))"

text \<open>
  The handler of the switch signal of Solaris. When the state cannot be read, the number is the
  one the stack held.
\<close>

definition handle_vt_active :: "nat option \<Rightarrow> nat \<Rightarrow> CkVtMonitor \<Rightarrow> CkVtMonitor" where
  "handle_vt_active state stack v =
     (let num = (case state of Some v_active \<Rightarrow> v_active | None \<Rightarrow> stack) in
      if vt_active_num v \<noteq> num
      then v\<lparr>vt_active_num := num, vt_active_changed := vt_active_changed v @ [num]\<rparr>
      else v)"

section \<open>The Hurd\<close>

record hurd_proc =
  hp_pid :: int
  hp_ppid :: int
  hp_args :: string
  hp_tty :: "cstring option"
  hp_env :: string
  hp_uid :: nat

record hurd_view =
  hv_context :: bool
  hv_proc :: "int \<Rightarrow> hurd_proc option"
  hv_flags :: "int \<Rightarrow> bool"
  hv_ttys :: "(string \<times> bool) list option"

definition get_proc_stat_from_pid :: "hurd_view \<Rightarrow> int \<Rightarrow> hurd_proc option" where
  "get_proc_stat_from_pid H pid =
     (if \<not> hv_context H then None
      else case hv_proc H pid of None \<Rightarrow> None | Some ps \<Rightarrow> if hv_flags H pid then Some ps else None)"

text \<open>The function that should give the parent reads the process id itself.\<close>

definition ck_process_stat_get_ppid_gnu :: "hurd_proc \<Rightarrow> int" where
  "ck_process_stat_get_ppid_gnu st = hp_pid st"

definition ck_process_stat_get_cmd_gnu :: "hurd_proc \<Rightarrow> string" where
  "ck_process_stat_get_cmd_gnu st = c_string (hp_args st)"

definition ck_process_stat_get_tty_gnu :: "hurd_proc \<Rightarrow> cstring" where
  "ck_process_stat_get_tty_gnu st = (case hp_tty st of None \<Rightarrow> None | Some name \<Rightarrow> name)"

definition ck_process_stat_new_for_unix_pid_gnu :: "hurd_view \<Rightarrow> int \<Rightarrow> hurd_proc option" where
  "ck_process_stat_new_for_unix_pid_gnu H pid = (if pid \<le> 1 then None else get_proc_stat_from_pid H pid)"

text \<open>
  The strings of a block of environment strings, the empty ones left out; \<open>None\<close> when the last
  one is not ended, so that \<open>strlen\<close> runs past the block.
\<close>

function block_entries :: "string \<Rightarrow> string list option" where
  "block_entries env =
     (if env = [] then Some []
      else
        let e = c_string env; rest = drop (length e) env in
        if rest = [] then None
        else map_option (\<lambda>es. if e = [] then es else e # es) (block_entries (tl rest)))"
  by pat_completeness auto
termination
  by (relation "measure length") auto

declare block_entries.simps [simp del]

definition ck_unix_pid_get_env_hash_gnu :: "hurd_view \<Rightarrow> int \<Rightarrow> (string, cstring) ghash option option" where
  "ck_unix_pid_get_env_hash_gnu H pid =
     (if pid \<le> 1 then Some None
      else case get_proc_stat_from_pid H pid of
        None \<Rightarrow> Some None
      | Some ps \<Rightarrow>
          map_option (\<lambda>es. Some (fold (\<lambda>e hash. let (n, v) = split_env e in g_hash_table_insert hash n v) es []))
            (block_entries (hp_env ps)))"

function find_in_block :: "string \<Rightarrow> string \<Rightarrow> cstring option" where
  "find_in_block prefix env =
     (if env = [] then Some None
      else
        let e = c_string env; rest = drop (length e) env in
        if rest = [] then None
        else if e \<noteq> [] \<and> has_prefix prefix e then Some (Some (drop (length prefix) e))
        else find_in_block prefix (tl rest))"
  by pat_completeness auto
termination
  by (relation "measure (length \<circ> snd)") auto

declare find_in_block.simps [simp del]

definition ck_unix_pid_get_env_gnu :: "hurd_view \<Rightarrow> int \<Rightarrow> string \<Rightarrow> cstring option" where
  "ck_unix_pid_get_env_gnu H pid var =
     (if pid \<le> 1 then Some None
      else case get_proc_stat_from_pid H pid of
        None \<Rightarrow> Some None
      | Some ps \<Rightarrow> find_in_block (var @ ''='') (hp_env ps))"

definition ck_unix_pid_get_uid_gnu :: "hurd_view \<Rightarrow> int \<Rightarrow> nat" where
  "ck_unix_pid_get_uid_gnu H pid =
     (if pid \<le> 1 then 0 else case get_proc_stat_from_pid H pid of None \<Rightarrow> 0 | Some ps \<Rightarrow> hp_uid ps)"

definition ck_unix_pid_get_ppid_gnu :: "hurd_view \<Rightarrow> int \<Rightarrow> int" where
  "ck_unix_pid_get_ppid_gnu H pid =
     (if pid \<le> 1 then 0 else case get_proc_stat_from_pid H pid of None \<Rightarrow> 0 | Some ps \<Rightarrow> hp_ppid ps)"

definition ck_get_max_num_consoles_gnu :: "hurd_view \<Rightarrow> bool \<times> nat" where
  "ck_get_max_num_consoles_gnu H =
     (case hv_ttys H of None \<Rightarrow> (False, 0) | Some ts \<Rightarrow> (True, ttys_on ''tty'' ts + 1))"

definition ck_get_console_device_for_num_gnu :: "nat \<Rightarrow> cstring" where
  "ck_get_console_device_for_num_gnu num = Some (PATH_TTY @ dec num)"

definition ck_get_console_num_from_device_gnu :: "cstring \<Rightarrow> nat option" where
  "ck_get_console_num_from_device_gnu device = (case device of None \<Rightarrow> None | Some d \<Rightarrow> scan_prefixed PATH_TTY d)"

text \<open>
  The target of the link and the bytes of the buffer behind it: \<open>readlink\<close> does not end the text.
\<close>

definition ck_get_active_console_num_gnu :: "(string \<times> string) option \<Rightarrow> bool \<times> nat" where
  "ck_get_active_console_num_gnu vcs =
     (case vcs of
        None \<Rightarrow> (False, 0)
      | Some (target, garbage) \<Rightarrow>
          if target = [] then (False, 0)
          else let p = dropWhile (\<lambda>c. \<not> is_digit c) (c_string (take 30 target @ garbage))
               in if p = [] then (False, 0) else (True, nat (fst (strtol p) mod 2 ^ 32)))"

interpretation solaris: console_port "{..<2 ^ 32} - {1}" ck_get_console_device_for_num_solaris ck_get_console_num_from_device_solaris
proof
  fix n :: nat
  assume n: "n \<in> {..<2 ^ 32} - {1}"
  have p: "length vt_prefix = 8" "take 8 DEV_CONSOLE \<noteq> vt_prefix" by (simp_all add: vt_prefix_def DEV_CONSOLE_def)
  have "vt_prefix @ dec n \<noteq> DEV_CONSOLE"
  proof
    assume "vt_prefix @ dec n = DEV_CONSOLE"
    then have "take 8 (vt_prefix @ dec n) = take 8 DEV_CONSOLE" by simp
    with p show False by simp
  qed
  with n show "ck_get_console_num_from_device_solaris (ck_get_console_device_for_num_solaris n) = Some n"
    by (simp add: ck_get_console_num_from_device_solaris_def console_num_from_device_solaris_def
        ck_get_console_device_for_num_solaris_def scan_prefixed_dec)
qed (simp add: ck_get_console_device_for_num_solaris_def)

interpretation gnu: console_port "{..<2 ^ 32}" ck_get_console_device_for_num_gnu ck_get_console_num_from_device_gnu
  by unfold_locales (simp_all add: ck_get_console_device_for_num_gnu_def ck_get_console_num_from_device_gnu_def scan_prefixed_dec)

section \<open>Lemmas\<close>

text \<open>An environment as the kernels keep it: strings that end with a null character.\<close>

definition env_block :: "string list \<Rightarrow> string" where
  "env_block es = concat (map (\<lambda>e. e @ [CHR 0x00]) es)"

definition env_strings :: "string list \<Rightarrow> bool" where
  "env_strings es = list_all (\<lambda>e. e \<noteq> [] \<and> CHR 0x00 \<notin> set e) es"

lemma c_string_ended [simp]: "CHR 0x00 \<notin> set e \<Longrightarrow> c_string (e @ CHR 0x00 # s) = e"
  by (simp add: c_string_def takeWhile_append)

lemma env_entries_skip: "CHR 0x00 \<notin> set t \<Longrightarrow> env_entries False (t @ CHR 0x00 # s) = env_entries True s"
  by (induction t) auto

lemma env_entries_block: "env_strings es \<Longrightarrow> env_entries True (env_block es) = es"
proof (induction es)
  case (Cons e es)
  then obtain c t where e: "e = c # t" "c \<noteq> CHR 0x00" "CHR 0x00 \<notin> set t" by (cases e) (auto simp: env_strings_def)
  have "c_string ((c # t) @ CHR 0x00 # env_block es) = c # t" using e by (intro c_string_ended) auto
  with e Cons show ?case by (simp add: env_block_def env_strings_def env_entries_skip)
qed (simp add: env_block_def)

lemma block_entries_block: "env_strings es \<Longrightarrow> block_entries (env_block es) = Some es"
proof (induction es)
  case (Cons e es)
  then have e: "e \<noteq> []" "CHR 0x00 \<notin> set e" by (auto simp: env_strings_def)
  then have "block_entries (e @ CHR 0x00 # env_block es) = map_option (Cons e) (block_entries (env_block es))"
    by (subst block_entries.simps) (simp add: Let_def)
  with Cons show ?case by (simp add: env_block_def env_strings_def)
qed (simp add: env_block_def block_entries.simps)

lemma find_in_block_block:
  "env_strings es \<Longrightarrow> find_in_block p (env_block es) = Some (map_option (drop (length p)) (List.find (has_prefix p) es))"
proof (induction es)
  case (Cons e es)
  then have e: "e \<noteq> []" "CHR 0x00 \<notin> set e" by (auto simp: env_strings_def)
  then have "find_in_block p (e @ CHR 0x00 # env_block es) =
      (if has_prefix p e then Some (Some (drop (length p) e)) else find_in_block p (env_block es))"
    by (subst find_in_block.simps) (simp add: Let_def)
  with Cons show ?case by (simp add: env_block_def env_strings_def)
qed (simp add: env_block_def find_in_block.simps)

text \<open>
  What \<open>pargs -e\<close> prints: a line about the process and a line for each string. A string is readable
  when its line is one line that fits the buffer and does not end in white space.
\<close>

definition pargs_print :: "nat \<times> string \<Rightarrow> string" where
  "pargs_print ie = ''envp['' @ dec (fst ie) @ '']: '' @ snd ie @ [CHR 0x0A]"

definition pargs_output :: "string \<Rightarrow> string list \<Rightarrow> string" where
  "pargs_output header es = header @ [CHR 0x0A] @ concat (map pargs_print (enumerate 0 es))"

definition pargs_readable :: "string \<Rightarrow> string list \<Rightarrow> bool" where
  "pargs_readable header es =
     (CHR 0x0A \<notin> set header \<and> length header + 1 < BUFSIZ \<and> \<not> has_prefix ''envp['' (g_strchomp (header @ [CHR 0x0A])) \<and>
      list_all (\<lambda>ie. CHR 0x0A \<notin> set (snd ie) \<and> length (pargs_print ie) < BUFSIZ \<and> \<not> is_space (last (snd ie))) (enumerate 0 es))"

lemma pargs_gets_line:
  assumes "CHR 0x0A \<notin> set l" "length l + 1 < BUFSIZ"
  shows "pargs_gets (l @ CHR 0x0A # s) = (l @ [CHR 0x0A]) # pargs_gets s"
proof -
  have "takeWhile (\<lambda>c. c \<noteq> CHR 0x0A) (l @ CHR 0x0A # s) = l" using assms(1) by (simp add: takeWhile_append)
  then have "buffer_length (l @ CHR 0x0A # s) = Suc (length l)" using assms(2) by (simp add: buffer_length_def)
  then show ?thesis by (subst pargs_gets.simps) simp
qed

lemma pargs_gets_lines:
  assumes "list_all (\<lambda>ie. CHR 0x0A \<notin> set (snd ie) \<and> length (pargs_print ie) < BUFSIZ) ies"
  shows "pargs_gets (concat (map pargs_print ies)) = map pargs_print ies"
  using assms
proof (induction ies)
  case (Cons ie ies)
  define l where "l = ''envp['' @ dec (fst ie) @ '']: '' @ snd ie"
  have print: "pargs_print ie = l @ [CHR 0x0A]" by (simp add: l_def pargs_print_def)
  have "CHR 0x0A \<notin> set (dec (fst ie))" using dec_all_digits [of "fst ie"] by (auto simp: list_all_iff is_digit_def)
  then have l: "CHR 0x0A \<notin> set l" "length l + 1 < BUFSIZ" using Cons(2) print by (simp_all add: l_def)
  show ?case using Cons pargs_gets_line [OF l] print by simp
qed (simp add: pargs_gets.simps)

lemma pargs_line_print:
  assumes "e \<noteq> []" "\<not> is_space (last e)"
  shows "pargs_line (pargs_print (i, e)) h = (let (n, v) = split_env e in g_hash_table_insert h n v)"
proof -
  let ?t = "''envp['' @ dec i @ '']: '' @ e"
  have "is_space CHR 0x0A" by (simp add: is_space_def)
  then have c: "g_strchomp (pargs_print (i, e)) = ?t"
    using assms by (simp add: g_strchomp_def pargs_print_def) (cases e rule: rev_cases; simp)
  have p: "has_prefix ''envp['' ?t" by (simp add: has_prefix_def)
  have nd: "CHR '' '' \<notin> set (dec i)" using dec_all_digits [of i] by (auto simp: list_all_iff is_digit_def)
  have "g_strstr '' '' ((''envp['' @ dec i @ '']:'') @ '' '' @ e) = g_strstr '' '' ('' '' @ e)"
    using nd by (intro g_strstr_skip) auto
  also have "\<dots> = Some ('' '' @ e)" by simp
  finally have "g_strstr '' '' ?t = Some (CHR '' '' # e)" by simp
  with c p show ?thesis by (simp add: pargs_line_def Let_def)
qed

lemma pargs_lines:
  "env_strings es \<Longrightarrow> list_all (\<lambda>ie. \<not> is_space (last (snd ie))) (enumerate k es) \<Longrightarrow>
   fold pargs_line (map pargs_print (enumerate k es)) h =
    fold (\<lambda>e h. let (n, v) = split_env e in g_hash_table_insert h n v) es h"
  by (induction es arbitrary: k h) (auto simp: env_strings_def pargs_line_print)

lemma pargs_table:
  assumes "env_strings es" "pargs_readable header es"
  shows "fold pargs_line (pargs_gets (pargs_output header es)) [] = env_table es"
proof -
  note p = assms(2) [unfolded pargs_readable_def]
  have "pargs_gets (pargs_output header es) = (header @ [CHR 0x0A]) # map pargs_print (enumerate 0 es)"
    using p pargs_gets_line [of header] pargs_gets_lines [of "enumerate 0 es"] by (simp add: pargs_output_def list_all_iff)
  moreover have "pargs_line (header @ [CHR 0x0A]) h = h" for h using p by (simp add: pargs_line_def Let_def)
  ultimately show ?thesis using pargs_lines [OF assms(1)] p by (simp add: env_table_def list_all_iff)
qed

lemma bsd_table:
  assumes "env_strings es" "bv_kvm V" "bv_kinfo V pid \<noteq> None" "bv_env V pid = Some es"
  shows "ck_unix_pid_get_env_hash_freebsd V pid = Some (env_table es)"
proof -
  have "fold (\<lambda>e h. if e = [] then h else let (n, v) = split_env e in g_hash_table_insert h n v) es [] = env_table es"
    unfolding env_table_def using assms(1) by (intro fold_cong) (auto simp: env_strings_def list_all_iff)
  with assms(2-) show ?thesis by (auto simp: ck_unix_pid_get_env_hash_freebsd_def get_kinfo_proc_def)
qed

section \<open>Properties\<close>


text \<open>
  C33: On every port the number of a console can be read back from its device name, and different consoles have
  different names: on FreeBSD and DragonFly for the 32 consoles that have one, elsewhere for
  every 32-bit number, except that Solaris refuses the name it gives to console 1.
\<close>

theorem port_consoles_roundtrip:
  assumes "n < 2 ^ 32"
  shows "ck_get_console_num_from_device_freebsd (ck_get_console_device_for_num_freebsd n) = (if n \<in> {1..32} then Some n else None) \<and>
    ck_get_console_num_from_device_dragonfly (ck_get_console_device_for_num_dragonfly n) = (if n \<in> {1..32} then Some n else None) \<and>
    ck_get_console_num_from_device_openbsd (ck_get_console_device_for_num_openbsd n) = Some n \<and>
    ck_get_console_num_from_device_netbsd (ck_get_console_device_for_num_netbsd n) = Some n \<and>
    ck_get_console_num_from_device_gnu (ck_get_console_device_for_num_gnu n) = Some n \<and>
    ck_get_console_num_from_device_solaris (ck_get_console_device_for_num_solaris n) = (if n = 1 then None else Some n)"
proof -
  have f: "ck_get_console_num_from_device_freebsd (ck_get_console_device_for_num_freebsd n) = (if n \<in> {1..32} then Some n else None)"
  proof (cases "n \<in> {1..32}")
    case True
    then show ?thesis using freebsd.read_back [OF True] by simp
  next
    case False
    then show ?thesis using ttyv_none [OF assms False] by (simp add: ck_get_console_num_from_device_freebsd_def)
  qed
  have s: "ck_get_console_num_from_device_solaris (ck_get_console_device_for_num_solaris n) = (if n = 1 then None else Some n)"
  proof (cases "n = 1")
    case True
    then show ?thesis by (simp add: ck_get_console_num_from_device_solaris_def console_num_from_device_solaris_def ck_get_console_device_for_num_solaris_def)
  next
    case False
    then show ?thesis using solaris.read_back [of n] assms by simp
  qed
  have "n \<in> {..<2 ^ 32}" using assms by simp
  note r = openbsd.read_back [OF this] netbsd.read_back [OF this] gnu.read_back [OF this]
  show ?thesis
    using f r s unfolding ck_get_console_device_for_num_dragonfly_def ck_get_console_num_from_device_dragonfly_def by (intro conjI)
qed

text \<open>
  The consoles the monitor watches on each port: every console device of FreeBSD and DragonFly and
  every enabled console of the Hurd, and one more on OpenBSD. The NetBSD port does not count
  one more than there are, so its last console is never watched.
\<close>

theorem watched_consoles_of_ports:
  assumes "bv_ttys V = Some ts" "hv_ttys H = Some hts"
  shows "set (watched_consoles (ck_get_max_num_consoles_freebsd V)) = {1..length (takeWhile snd (bv_glob V))} \<and>
    set (watched_consoles (ck_get_max_num_consoles_dragonfly V)) = {1..length (takeWhile snd (bv_glob V))} \<and>
    set (watched_consoles (snd (ck_get_max_num_consoles_openbsd V))) = {1..ttys_on ''ttyC'' ts + 1} \<and>
    set (watched_consoles (snd (ck_get_max_num_consoles_gnu H))) = {1..ttys_on ''tty'' hts} \<and>
    set (watched_consoles (snd (ck_get_max_num_consoles_netbsd V))) = {1..<ttys_on ''ttyE'' ts}"
  using assms
  by (auto simp: ck_get_max_num_consoles_freebsd_def ck_get_max_num_consoles_dragonfly_def ck_get_max_num_consoles_openbsd_def
      ck_get_max_num_consoles_gnu_def ck_get_max_num_consoles_netbsd_def)

text \<open>
  A process without a controlling terminal: OpenBSD and NetBSD report none, while FreeBSD,
  DragonFly and Solaris report the name of a device that does not exist.
\<close>

theorem missing_terminal_reports:
  assumes "pid > 1" "bv_kinfo V pid = Some p" "kp_pid p = pid" "kp_tdev p = NODEV"
    and "sv_psinfo S pid = Some q" "pr_pid q = pid" "pr_ttymajor q = - 1" "pr_ttyminor q = - 1"
  shows "map_option ck_process_stat_get_tty_freebsd (ck_process_stat_new_for_unix_pid_freebsd V pid) = Some (Some ''/dev/   ?   '') \<and>
    map_option ck_process_stat_get_tty_dragonfly (ck_process_stat_new_for_unix_pid_dragonfly V pid) = Some (Some ''/dev/   ?   '') \<and>
    map_option ck_process_stat_get_tty_solaris (the (ck_process_stat_new_for_unix_pid_solaris S e pid)) = Some ''   ?   '' \<and>
    map_option (ck_process_stat_get_tty_openbsd V) (ck_process_stat_new_for_unix_pid_openbsd V pid) = Some None \<and>
    map_option (ck_process_stat_get_tty_netbsd V) (ck_process_stat_new_for_unix_pid_netbsd V pid) = Some None"
proof -
  have f: "map_option ck_process_stat_get_tty_freebsd (ck_process_stat_new_for_unix_pid_freebsd V pid) = Some (Some ''/dev/   ?   '')"
    using assms by (simp add: ck_process_stat_new_for_unix_pid_freebsd_def stat2proc_freebsd_def get_kinfo_proc_def Let_def
        zero_tty_stat_def zero_stat_def tty_process_stat.defs CkProcessStat.defs
        ck_process_stat_get_tty_freebsd_def PATH_DEV_def c_string_def copied_text_def no_terminal_text_def split: option.splits)
  have d: "ck_process_stat_new_for_unix_pid_dragonfly V pid = ck_process_stat_new_for_unix_pid_freebsd V pid"
    by (simp add: ck_process_stat_new_for_unix_pid_dragonfly_def ck_process_stat_new_for_unix_pid_freebsd_def stat2proc_dragonfly_def)
  show ?thesis
    using assms f
    by (simp add: d ck_process_stat_get_tty_dragonfly_def ck_process_stat_new_for_unix_pid_solaris_def stat2proc_solaris_def
        ck_process_stat_get_tty_solaris_def NO_TTY_VALUE_def Let_def no_terminal_text_def c_string_def
        zero_tty_stat_def zero_stat_def tty_process_stat.defs CkProcessStat.defs
        ck_process_stat_new_for_unix_pid_openbsd_def stat2proc_openbsd_def get_kinfo_proc_openbsd_def ck_process_stat_get_tty_openbsd_def
        ck_process_stat_new_for_unix_pid_netbsd_def stat2proc_netbsd_def get_kinfo_proc2_def ck_process_stat_get_tty_netbsd_def
        as_signed_def NODEV_def)
qed

text \<open>
  C38: The device number the ports store is the Linux one: its major and minor numbers, taken apart the
  way the Linux port does, are those the kernel gave, up to 12 and 20 bits.
\<close>

theorem device_number_encoding:
  assumes "0 \<le> M" "M < 2 ^ 12" "0 \<le> m" "m < 2 ^ 20"
  shows "MAJOR_OF (DEV_ENCODE M m) = word_of_int M \<and> MINOR_OF (DEV_ENCODE M m) = word_of_int m"
proof -
  have masks: "(0xFFF :: 32 word) = mask 12" "(0xFF :: 32 word) = mask 8" "(0xFFF00 :: 32 word) = push_bit 8 (mask 12)"
    by (simp_all add: mask_eq_exp_minus_1 push_bit_eq_mult)
  have high: "\<not> bit M i" if "12 \<le> i" for i
  proof -
    have "M < 2 ^ i" using assms(2) that by (meson less_le_trans one_le_numeral power_increasing)
    then show ?thesis using assms(1) by (simp add: bit_iff_odd)
  qed
  have high': "\<not> bit m i" if "20 \<le> i" for i
  proof -
    have "m < 2 ^ i" using assms(4) that by (meson less_le_trans one_le_numeral power_increasing)
    then show ?thesis using assms(3) by (simp add: bit_iff_odd)
  qed
  have enc: "bit (DEV_ENCODE M m) i \<longleftrightarrow> 8 \<le> i \<and> i < 20 \<and> bit M (i - 8) \<or> 20 \<le> i \<and> i < 32 \<and> bit m (i - 12) \<or> i < 8 \<and> bit m i" for i
    by (auto simp: DEV_ENCODE_def masks bit_or_iff bit_and_iff bit_push_bit_iff bit_mask_iff bit_word_of_int_iff possible_bit_word)
  have "MAJOR_OF (DEV_ENCODE M m) = word_of_int M"
    by (rule bit_eqI) (use high in \<open>auto simp: bit_MAJOR_OF enc bit_word_of_int_iff intro: ccontr\<close>)
  moreover have "MINOR_OF (DEV_ENCODE M m) = word_of_int m"
    by (rule bit_eqI) (use high' in \<open>auto simp: bit_MINOR_OF enc bit_word_of_int_iff intro: ccontr\<close>)
  ultimately show ?thesis ..
qed

theorem device_number_encoding_witness:
  "MAJOR_OF (DEV_ENCODE 4 300) = 4 \<and> MINOR_OF (DEV_ENCODE 4 300) = 300"
  using device_number_encoding [of 4 300] by simp

text \<open>
  A user that cannot be found out is root on the Hurd, while the other ports answer
  with the user id that stands for none.
\<close>

theorem unknown_user_is_root_on_hurd:
  assumes "pid > 1" "get_proc_stat_from_pid H pid = None" "bv_kinfo V pid = None" "sv_uid S pid = None"
  shows "ck_unix_pid_get_uid_gnu H pid = 0 \<and> ck_unix_pid_get_uid_freebsd V pid = 2 ^ 32 - 1 \<and>
    ck_unix_pid_get_uid_dragonfly V pid = 2 ^ 32 - 1 \<and> ck_unix_pid_get_uid_openbsd V pid = 2 ^ 32 - 1 \<and>
    ck_unix_pid_get_uid_netbsd V pid = 2 ^ 32 - 1 \<and> ck_unix_pid_get_uid_solaris S pid = 2 ^ 32 - 1"
  using assms by (simp add: ck_unix_pid_get_uid_gnu_def ck_unix_pid_get_uid_freebsd_def ck_unix_pid_get_uid_dragonfly_def
      ck_unix_pid_get_uid_openbsd_def ck_unix_pid_get_uid_netbsd_def ck_unix_pid_get_uid_solaris_def get_kinfo_proc_def)

text \<open>
  The number of the active console on the Hurd, when the buffer happens to be clean behind the
  link: the digits at the end of the target. A digit left over behind it changes the number.
\<close>

theorem hurd_active_console:
  assumes "n < 2 ^ 31"
  shows "ck_get_active_console_num_gnu (Some (''/dev/vcs/'' @ dec n, CHR 0x00 # g)) = (True, n)"
proof -
  have "n < 10 ^ 10" using assms by simp
  then have l: "length (dec n) \<le> 10" using length_dec [of n 9] by simp
  have t: "take 30 (''/dev/vcs/'' @ dec n) = ''/dev/vcs/'' @ dec n" using l by simp
  have "CHR 0x00 \<notin> set (dec n)" using dec_all_digits [of n] by (auto simp: list_all_iff is_digit_def)
  then have "c_string ((''/dev/vcs/'' @ dec n) @ CHR 0x00 # g) = ''/dev/vcs/'' @ dec n" by (intro c_string_ended) auto
  moreover have "dropWhile (\<lambda>c. \<not> is_digit c) (''/dev/vcs/'' @ dec n) = dec n"
    using dec_all_digits [of n] dec_nonempty [of n] by (cases "dec n") (auto simp: is_digit_def)
  moreover have "strtol (dec n) = (int n, False)" using strtol_digits(1) [of "dec n" "[]"] assms by simp
  ultimately show ?thesis
    unfolding ck_get_active_console_num_gnu_def option.case prod.case t Let_def using assms by (simp add: nat_mod_distrib)
qed

lemma hurd_stale_digit:
  "ck_get_active_console_num_gnu (Some (''/dev/vcs/1'', ''7'' @ [CHR 0x00])) = (True, 17)"
  by code_simp

section \<open>Witnesses\<close>

definition ports_env :: "string list" where
  "ports_env = [''HOME=/root'', ''TERM=cons25'']"

definition sample_kinfo :: kinfo_proc where
  "sample_kinfo = \<lparr>kp_comm = ''sh'', kp_pid = 42, kp_ppid = 7, kp_pgid = 42, kp_sid = 42, kp_rssize = 9, kp_size = 9, kp_dsize = 4,
     kp_ssize = 2, kp_start_sec = 100, kp_wchan = 0, kp_stat = 2, kp_nice = 0, kp_flag = 0, kp_tpgid = 42, kp_cpu = 0,
     kp_threads = 1, kp_tdev = - 1, kp_uid = 1000\<rparr>"

definition sample_bsd :: bsd_view where
  "sample_bsd = \<lparr>bv_kinfo = (\<lambda>pid. if pid = 42 then Some sample_kinfo else None), bv_major = (\<lambda>_. - 1), bv_minor = (\<lambda>_. - 1),
     bv_devname = (\<lambda>_. None), bv_kvm = True, bv_env = (\<lambda>_. Some ports_env), bv_sysctl_size = (\<lambda>_. False), bv_sysctl = (\<lambda>_. None),
     bv_glob = [(''/dev/ttyv0'', True), (''/dev/ttyv1'', True)],
     bv_ttys = Some [(''ttyE0'', True), (''ttyE1'', True), (''ttyC0'', True), (''ttyC4'', False)],
     bv_is_socket = (\<lambda>_. None), bv_apm = False, bv_version = 1400000\<rparr>"

definition sample_psinfo :: psinfo where
  "sample_psinfo = \<lparr>pr_fname = ''sh'', pr_pid = 42, pr_ppid = 7, pr_pgid = 42, pr_sid = 42, pr_rssize = 9, pr_size = 9, pr_start_sec = 100,
     pr_wchan = 0, pr_sname = 0, pr_nice = 0, pr_pri = 0, pr_ttymajor = - 1, pr_ttyminor = - 1\<rparr>"

definition sample_solaris :: solaris_view where
  "sample_solaris = \<lparr>sv_psinfo = (\<lambda>_. Some sample_psinfo), sv_vt_major = None, sv_pargs = (\<lambda>_. Some (pargs_output ''42:'' ports_env)),
     sv_uid = (\<lambda>_. None), sv_svcprop = None, sv_smf_state = (\<lambda>_. None)\<rparr>"

definition sample_hurd_proc :: hurd_proc where
  "sample_hurd_proc = \<lparr>hp_pid = 42, hp_ppid = 7, hp_args = ''sh'', hp_tty = None, hp_env = env_block ports_env, hp_uid = 1000\<rparr>"

definition sample_hurd :: hurd_view where
  "sample_hurd = \<lparr>hv_context = True, hv_proc = (\<lambda>pid. if pid = 42 then Some sample_hurd_proc else None), hv_flags = (\<lambda>_. True),
     hv_ttys = Some [(''tty1'', True)]\<rparr>"

definition sample_linux :: kernel_view where
  "sample_linux = \<lparr>proc_stat = (\<lambda>_. None), proc_environ = (\<lambda>_. Some (env_block ports_env)), proc_sessionid = (\<lambda>_. None),
     proc_uid = (\<lambda>_. None), tty_drivers = None, read_link = (\<lambda>_. None), stat_rdev = (\<lambda>_. None)\<rparr>"


theorem port_consoles_roundtrip_witness:
  "ck_get_console_num_from_device_freebsd (Some ''/dev/ttyvb'') = Some 12 \<and>
   ck_get_console_num_from_device_solaris (ck_get_console_device_for_num_solaris 1) = None"
proof -
  have b: "char_of (98 :: nat) = CHR ''b''" by code_simp
  have "ck_get_console_device_for_num_freebsd 12 = Some ''/dev/ttyvb''"
    using ttyv_device [of 11] b by (simp add: ttyv_prefix_def)
  with port_consoles_roundtrip [of 12] port_consoles_roundtrip [of 1] show ?thesis by simp
qed

theorem watched_consoles_of_ports_witness:
  "set (watched_consoles (ck_get_max_num_consoles_freebsd sample_bsd)) = {1..2} \<and>
   set (watched_consoles (snd (ck_get_max_num_consoles_netbsd sample_bsd))) = {1..<2}"
proof -
  have "hv_ttys sample_hurd = Some [(''tty1'', True)]" by (simp add: sample_hurd_def)
  moreover have "ttys_on ''ttyE'' (the (bv_ttys sample_bsd)) = 2"
    by (simp add: sample_bsd_def ttys_on_def has_prefix_def)
  ultimately show ?thesis
    using watched_consoles_of_ports [of sample_bsd "the (bv_ttys sample_bsd)" sample_hurd] by (simp add: sample_bsd_def numeral_2_eq_2)
qed

theorem missing_terminal_reports_witness:
  "map_option ck_process_stat_get_tty_freebsd (ck_process_stat_new_for_unix_pid_freebsd sample_bsd 42) = Some (Some ''/dev/   ?   '') \<and>
   map_option (ck_process_stat_get_tty_openbsd sample_bsd) (ck_process_stat_new_for_unix_pid_openbsd sample_bsd 42) = Some None"
  using missing_terminal_reports [of 42 sample_bsd sample_kinfo sample_solaris sample_psinfo False]
  by (simp add: sample_bsd_def sample_kinfo_def sample_solaris_def sample_psinfo_def NODEV_def)

theorem unknown_user_is_root_on_hurd_witness:
  "ck_unix_pid_get_uid_gnu sample_hurd 43 = 0 \<and> ck_unix_pid_get_uid_freebsd sample_bsd 43 = 2 ^ 32 - 1"
  using unknown_user_is_root_on_hurd [of 43 sample_hurd sample_bsd sample_solaris]
  by (simp add: sample_hurd_def sample_bsd_def sample_solaris_def get_proc_stat_from_pid_def)

theorem hurd_active_console_witness:
  "ck_get_active_console_num_gnu (Some (''/dev/vcs/4'', [CHR 0x00])) = (True, 4)"
proof -
  have "dec 4 = ''4''" by code_simp
  with hurd_active_console [of 4 "[]"] show ?thesis by simp
qed

end
