(* ===== verification/Spec2Isabelle.thy ===== *)
theory Spec2Isabelle
  imports CK_InhibitManager CK_Seat CK_LogEvent CK_SessionLeader CK_ManagerSessions CK_Job CK_EventLogger CK_CollectInfo CK_History CK_RuntimeDir CK_RunPrograms CK_FileMonitor CK_Connector CK_UdevAcl CK_Client CK_Tools CK_Ports
begin

text \<open>
  ConsoleKit2 keeps track of the users of a machine. A daemon (src/src) answers on the system bus:
  it opens and closes \<^emph>\<open>sessions\<close>, groups them into \<^emph>\<open>seats\<close>, follows the active virtual
  terminal of the first seat, gives a session its devices, holds \<^emph>\<open>inhibit locks\<close>, and restarts,
  stops or suspends the machine. Helpers and clients surround it: a program that looks at the process
  behind a request, a PAM module and a connector library that register logins, libraries and tools that ask
  about sessions, a program that sets the access control lists of devices, and a reader of the history log.
  This development models these parts as functions on explicit states and proves what they promise.

  \<^bold>\<open>How the parts work together.\<close> A login asks the manager for a session through the connector. The manager
  makes a session leader and runs the helper as a job; when the job ends, its output and the parameters of the
  caller are merged, a session is created, put on a seat and announced. The seat follows the console monitor and
  activates sessions, which pause and resume their devices. Every change is written to the event log and to
  the database file, and the programs of the run directories are started, among them the one for device access. A
  connection that goes away takes its sessions along. Shutdown requests are asked from the authority and wait for
  inhibit locks.

  \<^bold>\<open>The theories\<close>, in the order of their imports.
  \<^item> \<open>CK_Prelude\<close>: strings with NULL, the hash tables of GLib, decimal numbers, list sorting;
    the locales \<open>hash_table\<close> and \<open>machine\<close> (a step function with an invariant: reachable states by
    induction over runs).
  \<^item> \<open>CK_Text\<close>: reading numbers and words as \<open>sscanf\<close> and \<open>strtoul\<close> do.
  \<^item> \<open>CK_Inhibit\<close>, \<open>CK_InhibitManager\<close> (ck-inhibit.c, ck-inhibit-manager.c): a lock with its pipe, the
    counters per mode and event, and the signals that announce changes. A lock that is held counts as
    inhibited, announcements and counters agree in every reachable state, taking and releasing a lock for one event restores
    the counters; locks for several events leak a count.
  \<^item> \<open>CK_TtyIdle\<close> (ck-tty-idle-monitor.c), \<open>CK_Device\<close> (ck-device-udev.c, ck-device-none.c), \<open>CK_Session\<close> (ck-session.c): a session
    with its properties, its bus methods, its controller and its devices. An inactive session has no active device,
    the methods of the controller refuse every other caller, and the environment array of the session programs is too short.
  \<^item> \<open>CK_VtMonitor\<close> (ck-vt-monitor.c): one waiting thread per console and the events they queue.
  \<^item> \<open>CK_Seat\<close> (ck-seat.c): sessions and seats on a heap, activation over the console monitor. Signals
    call back into an observer; its laws are the locales \<open>seat_observer\<close> and \<open>seat_frame\<close>, interpreted on the manager.
  \<^item> \<open>CK_LogEvent\<close> (ck-log-event.c): the lines of the history; every event that can be written is read back.
  \<^item> \<open>CK_SessionLeader\<close> (ck-session-leader.c): merging of parameters, with their types.
  \<^item> \<open>CK_Manager\<close>, \<open>CK_SystemAction\<close>, \<open>CK_ManagerSessions\<close> (ck-manager.c): first the state, serial numbers, log,
    database and seat signals; then system actions with authorization and inhibitors, refined to an
    abstract machine of phases; then opening, closing and looking up sessions. A session opened is found under
    its cookie and gone after closing, only its leader closes it, a lost connection removes its sessions, no local session
    comes from callers without trust, and the system idle hint is exact.
  \<^item> \<open>CK_Job\<close> (ck-job.c), \<open>CK_EventLogger\<close> (ck-event-logger.c), \<open>CK_RunPrograms\<close> (ck-run-programs.c),
    \<open>CK_FileMonitor\<close> (ck-file-monitor-inotify.c, -dummy.c): the services the daemon uses. A job completes once with its output, the
    log holds every event in order, programs run in order with shared data released once, file
    events reach the notifications that select them; a callback that removes itself crashes.
  \<^item> \<open>CK_Sysdeps\<close> (ck-sysdeps-linux.c) and \<open>CK_CollectInfo\<close> (ck-collect-session-info.c): what is read from the
    kernel, and the helper whose output the daemon reads back. \<open>CK_RuntimeDir\<close> (ck-sysdeps-unix.c,
    ck-remove-directory.c): consoles and runtime directories. \<open>CK_Bsd\<close> (ck-sysdeps-freebsd.c, -dragonfly.c, -openbsd.c,
    -netbsd.c) and \<open>CK_Ports\<close> (ck-sysdeps-solaris.c, -gnu.c): the ports, with the port as suffix of the name. What a
    port promises about its consoles is the locale \<open>console_port\<close>, interpreted on all seven systems; console names and
    environments are read back alike everywhere, and the places where a port falls short are proved as they are.
  \<^item> \<open>CK_History\<close> (ck-history.c): the reports on the log, over rotated and compressed files.
  \<^item> \<open>CK_Connector\<close> (ck-connector.c, pam-ck-connector.c), \<open>CK_Client\<close> (libconsolekit.c, sd-compat.c,
    list-sessions.c), \<open>CK_UdevAcl\<close> (udev-acl.c): the clients. Their bus is a record of functions; what they rely
    on are the locales \<open>session_service\<close> and \<open>query_service\<close>, interpreted on the model of the daemon, so that a login is
    registered with the manager itself, queries return what the daemon holds, and access to devices follows the active
    session of the daemon through its environment and database.
  \<^item> \<open>CK_Tools\<close>: the programs that write system events (ck-log-system-start.c, -stop.c, -restart.c), run a command inside
    a session (ck-launch-session.c) and print what X tells about its server (ck-get-x11-display-device.c, ck-get-x11-server-pid.c),
    process groups (ck-process-group.c), the message log (ck-log.c), the start of the daemon and its life with signals
    (main.c). System events reach the history, a launched command has the cookie of its session, errors are always
    logged, and a debug signal switches the debug messages over once.
  \<^item> The root theory joins the manager, the event logger and the reports: a switch of the console, once its event is
    written, is the newest event of the report, whatever renaming of the log file comes in between.

  \<^bold>\<open>Conventions.\<close> A private structure is a record with the names of the fields; objects shared by
  pointers live at addresses of a heap. Operations are functions on these states with every branch of the source; an operation that
  can crash, fail an assertion or not return has an \<open>option\<close> as result, and \<open>None\<close> is that fault. Answers of the kernel,
  of libraries, of other processes and the clock are inputs, collected in records (\<open>session_env\<close>, \<open>manager_env\<close>,
  \<open>kernel_view\<close> and so on); where a property relies on one, a hypothesis says what. Events that come in any order are a
  datatype per component with a step function, and invariants hold on every run of it (the interpretations of \<open>machine\<close>). Log
  messages for debugging are left out.

  \<^bold>\<open>Bounds.\<close> The callbacks of inhibit signals nest at most \<open>signal_depth\<close> deep, which is 2: a callback
  removes a lock and removal emits the last signals. Serial numbers are 32-bit words that wrap after 2^31 values; the search for a
  free name ends since fewer names than that are taken. Loops that may run on (searching names, counting rotated files)
  are partial functions, and the properties state that they return. Loops that retry a system call consume a list of
  its results. The loop over notifications has fuel, the length of the list suffices.

  \<^bold>\<open>Not modelled.\<close> Class initialization, finalization of objects without effects, freeing of memory,
  generated bus code and translations have no behaviour of their own; warnings are left out, and so are the programs that
  test the others. Where a file has alternatives chosen by the build, the one for Linux with udev, inotify, PolicyKit
  and cgmanager is modelled beside the ports: the checks with RBAC, the kernel event queue of sd-compat.c, SELinux
  contexts and the console signal of one patched kernel are not.
\<close>

section \<open>From a console switch to the report on the history\<close>

text \<open>
  The report program reads the disk of the event logger: the newest file under the name of the
  log, the older ones under the names of rotation, the newest of them first.
\<close>

definition disk_text :: "CkEventLogger \<Rightarrow> nat \<Rightarrow> string" where
  "disk_text l i = concat (map (\<lambda>line. line @ [CHR 0x0A]) (log_disk l i))"

definition reads_disk :: "history_env \<Rightarrow> CkEventLogger \<Rightarrow> bool" where
  "reads_disk H l =
     (log_inodes l > 0 \<and> hv_file H DEFAULT_LOG_FILENAME = Some (disk_text l (log_inodes l - 1)) \<and>
      list_all (\<lambda>k. case rotated_file H k of
          None \<Rightarrow> False
        | Some f \<Rightarrow> file_contents H f = Some (disk_text l (log_inodes l - 1 - k))) [1..<log_inodes l] \<and>
      rotated_file H (log_inodes l) = None)"

lemma split_map_concat: "concat ls = map f es \<Longrightarrow> \<exists>ess. ls = map (map f) ess \<and> concat ess = es"
proof (induction ls arbitrary: es)
  case (Cons l ls)
  then have "l = map f (take (length l) es)" "concat ls = map f (drop (length l) es)"
    by (simp_all add: append_eq_conv_conj take_map drop_map)
  moreover from Cons.IH [OF this(2)] obtain ess where "ls = map (map f) ess" "concat ess = drop (length l) es" by blast
  ultimately show ?case by (intro exI [of _ "take (length l) es # ess"]) auto
qed simp

lemma disk_holds_logs:
  assumes "reads_disk H l" "history l = map event_line es"
  shows "\<exists>logs. holds_logs H logs \<and> concat (rev logs) = es"
proof -
  let ?n = "log_inodes l"
  obtain ess where ess: "map (log_disk l) [0..<?n] = map (map event_line) ess" "concat ess = es"
    using split_map_concat [of "map (log_disk l) [0..<?n]" event_line es] assms(2) by (auto simp: history_def)
  have n: "length ess = ?n" using arg_cong [OF ess(1), of length] by simp
  have dtext: "disk_text l i = file_text (ess ! i)" if "i < ?n" for i
  proof -
    have "log_disk l i = map event_line (ess ! i)" using arg_cong [OF ess(1), of "\<lambda>x. x ! i"] that n by simp
    then show ?thesis by (simp add: disk_text_def file_text_def event_line_def event_text_def comp_def)
  qed
  have "rev ess ! k = ess ! (?n - 1 - k)" if "k < ?n" for k using that n by (simp add: rev_nth)
  then have "disk_text l (?n - 1 - k) = file_text (rev ess ! k)" if "k < ?n" for k using dtext [of "?n - 1 - k"] that by simp
  then have "holds_logs H (rev ess)"
    using assms(1) n by (auto simp: reads_disk_def holds_logs_def list_all_iff split: option.splits)
  then show ?thesis using ess(2) by (intro exI [of _ "rev ess"]) simp
qed

lemma report_of_disk:
  assumes "reads_disk H l" "history l = map event_line es" "list_all one_line_event es"
  shows "\<exists>res. process_logs H None = Some (res, rev (map read_event (filter (\<lambda>e. \<not> unread_event e) es)))"
proof -
  obtain logs where logs: "holds_logs H logs" "concat (rev logs) = es" using disk_holds_logs [OF assms(1,2)] by blast
  have ok: "list_all (list_all one_line_event) logs" using assms(3) logs(2) by (auto simp: list_all_iff)
  obtain files where f: "get_log_file_list H = Some files" "list_all2 (\<lambda>f es. file_contents H f = Some (file_text es)) files logs"
    using log_file_list [OF logs(1)] by blast
  have "snd (process_files H None files []) = rev (kept None es)"
    using process_files_written [OF f(2) ok, of None "[]"] logs(2) by simp
  then show ?thesis using f(1)
    by (cases "process_files H None files []") (simp add: process_logs_def kept_def too_old_def rev_map)
qed

lemma change_active_stamp:
  assumes "st_active_session (seats w st) \<noteq> a" "st \<in> set (seat_handlers w)"
  shows "event_log (change_active_session (mv_seat E) (on_seat_signal E) st a w) = event_log w @
    [\<lparr>le_timestamp = mv_now E, le_event = Ev_Seat_Active_Session_Changed (st_id (seats w st)) (case a of None \<Rightarrow> None | Some x \<Rightarrow> s_id (sess w x))\<rparr>]"
proof -
  have h: "seat_handlers (upd_seat st g v) = seat_handlers v" "seat_handlers (set_active F b act force v) = seat_handlers v"
    for g F b act force and v :: manager_world
    by (rule booksD [OF books_update(2)], rule booksD [OF mgr.F_set_active])
  show ?thesis using assms
    by (auto simp: change_active_session_def on_seat_active_session_changed_full_def log_seat_active_session_changed_event_def
        log_event_def ck_seat_get_id_def ck_session_get_id_def h Let_def split: option.splits)
qed


text \<open>A switch to the third console of a manager with three sessions, and its report.\<close>

definition switch_event :: CkLogEvent where
  "switch_event = \<lparr>le_timestamp = (100, 0), le_event = Ev_Seat_Active_Session_Changed (Some ''seat0'') (Some ''Session3'')\<rparr>"

definition switch_ops :: "logger_event list" where
  "switch_ops = [Queue_Event switch_event, Check_Next sample_lenv, Print_Next sample_lenv]"

lemma switch_stamp:
  "\<lparr>le_timestamp = mv_now sample_menv, le_event = Ev_Seat_Active_Session_Changed (st_id (seats sample_manager 0))
     (case Some 2 of None \<Rightarrow> None | Some x \<Rightarrow> s_id (sess sample_manager x))\<rparr> = switch_event"
  by (simp add: switch_event_def sample_manager_def sample_world_def tty_session_def ck_session_init_def ck_seat_new_def
      ck_seat_constructor_def ck_seat_set_kind_def ck_seat_set_id_def Let_def) (simp add: sample_menv_def)

lemma switch_logged:
  "event_log (active_vt_changed (mv_seat sample_menv) (on_seat_signal sample_menv) 0 3 sample_manager) = [switch_event]"
proof -
  have d: "ck_get_console_device_for_num 3 = ''/dev/tty3''" by code_simp
  have E: "mv_seat sample_menv = sample_seat_env" by (simp add: sample_menv_def)
  have "st_active_session (seats sample_manager 0) \<noteq> Some 2" "0 \<in> set (seat_handlers sample_manager)"
    by (simp_all add: sample_manager_fields)
  from change_active_stamp [OF this, of sample_menv] show ?thesis unfolding switch_stamp
    by (simp add: active_vt_changed_def update_active_vt_def d E sample_manager_find sample_manager_fields)
qed

lemma switch_event_line: "one_line_event switch_event" "ck_log_event_to_string switch_event \<noteq> None"
proof -
  have "event_text switch_event = ''100.000 type=SEAT_ACTIVE_SESSION_CHANGED : seat-id='' @ apos # ''seat0'' @ apos # '' session-id='' @ apos # ''Session3'' @ [apos]"
    by code_simp
  then show "one_line_event switch_event"
    by (simp add: one_line_event_def) (simp add: switch_event_def id_char_def is_digit_def is_alpha_def)
  show "ck_log_event_to_string switch_event \<noteq> None" by (simp add: switch_event_def ck_log_event_to_string_def)
qed

lemma switch_written:
  "\<exists>l0 l. ck_event_logger_new sample_lenv (\<lambda>_. []) None 0 = Some l0 \<and> run logger_step switch_ops l0 = Some l \<and>
     pending_lines l = [] \<and> log_inodes l = 1"
  using writable_copied [OF switch_event_line(2)]
  by (simp add: switch_ops_def ck_event_logger_new_def ck_event_logger_constructor_def ck_event_logger_init_def open_log_file_def sample_lenv_def
      create_writer_thread_def ck_event_logger_queue_event_def writer_thread_start_def write_log_check_def write_log_print_def check_file_stream_def print_line_def pending_lines_def Let_def)


end
